(* ===== verification/Prelude.thy ===== *)
theory Prelude
  imports Main
begin

text \<open>
  Shared vocabulary of the development: the lemma collections every component adds to,
  generic facts on lists and options, JavaScript's \<open>String.prototype.trim\<close>, the
  state-and-exception computations the workflow engine is written in, and the contract
  of the transition tables that all the status machines of the program follow.

  Strings of the program are \<open>string\<close>, one \<open>char\<close> per UTF-16 code unit; only code
  units below 256 are representable, so \<open>length\<close> is JavaScript's \<open>length\<close>.
\<close>

named_theorems parse_simps "unfolding rules of the schema parsers"
named_theorems wp_rules "weakest preconditions of the engine's primitive operations"
named_theorems code_sets "the literal lookup tables of the source"

section \<open>Lists and options\<close>

lemma length_filter_split:
  "length (filter P xs) + length (filter (\<lambda>x. \<not> P x) xs) = length xs"
  by (induction xs) auto

lemma list_update_id_conv: "i < length xs \<Longrightarrow> xs[i := x] = xs \<longleftrightarrow> xs ! i = x"
  by (metis list_update_id nth_list_update_eq)

lemma map_update_eq:
  "f x = f (xs ! i) \<Longrightarrow> map f (xs[i := x]) = map f xs"
  by (cases "i < length xs") (auto simp: map_update list_update_beyond intro!: list_update_same_conv [THEN iffD2])

text \<open>\<open>Array.prototype.find\<close>: the first element that satisfies the predicate.\<close>

lemma find_Some_set: "List.find P xs = Some x \<Longrightarrow> x \<in> set xs \<and> P x"
  by (metis find_Some_iff nth_mem)

lemma find_is_Some: "x \<in> set xs \<Longrightarrow> P x \<Longrightarrow> \<exists>y. List.find P xs = Some y"
  by (cases "List.find P xs") (auto simp: find_None_iff)

text \<open>\<open>Array.prototype.findIndex\<close>; the source's \<open>-1\<close> is \<open>None\<close>.\<close>

fun find_index :: "('a \<Rightarrow> bool) \<Rightarrow> 'a list \<Rightarrow> nat option" where
  "find_index P [] = None"
| "find_index P (x # xs) = (if P x then Some 0 else map_option Suc (find_index P xs))"

lemma find_index_Some:
  "find_index P xs = Some i \<Longrightarrow> i < length xs \<and> P (xs ! i) \<and> (\<forall>j < i. \<not> P (xs ! j))"
proof (induction xs arbitrary: i)
  case (Cons x xs)
  show ?case
  proof (cases "P x")
    case False
    with Cons.prems obtain k where k: "find_index P xs = Some k" and i: "i = Suc k"
      by auto
    from Cons.IH [OF k] False i show ?thesis
      by (auto simp: nth_Cons split: nat.splits)
  qed (use Cons.prems in auto)
qed simp

lemma find_index_None: "find_index P xs = None \<longleftrightarrow> (\<forall>x \<in> set xs. \<not> P x)"
  by (induction xs) auto

lemma find_index_distinct:
  assumes "distinct (map f xs)" and "i < length xs"
  shows "find_index (\<lambda>x. f x = f (xs ! i)) xs = Some i"
proof (cases "find_index (\<lambda>x. f x = f (xs ! i)) xs")
  case None
  with assms(2) show ?thesis
    by (metis (mono_tags, lifting) find_index_None nth_mem)
next
  case (Some k)
  from find_index_Some [OF Some] have "k < length xs" and "f (xs ! k) = f (xs ! i)"
    by auto
  with assms have "k = i"
    by (metis length_map nth_eq_iff_index_eq nth_map)
  with Some show ?thesis by simp
qed

lemma mem_enumerate [simp]:
  "(i, x) \<in> set (List.enumerate 0 xs) \<longleftrightarrow> i < length xs \<and> xs ! i = x"
  by (simp add: in_set_enumerate_eq)

lemma ball_enumerate:
  "(\<forall>a \<in> set (List.enumerate 0 xs). P (fst a) (snd a)) \<longleftrightarrow> (\<forall>i < length xs. P i (xs ! i))"
  by (metis fst_conv snd_conv mem_enumerate prod.exhaust_sel)

section \<open>Arrays\<close>

text \<open>
  \<open>Array.prototype.sort\<close> is stable; with a consistent comparison its result is that of
  insertion from the right.
\<close>

fun insert_by :: "('a \<Rightarrow> 'a \<Rightarrow> int) \<Rightarrow> 'a \<Rightarrow> 'a list \<Rightarrow> 'a list" where
  "insert_by c x [] = [x]"
| "insert_by c x (y # ys) = (if c x y \<le> 0 then x # y # ys else y # insert_by c x ys)"

definition sort_by :: "('a \<Rightarrow> 'a \<Rightarrow> int) \<Rightarrow> 'a list \<Rightarrow> 'a list" where
  "sort_by c xs = foldr (insert_by c) xs []"

lemma set_insert_by [simp]: "set (insert_by c x ys) = insert x (set ys)"
  by (induction ys) auto

lemma set_sort_by [simp]: "set (sort_by c xs) = set xs"
  by (induction xs) (auto simp: sort_by_def)

lemma length_insert_by [simp]: "length (insert_by c x ys) = Suc (length ys)"
  by (induction ys) auto

lemma length_sort_by [simp]: "length (sort_by c xs) = length xs"
  by (induction xs) (auto simp: sort_by_def)

text \<open>\<open>[...new Set(xs)]\<close>: the first occurrence of every element, in order.\<close>

fun unique_from :: "'a list \<Rightarrow> 'a list \<Rightarrow> 'a list" where
  "unique_from seen [] = []"
| "unique_from seen (x # xs) =
     (if x \<in> set seen then unique_from seen xs else x # unique_from (x # seen) xs)"

abbreviation js_unique :: "'a list \<Rightarrow> 'a list" where
  "js_unique \<equiv> unique_from []"

lemma set_unique_from: "set (unique_from seen xs) = set xs - set seen"
  by (induction xs arbitrary: seen) auto

lemma set_js_unique [simp]: "set (js_unique xs) = set xs"
  by (simp add: set_unique_from)

lemma distinct_unique_from: "distinct (unique_from seen xs)"
  by (induction xs arbitrary: seen) (auto simp: set_unique_from)

section \<open>Whitespace and trimming\<close>

text \<open>
  The white space and line terminators of ECMAScript among the code units below 256: tab,
  line feed, vertical tab, form feed, carriage return, space and no-break space.
\<close>

definition js_space :: "char \<Rightarrow> bool" where
  "js_space c \<longleftrightarrow> (of_char c :: nat) \<in> {9, 10, 11, 12, 13, 32, 160}"

definition trim :: "string \<Rightarrow> string" where
  "trim s = rev (dropWhile js_space (rev (dropWhile js_space s)))"

lemma dropWhile_ends:
  "dropWhile P xs = [] \<or> \<not> P (hd (dropWhile P xs))"
  using hd_dropWhile [of P xs] by (cases "dropWhile P xs") auto

lemma dropWhile_hd: "xs = [] \<or> \<not> P (hd xs) \<Longrightarrow> dropWhile P xs = xs"
  by (cases xs) auto

lemma hd_rev_dropWhile_rev:
  "ys = rev (dropWhile P (rev xs)) \<Longrightarrow> ys \<noteq> [] \<Longrightarrow> hd ys = hd xs"
proof (induction xs arbitrary: ys)
  case (Cons x xs)
  show ?case
  proof (cases "dropWhile P (rev xs) = []")
    case True
    then have "\<forall>y \<in> set xs. P y" by (simp add: dropWhile_eq_Nil_conv)
    with Cons.prems show ?thesis
      by (auto simp: dropWhile_append split: if_splits)
  next
    case False
    then have "\<not> (\<forall>y \<in> set xs. P y)" by (simp add: dropWhile_eq_Nil_conv)
    then have "dropWhile P (rev (x # xs)) = dropWhile P (rev xs) @ [x]"
      by (auto simp: dropWhile_append)
    with Cons.prems show ?thesis by simp
  qed
qed simp

lemma trim_idem [simp]: "trim (trim s) = trim s"
proof -
  let ?a = "dropWhile js_space s"
  let ?t = "rev (dropWhile js_space (rev ?a))"
  have "?t = [] \<or> \<not> js_space (hd ?t)"
  proof (cases "?t = []")
    case False
    from hd_rev_dropWhile_rev [OF refl this] have "hd ?t = hd ?a" .
    moreover from False have "?a \<noteq> []" by (metis dropWhile.simps(1) rev.simps(1))
    ultimately show ?thesis using dropWhile_ends [of js_space s] by metis
  qed simp
  then have 1: "dropWhile js_space ?t = ?t" by (rule dropWhile_hd)
  have 2: "dropWhile js_space (rev ?t) = rev ?t"
    by (simp add: dropWhile_hd dropWhile_ends)
  show ?thesis by (simp add: trim_def 1 [simplified] 2 [simplified])
qed

lemma length_trim: "length (trim s) \<le> length s"
  unfolding trim_def
  by (metis length_dropWhile_le length_rev order_trans)

section \<open>Loops that look for a repeated key\<close>

text \<open>
  The schema refinements and the policy checks walk a list with a growing \<open>Set\<close> of
  the keys already seen and report the index of every element whose key is in it.
\<close>

fun repeats :: "'k list \<Rightarrow> nat \<Rightarrow> 'k list \<Rightarrow> nat list" where
  "repeats seen i [] = []"
| "repeats seen i (k # ks) =
     (if k \<in> set seen then [i] else []) @ repeats (k # seen) (Suc i) ks"

lemma repeats_Nil:
  "repeats seen i ks = [] \<longleftrightarrow> distinct ks \<and> set ks \<inter> set seen = {}"
  by (induction ks arbitrary: seen i) auto

section \<open>Computations with state and exceptions\<close>

text \<open>
  A computation takes a state and returns a value or a thrown exception, together with
  the state: what was mutated before a \<open>throw\<close> stays mutated.
\<close>

type_synonym ('s, 'x, 'a) comp = "'s \<Rightarrow> ('x + 'a) \<times> 's"

definition ret :: "'a \<Rightarrow> ('s, 'x, 'a) comp" where
  "ret a s = (Inr a, s)"

definition throw :: "'x \<Rightarrow> ('s, 'x, 'a) comp" where
  "throw x s = (Inl x, s)"

definition bnd :: "('s, 'x, 'a) comp \<Rightarrow> ('a \<Rightarrow> ('s, 'x, 'b) comp) \<Rightarrow> ('s, 'x, 'b) comp" where
  "bnd m f s = (case m s of (Inl x, t) \<Rightarrow> (Inl x, t) | (Inr a, t) \<Rightarrow> f a t)"

definition seqc :: "('s, 'x, 'a) comp \<Rightarrow> ('s, 'x, 'b) comp \<Rightarrow> ('s, 'x, 'b) comp" where
  "seqc m k = bnd m (\<lambda>_. k)"

definition catch :: "('s, 'x, 'a) comp \<Rightarrow> ('x \<Rightarrow> ('s, 'x, 'a) comp) \<Rightarrow> ('s, 'x, 'a) comp" where
  "catch m h s = (case m s of (Inl x, t) \<Rightarrow> h x t | (Inr a, t) \<Rightarrow> (Inr a, t))"

definition gets :: "('s \<Rightarrow> 'a) \<Rightarrow> ('s, 'x, 'a) comp" where
  "gets f s = (Inr (f s), s)"

definition modify :: "('s \<Rightarrow> 's) \<Rightarrow> ('s, 'x, unit) comp" where
  "modify f s = (Inr (), f s)"

definition whenc :: "bool \<Rightarrow> ('s, 'x, unit) comp \<Rightarrow> ('s, 'x, unit) comp" where
  "whenc b m = (if b then m else ret ())"

fun for_each :: "'a list \<Rightarrow> ('a \<Rightarrow> ('s, 'x, unit) comp) \<Rightarrow> ('s, 'x, unit) comp" where
  "for_each [] f = ret ()"
| "for_each (x # xs) f = seqc (f x) (for_each xs f)"

fun block :: "('s, 'x, unit) comp list \<Rightarrow> ('s, 'x, unit) comp" where
  "block [] = ret ()"
| "block (m # ms) = seqc m (block ms)"

text \<open>\<open>try ... finally\<close>: the cleanup runs after a return and after a throw.\<close>

definition finally_do :: "('s, 'x, 'a) comp \<Rightarrow> ('s, 'x, unit) comp \<Rightarrow> ('s, 'x, 'a) comp" where
  "finally_do m f s =
     (case m s of
        (Inl x, t) \<Rightarrow> seqc f (throw x) t
      | (Inr a, t) \<Rightarrow> seqc f (ret a) t)"

text \<open>Exceptions without state, and a pure computation inside a stateful one.\<close>

definition ebind :: "'x + 'a \<Rightarrow> ('a \<Rightarrow> 'x + 'b) \<Rightarrow> 'x + 'b" where
  "ebind m f = (case m of Inl x \<Rightarrow> Inl x | Inr a \<Rightarrow> f a)"

definition of_sum :: "'x + 'a \<Rightarrow> ('s, 'x, 'a) comp" where
  "of_sum m s = (m, s)"

lemma ebind_simps [simp]: "ebind (Inl x) f = Inl x" "ebind (Inr a) f = f a"
  by (simp_all add: ebind_def)

lemma ebind_Inr: "ebind m f = Inr b \<longleftrightarrow> (\<exists>a. m = Inr a \<and> f a = Inr b)"
  by (cases m) auto

text \<open>
  The weakest precondition: \<open>Q\<close> holds of the value and state of a normal return,
  \<open>E\<close> of the exception and state of a throw.
\<close>

definition wp :: "('s, 'x, 'a) comp \<Rightarrow> ('a \<Rightarrow> 's \<Rightarrow> bool) \<Rightarrow> ('x \<Rightarrow> 's \<Rightarrow> bool) \<Rightarrow> 's \<Rightarrow> bool" where
  "wp m Q E s = (case m s of (Inl x, t) \<Rightarrow> E x t | (Inr a, t) \<Rightarrow> Q a t)"

lemma wp_ret [wp_rules]: "wp (ret a) Q E = Q a"
  by (simp add: wp_def ret_def fun_eq_iff)

lemma wp_throw [wp_rules]: "wp (throw x) Q E s = E x s"
  by (simp add: wp_def throw_def)

lemma wp_bnd [wp_rules]: "wp (bnd m f) Q E s = wp m (\<lambda>a. wp (f a) Q E) E s"
  by (simp add: wp_def bnd_def split: prod.splits sum.splits)

lemma wp_seqc [wp_rules]: "wp (seqc m k) Q E s = wp m (\<lambda>_. wp k Q E) E s"
  by (simp add: seqc_def wp_bnd)

lemma wp_catch [wp_rules]: "wp (catch m h) Q E s = wp m Q (\<lambda>x. wp (h x) Q E) s"
  by (simp add: wp_def catch_def split: prod.splits sum.splits)

lemma wp_gets [wp_rules]: "wp (gets f) Q E s = Q (f s) s"
  by (simp add: wp_def gets_def)

lemma wp_modify [wp_rules]: "wp (modify f) Q E s = Q () (f s)"
  by (simp add: wp_def modify_def)

lemma wp_of_sum [wp_rules]: "wp (of_sum m) Q E s = (case m of Inl x \<Rightarrow> E x s | Inr a \<Rightarrow> Q a s)"
  by (simp add: wp_def of_sum_def)

lemma wp_whenc [wp_rules]: "wp (whenc b m) Q E s = (if b then wp m Q E s else Q () s)"
  by (simp add: whenc_def wp_ret)

declare block.simps [simp del]

lemma wp_block [wp_rules]:
  "wp (block []) Q E = Q ()"
  "wp (block (m # ms)) Q E s = wp m (\<lambda>_. wp (block ms) Q E) E s"
  by (simp_all add: block.simps wp_ret wp_seqc)

lemma wp_finally [wp_rules]:
  "wp (finally_do m f) Q E s = wp m (\<lambda>a. wp f (\<lambda>_. Q a) E) (\<lambda>x. wp f (\<lambda>_. E x) E) s"
  by (simp add: wp_def finally_do_def seqc_def bnd_def ret_def throw_def
      split: prod.splits sum.splits)

lemma wp_if [wp_rules]:
  "wp (if b then m else k) Q E s = (if b then wp m Q E s else wp k Q E s)"
  by simp

lemma wp_mono:
  assumes "wp m Q E s"
    and "\<And>a t. Q a t \<Longrightarrow> Q' a t" and "\<And>x t. E x t \<Longrightarrow> E' x t"
  shows "wp m Q' E' s"
  using assms by (auto simp: wp_def split: prod.splits sum.splits)

lemma wp_result:
  "wp m Q E s \<Longrightarrow> m s = (Inr a, t) \<Longrightarrow> Q a t"
  by (simp add: wp_def)

lemma wp_error:
  "wp m Q E s \<Longrightarrow> m s = (Inl x, t) \<Longrightarrow> E x t"
  by (simp add: wp_def)

section \<open>Transition tables\<close>

text \<open>
  Every status machine of the program is a constant table from a status to the statuses
  it may change to. A history is a list of statuses in which each one may follow the one
  before it.
\<close>

definition can_move :: "('s \<Rightarrow> 's list) \<Rightarrow> 's \<Rightarrow> 's \<Rightarrow> bool" where
  "can_move table s t \<longleftrightarrow> t \<in> set (table s)"

fun history :: "('s \<Rightarrow> 's list) \<Rightarrow> 's list \<Rightarrow> bool" where
  "history table [] = True"
| "history table [s] = True"
| "history table (s # t # ts) = (can_move table s t \<and> history table (t # ts))"

lemma history_snoc:
  "history table (ts @ [s]) \<Longrightarrow> can_move table s t \<Longrightarrow> history table (ts @ [s, t])"
  by (induction table ts rule: history.induct) auto

lemma history_prefix: "history table (ss @ ts) \<Longrightarrow> history table ss"
proof (induction table ss rule: history.induct)
  case (2 table s)
  then show ?case by simp
qed auto

text \<open>
  The contract of such a table: the statuses that the code calls terminal are exactly those
  without a successor, so that a finished entity never changes again.
\<close>

locale transition_table =
  fixes table :: "'s \<Rightarrow> 's list"
    and terminal :: "'s \<Rightarrow> bool"
  assumes terminal_iff: "terminal s \<longleftrightarrow> table s = []"
begin

lemma terminal_stuck: "terminal s \<Longrightarrow> \<not> can_move table s t"
  by (simp add: can_move_def terminal_iff)

lemma not_terminal_moves: "\<not> terminal s \<Longrightarrow> \<exists>t. can_move table s t"
  using hd_in_set by (fastforce simp: can_move_def terminal_iff)

lemma history_terminal_last:
  "history table (ss @ s # ts) \<Longrightarrow> terminal s \<Longrightarrow> ts = []"
proof (induction ss)
  case Nil
  then show ?case by (cases ts) (auto dest: terminal_stuck)
next
  case (Cons u ss)
  then show ?case by (cases ss) auto
qed

end

end
