(* ===== verification/Regex_Match.thy ===== *)
theory Regex_Match
  imports Prelude "HOL-Library.Char_ord"
begin

text \<open>
  The JavaScript regular expressions of the source as data, a matcher that computes (by
  derivatives) and the language it decides. A pattern written \<open>/^r$/\<close> is
  \<open>rx_matches r\<close>, an unanchored \<open>/r/.test(s)\<close> is \<open>rx_search r\<close>.
\<close>

datatype rx =
    Never
  | Empty
  | Class "char \<Rightarrow> bool"
  | Cat rx rx
  | Either rx rx
  | Many rx

primrec nullable :: "rx \<Rightarrow> bool" where
  "nullable Never = False"
| "nullable Empty = True"
| "nullable (Class p) = False"
| "nullable (Cat r s) = (nullable r \<and> nullable s)"
| "nullable (Either r s) = (nullable r \<or> nullable s)"
| "nullable (Many r) = True"

primrec after :: "char \<Rightarrow> rx \<Rightarrow> rx" where
  "after c Never = Never"
| "after c Empty = Never"
| "after c (Class p) = (if p c then Empty else Never)"
| "after c (Cat r s) =
     (if nullable r then Either (Cat (after c r) s) (after c s) else Cat (after c r) s)"
| "after c (Either r s) = Either (after c r) (after c s)"
| "after c (Many r) = Cat (after c r) (Many r)"

primrec rx_matches :: "rx \<Rightarrow> string \<Rightarrow> bool" where
  "rx_matches r [] = nullable r"
| "rx_matches r (c # cs) = rx_matches (after c r) cs"

text \<open>The counted repetitions \<open>r{n}\<close>, \<open>r{n,}\<close>, \<open>r+\<close> and literals.\<close>

primrec rx_times :: "nat \<Rightarrow> rx \<Rightarrow> rx" where
  "rx_times 0 r = Empty"
| "rx_times (Suc n) r = Cat r (rx_times n r)"

definition rx_at_least :: "nat \<Rightarrow> rx \<Rightarrow> rx" where
  "rx_at_least n r = Cat (rx_times n r) (Many r)"

primrec rx_lit :: "string \<Rightarrow> rx" where
  "rx_lit [] = Empty"
| "rx_lit (c # cs) = Cat (Class (\<lambda>d. d = c)) (rx_lit cs)"

primrec rx_alts :: "rx list \<Rightarrow> rx" where
  "rx_alts [] = Never"
| "rx_alts (r # rs) = Either r (rx_alts rs)"

definition rx_search :: "rx \<Rightarrow> string \<Rightarrow> bool" where
  "rx_search r s = rx_matches (Cat (Many (Class (\<lambda>_. True))) (Cat r (Many (Class (\<lambda>_. True))))) s"

section \<open>The language of an expression\<close>

inductive_set many :: "string set \<Rightarrow> string set" for L where
  many_Nil [intro!, simp]: "[] \<in> many L"
| many_Cons: "u \<in> L \<Longrightarrow> v \<in> many L \<Longrightarrow> u @ v \<in> many L"

primrec lang :: "rx \<Rightarrow> string set" where
  "lang Never = {}"
| "lang Empty = {[]}"
| "lang (Class p) = {[c] | c. p c}"
| "lang (Cat r s) = {u @ v | u v. u \<in> lang r \<and> v \<in> lang s}"
| "lang (Either r s) = lang r \<union> lang s"
| "lang (Many r) = many (lang r)"

lemma nullable_iff: "nullable r \<longleftrightarrow> [] \<in> lang r"
  by (induction r) auto

lemma many_ConsD:
  "w \<in> many L \<Longrightarrow> w = c # cs \<Longrightarrow> \<exists>u v. cs = u @ v \<and> c # u \<in> L \<and> v \<in> many L"
proof (induction arbitrary: c cs rule: many.induct)
  case (many_Cons u v)
  show ?case
  proof (cases u)
    case Nil
    with many_Cons show ?thesis by simp
  next
    case (Cons a as)
    with many_Cons show ?thesis by auto
  qed
qed simp

lemma after_iff: "cs \<in> lang (after c r) \<longleftrightarrow> c # cs \<in> lang r"
proof (induction r arbitrary: cs)
  case (Cat r s)
  have "c # cs \<in> lang (Cat r s) \<longleftrightarrow>
      ([] \<in> lang r \<and> c # cs \<in> lang s) \<or> (\<exists>u v. cs = u @ v \<and> c # u \<in> lang r \<and> v \<in> lang s)"
    unfolding lang.simps mem_Collect_eq Cons_eq_append_conv by blast
  moreover have "cs \<in> lang (after c (Cat r s)) \<longleftrightarrow>
      ([] \<in> lang r \<and> cs \<in> lang (after c s)) \<or>
      (\<exists>u v. cs = u @ v \<and> u \<in> lang (after c r) \<and> v \<in> lang s)"
    by (auto simp: nullable_iff)
  ultimately show ?case using Cat.IH by metis
next
  case (Many r)
  have "c # cs \<in> many (lang r) \<longleftrightarrow> (\<exists>u v. cs = u @ v \<and> c # u \<in> lang r \<and> v \<in> many (lang r))"
    using many_ConsD [OF _ refl, of c cs] by (auto intro: many_Cons [of "c # _", simplified])
  with Many.IH show ?case by auto
qed auto

theorem rx_matches_iff: "rx_matches r s \<longleftrightarrow> s \<in> lang r"
  by (induction s arbitrary: r) (simp_all add: nullable_iff after_iff)

section \<open>Languages of the building blocks\<close>

lemma lang_Many_Class: "lang (Many (Class p)) = {s. list_all p s}"
proof
  show "lang (Many (Class p)) \<subseteq> {s. list_all p s}"
  proof
    fix s assume "s \<in> lang (Many (Class p))"
    then have "s \<in> many {[c] | c. p c}" by simp
    then show "s \<in> {s. list_all p s}"
      by (induction rule: many.induct) auto
  qed
  show "{s. list_all p s} \<subseteq> lang (Many (Class p))"
  proof
    fix s assume "s \<in> {s. list_all p s}"
    then show "s \<in> lang (Many (Class p))"
      by (induction s) (auto intro: many_Cons [of "[_]", simplified])
  qed
qed

lemma lang_times_Class: "lang (rx_times n (Class p)) = {s. length s = n \<and> list_all p s}"
proof (induction n)
  case (Suc n)
  have "s \<in> lang (rx_times (Suc n) (Class p)) \<longleftrightarrow> length s = Suc n \<and> list_all p s" for s
  proof -
    have "s \<in> lang (rx_times (Suc n) (Class p)) \<longleftrightarrow>
        (\<exists>u v. s = u @ v \<and> (\<exists>c. u = [c] \<and> p c) \<and> v \<in> lang (rx_times n (Class p)))"
      by simp
    also have "\<dots> \<longleftrightarrow> (\<exists>c v. s = c # v \<and> p c \<and> v \<in> lang (rx_times n (Class p)))"
      by (metis append_Cons append_Nil)
    also have "\<dots> \<longleftrightarrow> length s = Suc n \<and> list_all p s"
      unfolding Suc.IH by (cases s) auto
    finally show ?thesis .
  qed
  then show ?case by blast
qed auto

lemma lang_at_least_Class:
  "lang (rx_at_least n (Class p)) = {s. n \<le> length s \<and> list_all p s}" (is "_ = ?R")
proof -
  have "s \<in> lang (rx_at_least n (Class p)) \<longleftrightarrow> s \<in> ?R" for s
  proof
    assume "s \<in> lang (rx_at_least n (Class p))"
    then show "s \<in> ?R"
      by (auto simp: rx_at_least_def lang_times_Class lang_Many_Class [simplified])
  next
    assume s: "s \<in> ?R"
    let ?u = "take n s" and ?v = "drop n s"
    from s have "?u \<in> lang (rx_times n (Class p))" and "?v \<in> lang (Many (Class p))"
      unfolding lang_times_Class lang_Many_Class
      by (auto simp: list_all_iff dest: in_set_takeD in_set_dropD)
    moreover have "s = ?u @ ?v" by simp
    ultimately show "s \<in> lang (rx_at_least n (Class p))"
      unfolding rx_at_least_def lang.simps by blast
  qed
  then show ?thesis by blast
qed

lemma lang_lit [simp]: "lang (rx_lit s) = {s}"
  by (induction s) auto

lemma lang_alts [simp]: "lang (rx_alts rs) = (\<Union>r \<in> set rs. lang r)"
  by (induction rs) auto

lemma rx_search_iff: "rx_search r s \<longleftrightarrow> (\<exists>u v w. s = u @ v @ w \<and> v \<in> lang r)"
proof -
  have "lang (Many (Class (\<lambda>_. True))) = UNIV"
    unfolding lang_Many_Class by (auto simp: list_all_iff)
  then show ?thesis
    unfolding rx_search_def rx_matches_iff lang.simps(4) by auto
qed

text \<open>Character classes of the source's patterns.\<close>

definition in_range :: "char \<Rightarrow> char \<Rightarrow> char \<Rightarrow> bool" where
  "in_range lo hi c \<longleftrightarrow> (of_char lo :: nat) \<le> of_char c \<and> (of_char c :: nat) \<le> of_char hi"

lemma in_range_code [code]: "in_range lo hi c \<longleftrightarrow> lo \<le> c \<and> c \<le> hi"
  by (simp add: in_range_def less_eq_char_def)

definition is_upper :: "char \<Rightarrow> bool" where "is_upper = in_range CHR ''A'' CHR ''Z''"
definition is_lower :: "char \<Rightarrow> bool" where "is_lower = in_range CHR ''a'' CHR ''z''"
definition is_digit :: "char \<Rightarrow> bool" where "is_digit = in_range CHR ''0'' CHR ''9''"

definition is_alnum :: "char \<Rightarrow> bool" where
  "is_alnum c \<longleftrightarrow> is_upper c \<or> is_lower c \<or> is_digit c"

text \<open>The \<open>i\<close> flag: a literal in which letters match in either case.\<close>

definition to_lower :: "char \<Rightarrow> char" where
  "to_lower c = (if is_upper c then char_of ((of_char c :: nat) + 32) else c)"

primrec rx_lit_i :: "string \<Rightarrow> rx" where
  "rx_lit_i [] = Empty"
| "rx_lit_i (c # cs) = Cat (Class (\<lambda>d. to_lower d = to_lower c)) (rx_lit_i cs)"

end
