(* ===== verification/Workflow_Schema.thy ===== *)
theory Workflow_Schema
  imports Regex_Match Complex_Main "HOL-Library.Monad_Syntax"
begin

text \<open>
  The workflow data model of \<open>packages/workflow-schema/src\<close>: steps, locators, value
  sources, assertions and variables, and the schema parsers that trim and check them. A
  parser takes a value of the right shape and returns the parsed value, or \<open>None\<close> where
  the schema reports an issue. Fields with a schema default are present (the default filled
  in). JavaScript's finite numbers are rationals, its integer-valued fields are \<open>int\<close>.
\<close>

section \<open>Constants and primitives (primitives.ts)\<close>

definition MAX_WAIT_DURATION_MS :: int where "MAX_WAIT_DURATION_MS = 300000"
definition MIN_APPROVAL_TIMEOUT_MS :: int where "MIN_APPROVAL_TIMEOUT_MS = 5000"
definition MAX_APPROVAL_TIMEOUT_MS :: int where "MAX_APPROVAL_TIMEOUT_MS = 300000"
definition MAX_APPROVAL_MESSAGE_LENGTH :: nat where "MAX_APPROVAL_MESSAGE_LENGTH = 1000"
definition MIN_VERIFICATION_TIMEOUT_MS :: int where "MIN_VERIFICATION_TIMEOUT_MS = 100"
definition MAX_VERIFICATION_TIMEOUT_MS :: int where "MAX_VERIFICATION_TIMEOUT_MS = 60000"

definition parse_non_empty :: "string \<Rightarrow> string option" where
  "parse_non_empty s = (let t = trim s in if 1 \<le> length t then Some t else None)"

definition identifier_rx :: rx where
  "identifier_rx =
     Cat (Class (\<lambda>c. is_upper c \<or> is_lower c \<or> c = CHR ''_''))
         (Many (Class (\<lambda>c. is_alnum c \<or> c = CHR ''_'')))"

definition parse_identifier :: "string \<Rightarrow> string option" where
  "parse_identifier s =
     (let t = trim s in if length t \<le> 128 \<and> rx_matches identifier_rx t then Some t else None)"

text \<open>\<open>z.string().trim().min(1).max(n)\<close>\<close>

definition parse_bounded :: "nat \<Rightarrow> string \<Rightarrow> string option" where
  "parse_bounded n s = (let t = trim s in if 1 \<le> length t \<and> length t \<le> n then Some t else None)"

definition parse_opt :: "('a \<Rightarrow> 'b option) \<Rightarrow> 'a option \<Rightarrow> 'b option option" where
  "parse_opt p x = (case x of None \<Rightarrow> Some None | Some a \<Rightarrow> map_option Some (p a))"

definition parse_range :: "int \<Rightarrow> int \<Rightarrow> int \<Rightarrow> int option" where
  "parse_range lo hi n = (if lo \<le> n \<and> n \<le> hi then Some n else None)"

definition guard_ok :: "bool \<Rightarrow> unit option" where
  "guard_ok b = (if b then Some () else None)"

primrec parse_list :: "('a \<Rightarrow> 'b option) \<Rightarrow> 'a list \<Rightarrow> 'b list option" where
  "parse_list p [] = Some []"
| "parse_list p (x # xs) = do { y \<leftarrow> p x; ys \<leftarrow> parse_list p xs; Some (y # ys) }"

section \<open>Action intents and variables (action-intent.ts, workflow-variable.ts)\<close>

datatype click_intent =
  ChangeState | Submit | Send | Delete | Purchase | PermissionChange | UnknownIntent

datatype variable_type = VString | VNumber | VBoolean | VDate | VFile

record workflow_variable =
  var_name :: string
  var_label :: "string option"
  var_type :: variable_type
  var_required :: bool
  var_description :: "string option"

definition parse_variable :: "workflow_variable \<Rightarrow> workflow_variable option" where
  "parse_variable v = do {
     n \<leftarrow> parse_identifier (var_name v);
     l \<leftarrow> parse_opt (parse_bounded 120) (var_label v);
     d \<leftarrow> parse_opt (parse_bounded 500) (var_description v);
     Some (v\<lparr>var_name := n, var_label := l, var_description := d\<rparr>)
   }"

section \<open>Value sources (value-source.ts)\<close>

datatype literal = LitString string | LitNumber rat | LitBool bool

datatype value_source =
    Literal literal
  | Variable string
  | Secret string
  | Output string

fun parse_source :: "value_source \<Rightarrow> value_source option" where
  "parse_source (Literal l) = Some (Literal l)"
| "parse_source (Variable n) = map_option Variable (parse_identifier n)"
| "parse_source (Secret n) = map_option Secret (parse_identifier n)"
| "parse_source (Output n) = map_option Output (parse_identifier n)"

section \<open>Locators (element-locator.ts)\<close>

datatype test_id_attribute = DataTestid | DataTest | DataCy | DataQa

datatype element_locator =
    TestId string "test_id_attribute option"
  | Role string "string option" "bool option"
  | Label string "bool option"
  | TextLoc string "bool option"
  | Placeholder string "bool option"
  | Css string

fun parse_locator :: "element_locator \<Rightarrow> element_locator option" where
  "parse_locator (TestId v a) = map_option (\<lambda>v. TestId v a) (parse_non_empty v)"
| "parse_locator (Role r n e) =
     do { r \<leftarrow> parse_non_empty r; n \<leftarrow> parse_opt parse_non_empty n; Some (Role r n e) }"
| "parse_locator (Label v e) = map_option (\<lambda>v. Label v e) (parse_non_empty v)"
| "parse_locator (TextLoc v e) = map_option (\<lambda>v. TextLoc v e) (parse_non_empty v)"
| "parse_locator (Placeholder v e) = map_option (\<lambda>v. Placeholder v e) (parse_non_empty v)"
| "parse_locator (Css s) = map_option Css (parse_non_empty s)"

section \<open>Assertions (workflow-assertion.ts)\<close>

datatype assertion_operator = OpEquals | OpContains
datatype text_match_mode = MatchExact | MatchContains
datatype url_match_mode = MatchOrigin | MatchOriginAndPath

datatype workflow_assertion =
    Visible element_locator
  | Hidden element_locator
  | TextIs element_locator "text_match_mode option" "assertion_operator option" value_source
  | ValueIs element_locator "assertion_operator option" value_source
  | UrlIs "url_match_mode option" "assertion_operator option" value_source
  | CheckedIs element_locator bool

text \<open>\<open>requireOneMatchMode\<close>: exactly one of \<open>operator\<close> and \<open>matchMode\<close>.\<close>

definition one_match_mode :: "'a option \<Rightarrow> 'b option \<Rightarrow> bool" where
  "one_match_mode operator mode \<longleftrightarrow> \<not> ((operator = None) = (mode = None))"

fun parse_assertion :: "workflow_assertion \<Rightarrow> workflow_assertion option" where
  "parse_assertion (Visible l) = map_option Visible (parse_locator l)"
| "parse_assertion (Hidden l) = map_option Hidden (parse_locator l)"
| "parse_assertion (TextIs l m oper e) = do {
     l \<leftarrow> parse_locator l; e \<leftarrow> parse_source e;
     guard_ok (one_match_mode oper m); Some (TextIs l m oper e) }"
| "parse_assertion (ValueIs l oper e) = do {
     l \<leftarrow> parse_locator l; e \<leftarrow> parse_source e; Some (ValueIs l oper e) }"
| "parse_assertion (UrlIs m oper e) = do {
     e \<leftarrow> parse_source e; guard_ok (one_match_mode oper m); Some (UrlIs m oper e) }"
| "parse_assertion (CheckedIs l b) = map_option (\<lambda>l. CheckedIs l b) (parse_locator l)"

section \<open>Steps (workflow-step.ts)\<close>

datatype extract_source =
    FromText
  | FromValue
  | FromAttribute string
  | FromChecked
  | FromUrl url_match_mode

datatype risk_level = RiskLow | RiskMedium | RiskHigh | RiskCritical

datatype step_body =
    Navigate value_source
  | Click element_locator "click_intent option"
  | Fill element_locator value_source
  | Select element_locator value_source
  | SetChecked element_locator bool
  | Wait int
  | Extract "element_locator option" extract_source string "string option" "int option"
  | Verify workflow_assertion "int option"
  | Approval string risk_level int

record workflow_step =
  step_id :: string
  step_name :: string
  body :: step_body

datatype step_type =
    TNavigate | TClick | TFill | TSelect | TSetChecked | TWait | TExtract | TVerify | TApproval

primrec body_type :: "step_body \<Rightarrow> step_type" where
  "body_type (Navigate u) = TNavigate"
| "body_type (Click l i) = TClick"
| "body_type (Fill l v) = TFill"
| "body_type (Select l v) = TSelect"
| "body_type (SetChecked l b) = TSetChecked"
| "body_type (Wait d) = TWait"
| "body_type (Extract l s n lb t) = TExtract"
| "body_type (Verify a t) = TVerify"
| "body_type (Approval m r t) = TApproval"

abbreviation step_type_of :: "workflow_step \<Rightarrow> step_type" where
  "step_type_of s \<equiv> body_type (body s)"

fun parse_extract_source :: "extract_source \<Rightarrow> extract_source option" where
  "parse_extract_source (FromAttribute n) = map_option FromAttribute (parse_non_empty n)"
| "parse_extract_source s = Some s"

definition is_url_source :: "extract_source \<Rightarrow> bool" where
  "is_url_source s = (case s of FromUrl _ \<Rightarrow> True | _ \<Rightarrow> False)"

text \<open>\<open>/\$\{|\{\{|<%/\<close>: what an approval message must not contain.\<close>

definition interpolation_rx :: rx where
  "interpolation_rx = rx_alts [rx_lit ''${'', rx_lit ''{{'', rx_lit ''<%'']"

definition timeout_ok :: "int \<Rightarrow> int option" where
  "timeout_ok = parse_range MIN_VERIFICATION_TIMEOUT_MS MAX_VERIFICATION_TIMEOUT_MS"

definition parse_message :: "string \<Rightarrow> string option" where
  "parse_message s = do {
     m \<leftarrow> parse_bounded MAX_APPROVAL_MESSAGE_LENGTH s;
     guard_ok (\<not> rx_search interpolation_rx m); Some m }"

fun parse_body :: "step_body \<Rightarrow> step_body option" where
  "parse_body (Navigate u) = map_option Navigate (parse_source u)"
| "parse_body (Click l i) = map_option (\<lambda>l. Click l i) (parse_locator l)"
| "parse_body (Fill l v) = do { l \<leftarrow> parse_locator l; v \<leftarrow> parse_source v; Some (Fill l v) }"
| "parse_body (Select l v) = do { l \<leftarrow> parse_locator l; v \<leftarrow> parse_source v; Some (Select l v) }"
| "parse_body (SetChecked l b) = map_option (\<lambda>l. SetChecked l b) (parse_locator l)"
| "parse_body (Wait d) = map_option Wait (parse_range 1 MAX_WAIT_DURATION_MS d)"
| "parse_body (Extract l s n lb t) = do {
     l \<leftarrow> parse_opt parse_locator l;
     s \<leftarrow> parse_extract_source s;
     n \<leftarrow> parse_identifier n;
     lb \<leftarrow> parse_opt (parse_bounded 120) lb;
     t \<leftarrow> parse_opt timeout_ok t;
     guard_ok (is_url_source s \<longleftrightarrow> l = None);
     Some (Extract l s n lb t) }"
| "parse_body (Verify a t) = do {
     a \<leftarrow> parse_assertion a; t \<leftarrow> parse_opt timeout_ok t; Some (Verify a t) }"
| "parse_body (Approval m r t) = do {
     m \<leftarrow> parse_message m;
     t \<leftarrow> parse_range MIN_APPROVAL_TIMEOUT_MS MAX_APPROVAL_TIMEOUT_MS t;
     Some (Approval m r t) }"

definition parse_step :: "workflow_step \<Rightarrow> workflow_step option" where
  "parse_step s = do {
     i \<leftarrow> parse_non_empty (step_id s);
     n \<leftarrow> parse_non_empty (step_name s);
     b \<leftarrow> parse_body (body s);
     Some (s\<lparr>step_id := i, step_name := n, body := b\<rparr>) }"

section \<open>Definitions (workflow-definition.ts)\<close>

datatype lifecycle_status = Draft | Testing | Published | Archived

record workflow =
  workflow_id :: string
  wf_version :: int
  wf_name :: string
  wf_description :: "string option"
  wf_status :: lifecycle_status
  variables :: "workflow_variable list"
  steps :: "workflow_step list"

text \<open>The positions that the refinement of the definition reports as duplicates.\<close>

definition duplicate_step_ids :: "workflow \<Rightarrow> nat list" where
  "duplicate_step_ids w = repeats [] 0 (map step_id (steps w))"

definition duplicate_variable_names :: "workflow \<Rightarrow> nat list" where
  "duplicate_variable_names w = repeats [] 0 (map var_name (variables w))"

definition parse_workflow :: "workflow \<Rightarrow> workflow option" where
  "parse_workflow w = do {
     i \<leftarrow> parse_non_empty (workflow_id w);
     guard_ok (0 < wf_version w);
     n \<leftarrow> parse_non_empty (wf_name w);
     d \<leftarrow> parse_opt parse_non_empty (wf_description w);
     vs \<leftarrow> parse_list parse_variable (variables w);
     ss \<leftarrow> parse_list parse_step (steps w);
     guard_ok (1 \<le> length ss);
     let w' = w\<lparr>workflow_id := i, wf_name := n, wf_description := d, variables := vs, steps := ss\<rparr>;
     guard_ok (duplicate_step_ids w' = [] \<and> duplicate_variable_names w' = []);
     Some w' }"

section \<open>Parsing is a normalisation\<close>

text \<open>
  Every analysis of the program parses its argument again although it was parsed before.
  The contract that makes this harmless: a parsed value parses to itself.
\<close>

definition normal :: "('a \<Rightarrow> 'a option) \<Rightarrow> 'a \<Rightarrow> bool" where
  "normal p y \<longleftrightarrow> p y = Some y"

locale schema_parser =
  fixes parse :: "'a \<Rightarrow> 'a option"
  assumes reparse: "parse x = Some y \<Longrightarrow> parse y = Some y"
begin

lemma normal: "parse x = Some y \<Longrightarrow> normal parse y"
  by (simp add: normal_def reparse)

lemma again: "normal parse y \<Longrightarrow> parse y = Some y"
  by (simp add: normal_def)

lemma normal_list: "parse_list parse xs = Some ys \<Longrightarrow> normal (parse_list parse) ys"
  by (induction xs arbitrary: ys)
    (auto split: bind_splits simp: normal_def dest: reparse)

lemma again_list: "normal (parse_list parse) ys \<Longrightarrow> parse_list parse ys = Some ys"
  by (simp add: normal_def)

lemma normal_opt: "parse_opt parse x = Some y \<Longrightarrow> normal (parse_opt parse) y"
  by (auto simp: normal_def parse_opt_def dest: reparse split: option.splits)

lemma again_opt: "normal (parse_opt parse) y \<Longrightarrow> parse_opt parse y = Some y"
  by (simp add: normal_def)

lemmas parsed = normal normal_list normal_opt
lemmas parses_again = again again_list again_opt

end

lemma parse_list_length: "parse_list p xs = Some ys \<Longrightarrow> length ys = length xs"
  by (induction xs arbitrary: ys) (auto split: bind_splits)

lemma guard_ok_Some [simp]: "guard_ok b = Some u \<longleftrightarrow> b"
  by (simp add: guard_ok_def)

lemma guard_ok_bind [simp]: "(guard_ok b \<bind> f) = (if b then f () else None)"
  by (simp add: guard_ok_def)

lemma parse_opt_None [simp]: "parse_opt p None = Some None"
  by (simp add: parse_opt_def)

lemma parse_opt_None_iff: "parse_opt p x = Some y \<Longrightarrow> y = None \<longleftrightarrow> x = None"
  by (auto simp: parse_opt_def split: option.splits)

lemma parse_range_iff [simp]: "parse_range lo hi n = Some m \<longleftrightarrow> m = n \<and> lo \<le> n \<and> n \<le> hi"
  by (auto simp: parse_range_def)

lemma parse_range_bind [simp]:
  "(parse_range lo hi n \<bind> f) = (if lo \<le> n \<and> n \<le> hi then f n else None)"
  by (simp add: parse_range_def)

interpretation non_empty: schema_parser parse_non_empty
  by unfold_locales (auto simp: parse_non_empty_def Let_def split: if_split_asm)

interpretation bounded: schema_parser "parse_bounded n" for n
  by unfold_locales (auto simp: parse_bounded_def Let_def split: if_split_asm)

interpretation ident: schema_parser parse_identifier
  by unfold_locales (auto simp: parse_identifier_def Let_def split: if_split_asm)

interpretation timeout: schema_parser timeout_ok
  by unfold_locales (auto simp: timeout_ok_def)

interpretation var: schema_parser parse_variable
proof unfold_locales
  fix x y assume "parse_variable x = Some y"
  then show "parse_variable y = Some y"
    by (auto simp: parse_variable_def split: bind_split_asm
        dest!: ident.parsed bounded.parsed
        simp: ident.parses_again bounded.parses_again)
qed

interpretation source: schema_parser parse_source
proof unfold_locales
  fix x y assume "parse_source x = Some y"
  then show "parse_source y = Some y"
    by (cases x) (auto dest!: ident.parsed
        simp: ident.parses_again)
qed

interpretation locator: schema_parser parse_locator
proof unfold_locales
  fix x y assume "parse_locator x = Some y"
  then show "parse_locator y = Some y"
    by (cases x) (auto split: bind_split_asm dest!: non_empty.parsed
        simp: non_empty.parses_again)
qed

interpretation assertion: schema_parser parse_assertion
proof unfold_locales
  fix x y assume "parse_assertion x = Some y"
  then show "parse_assertion y = Some y"
    by (cases x) (auto split: bind_split_asm if_split_asm dest!: locator.parsed source.parsed
        simp: locator.parses_again source.parses_again)
qed

interpretation extract_source: schema_parser parse_extract_source
proof unfold_locales
  fix x y assume "parse_extract_source x = Some y"
  then show "parse_extract_source y = Some y"
    by (cases x) (auto dest!: non_empty.parsed
        simp: non_empty.parses_again)
qed

interpretation message: schema_parser parse_message
proof unfold_locales
  fix x y assume "parse_message x = Some y"
  then show "parse_message y = Some y"
    by (auto simp: parse_message_def split: bind_split_asm if_split_asm dest!: bounded.parsed
        simp: bounded.parses_again)
qed

interpretation body: schema_parser parse_body
proof unfold_locales
  fix x y assume "parse_body x = Some y"
  then show "parse_body y = Some y"
    by (cases x)
      (auto split: bind_split_asm if_split_asm dest!: locator.parsed source.parsed extract_source.parsed ident.parsed bounded.parsed timeout.parsed assertion.parsed message.parsed
        simp: locator.parses_again source.parses_again extract_source.parses_again ident.parses_again bounded.parses_again timeout.parses_again assertion.parses_again message.parses_again)
qed

interpretation step: schema_parser parse_step
proof unfold_locales
  fix x y assume "parse_step x = Some y"
  then show "parse_step y = Some y"
    by (auto simp: parse_step_def split: bind_split_asm dest!: non_empty.parsed body.parsed
        simp: non_empty.parses_again body.parses_again)
qed

lemma duplicate_step_ids_Nil: "duplicate_step_ids w = [] \<longleftrightarrow> distinct (map step_id (steps w))"
  by (simp add: duplicate_step_ids_def repeats_Nil)

lemma duplicate_variable_names_Nil:
  "duplicate_variable_names w = [] \<longleftrightarrow> distinct (map var_name (variables w))"
  by (simp add: duplicate_variable_names_def repeats_Nil)

interpretation definition_schema: schema_parser parse_workflow
proof unfold_locales
  fix x y assume "parse_workflow x = Some y"
  then show "parse_workflow y = Some y"
    by (auto simp: parse_workflow_def Let_def duplicate_step_ids_def duplicate_variable_names_def
        split: bind_split_asm if_split_asm
        dest!: non_empty.parsed var.parsed step.parsed
        simp: non_empty.parses_again var.parses_again step.parses_again)
qed

text \<open>What a parsed definition guarantees to the code that receives it.\<close>

definition wf_workflow :: "workflow \<Rightarrow> bool" where
  "wf_workflow w \<longleftrightarrow>
     0 < wf_version w \<and> steps w \<noteq> [] \<and>
     distinct (map step_id (steps w)) \<and> distinct (map var_name (variables w))"

lemma parse_workflow_wf: "parse_workflow w = Some w' \<Longrightarrow> wf_workflow w'"
  by (auto simp: parse_workflow_def Let_def wf_workflow_def repeats_Nil
      duplicate_step_ids_def duplicate_variable_names_def split: bind_splits if_splits)

section \<open>Properties\<close>

text \<open>A small workflow: it reads a page's heading and verifies it against a variable.\<close>

definition sample_workflow :: workflow where
  "sample_workflow =
     \<lparr>workflow_id = ''w'', wf_version = 1, wf_name = ''Sample'', wf_description = None,
      wf_status = Draft,
      variables = [\<lparr>var_name = ''title'', var_label = None, var_type = VString, var_required = True,
                    var_description = None\<rparr>],
      steps = [\<lparr>step_id = ''read'', step_name = ''Read'',
                body = Extract (Some (Css '' h1 '')) FromText ''heading'' None None\<rparr>,
               \<lparr>step_id = ''fill'', step_name = ''Fill'', body = Fill (Css ''input'') (Output ''heading'')\<rparr>,
               \<lparr>step_id = ''check'', step_name = ''Check'',
                body = Verify (TextIs (Css ''h1'') (Some MatchExact) None (Variable ''title'')) None\<rparr>]\<rparr>"

text \<open>
  C37: a parsed workflow parses to itself, so the repeated parses of the analyses change
  nothing; it has at least one step, a positive version, distinct step ids and distinct
  variable names.
\<close>

theorem parsed_workflow_is_normal:
  "parse_workflow w = Some w' \<Longrightarrow> parse_workflow w' = Some w' \<and> wf_workflow w'"
  using definition_schema.reparse parse_workflow_wf by blast

theorem parsed_workflow_is_normal_witness:
  "\<exists>w'. parse_workflow sample_workflow = Some w' \<and> parse_workflow w' = Some w' \<and> wf_workflow w'"
proof -
  have "parse_workflow sample_workflow \<noteq> None" by code_simp
  then obtain w' where "parse_workflow sample_workflow = Some w'" by blast
  with parsed_workflow_is_normal [OF this] show ?thesis by blast
qed

end
