(* ===== verification/Calendar.thy ===== *)
theory Calendar
  imports Regex_Match
begin

text \<open>
  The UTC calendar of ECMAScript's \<open>Date\<close>: days since 1970-01-01, the proleptic Gregorian
  year, month (0 to 11) and day of the month of a day number, and \<open>Date.UTC\<close>. On it, the
  validation of a YYYY-MM-DD string (\<open>DateOnlySchema\<close> of
  packages/workflow-inputs/src/contracts.ts).
\<close>

section \<open>Days, years and months\<close>

definition leap :: "int \<Rightarrow> bool" where
  "leap y \<longleftrightarrow> 4 dvd y \<and> (\<not> 100 dvd y \<or> 400 dvd y)"

definition day_from_year :: "int \<Rightarrow> int" where
  "day_from_year y =
     365 * (y - 1970) + (y - 1969) div 4 - (y - 1901) div 100 + (y - 1601) div 400"

definition year_length :: "int \<Rightarrow> int" where
  "year_length y = (if leap y then 366 else 365)"

definition month_lengths :: "int \<Rightarrow> int list" where
  "month_lengths y = [31, if leap y then 29 else 28, 31, 30, 31, 30, 31, 31, 30, 31, 30, 31]"

fun month_start :: "int list \<Rightarrow> nat \<Rightarrow> int" where
  "month_start (l # ls) (Suc m) = l + month_start ls m"
| "month_start _ _ = 0"

text \<open>\<open>MakeDay\<close>: the month may lie outside 0 to 11 and the day outside the month.\<close>

definition make_day :: "int \<Rightarrow> int \<Rightarrow> int \<Rightarrow> int" where
  "make_day y m d =
     (let ym = y + m div 12
      in day_from_year ym + month_start (month_lengths ym) (nat (m mod 12)) + d - 1)"

text \<open>\<open>Date.UTC\<close> reads the years 0 to 99 as 1900 to 1999.\<close>

definition utc_day :: "int \<Rightarrow> int \<Rightarrow> int \<Rightarrow> int" where
  "utc_day y m d = make_day (if 0 \<le> y \<and> y \<le> 99 then 1900 + y else y) m d"

lemma div_succ: "0 < k \<Longrightarrow> (x + 1) div k = x div k + (if k dvd x + 1 then 1 else 0)" for x k :: int
proof -
  assume k: "0 < k"
  let ?r = "x mod k"
  have x: "x = k * (x div k) + ?r" by simp
  show ?thesis
  proof (cases "?r = k - 1")
    case True
    with x have "x + 1 = k * (x div k) + k" by linarith
    then have "x + 1 = k * (x div k + 1)" by (simp add: distrib_left)
    with k show ?thesis by simp
  next
    case False
    with k have "?r + 1 < k" using pos_mod_bound [OF k, of x] by linarith
    have e: "x + 1 = k * (x div k) + (?r + 1)" using x by linarith
    have r: "0 \<le> ?r + 1" using pos_mod_sign [OF k, of x] by linarith
    from int_div_pos_eq [OF e r] int_mod_pos_eq [OF e r] \<open>?r + 1 < k\<close>
    have "(x + 1) div k = x div k \<and> (x + 1) mod k = ?r + 1" by blast
    moreover from k have "?r + 1 \<noteq> 0" using pos_mod_sign [OF k, of x] by linarith
    ultimately show ?thesis by (simp add: dvd_eq_mod_eq_0)
  qed
qed

lemma floor_le: "0 < k \<Longrightarrow> x div k * k \<le> x" for x k :: int
  using div_mult_mod_eq [of x k] pos_mod_sign [of k x] by linarith

lemma day_from_year_Suc: "day_from_year (y + 1) = day_from_year y + year_length y"
proof -
  define a where "a \<longleftrightarrow> 4 dvd y"
  define b where "b \<longleftrightarrow> 100 dvd y"
  define c where "c \<longleftrightarrow> 400 dvd y"
  have "4 dvd y - 1968 \<longleftrightarrow> a" unfolding a_def
    using dvd_add_times_triv_right_iff [of 4 "y - 1968" 492] by simp
  with div_succ [of 4 "y - 1969"]
  have 4: "(y - 1968) div 4 = (y - 1969) div 4 + (if a then 1 else 0)" by simp
  have "100 dvd y - 1900 \<longleftrightarrow> b" unfolding b_def
    using dvd_add_times_triv_right_iff [of 100 "y - 1900" 19] by simp
  with div_succ [of 100 "y - 1901"]
  have 100: "(y - 1900) div 100 = (y - 1901) div 100 + (if b then 1 else 0)" by simp
  have "400 dvd y - 1600 \<longleftrightarrow> c" unfolding c_def
    using dvd_add_times_triv_right_iff [of 400 "y - 1600" 4] by simp
  with div_succ [of 400 "y - 1601"]
  have 400: "(y - 1600) div 400 = (y - 1601) div 400 + (if c then 1 else 0)" by simp
  have cb: "c \<longrightarrow> b" unfolding b_def c_def by (intro impI, erule dvd_trans [rotated], simp)
  have ba: "b \<longrightarrow> a" unfolding a_def b_def by (intro impI, erule dvd_trans [rotated], simp)
  have l: "year_length y = (if a then if b then if c then 366 else 365 else 366 else 365)"
    unfolding year_length_def leap_def a_def [symmetric] b_def [symmetric] c_def [symmetric]
    using cb ba by (cases a; cases b; cases c) simp_all
  have "day_from_year (y + 1) =
      365 * (y - 1970) + 365 + (y - 1968) div 4 - (y - 1900) div 100 + (y - 1600) div 400"
    by (simp add: day_from_year_def)
  also have "\<dots> = day_from_year y + 365 + (if a then 1 else 0) - (if b then 1 else 0) + (if c then 1 else 0)"
    unfolding 4 100 400 day_from_year_def by linarith
  also have "\<dots> = day_from_year y + year_length y"
    unfolding l using cb ba by (cases a; cases b; cases c) simp_all
  finally show ?thesis .
qed

lemma year_length_pos: "365 \<le> year_length y"
  by (simp add: year_length_def)

function year_from :: "int \<Rightarrow> int \<Rightarrow> int" where
  "year_from y d = (if day_from_year (y + 1) \<le> d then year_from (y + 1) d else y)"
  by pat_completeness auto
termination
proof (relation "measure (\<lambda>(y, d). nat (d - day_from_year y + 1))")
  fix y d :: int
  assume "day_from_year (y + 1) \<le> d"
  with day_from_year_Suc [of y] year_length_pos [of y]
  show "((y + 1, d), y, d) \<in> measure (\<lambda>(y, d). nat (d - day_from_year y + 1))" by simp
qed simp

declare year_from.simps [simp del]

definition year_of_day :: "int \<Rightarrow> int" where
  "year_of_day d = year_from (d * 400 div 146097 + 1968) d"

fun month_of :: "int list \<Rightarrow> int \<Rightarrow> int \<times> int" where
  "month_of [] d = (0, d)"
| "month_of (l # ls) d = (if d < l then (0, d) else map_prod (\<lambda>m. m + 1) id (month_of ls (d - l)))"

definition civil_of_day :: "int \<Rightarrow> int \<times> int \<times> int" where
  "civil_of_day d =
     (let y = year_of_day d; (m, k) = month_of (month_lengths y) (d - day_from_year y)
      in (y, m, k + 1))"

definition valid_civil :: "int \<Rightarrow> int \<Rightarrow> int \<Rightarrow> bool" where
  "valid_civil y m d \<longleftrightarrow>
     0 \<le> m \<and> m < 12 \<and> 1 \<le> d \<and> d \<le> month_lengths y ! nat m"

lemma day_from_year_mono: "x \<le> y \<Longrightarrow> day_from_year x \<le> day_from_year y"
proof (induction y rule: int_ge_induct)
  case (step i)
  with day_from_year_Suc [of i] year_length_pos [of i] show ?case by simp
qed simp

lemma day_from_year_strict: "x < y \<Longrightarrow> day_from_year x < day_from_year y"
  using day_from_year_Suc [of x] year_length_pos [of x] day_from_year_mono [of "x + 1" y] by simp

lemma year_from_spec:
  "day_from_year y \<le> d \<Longrightarrow>
     day_from_year (year_from y d) \<le> d \<and> d < day_from_year (year_from y d + 1)"
  by (induction y d rule: year_from.induct) (simp add: year_from.simps)

lemma linear_estimate:
  fixes q a b c d :: int
  assumes "q * 146097 \<le> d * 400" and 1: "a * 4 \<le> q - 1" and 2: "q + 67 \<le> b * 100 + 99"
    and 3: "c * 400 \<le> q + 367"
  shows "365 * (q - 2) + a - b + c \<le> d"
proof -
  have "400 * (365 * (q - 2) + a - b + c) = 146000 * q - 292000 + 100 * (a * 4) - 4 * (b * 100) + c * 400" by (simp add: algebra_simps)
  moreover have "100 * (a * 4) \<le> 100 * (q - 1)" using 1 by simp
  moreover have "4 * (q + 67) \<le> 4 * (b * 100 + 99)" using 2 by simp
  ultimately have "400 * (365 * (q - 2) + a - b + c) \<le> 146097 * q" using 3 by (simp add: algebra_simps)
  with assms(1) have "400 * (365 * (q - 2) + a - b + c) \<le> 400 * d" by (simp add: algebra_simps)
  then show ?thesis by simp
qed

lemma day_estimate: "day_from_year (d * 400 div 146097 + 1968) \<le> d"
proof -
  define q where "q = d * 400 div 146097"
  have "q * 146097 \<le> d * 400" unfolding q_def by (rule floor_le) simp
  moreover have "(q - 1) div 4 * 4 \<le> q - 1" by (rule floor_le) simp
  moreover have "q + 67 \<le> (q + 67) div 100 * 100 + 99"
    using div_mult_mod_eq [of "q + 67" 100] pos_mod_bound [of 100 "q + 67"] by linarith
  moreover have "(q + 367) div 400 * 400 \<le> q + 367" by (rule floor_le) simp
  ultimately have "365 * (q - 2) + (q - 1) div 4 - (q + 67) div 100 + (q + 367) div 400 \<le> d"
    by (rule linear_estimate)
  then show ?thesis by (simp add: day_from_year_def q_def add.commute)
qed

lemma year_of_day_spec:
  "day_from_year (year_of_day d) \<le> d \<and> d < day_from_year (year_of_day d + 1)"
  unfolding year_of_day_def by (rule year_from_spec [OF day_estimate])

lemma year_of_day_eq:
  assumes "day_from_year y \<le> d" and "d < day_from_year (y + 1)"
  shows "year_of_day d = y"
proof -
  from year_of_day_spec [of d] assms
  have "day_from_year y < day_from_year (year_of_day d + 1)"
    and "day_from_year (year_of_day d) < day_from_year (y + 1)" by linarith+
  then have "\<not> year_of_day d + 1 \<le> y" "\<not> y + 1 \<le> year_of_day d"
    using day_from_year_mono by (meson not_less)+
  then show ?thesis by linarith
qed

section \<open>Months\<close>

lemma month_of_spec:
  assumes "list_all ((<) 0) ls" and "0 \<le> k" and "k < sum_list ls"
  shows "\<exists>m. m < length ls \<and> fst (month_of ls k) = int m \<and> 0 \<le> snd (month_of ls k) \<and>
    snd (month_of ls k) < ls ! m \<and> month_start ls m + snd (month_of ls k) = k"
  using assms
proof (induction ls arbitrary: k)
  case (Cons l ls)
  show ?case
  proof (cases "k < l")
    case True
    with Cons.prems show ?thesis by (intro exI [of _ 0]) simp
  next
    case False
    with Cons.prems Cons.IH [of "k - l"] obtain m where
      "m < length ls" "fst (month_of ls (k - l)) = int m" "0 \<le> snd (month_of ls (k - l))"
      "snd (month_of ls (k - l)) < ls ! m" "month_start ls m + snd (month_of ls (k - l)) = k - l"
      by auto
    with False show ?thesis by (intro exI [of _ "Suc m"]) simp
  qed
qed simp

lemma month_of_start:
  assumes "list_all ((<) 0) ls" and "m < length ls" and "0 \<le> k" and "k < ls ! m"
  shows "month_of ls (month_start ls m + k) = (int m, k)"
  using assms
proof (induction ls arbitrary: m)
  case (Cons l ls)
  show ?case
  proof (cases m)
    case 0
    with Cons.prems show ?thesis by simp
  next
    case (Suc n)
    from Cons.prems Suc have ge: "0 \<le> month_start ls n"
    proof -
      have "list_all ((<) 0) ls \<Longrightarrow> 0 \<le> month_start ls n"
        by (induction ls n rule: month_start.induct) auto
      with Cons.prems show ?thesis by simp
    qed
    with Cons Suc show ?thesis by simp
  qed
qed simp

lemma month_lengths_props:
  "list_all ((<) 0) (month_lengths y)" "length (month_lengths y) = 12"
  "sum_list (month_lengths y) = year_length y"
  by (simp_all add: month_lengths_def year_length_def)

lemma month_start_bound:
  "m < length ls \<Longrightarrow> list_all ((<) 0) ls \<Longrightarrow>
     0 \<le> month_start ls m \<and> month_start ls m + ls ! m \<le> sum_list ls"
proof (induction ls arbitrary: m)
  case (Cons l ls)
  have pos: "list_all ((<) 0) xs \<Longrightarrow> 0 \<le> sum_list xs" for xs :: "int list"
    by (induction xs) auto
  show ?case
  proof (cases m)
    case 0
    with Cons.prems pos [of ls] show ?thesis by simp
  next
    case (Suc n)
    with Cons.IH [of n] Cons.prems show ?thesis by simp
  qed
qed simp

lemma civil_of_day_valid:
  "case civil_of_day d of (y, m, k) \<Rightarrow> valid_civil y m k"
proof -
  let ?y = "year_of_day d"
  let ?k = "d - day_from_year ?y"
  from year_of_day_spec [of d] day_from_year_Suc [of ?y]
  have "0 \<le> ?k" "?k < sum_list (month_lengths ?y)" by (simp_all add: month_lengths_props)
  from month_of_spec [OF month_lengths_props(1) this] show ?thesis
    by (auto simp: civil_of_day_def valid_civil_def Let_def month_lengths_props split: prod.splits)
qed

lemma civil_of_make_day:
  assumes "valid_civil y m d"
  shows "civil_of_day (make_day y m d) = (y, m, d)"
proof -
  let ?s = "month_start (month_lengths y) (nat m)"
  from assms have m: "nat m < length (month_lengths y)" "0 \<le> m" "m < 12"
    and d: "1 \<le> d" "d \<le> month_lengths y ! nat m"
    by (auto simp: valid_civil_def month_lengths_props)
  have md: "make_day y m d = day_from_year y + ?s + (d - 1)"
    using m by (simp add: make_day_def div_pos_pos_trivial mod_pos_pos_trivial)
  from month_start_bound [OF m(1) month_lengths_props(1)] d day_from_year_Suc [of y]
  have "day_from_year y \<le> make_day y m d" "make_day y m d < day_from_year (y + 1)"
    by (simp_all add: md month_lengths_props)
  then have y: "year_of_day (make_day y m d) = y" by (rule year_of_day_eq)
  from month_of_start [OF month_lengths_props(1) m(1), of "d - 1"] d
  have "month_of (month_lengths y) (?s + (d - 1)) = (int (nat m), d - 1)" by simp
  with y md m show ?thesis by (simp add: civil_of_day_def)
qed

section \<open>YYYY-MM-DD strings\<close>

definition digit_value :: "char \<Rightarrow> int" where
  "digit_value c = int (of_char c) - 48"

definition digits_value :: "string \<Rightarrow> int" where
  "digits_value s = fold (\<lambda>c n. 10 * n + digit_value c) s 0"

definition date_only_shape :: "string \<Rightarrow> bool" where
  "date_only_shape s \<longleftrightarrow>
     length s = 10 \<and> list_all is_digit (take 4 s) \<and> s ! 4 = CHR ''-'' \<and>
     list_all is_digit (take 2 (drop 5 s)) \<and> s ! 7 = CHR ''-'' \<and> list_all is_digit (drop 8 s)"

definition date_fields :: "string \<Rightarrow> int \<times> int \<times> int" where
  "date_fields s =
     (digits_value (take 4 s), digits_value (take 2 (drop 5 s)), digits_value (drop 8 s))"

definition date_only_ok :: "string \<Rightarrow> bool" where
  "date_only_ok s \<longleftrightarrow>
     date_only_shape s \<and>
     (case date_fields s of (y, m, d) \<Rightarrow> civil_of_day (utc_day y (m - 1) d) = (y, m - 1, d))"

lemma utc_day_round_trip:
  "civil_of_day (utc_day y m d) = (y, m, d) \<longleftrightarrow> valid_civil y m d \<and> \<not> (0 \<le> y \<and> y \<le> 99)"
proof
  assume c: "civil_of_day (utc_day y m d) = (y, m, d)"
  with civil_of_day_valid [of "utc_day y m d"] have v: "valid_civil y m d" by simp
  have "\<not> (0 \<le> y \<and> y \<le> 99)"
  proof
    assume y: "0 \<le> y \<and> y \<le> 99"
    define z where "z = 1900 + y"
    from v have mm: "0 \<le> m" "m < 12" "nat m < 12" by (auto simp: valid_civil_def)
    from v have d: "1 \<le> d" by (simp add: valid_civil_def)
    have "0 \<le> month_start (month_lengths z) (nat m)"
      using month_start_bound [of "nat m" "month_lengths z"] mm by (simp add: month_lengths_props)
    with d mm y have "day_from_year z \<le> utc_day y m d"
      by (simp add: utc_day_def make_day_def z_def Let_def div_pos_pos_trivial mod_pos_pos_trivial)
    moreover from c have "year_of_day (utc_day y m d) = y"
      by (simp add: civil_of_day_def Let_def split: prod.splits)
    ultimately have "day_from_year z < day_from_year (y + 1)"
      using year_of_day_spec [of "utc_day y m d"] by simp
    with day_from_year_mono [of "y + 1" z] y show False by (simp add: z_def)
  qed
  with v show "valid_civil y m d \<and> \<not> (0 \<le> y \<and> y \<le> 99)" by blast
next
  assume "valid_civil y m d \<and> \<not> (0 \<le> y \<and> y \<le> 99)"
  then show "civil_of_day (utc_day y m d) = (y, m, d)"
    by (auto simp: utc_day_def civil_of_make_day)
qed

lemma date_only_ok_iff:
  "date_only_ok s \<longleftrightarrow>
     date_only_shape s \<and>
     (case date_fields s of (y, m, d) \<Rightarrow> valid_civil y (m - 1) d \<and> \<not> (0 \<le> y \<and> y \<le> 99))"
  by (simp add: date_only_ok_def utc_day_round_trip split: prod.splits)

section \<open>Properties\<close>

text \<open>
  The day number of a valid Gregorian date has that date as its year, month and day, and
  every day number has a valid date.
\<close>

lemma civil_date_round_trip:
  "(case civil_of_day n of (y, m, d) \<Rightarrow> valid_civil y m d) \<and>
   (valid_civil y m d \<longrightarrow> civil_of_day (make_day y m d) = (y, m, d))"
  by (simp add: civil_of_day_valid civil_of_make_day split: prod.splits)

lemma civil_date_round_trip_witness:
  "valid_civil 2024 1 29 \<and> civil_of_day (make_day 2024 1 29) = (2024, 1, 29)"
proof -
  have "valid_civil 2024 1 29"
    by (simp add: valid_civil_def month_lengths_def leap_def)
  with civil_date_round_trip [of 0 2024 1 29] show ?thesis by blast
qed

text \<open>
  A string is accepted as a date exactly when it has the shape YYYY-MM-DD and names a
  day of the Gregorian calendar in the year 100 or later; the first hundred years are
  refused because \<open>Date.UTC\<close> reads them as 1900 to 1999.
\<close>

lemma date_only_accepts_calendar_dates:
  "date_only_ok s =
     (date_only_shape s \<and>
      (case date_fields s of (y, m, d) \<Rightarrow> valid_civil y (m - 1) d \<and> \<not> (0 \<le> y \<and> y \<le> 99)))"
  by (rule date_only_ok_iff)

end
