(* ===== verification/Workflow_Inputs.thy ===== *)
theory Workflow_Inputs
  imports Workflow_Schema Calendar "HOL-Library.List_Lexorder" "HOL-Library.Char_ord" "HOL-Library.AList"
begin

text \<open>
  \<open>packages/workflow-inputs/src\<close>: which kinds of value a step property accepts, where a
  workflow reads values, the analysis of variables and secret references, the safe-alias
  test and the validation of a run's submitted inputs.
\<close>

section \<open>Compatibility (compatibility.ts)\<close>

datatype value_target =
  NavigateUrl | FillValue | SelectValue | VerifyTextExpected | VerifyValueExpected | VerifyUrlExpected

datatype literal_type = LtString | LtNumber | LtBoolean

record compatibility =
  literal_types :: "literal_type list"
  variable_types :: "variable_type list"
  allows_secret :: bool

fun get_compatibility :: "value_target \<Rightarrow> compatibility" where
  "get_compatibility NavigateUrl =
     \<lparr>literal_types = [LtString], variable_types = [VString], allows_secret = False\<rparr>"
| "get_compatibility FillValue =
     \<lparr>literal_types = [LtString], variable_types = [VString], allows_secret = True\<rparr>"
| "get_compatibility SelectValue =
     \<lparr>literal_types = [LtString, LtNumber], variable_types = [VString, VNumber], allows_secret = False\<rparr>"
| "get_compatibility VerifyTextExpected =
     \<lparr>literal_types = [LtString], variable_types = [VString], allows_secret = False\<rparr>"
| "get_compatibility VerifyValueExpected =
     \<lparr>literal_types = [LtString, LtNumber, LtBoolean],
      variable_types = [VString, VNumber, VBoolean], allows_secret = False\<rparr>"
| "get_compatibility VerifyUrlExpected =
     \<lparr>literal_types = [LtString], variable_types = [VString], allows_secret = False\<rparr>"

fun literal_type_of :: "literal \<Rightarrow> literal_type" where
  "literal_type_of (LitString s) = LtString"
| "literal_type_of (LitNumber n) = LtNumber"
| "literal_type_of (LitBool b) = LtBoolean"

definition is_variable_type_compatible :: "value_target \<Rightarrow> variable_type \<Rightarrow> bool" where
  "is_variable_type_compatible t v \<longleftrightarrow> v \<in> set (variable_types (get_compatibility t))"

definition is_literal_compatible :: "value_target \<Rightarrow> literal \<Rightarrow> bool" where
  "is_literal_compatible t l \<longleftrightarrow> literal_type_of l \<in> set (literal_types (get_compatibility t))"

section \<open>Safe secret aliases (secret-alias.ts)\<close>

definition MAX_SECRET_REFERENCE_NAME_LENGTH :: nat where
  "MAX_SECRET_REFERENCE_NAME_LENGTH = 80"

definition rx_plus :: "(char \<Rightarrow> bool) \<Rightarrow> rx" where
  "rx_plus p = rx_at_least 1 (Class p)"

definition token_char :: "char \<Rightarrow> bool" where
  "token_char c \<longleftrightarrow> is_alnum c \<or> c = CHR ''_'' \<or> c = CHR ''-''"

definition email_rx :: rx where
  "email_rx = (let p = rx_plus (\<lambda>c. \<not> js_space c \<and> c \<noteq> CHR ''@'')
     in Cat p (Cat (rx_lit ''@'') (Cat p (Cat (rx_lit ''.'') p))))"

definition jwt_rx :: rx where
  "jwt_rx = (let p = rx_at_least 8 (Class token_char)
     in Cat (rx_lit ''eyJ'') (Cat p (Cat (rx_lit ''.'') (Cat p (Cat (rx_lit ''.'') p)))))"

definition credential_assignment_rx :: rx where
  "credential_assignment_rx =
     Cat (rx_alts
           [rx_lit_i ''password'', rx_lit_i ''passwd'', rx_lit_i ''pwd'', rx_lit_i ''token'',
            rx_lit_i ''secret'',
            Cat (rx_lit_i ''api'')
              (Cat (Either Empty (Class (\<lambda>c. c = CHR ''_'' \<or> c = CHR ''-''))) (rx_lit_i ''key'')),
            rx_lit_i ''authorization''])
       (Cat (Many (Class js_space))
         (Cat (Class (\<lambda>c. c = CHR '':'' \<or> c = CHR ''=''))
           (Cat (Many (Class js_space)) (rx_plus (\<lambda>c. \<not> js_space c)))))"

definition url_credential_rx :: rx where
  "url_credential_rx =
     Cat (Class (\<lambda>c. is_lower (to_lower c)))
       (Cat (Many (Class (\<lambda>c. is_alnum c \<or> c \<in> set ''+.-'')))
         (Cat (rx_lit ''://'')
           (Cat (rx_plus (\<lambda>c. \<not> js_space c \<and> c \<notin> set ''/:@''))
             (Cat (rx_lit '':'')
               (Cat (rx_plus (\<lambda>c. \<not> js_space c \<and> c \<notin> set ''/@''))
                 (Cat (rx_lit ''@'') (Many (Class (\<lambda>_. True)))))))))"

definition known_token_rx :: rx where
  "known_token_rx =
     Cat (rx_alts
           [Cat (rx_lit ''gh'') (Cat (Class (\<lambda>c. c \<in> set ''pousr'')) (rx_lit ''_'')),
            rx_lit ''sk-'',
            Cat (rx_lit ''xox'') (Cat (Class (\<lambda>c. c \<in> set ''baprs'')) (rx_lit ''-'')),
            rx_lit ''AKIA''])
       (rx_at_least 12 (Class token_char))"

definition long_token_rx :: rx where
  "long_token_rx = rx_at_least 40 (Class (\<lambda>c. is_alnum c \<or> c \<in> set ''+/_=-''))"

definition is_safe_secret_alias :: "string \<Rightarrow> bool" where
  "is_safe_secret_alias v \<longleftrightarrow>
     length v \<le> MAX_SECRET_REFERENCE_NAME_LENGTH \<and>
     parse_identifier v \<noteq> None \<and>
     \<not> rx_matches email_rx v \<and>
     \<not> rx_matches jwt_rx v \<and>
     \<not> rx_matches credential_assignment_rx v \<and>
     \<not> rx_matches url_credential_rx v \<and>
     \<not> rx_matches known_token_rx v \<and>
     \<not> rx_matches long_token_rx v"

section \<open>Where a workflow reads values (value-source-usages.ts)\<close>

datatype path_segment = PKey string | PIndex nat

record usage =
  use_step_id :: string
  use_step_index :: nat
  use_step_type :: step_type
  use_target :: value_target
  use_path :: "path_segment list"
  accepted_variable_types :: "variable_type list"

type_synonym located = "value_source \<times> usage"

definition locate :: "value_source \<Rightarrow> workflow_step \<Rightarrow> nat \<Rightarrow> value_target \<Rightarrow> string list \<Rightarrow> located" where
  "locate src st i t p =
     (src, \<lparr>use_step_id = step_id st, use_step_index = i, use_step_type = step_type_of st,
            use_target = t, use_path = [PKey ''steps'', PIndex i] @ map PKey p,
            accepted_variable_types = variable_types (get_compatibility t)\<rparr>)"

fun step_value_sources :: "workflow_step \<Rightarrow> nat \<Rightarrow> located list" where
  "step_value_sources st i =
     (case body st of
        Navigate u \<Rightarrow> [locate u st i NavigateUrl [''url'']]
      | Fill l v \<Rightarrow> [locate v st i FillValue [''value'']]
      | Select l v \<Rightarrow> [locate v st i SelectValue [''value'']]
      | Verify a t \<Rightarrow>
          (case a of
             TextIs l m oper e \<Rightarrow> [locate e st i VerifyTextExpected [''assertion'', ''expected'']]
           | ValueIs l oper e \<Rightarrow> [locate e st i VerifyValueExpected [''assertion'', ''expected'']]
           | UrlIs m oper e \<Rightarrow> [locate e st i VerifyUrlExpected [''assertion'', ''expected'']]
           | _ \<Rightarrow> [])
      | _ \<Rightarrow> [])"

definition find_value_sources :: "workflow \<Rightarrow> located list" where
  "find_value_sources w =
     concat (map (\<lambda>(i, st). step_value_sources st i) (List.enumerate 0 (steps w)))"

section \<open>The input analysis (analysis.ts)\<close>

datatype input_issue_code =
    INVALID_WORKFLOW_DEFINITION
  | DUPLICATE_VARIABLE_NAME
  | UNKNOWN_VARIABLE_REFERENCE
  | INCOMPATIBLE_VARIABLE_TYPE
  | INCOMPATIBLE_LITERAL
  | SECRET_SOURCE_NOT_ALLOWED
  | UNSAFE_SECRET_REFERENCE
  | UNUSED_VARIABLE

datatype severity = Blocking | Warning

record input_issue =
  ii_code :: input_issue_code
  ii_severity :: severity
  ii_path :: "path_segment list"
  ii_step_id :: "string option"
  ii_step_index :: "nat option"
  ii_variable :: "string option"

definition issue_for_usage :: "input_issue_code \<Rightarrow> usage \<Rightarrow> string option \<Rightarrow> input_issue" where
  "issue_for_usage c u v =
     \<lparr>ii_code = c, ii_severity = Blocking, ii_path = use_path u,
      ii_step_id = Some (use_step_id u), ii_step_index = Some (use_step_index u), ii_variable = v\<rparr>"

record secret_requirement =
  secret_name :: string
  secret_count :: nat
  secret_usages :: "usage list"

record input_scan =
  usages_by :: "string \<Rightarrow> usage list"
  secrets :: "secret_requirement list"
  scan_issues :: "input_issue list"

definition variable_by_name :: "workflow_variable list \<Rightarrow> string \<Rightarrow> workflow_variable option" where
  "variable_by_name vs = map_of (rev (map (\<lambda>v. (var_name v, v)) vs))"

fun add_secret_usage :: "string \<Rightarrow> usage \<Rightarrow> secret_requirement list \<Rightarrow> secret_requirement list" where
  "add_secret_usage n u [] = [\<lparr>secret_name = n, secret_count = 1, secret_usages = [u]\<rparr>]"
| "add_secret_usage n u (r # rs) =
     (if secret_name r = n
      then r\<lparr>secret_count := secret_count r + 1, secret_usages := secret_usages r @ [u]\<rparr> # rs
      else r # add_secret_usage n u rs)"

definition add_issue :: "input_issue \<Rightarrow> input_scan \<Rightarrow> input_scan" where
  "add_issue x s = s\<lparr>scan_issues := scan_issues s @ [x]\<rparr>"

text \<open>The body of the loop over the located sources.\<close>

fun scan_source :: "workflow_variable list \<Rightarrow> located \<Rightarrow> input_scan \<Rightarrow> input_scan" where
  "scan_source vs (Variable n, u) s =
     (case variable_by_name vs n of
        None \<Rightarrow> add_issue (issue_for_usage UNKNOWN_VARIABLE_REFERENCE u (Some n)) s
      | Some v \<Rightarrow>
          let s1 = s\<lparr>usages_by := (usages_by s)(var_name v := usages_by s (var_name v) @ [u])\<rparr>
          in if is_variable_type_compatible (use_target u) (var_type v) then s1
             else add_issue (issue_for_usage INCOMPATIBLE_VARIABLE_TYPE u (Some (var_name v))) s1)"
| "scan_source vs (Literal l, u) s =
     (if is_literal_compatible (use_target u) l then s
      else add_issue (issue_for_usage INCOMPATIBLE_LITERAL u None) s)"
| "scan_source vs (Output n, u) s = s"
| "scan_source vs (Secret n, u) s =
     (if \<not> is_safe_secret_alias n then add_issue (issue_for_usage UNSAFE_SECRET_REFERENCE u None) s
      else if \<not> allows_secret (get_compatibility (use_target u))
      then add_issue (issue_for_usage SECRET_SOURCE_NOT_ALLOWED u None) s
      else s\<lparr>secrets := add_secret_usage n u (secrets s)\<rparr>)"

definition initial_scan :: input_scan where
  "initial_scan = \<lparr>usages_by = (\<lambda>_. []), secrets = [], scan_issues = []\<rparr>"

definition scan_sources :: "workflow \<Rightarrow> input_scan" where
  "scan_sources w = fold (scan_source (variables w)) (find_value_sources w) initial_scan"

record variable_analysis =
  va_variable :: workflow_variable
  va_count :: nat
  va_usages :: "usage list"

record input_analysis =
  ia_variables :: "variable_analysis list"
  ia_secrets :: "secret_requirement list"
  ia_issues :: "input_issue list"
  ia_blocking :: bool

definition unused_issue :: "nat \<Rightarrow> workflow_variable \<Rightarrow> input_issue" where
  "unused_issue i v =
     \<lparr>ii_code = UNUSED_VARIABLE, ii_severity = Warning, ii_path = [PKey ''variables'', PIndex i],
      ii_step_id = None, ii_step_index = None, ii_variable = Some (var_name v)\<rparr>"

text \<open>\<open>analyzeWorkflowInputs\<close> after the definition has parsed.\<close>

definition analyze_workflow_inputs :: "workflow \<Rightarrow> input_analysis" where
  "analyze_workflow_inputs w =
     (let s = scan_sources w;
          unused = concat (map (\<lambda>(i, v). if usages_by s (var_name v) = [] then [unused_issue i v] else [])
                               (List.enumerate 0 (variables w)));
          all = scan_issues s @ unused
      in \<lparr>ia_variables =
            map (\<lambda>v. \<lparr>va_variable = v, va_count = length (usages_by s (var_name v)),
                       va_usages = usages_by s (var_name v)\<rparr>) (variables w),
          ia_secrets = secrets s,
          ia_issues = all,
          ia_blocking = (\<exists>x \<in> set all. ii_severity x = Blocking)\<rparr>)"

section \<open>Submitted run inputs (run-inputs.ts)\<close>

datatype runtime_input =
    RtString string
  | RtNumber rat
  | RtBoolean bool
  | RtDate string
  | RtFile int "string option"

fun runtime_kind :: "runtime_input \<Rightarrow> variable_type" where
  "runtime_kind (RtString s) = VString"
| "runtime_kind (RtNumber n) = VNumber"
| "runtime_kind (RtBoolean b) = VBoolean"
| "runtime_kind (RtDate d) = VDate"
| "runtime_kind (RtFile n m) = VFile"

text \<open>
  A plain JavaScript object as its own properties in insertion order. Reading a property
  that the object does not have itself finds the members of \<open>Object.prototype\<close>.
\<close>

type_synonym 'v js_object = "(string \<times> 'v) list"

datatype 'v js_slot = Own 'v | Inherited | Undefined

definition object_prototype_members :: "string list" where
  "object_prototype_members =
     [''constructor'', ''hasOwnProperty'', ''isPrototypeOf'', ''propertyIsEnumerable'',
      ''toLocaleString'', ''toString'', ''valueOf'', ''__defineGetter__'', ''__defineSetter__'',
      ''__lookupGetter__'', ''__lookupSetter__'', ''__proto__'']"

definition js_get :: "'v js_object \<Rightarrow> string \<Rightarrow> 'v js_slot" where
  "js_get obj k =
     (case map_of obj k of
        Some v \<Rightarrow> Own v
      | None \<Rightarrow> if k \<in> set object_prototype_members then Inherited else Undefined)"

text \<open>
  \<open>RuntimeInputValueSchema\<close> and \<open>WorkflowRunInputSubmissionSchema\<close> (contracts.ts). The
  keys are trimmed identifiers; a key that becomes equal to an earlier one overwrites its
  value.
\<close>

definition MAX_RUNTIME_STRING_LENGTH :: nat where "MAX_RUNTIME_STRING_LENGTH = 10000"
definition MAX_RUNTIME_FILE_SIZE_BYTES :: int where
  "MAX_RUNTIME_FILE_SIZE_BYTES = 10 * 1024 * 1024 * 1024"
definition MAX_RUNTIME_MEDIA_TYPE_LENGTH :: nat where "MAX_RUNTIME_MEDIA_TYPE_LENGTH = 128"

fun runtime_value_ok :: "runtime_input \<Rightarrow> bool" where
  "runtime_value_ok (RtString s) = (length s \<le> MAX_RUNTIME_STRING_LENGTH)"
| "runtime_value_ok (RtNumber n) = True"
| "runtime_value_ok (RtBoolean b) = True"
| "runtime_value_ok (RtDate d) = date_only_ok d"
| "runtime_value_ok (RtFile n m) =
     (0 \<le> n \<and> n \<le> MAX_RUNTIME_FILE_SIZE_BYTES \<and>
      (case m of None \<Rightarrow> True | Some t \<Rightarrow> length t \<le> MAX_RUNTIME_MEDIA_TYPE_LENGTH))"

definition parse_entry :: "string \<times> runtime_input \<Rightarrow> (string \<times> runtime_input) option" where
  "parse_entry kv =
     do { k \<leftarrow> parse_identifier (fst kv); guard_ok (runtime_value_ok (snd kv)); Some (k, snd kv) }"

definition parse_submission :: "runtime_input js_object \<Rightarrow> runtime_input js_object option" where
  "parse_submission vs =
     map_option (\<lambda>kvs. fold (\<lambda>kv acc. AList.update (fst kv) (snd kv) acc) kvs []) (parse_list parse_entry vs)"

datatype run_input_issue_code =
    INVALID_SUBMISSION
  | MISSING_REQUIRED_INPUT
  | UNKNOWN_RUNTIME_INPUT
  | RUNTIME_INPUT_TYPE_MISMATCH

type_synonym run_input_issue = "run_input_issue_code \<times> string option"

record run_input_plan =
  plan_variables :: "workflow_variable list"
  plan_secrets :: "secret_requirement list"
  plan_issues :: "input_issue list"
  can_collect_inputs :: bool

definition prepare_run_input_plan :: "workflow \<Rightarrow> run_input_plan" where
  "prepare_run_input_plan w =
     (let a = analyze_workflow_inputs w
      in \<lparr>plan_variables = map va_variable (ia_variables a), plan_secrets = ia_secrets a,
          plan_issues = ia_issues a, can_collect_inputs = (\<not> ia_blocking a)\<rparr>)"

record run_input_summary =
  declared_count :: nat
  required_count :: nat
  provided_count :: nat
  missing_required_count :: nat
  file_count :: nat
  issue_count :: nat
  inputs_valid :: bool

definition value_matches_variable :: "runtime_input \<Rightarrow> workflow_variable \<Rightarrow> bool" where
  "value_matches_variable x v \<longleftrightarrow> runtime_kind x = var_type v"

text \<open>
  One round of the loop over the declared variables. An inherited member is a function or
  an object without a string \<open>kind\<close>, so it is present and matches no declared type.
\<close>

definition variable_issue :: "runtime_input js_object \<Rightarrow> workflow_variable \<Rightarrow> run_input_issue list" where
  "variable_issue values v =
     (case js_get values (var_name v) of
        Undefined \<Rightarrow> if var_required v then [(MISSING_REQUIRED_INPUT, Some (var_name v))] else []
      | Inherited \<Rightarrow> [(RUNTIME_INPUT_TYPE_MISMATCH, Some (var_name v))]
      | Own x \<Rightarrow>
          if \<not> value_matches_variable x v then [(RUNTIME_INPUT_TYPE_MISMATCH, Some (var_name v))]
          else [])"

definition validate_workflow_run_inputs ::
  "workflow \<Rightarrow> runtime_input js_object option \<Rightarrow> run_input_issue list \<times> run_input_summary" where
  "validate_workflow_run_inputs w submission =
     (let plan = prepare_run_input_plan w;
          invalid = (case submission of None \<Rightarrow> [(INVALID_SUBMISSION, None)] | Some _ \<Rightarrow> []);
          values = (case submission of None \<Rightarrow> [] | Some vs \<Rightarrow> vs);
          vs = plan_variables plan;
          declared = concat (map (variable_issue values) vs);
          unknown = map (\<lambda>n. (UNKNOWN_RUNTIME_INPUT, Some n))
                      (filter (\<lambda>n. n \<notin> var_name ` set vs) (sort (map fst values)));
          issues = invalid @ declared @ unknown
      in (issues,
          \<lparr>declared_count = length vs,
           required_count = length (filter var_required vs),
           provided_count = length values,
           missing_required_count = length (filter (\<lambda>i. fst i = MISSING_REQUIRED_INPUT) issues),
           file_count = length (filter (\<lambda>kv. runtime_kind (snd kv) = VFile) values),
           issue_count = length issues,
           inputs_valid = (issues = [])\<rparr>))"

section \<open>What the analysis decides\<close>

text \<open>The declarative reading of the loop: when a located source is acceptable.\<close>

fun source_admissible :: "workflow_variable list \<Rightarrow> located \<Rightarrow> bool" where
  "source_admissible vs (Variable n, u) =
     (case variable_by_name vs n of
        None \<Rightarrow> False
      | Some v \<Rightarrow> var_type v \<in> set (variable_types (get_compatibility (use_target u))))"
| "source_admissible vs (Literal l, u) =
     (literal_type_of l \<in> set (literal_types (get_compatibility (use_target u))))"
| "source_admissible vs (Output n, u) = True"
| "source_admissible vs (Secret n, u) = (is_safe_secret_alias n \<and> use_target u = FillValue)"

lemma allows_secret_iff [simp]: "allows_secret (get_compatibility t) \<longleftrightarrow> t = FillValue"
  by (cases t) auto

lemma add_issue_sel [simp]:
  "scan_issues (add_issue x s) = scan_issues s @ [x]"
  "secrets (add_issue x s) = secrets s" "usages_by (add_issue x s) = usages_by s"
  by (simp_all add: add_issue_def)

lemma issue_for_usage_blocking [simp]: "ii_severity (issue_for_usage c u v) = Blocking"
  by (simp add: issue_for_usage_def)

lemma scan_source_blocking:
  "(\<exists>x \<in> set (scan_issues (scan_source vs a s)). ii_severity x = Blocking) \<longleftrightarrow>
     (\<exists>x \<in> set (scan_issues s). ii_severity x = Blocking) \<or> \<not> source_admissible vs a"
  by (cases "(vs, a, s)" rule: scan_source.cases)
    (auto simp: is_variable_type_compatible_def is_literal_compatible_def Let_def
      split: option.splits)

lemma fold_scan_blocking:
  "(\<exists>x \<in> set (scan_issues (fold (scan_source vs) xs s)). ii_severity x = Blocking) \<longleftrightarrow>
     (\<exists>x \<in> set (scan_issues s). ii_severity x = Blocking) \<or> (\<exists>a \<in> set xs. \<not> source_admissible vs a)"
  by (induction xs arbitrary: s) (auto simp: scan_source_blocking)

lemma unused_not_blocking:
  "x \<in> set (concat (map (\<lambda>(i, v). if P v then [unused_issue i v] else []) xs)) \<Longrightarrow>
     ii_severity x = Warning"
  by (auto simp: unused_issue_def split: if_splits)

lemma analyze_blocking_iff:
  "ia_blocking (analyze_workflow_inputs w) \<longleftrightarrow>
     (\<exists>a \<in> set (find_value_sources w). \<not> source_admissible (variables w) a)"
proof -
  have "ia_blocking (analyze_workflow_inputs w) \<longleftrightarrow>
      (\<exists>x \<in> set (scan_issues (scan_sources w)). ii_severity x = Blocking)"
    by (fastforce simp: analyze_workflow_inputs_def Let_def unused_issue_def split: if_splits)
  then show ?thesis
    by (simp add: scan_sources_def fold_scan_blocking initial_scan_def)
qed

lemma scan_source_usages:
  "usages_by (scan_source vs (src, u) s) n =
     usages_by s n @ (if src = Variable n \<and> variable_by_name vs n \<noteq> None then [u] else [])"
proof (cases src)
  case (Variable m)
  have "variable_by_name vs m = Some v \<Longrightarrow> var_name v = m" for v
    by (auto simp: variable_by_name_def dest!: map_of_SomeD)
  with Variable show ?thesis by (auto simp: Let_def split: option.splits)
qed auto

lemma fold_scan_usages:
  "usages_by (fold (scan_source vs) xs s) n =
     usages_by s n @
     map snd (filter (\<lambda>a. fst a = Variable n \<and> variable_by_name vs n \<noteq> None) xs)"
proof (induction xs arbitrary: s)
  case (Cons a xs)
  obtain src u where a: "a = (src, u)" by (cases a)
  show ?case by (auto simp: Cons.IH a scan_source_usages)
qed simp

section \<open>The secret requirements count what they list\<close>

definition secret_usages_in :: "workflow_variable list \<Rightarrow> string \<Rightarrow> located list \<Rightarrow> usage list" where
  "secret_usages_in vs n xs =
     map snd (filter (\<lambda>a. fst a = Secret n \<and> source_admissible vs a) xs)"

text \<open>What a requirement list records for one alias; the empty list if it is not there.\<close>

definition recorded :: "secret_requirement list \<Rightarrow> string \<Rightarrow> usage list" where
  "recorded rs n =
     (case List.find (\<lambda>r. secret_name r = n) rs of None \<Rightarrow> [] | Some r \<Rightarrow> secret_usages r)"

definition secrets_ok :: "secret_requirement list \<Rightarrow> bool" where
  "secrets_ok rs \<longleftrightarrow> distinct (map secret_name rs) \<and>
     list_all (\<lambda>r. secret_count r = length (secret_usages r) \<and> secret_usages r \<noteq> []) rs"

lemma secrets_ok_Nil [simp]: "secrets_ok []"
  by (simp add: secrets_ok_def)

lemma recorded_Nil [simp]: "recorded [] n = []"
  by (simp add: recorded_def)

lemma add_secret_names:
  "secret_name ` set (add_secret_usage n u rs) = insert n (secret_name ` set rs)"
  by (induction rs) auto

lemma add_secret_ok: "secrets_ok rs \<Longrightarrow> secrets_ok (add_secret_usage n u rs)"
proof (induction rs)
  case (Cons r rs)
  then have "secrets_ok (add_secret_usage n u rs)" by (simp add: secrets_ok_def)
  with Cons.prems show ?case
    using add_secret_names [of n u rs] by (auto simp: secrets_ok_def)
qed (simp add: secrets_ok_def)

lemma recorded_add_secret:
  "recorded (add_secret_usage n u rs) m = recorded rs m @ (if m = n then [u] else [])"
  by (induction rs) (auto simp: recorded_def split: option.splits)

lemma scan_source_secrets:
  "recorded (secrets (scan_source vs (src, u) s)) n =
     recorded (secrets s) n @ (if src = Secret n \<and> source_admissible vs (src, u) then [u] else [])"
  by (cases src) (auto simp: recorded_add_secret Let_def split: option.splits)

lemma scan_source_secrets_ok: "secrets_ok (secrets s) \<Longrightarrow> secrets_ok (secrets (scan_source vs a s))"
  by (cases "(vs, a, s)" rule: scan_source.cases)
    (auto simp: add_secret_ok Let_def split: option.splits)

lemma fold_scan_secrets:
  "recorded (secrets (fold (scan_source vs) xs s)) n = recorded (secrets s) n @ secret_usages_in vs n xs"
proof (induction xs arbitrary: s)
  case (Cons a xs)
  obtain src u where a: "a = (src, u)" by (cases a)
  show ?case by (auto simp: Cons.IH a scan_source_secrets secret_usages_in_def)
qed (simp add: secret_usages_in_def)

lemma fold_scan_secrets_ok:
  "secrets_ok (secrets s) \<Longrightarrow> secrets_ok (secrets (fold (scan_source vs) xs s))"
  by (induction xs arbitrary: s) (auto simp: scan_source_secrets_ok)

lemma analyze_secrets_ok: "secrets_ok (ia_secrets (analyze_workflow_inputs w))"
  by (simp add: analyze_workflow_inputs_def Let_def scan_sources_def fold_scan_secrets_ok
      initial_scan_def)

lemma analyze_secrets_recorded:
  "recorded (ia_secrets (analyze_workflow_inputs w)) n =
     secret_usages_in (variables w) n (find_value_sources w)"
  by (simp add: analyze_workflow_inputs_def Let_def scan_sources_def fold_scan_secrets
      initial_scan_def)

section \<open>What the alias patterns amount to\<close>

text \<open>
  On a trimmed string the identifier pattern already excludes the characters that the
  e-mail, JWT, credential-assignment and URL patterns need, and the long-token pattern
  lowers the length limit from 80 to 39.
\<close>

definition ident_char :: "char \<Rightarrow> bool" where
  "ident_char c \<longleftrightarrow> is_alnum c \<or> c = CHR ''_''"

lemma lang_identifier: "s \<in> lang identifier_rx \<Longrightarrow> list_all ident_char s"
  unfolding identifier_rx_def lang.simps(4) lang_Many_Class
  by (auto simp: ident_char_def is_alnum_def list_all_iff)

lemma not_ident_char [simp]:
  "\<not> ident_char CHR ''@''" "\<not> ident_char CHR ''.''" "\<not> ident_char CHR '':''"
  "\<not> ident_char CHR ''=''" "\<not> ident_char CHR ''-''"
  by (simp_all add: ident_char_def is_alnum_def is_upper_def is_lower_def is_digit_def in_range_def)

lemma ident_not_email: "list_all ident_char s \<Longrightarrow> \<not> rx_matches email_rx s"
  by (auto simp: rx_matches_iff email_rx_def Let_def)

lemma ident_not_jwt: "list_all ident_char s \<Longrightarrow> \<not> rx_matches jwt_rx s"
  by (auto simp: rx_matches_iff jwt_rx_def Let_def)

lemma ident_not_credential: "list_all ident_char s \<Longrightarrow> \<not> rx_matches credential_assignment_rx s"
  unfolding rx_matches_iff credential_assignment_rx_def lang.simps(3,4) by auto

lemma ident_not_url: "list_all ident_char s \<Longrightarrow> \<not> rx_matches url_credential_rx s"
  unfolding rx_matches_iff url_credential_rx_def lang.simps(4) by auto

lemma ident_long_token:
  "list_all ident_char s \<Longrightarrow> rx_matches long_token_rx s \<longleftrightarrow> 40 \<le> length s"
  unfolding rx_matches_iff long_token_rx_def lang_at_least_Class
  by (auto simp: ident_char_def list_all_iff)

lemma safe_alias_iff:
  assumes "trim s = s"
  shows "is_safe_secret_alias s \<longleftrightarrow>
    rx_matches identifier_rx s \<and> length s \<le> 39 \<and> \<not> rx_matches known_token_rx s"
proof (cases "rx_matches identifier_rx s")
  case True
  then have "list_all ident_char s" by (simp add: rx_matches_iff lang_identifier)
  with True assms show ?thesis
    by (auto simp: is_safe_secret_alias_def parse_identifier_def MAX_SECRET_REFERENCE_NAME_LENGTH_def
        ident_not_email ident_not_jwt ident_not_credential ident_not_url ident_long_token)
next
  case False
  with assms show ?thesis by (simp add: is_safe_secret_alias_def parse_identifier_def)
qed


section \<open>Parsed submissions\<close>

interpretation entry: schema_parser parse_entry
proof unfold_locales
  fix x y assume "parse_entry x = Some y"
  then show "parse_entry y = Some y"
    by (auto simp: parse_entry_def ident.reparse split: bind_split_asm if_split_asm)
qed

lemma update_all_spec:
  assumes "distinct (map fst acc)"
  shows "distinct (map fst (fold (\<lambda>kv acc. AList.update (fst kv) (snd kv) acc) kvs acc)) \<and>
    set (fold (\<lambda>kv acc. AList.update (fst kv) (snd kv) acc) kvs acc) \<subseteq> set acc \<union> set kvs"
  using assms
proof (induction kvs arbitrary: acc)
  case (Cons kv kvs)
  have "set (AList.update (fst kv) (snd kv) acc) \<subseteq> insert kv (set acc)"
    by (induction acc) auto
  with Cons.IH [of "AList.update (fst kv) (snd kv) acc"] distinct_update [OF Cons.prems]
  show ?case by auto
qed simp

lemma update_new_key: "fst kv \<notin> fst ` set acc \<Longrightarrow> AList.update (fst kv) (snd kv) acc = acc @ [kv]"
  by (induction acc) auto

lemma update_all_distinct:
  "distinct (map fst (acc @ kvs)) \<Longrightarrow>
     fold (\<lambda>kv acc. AList.update (fst kv) (snd kv) acc) kvs acc = acc @ kvs"
proof (induction kvs arbitrary: acc)
  case (Cons kv kvs)
  then have "AList.update (fst kv) (snd kv) acc = acc @ [kv]"
    by (intro update_new_key) auto
  with Cons show ?case by simp
qed simp

lemma parse_list_normal: "parse_list p xs = Some xs \<longleftrightarrow> (\<forall>x \<in> set xs. p x = Some x)"
  by (induction xs) (auto split: bind_splits)

lemma parse_submission_parts:
  assumes "parse_submission vs = Some ws"
  shows "distinct (map fst ws) \<and> (\<forall>kv \<in> set ws. parse_entry kv = Some kv)"
proof -
  from assms obtain kvs where kvs: "parse_list parse_entry vs = Some kvs"
    and ws: "ws = fold (\<lambda>kv acc. AList.update (fst kv) (snd kv) acc) kvs []"
    by (auto simp: parse_submission_def)
  from entry.normal_list [OF kvs] have "\<forall>kv \<in> set kvs. parse_entry kv = Some kv"
    by (simp add: normal_def parse_list_normal)
  with update_all_spec [of "[]" kvs] ws show ?thesis by auto
qed

interpretation submission: schema_parser parse_submission
proof unfold_locales
  fix vs ws assume "parse_submission vs = Some ws"
  from parse_submission_parts [OF this] show "parse_submission ws = Some ws"
    using update_all_distinct [of "[]" ws]
    by (simp add: parse_submission_def parse_list_normal [THEN iffD2])
qed

section \<open>Properties\<close>

text \<open>
  C40: the input analysis blocks a workflow exactly when one of the value sources of its
  steps is inadmissible: an undeclared or incompatible variable, a literal of the wrong
  type, or a secret outside a fill step or with an unsafe alias.
\<close>

theorem inputs_block_iff_inadmissible:
  "ia_blocking (analyze_workflow_inputs w) =
     (\<not> list_all (source_admissible (variables w)) (find_value_sources w))"
  unfolding analyze_blocking_iff list_all_iff by blast

text \<open>
  The secret requirements of the analysis are one entry per secret name, counting at
  least one use; the recorded uses of a name are the admissible references to it, in the
  order of the steps.
\<close>

lemma secret_requirements_recorded:
  "secrets_ok (ia_secrets (analyze_workflow_inputs w)) \<and>
   recorded (ia_secrets (analyze_workflow_inputs w)) n =
     secret_usages_in (variables w) n (find_value_sources w)"
  using analyze_secrets_ok analyze_secrets_recorded by blast

text \<open>
  An alias without surrounding white space is a safe secret alias exactly when it is an
  identifier of at most 39 characters that does not start like a known token. The limit of
  80 characters that the source names is never reached.
\<close>

lemma safe_alias_characterised:
  "trim s = s \<Longrightarrow>
     is_safe_secret_alias s \<longleftrightarrow>
       rx_matches identifier_rx s \<and> length s \<le> 39 \<and> \<not> rx_matches known_token_rx s"
  by (rule safe_alias_iff)

lemma safe_alias_characterised_witness:
  "is_safe_secret_alias ''crm_password''"
proof -
  have t: "trim ''crm_password'' = ''crm_password''" by code_simp
  have i: "rx_matches identifier_rx ''crm_password''" by code_simp
  have k: "\<not> rx_matches known_token_rx ''crm_password''" by code_simp
  from safe_alias_characterised [OF t] i k show ?thesis by simp
qed

text \<open>
  An accepted submission has each variable name once, every entry is an identifier with
  a value in bounds, and accepting it again returns it unchanged.
\<close>

lemma parsed_submission_is_normal:
  "parse_submission vs = Some ws \<Longrightarrow>
     distinct (map fst ws) \<and> list_all (\<lambda>kv. runtime_value_ok (snd kv)) ws \<and>
     parse_submission ws = Some ws"
proof -
  assume p: "parse_submission vs = Some ws"
  have "runtime_value_ok (snd kv)" if "kv \<in> set ws" for kv
    using parse_submission_parts [OF p] that
    by (auto simp: parse_entry_def split: bind_split_asm if_split_asm)
  with parse_submission_parts [OF p] submission.reparse [OF p] show ?thesis
    by (simp add: list_all_iff)
qed

lemma parsed_submission_is_normal_witness:
  "parse_submission [('' a'', RtNumber 1), (''a'', RtDate ''2024-02-29'')] =
     Some [(''a'', RtDate ''2024-02-29'')] \<and>
   parse_submission [(''a'', RtDate ''2024-02-29'')] = Some [(''a'', RtDate ''2024-02-29'')]"
proof -
  have "parse_submission [('' a'', RtNumber 1), (''a'', RtDate ''2024-02-29'')] =
      Some [(''a'', RtDate ''2024-02-29'')]" by code_simp
  with parsed_submission_is_normal [OF this] show ?thesis by blast
qed

lemma validate_valid_iff:
  "inputs_valid (snd (validate_workflow_run_inputs w (Some vs))) \<longleftrightarrow>
     (\<forall>v \<in> set (variables w). variable_issue vs v = []) \<and>
     (\<forall>n \<in> fst ` set vs. n \<in> var_name ` set (variables w))"
proof -
  have v: "plan_variables (prepare_run_input_plan w) = variables w"
    by (simp add: prepare_run_input_plan_def analyze_workflow_inputs_def Let_def comp_def)
  show ?thesis
    by (auto simp: validate_workflow_run_inputs_def Let_def v filter_empty_conv)
qed

text \<open>
  Submitted inputs are valid exactly when every declared variable finds an own value of
  its kind, or finds nothing and is optional, and no undeclared name is submitted.
\<close>

lemma run_inputs_valid_iff:
  "inputs_valid (snd (validate_workflow_run_inputs w (Some vs))) =
     (list_all (\<lambda>v. case js_get vs (var_name v) of
          Own x \<Rightarrow> runtime_kind x = var_type v
        | Undefined \<Rightarrow> \<not> var_required v
        | Inherited \<Rightarrow> False) (variables w) \<and>
      list_all (\<lambda>kv. fst kv \<in> var_name ` set (variables w)) vs)"
  unfolding validate_valid_iff list_all_iff variable_issue_def value_matches_variable_def
  by (auto split: js_slot.splits if_splits)

text \<open>
  An optional variable that has the name of a member of \<open>Object.prototype\<close> and is not
  submitted makes the inputs invalid, because the lookup finds the inherited member.
\<close>

lemma prototype_named_variable_rejected:
  "v \<in> set (variables w) \<Longrightarrow> var_name v \<in> set object_prototype_members \<Longrightarrow>
   var_name v \<notin> fst ` set vs \<Longrightarrow>
     (RUNTIME_INPUT_TYPE_MISMATCH, Some (var_name v)) \<in>
       set (fst (validate_workflow_run_inputs w (Some vs)))"
proof -
  assume v: "v \<in> set (variables w)" "var_name v \<in> set object_prototype_members"
    and n: "var_name v \<notin> fst ` set vs"
  from n have "map_of vs (var_name v) = None" by (simp add: map_of_eq_None_iff)
  with v have i: "variable_issue vs v = [(RUNTIME_INPUT_TYPE_MISMATCH, Some (var_name v))]"
    by (simp add: variable_issue_def js_get_def)
  have p: "plan_variables (prepare_run_input_plan w) = variables w"
    by (simp add: prepare_run_input_plan_def analyze_workflow_inputs_def Let_def comp_def)
  from v i show ?thesis
    by (force simp: validate_workflow_run_inputs_def Let_def p)
qed

lemma prototype_named_variable_rejected_witness:
  "\<exists>w. \<not> var_required (hd (variables w)) \<and>
     (RUNTIME_INPUT_TYPE_MISMATCH, Some ''constructor'') \<in>
       set (fst (validate_workflow_run_inputs w (Some [])))"
proof -
  let ?v = "\<lparr>var_name = ''constructor'', var_label = None, var_type = VString, var_required = False,
             var_description = None\<rparr>"
  let ?w = "sample_workflow\<lparr>variables := [?v]\<rparr>"
  have "var_name ?v \<in> set object_prototype_members" by (simp add: object_prototype_members_def)
  then have "(RUNTIME_INPUT_TYPE_MISMATCH, Some (var_name ?v)) \<in>
      set (fst (validate_workflow_run_inputs ?w (Some [])))"
    by (intro prototype_named_variable_rejected) simp_all
  then show ?thesis by (intro exI [of _ ?w]) simp
qed

end
