(* ===== verification/Workflow_Verification.thy ===== *)
theory Workflow_Verification
  imports Workflow_Inputs
begin

text \<open>
  \<open>packages/workflow-verification/src\<close>: normalisation and comparison of the text and
  URLs that a verify step checks, and the analysis that rejects a verification which could
  not be evaluated safely. The platform's \<open>new URL(s)\<close> is the parameter
  \<open>url_of\<close>: \<open>None\<close> where it throws. A string of code units below 256 is already in
  normal form C, so \<open>normalize('NFC')\<close> is the identity here.
\<close>

definition MAX_VERIFICATION_URL_LENGTH :: nat where "MAX_VERIFICATION_URL_LENGTH = 2048"
definition MAX_VERIFICATION_TEXT_LENGTH :: nat where "MAX_VERIFICATION_TEXT_LENGTH = 4096"
definition MAX_VERIFICATION_FIELD_VALUE_LENGTH :: nat where
  "MAX_VERIFICATION_FIELD_VALUE_LENGTH = 4096"

section \<open>Text (text-normalization.ts)\<close>

text \<open>\<open>replace(/\s+/gu, ' ')\<close>\<close>

function collapse_space :: "string \<Rightarrow> string" where
  "collapse_space [] = []"
| "collapse_space (c # cs) =
     (if js_space c then CHR '' '' # collapse_space (dropWhile js_space cs)
      else c # collapse_space cs)"
  by pat_completeness auto
termination
  by (relation "measure length") (auto simp: le_imp_less_Suc length_dropWhile_le)

definition normalize_text :: "string \<Rightarrow> string option" where
  "normalize_text s =
     (if MAX_VERIFICATION_TEXT_LENGTH < length s then None else Some (trim (collapse_space s)))"

text \<open>\<open>String.prototype.includes\<close> and \<open>startsWith\<close>.\<close>

fun starts_with :: "string \<Rightarrow> string \<Rightarrow> bool" where
  "starts_with s [] = True"
| "starts_with [] (p # ps) = False"
| "starts_with (c # cs) (p # ps) = (c = p \<and> starts_with cs ps)"

fun js_includes :: "string \<Rightarrow> string \<Rightarrow> bool" where
  "js_includes [] p = (p = [])"
| "js_includes (c # cs) p = (starts_with (c # cs) p \<or> js_includes cs p)"

definition compare_text :: "string \<Rightarrow> string \<Rightarrow> text_match_mode \<Rightarrow> bool" where
  "compare_text actual expected mode =
     (case (normalize_text actual, normalize_text expected) of
        (Some l, Some r) \<Rightarrow> (case mode of MatchExact \<Rightarrow> l = r | MatchContains \<Rightarrow> js_includes l r)
      | _ \<Rightarrow> False)"

text \<open>\<open>String(v)\<close>; the text of a number is the language's, a parameter.\<close>

fun js_string :: "(rat \<Rightarrow> string) \<Rightarrow> literal \<Rightarrow> string" where
  "js_string num (LitString s) = s"
| "js_string num (LitNumber n) = num n"
| "js_string num (LitBool b) = (if b then ''true'' else ''false'')"

definition compare_field_value :: "(rat \<Rightarrow> string) \<Rightarrow> string \<Rightarrow> literal \<Rightarrow> bool" where
  "compare_field_value num actual expected \<longleftrightarrow>
     length actual \<le> MAX_VERIFICATION_TEXT_LENGTH \<and> actual = js_string num expected"

section \<open>URLs (url-normalization.ts)\<close>

record url =
  url_protocol :: string
  url_username :: string
  url_password :: string
  url_origin :: string
  url_hostname :: string
  url_port :: string
  url_pathname :: string
  url_search :: string
  url_hash :: string

type_synonym url_parser = "string \<Rightarrow> url option"

datatype url_failure = UrlInvalid | UrlUnsafe

definition normalize_url :: "url_parser \<Rightarrow> string \<Rightarrow> url_failure + (string \<times> string)" where
  "normalize_url url_of s =
     (if length s = 0 \<or> MAX_VERIFICATION_URL_LENGTH < length s then Inl UrlInvalid
      else case url_of s of
        None \<Rightarrow> Inl UrlInvalid
      | Some u \<Rightarrow>
          if (url_protocol u \<noteq> ''http:'' \<and> url_protocol u \<noteq> ''https:'') \<or>
             url_username u \<noteq> [] \<or> url_password u \<noteq> []
          then Inl UrlUnsafe
          else Inr (url_origin u, url_pathname u))"

definition compare_urls :: "url_parser \<Rightarrow> string \<Rightarrow> string \<Rightarrow> url_match_mode \<Rightarrow> bool" where
  "compare_urls url_of actual expected mode =
     (case (normalize_url url_of actual, normalize_url url_of expected) of
        (Inr (lo, lp), Inr (ro, rp)) \<Rightarrow> lo = ro \<and> (mode = MatchOrigin \<or> lp = rp)
      | _ \<Rightarrow> False)"

section \<open>Analysis (analysis.ts)\<close>

fun text_match_mode_of :: "workflow_assertion \<Rightarrow> text_match_mode option" where
  "text_match_mode_of (TextIs l (Some m) oper e) = Some m"
| "text_match_mode_of (TextIs l None oper e) =
     Some (if oper = Some OpEquals then MatchExact else MatchContains)"
| "text_match_mode_of a = None"

fun url_match_mode_of :: "workflow_assertion \<Rightarrow> url_match_mode option" where
  "url_match_mode_of (UrlIs (Some m) oper e) = Some m"
| "url_match_mode_of (UrlIs None oper e) =
     (if oper = Some OpEquals then Some MatchOriginAndPath else None)"
| "url_match_mode_of a = None"

fun expected_source :: "workflow_assertion \<Rightarrow> (value_source \<times> value_target) option" where
  "expected_source (UrlIs m oper e) = Some (e, VerifyUrlExpected)"
| "expected_source (TextIs l m oper e) = Some (e, VerifyTextExpected)"
| "expected_source (ValueIs l oper e) = Some (e, VerifyValueExpected)"
| "expected_source a = None"

datatype verification_issue_code =
    VERIFICATION_SECRET_EXPECTATION_FORBIDDEN
  | VERIFICATION_FILE_EXPECTATION_FORBIDDEN
  | VERIFICATION_EXPECTATION_TYPE_INCOMPATIBLE
  | VERIFICATION_EXPECTATION_TOO_LONG
  | VERIFICATION_URL_INVALID
  | VERIFICATION_URL_UNSAFE
  | VERIFICATION_LEGACY_OPERATOR_UNSUPPORTED

record verification_issue =
  vi_code :: verification_issue_code
  vi_path :: "path_segment list"
  vi_step_id :: string
  vi_step_index :: nat

definition verification_issue_at ::
  "workflow_step \<Rightarrow> nat \<Rightarrow> verification_issue_code \<Rightarrow> string \<Rightarrow> verification_issue" where
  "verification_issue_at st i c suffix =
     \<lparr>vi_code = c, vi_path = [PKey ''steps'', PIndex i, PKey ''assertion'', PKey suffix],
      vi_step_id = step_id st, vi_step_index = i\<rparr>"

text \<open>\<open>analyzeExpected\<close>: the code of the one issue it can report.\<close>

definition literal_issue :: "url_parser \<Rightarrow> value_target \<Rightarrow> literal \<Rightarrow> verification_issue_code option" where
  "literal_issue url_of target l =
     (if \<not> is_literal_compatible target l then Some VERIFICATION_EXPECTATION_TYPE_INCOMPATIBLE
      else case l of
        LitString s \<Rightarrow>
          let maximum = (if target = VerifyValueExpected then MAX_VERIFICATION_FIELD_VALUE_LENGTH
                         else MAX_VERIFICATION_TEXT_LENGTH)
          in if maximum < length s then Some VERIFICATION_EXPECTATION_TOO_LONG
             else if target = VerifyUrlExpected
             then (case normalize_url url_of s of
                     Inl UrlUnsafe \<Rightarrow> Some VERIFICATION_URL_UNSAFE
                   | Inl UrlInvalid \<Rightarrow> Some VERIFICATION_URL_INVALID
                   | Inr _ \<Rightarrow> None)
             else None
      | _ \<Rightarrow> None)"

fun source_issue ::
  "url_parser \<Rightarrow> workflow_variable list \<Rightarrow> value_target \<Rightarrow> value_source \<Rightarrow> verification_issue_code option"
where
  "source_issue url_of vs target (Secret n) = Some VERIFICATION_SECRET_EXPECTATION_FORBIDDEN"
| "source_issue url_of vs target (Variable n) =
     (case List.find (\<lambda>v. var_name v = n) vs of
        None \<Rightarrow> None
      | Some v \<Rightarrow>
          if var_type v = VFile then Some VERIFICATION_FILE_EXPECTATION_FORBIDDEN
          else if \<not> is_variable_type_compatible target (var_type v)
          then Some VERIFICATION_EXPECTATION_TYPE_INCOMPATIBLE else None)"
| "source_issue url_of vs target (Output n) = None"
| "source_issue url_of vs target (Literal l) = literal_issue url_of target l"

definition analyze_expected ::
  "url_parser \<Rightarrow> workflow_step \<Rightarrow> workflow_assertion \<Rightarrow> nat \<Rightarrow> workflow_variable list
    \<Rightarrow> verification_issue list" where
  "analyze_expected url_of st a i vs =
     (case expected_source a of
        None \<Rightarrow> []
      | Some (src, target) \<Rightarrow>
          (case source_issue url_of vs target src of
             None \<Rightarrow> []
           | Some c \<Rightarrow> [verification_issue_at st i c ''expected'']))"

fun is_url_assertion :: "workflow_assertion \<Rightarrow> bool" where
  "is_url_assertion (UrlIs m oper e) = True"
| "is_url_assertion a = False"

fun has_value_contains :: "workflow_assertion \<Rightarrow> bool" where
  "has_value_contains (ValueIs l oper e) = (oper = Some OpContains)"
| "has_value_contains a = False"

definition step_verification_issues ::
  "url_parser \<Rightarrow> workflow_variable list \<Rightarrow> nat \<Rightarrow> workflow_step \<Rightarrow> verification_issue list" where
  "step_verification_issues url_of vs i st =
     (case body st of
        Verify a t \<Rightarrow>
          (if is_url_assertion a \<and> url_match_mode_of a = None
           then [verification_issue_at st i VERIFICATION_LEGACY_OPERATOR_UNSUPPORTED ''operator''] else []) @
          (if has_value_contains a
           then [verification_issue_at st i VERIFICATION_LEGACY_OPERATOR_UNSUPPORTED ''operator''] else []) @
          analyze_expected url_of st a i vs
      | _ \<Rightarrow> [])"

record verification_analysis =
  has_valid_verification :: bool
  verification_step_count :: nat
  v_issues :: "verification_issue list"

definition is_verify :: "workflow_step \<Rightarrow> bool" where
  "is_verify st \<longleftrightarrow> step_type_of st = TVerify"

definition analyze_workflow_verifications :: "url_parser \<Rightarrow> workflow \<Rightarrow> verification_analysis" where
  "analyze_workflow_verifications url_of w =
     (let issues = concat (map (\<lambda>(i, st). step_verification_issues url_of (variables w) i st)
                            (List.enumerate 0 (steps w)));
          count = length (filter is_verify (steps w))
      in \<lparr>has_valid_verification =
            (0 < count \<and>
             (\<exists>st \<in> set (steps w). is_verify st \<and> \<not> (\<exists>x \<in> set issues. vi_step_id x = step_id st))),
          verification_step_count = count,
          v_issues = issues\<rparr>)"

section \<open>Normalised text is a normal form\<close>

text \<open>Every white-space character is a single space.\<close>

fun tidy :: "string \<Rightarrow> bool" where
  "tidy [] = True"
| "tidy [c] = (js_space c \<longrightarrow> c = CHR '' '')"
| "tidy (c # d # cs) = ((js_space c \<longrightarrow> c = CHR '' '' \<and> \<not> js_space d) \<and> tidy (d # cs))"

lemma js_space_space [simp]: "js_space CHR '' ''"
  by (simp add: js_space_def)

lemma tidy_Cons:
  "tidy (c # cs) \<longleftrightarrow>
     (js_space c \<longrightarrow> c = CHR '' '' \<and> (cs = [] \<or> \<not> js_space (hd cs))) \<and> tidy cs"
  by (cases cs) auto

lemma tidy_append_left: "tidy (xs @ ys) \<Longrightarrow> tidy xs"
proof (induction xs)
  case (Cons x xs)
  then show ?case by (cases xs) (auto simp: tidy_Cons)
qed simp

lemma tidy_dropWhile: "tidy xs \<Longrightarrow> tidy (dropWhile p xs)"
  by (induction xs) (auto simp: tidy_Cons)

lemma tidy_trim: "tidy s \<Longrightarrow> tidy (trim s)"
proof -
  assume "tidy s"
  then have "tidy (dropWhile js_space s)" by (rule tidy_dropWhile)
  moreover obtain ys where "dropWhile js_space s = trim s @ ys"
    unfolding trim_def
    by (metis rev_append rev_rev_ident takeWhile_dropWhile_id)
  ultimately show ?thesis by (metis tidy_append_left)
qed

lemma collapse_hd: "collapse_space s \<noteq> [] \<Longrightarrow> js_space (hd (collapse_space s)) \<longleftrightarrow> js_space (hd s)"
  by (cases s) auto

lemma collapse_Nil [simp]: "collapse_space s = [] \<longleftrightarrow> s = []"
  by (cases s) auto

lemma tidy_collapse: "tidy (collapse_space s)"
proof (induction s rule: collapse_space.induct)
  case (2 c cs)
  show ?case
  proof (cases "js_space c")
    case True
    let ?r = "dropWhile js_space cs"
    from 2 True have "tidy (collapse_space ?r)" by simp
    moreover have "collapse_space ?r = [] \<or> \<not> js_space (hd (collapse_space ?r))"
      using collapse_hd [of ?r] dropWhile_ends [of js_space cs] by auto
    ultimately show ?thesis using True by (simp add: tidy_Cons)
  qed (use 2 in \<open>simp add: tidy_Cons\<close>)
qed simp

lemma collapse_tidy: "tidy s \<Longrightarrow> collapse_space s = s"
proof (induction s)
  case (Cons c cs)
  then show ?case
    by (cases cs) (auto simp: tidy_Cons)
qed simp

lemma normalize_text_fixed:
  assumes "normalize_text s = Some t"
  shows "collapse_space t = t \<and> trim t = t"
proof -
  from assms have "t = trim (collapse_space s)"
    by (simp add: normalize_text_def split: if_splits)
  then show ?thesis by (simp add: collapse_tidy tidy_trim tidy_collapse)
qed

lemma collapse_length: "length (collapse_space s) \<le> length s"
proof (induction s rule: collapse_space.induct)
  case (2 c cs)
  then show ?case
    using length_dropWhile_le [of js_space cs] by (cases "js_space c") auto
qed simp

lemma normalize_text_idem: "normalize_text s = Some t \<Longrightarrow> normalize_text t = Some t"
proof -
  assume s: "normalize_text s = Some t"
  then have "length t \<le> MAX_VERIFICATION_TEXT_LENGTH"
    using length_trim [of "collapse_space s"] collapse_length [of s]
    by (auto simp: normalize_text_def split: if_splits)
  with normalize_text_fixed [OF s] show ?thesis by (simp add: normalize_text_def)
qed

lemma starts_with_iff: "starts_with s p \<longleftrightarrow> (\<exists>w. s = p @ w)"
  by (induction s p rule: starts_with.induct) auto

lemma includes_iff: "js_includes s p \<longleftrightarrow> (\<exists>u w. s = u @ p @ w)"
proof (induction s)
  case (Cons c cs)
  then show ?case
    by (auto simp: starts_with_iff Cons_eq_append_conv)
qed auto

section \<open>Properties\<close>

text \<open>
  Normalising a text is idempotent; the normal form has no leading, trailing or
  repeated white space.
\<close>

lemma normalized_text_is_normal:
  "normalize_text s = Some t \<Longrightarrow>
     normalize_text t = Some t \<and> trim t = t \<and> collapse_space t = t"
  using normalize_text_idem normalize_text_fixed by blast

lemma normalized_text_is_normal_witness:
  "normalize_text '' Order   42 '' = Some ''Order 42'' \<and> normalize_text ''Order 42'' = Some ''Order 42''"
proof -
  have "normalize_text '' Order   42 '' = Some ''Order 42''" by code_simp
  with normalized_text_is_normal [OF this] show ?thesis by blast
qed

lemma normalize_text_lookup: "normalize_text s = Some t \<Longrightarrow> t = trim (collapse_space s)"
  by (simp add: normalize_text_def split: if_splits)

text \<open>
  Two texts within the limit match exactly when their normal forms are equal, and one
  contains the other when its normal form is a factor of the other's; over the limit
  nothing matches.
\<close>

lemma compare_text_spec:
  "compare_text a b m =
     (length a \<le> MAX_VERIFICATION_TEXT_LENGTH \<and> length b \<le> MAX_VERIFICATION_TEXT_LENGTH \<and>
      (case m of
         MatchExact \<Rightarrow> trim (collapse_space a) = trim (collapse_space b)
       | MatchContains \<Rightarrow> (\<exists>u v. trim (collapse_space a) = u @ trim (collapse_space b) @ v)))"
  by (cases m) (auto simp: compare_text_def normalize_text_def includes_iff split: option.splits)

end
