(* ===== verification/Workflow_Extraction.thy ===== *)
theory Workflow_Extraction
  imports Workflow_Inputs
begin

text \<open>
  \<open>packages/workflow-extraction/src\<close>: the outputs a workflow defines and the data-flow
  analysis of their uses. \<open>localeCompare\<close>, which depends on the host's locale, is the
  parameter \<open>cmp\<close>; it only orders the reported issues.
\<close>

section \<open>Output definitions (output-definitions.ts)\<close>

datatype output_type = OString | OBoolean

fun output_variable_type :: "output_type \<Rightarrow> variable_type" where
  "output_variable_type OString = VString"
| "output_variable_type OBoolean = VBoolean"

fun output_type_for_source :: "extract_source \<Rightarrow> output_type option" where
  "output_type_for_source FromText = Some OString"
| "output_type_for_source FromValue = Some OString"
| "output_type_for_source (FromUrl m) = Some OString"
| "output_type_for_source FromChecked = Some OBoolean"
| "output_type_for_source (FromAttribute n) = None"

record output_definition =
  od_name :: string
  od_label :: "string option"
  od_type :: output_type
  od_step_id :: string
  od_index :: nat

definition step_output :: "nat \<Rightarrow> workflow_step \<Rightarrow> output_definition option" where
  "step_output i st =
     (case body st of
        Extract l src n lb t \<Rightarrow>
          (case output_type_for_source src of
             None \<Rightarrow> None
           | Some ty \<Rightarrow> Some \<lparr>od_name = n, od_label = lb, od_type = ty, od_step_id = step_id st, od_index = i\<rparr>)
      | _ \<Rightarrow> None)"

definition define_workflow_outputs :: "workflow \<Rightarrow> output_definition list" where
  "define_workflow_outputs w =
     List.map_filter (\<lambda>(i, st). step_output i st) (List.enumerate 0 (steps w))"

section \<open>Compatibility (compatibility.ts)\<close>

definition is_output_type_compatible :: "value_target \<Rightarrow> output_type \<Rightarrow> bool" where
  "is_output_type_compatible t ty \<longleftrightarrow>
     (if t = NavigateUrl then False
      else output_variable_type ty \<in> set (variable_types (get_compatibility t)))"

section \<open>Issues and their order (contracts.ts, analysis.ts)\<close>

datatype extraction_issue_code =
    EX_INVALID_WORKFLOW_DEFINITION
  | UNSUPPORTED_EXTRACTION_SOURCE
  | DUPLICATE_OUTPUT_NAME
  | UNKNOWN_OUTPUT_REFERENCE
  | OUTPUT_REFERENCE_BEFORE_PRODUCER
  | OUTPUT_SELF_REFERENCE
  | OUTPUT_TYPE_INCOMPATIBLE
  | OUTPUT_NAVIGATE_FORBIDDEN
  | UNUSED_OUTPUT

fun extraction_code_string :: "extraction_issue_code \<Rightarrow> string" where
  "extraction_code_string EX_INVALID_WORKFLOW_DEFINITION = ''INVALID_WORKFLOW_DEFINITION''"
| "extraction_code_string UNSUPPORTED_EXTRACTION_SOURCE = ''UNSUPPORTED_EXTRACTION_SOURCE''"
| "extraction_code_string DUPLICATE_OUTPUT_NAME = ''DUPLICATE_OUTPUT_NAME''"
| "extraction_code_string UNKNOWN_OUTPUT_REFERENCE = ''UNKNOWN_OUTPUT_REFERENCE''"
| "extraction_code_string OUTPUT_REFERENCE_BEFORE_PRODUCER = ''OUTPUT_REFERENCE_BEFORE_PRODUCER''"
| "extraction_code_string OUTPUT_SELF_REFERENCE = ''OUTPUT_SELF_REFERENCE''"
| "extraction_code_string OUTPUT_TYPE_INCOMPATIBLE = ''OUTPUT_TYPE_INCOMPATIBLE''"
| "extraction_code_string OUTPUT_NAVIGATE_FORBIDDEN = ''OUTPUT_NAVIGATE_FORBIDDEN''"
| "extraction_code_string UNUSED_OUTPUT = ''UNUSED_OUTPUT''"

record extraction_issue =
  xi_code :: extraction_issue_code
  xi_severity :: severity
  xi_path :: "path_segment list"
  xi_step_id :: "string option"
  xi_step_index :: "nat option"
  xi_output :: "string option"

definition extraction_issue_at ::
  "extraction_issue_code \<Rightarrow> severity \<Rightarrow> path_segment list \<Rightarrow> string \<Rightarrow> nat \<Rightarrow> string \<Rightarrow> extraction_issue" where
  "extraction_issue_at c sev p sid i n =
     \<lparr>xi_code = c, xi_severity = sev, xi_path = p, xi_step_id = Some sid,
      xi_step_index = Some i, xi_output = Some n\<rparr>"

fun nat_string :: "nat \<Rightarrow> string" where
  "nat_string n =
     (if n < 10 then [char_of (48 + n)] else nat_string (n div 10) @ [char_of (48 + n mod 10)])"

declare nat_string.simps [simp del]

text \<open>\<open>JSON.stringify\<close> of a path; its keys are plain words that need no escape.\<close>

fun segment_json :: "path_segment \<Rightarrow> string" where
  "segment_json (PKey k) = CHR 0x22 # k @ [CHR 0x22]"
| "segment_json (PIndex n) = nat_string n"

definition path_json :: "path_segment list \<Rightarrow> string" where
  "path_json p = ''['' @ concat (case map segment_json p of [] \<Rightarrow> [] | s # ss \<Rightarrow> s # map (\<lambda>t. '','' @ t) ss) @ '']''"

definition compare_issues ::
  "(string \<Rightarrow> string \<Rightarrow> int) \<Rightarrow> extraction_issue \<Rightarrow> extraction_issue \<Rightarrow> int" where
  "compare_issues cmp l r =
     (let index = (\<lambda>x. case xi_step_index x of None \<Rightarrow> 9007199254740991 | Some i \<Rightarrow> int i);
          name = (\<lambda>x. case xi_output x of None \<Rightarrow> [] | Some n \<Rightarrow> n);
          pathc = cmp (path_json (xi_path l)) (path_json (xi_path r));
          codec = cmp (extraction_code_string (xi_code l)) (extraction_code_string (xi_code r))
      in if index l \<noteq> index r then index l - index r
         else if pathc \<noteq> 0 then pathc
         else if codec \<noteq> 0 then codec
         else cmp (name l) (name r))"

section \<open>The analysis (analysis.ts)\<close>

record producer_scan =
  producers :: "(string \<times> output_definition) list"
  producer_issues :: "extraction_issue list"

definition scan_producer ::
  "output_definition list \<Rightarrow> nat \<times> workflow_step \<Rightarrow> producer_scan \<Rightarrow> producer_scan" where
  "scan_producer outputs a s =
     (case a of (i, st) \<Rightarrow>
        case body st of
          Extract l src n lb t \<Rightarrow>
            (case output_type_for_source src of
               None \<Rightarrow> s\<lparr>producer_issues := producer_issues s @
                 [extraction_issue_at UNSUPPORTED_EXTRACTION_SOURCE Blocking
                    [PKey ''steps'', PIndex i, PKey ''source''] (step_id st) i n]\<rparr>
             | Some ty \<Rightarrow>
                 (case List.find (\<lambda>d. od_index d = i) outputs of
                    None \<Rightarrow> s
                  | Some d \<Rightarrow>
                      if map_of (producers s) (od_name d) \<noteq> None
                      then s\<lparr>producer_issues := producer_issues s @
                             [extraction_issue_at DUPLICATE_OUTPUT_NAME Blocking
                                [PKey ''steps'', PIndex i, PKey ''outputName''] (step_id st) i (od_name d)]\<rparr>
                      else s\<lparr>producers := producers s @ [(od_name d, d)]\<rparr>))
        | _ \<Rightarrow> s)"

definition scan_producers :: "workflow \<Rightarrow> producer_scan" where
  "scan_producers w =
     fold (scan_producer (define_workflow_outputs w)) (List.enumerate 0 (steps w))
       \<lparr>producers = [], producer_issues = []\<rparr>"

record output_usage =
  ou_name :: string
  ou_step_id :: string
  ou_index :: nat
  ou_target :: value_target
  ou_path :: "path_segment list"

fun output_usage_of :: "located \<Rightarrow> output_usage option" where
  "output_usage_of (Output n, u) =
     Some \<lparr>ou_name = n, ou_step_id = use_step_id u, ou_index = use_step_index u,
           ou_target = use_target u, ou_path = use_path u\<rparr>"
| "output_usage_of (src, u) = None"

definition usage_issues ::
  "(string \<Rightarrow> output_definition option) \<Rightarrow> output_usage \<Rightarrow> extraction_issue list" where
  "usage_issues producer u =
     (let mk = (\<lambda>c. extraction_issue_at c Blocking (ou_path u) (ou_step_id u) (ou_index u) (ou_name u))
      in (if ou_target u = NavigateUrl then [mk OUTPUT_NAVIGATE_FORBIDDEN] else []) @
         (case producer (ou_name u) of
            None \<Rightarrow> [mk UNKNOWN_OUTPUT_REFERENCE]
          | Some p \<Rightarrow>
              (if od_index p = ou_index u then [mk OUTPUT_SELF_REFERENCE]
               else if od_index p > ou_index u then [mk OUTPUT_REFERENCE_BEFORE_PRODUCER] else []) @
              (if \<not> is_output_type_compatible (ou_target u) (od_type p)
               then [mk OUTPUT_TYPE_INCOMPATIBLE] else [])))"

definition unused_output_issues ::
  "output_usage list \<Rightarrow> output_definition \<Rightarrow> extraction_issue list" where
  "unused_output_issues us d =
     (if \<exists>u \<in> set us. ou_name u = od_name d then []
      else [extraction_issue_at UNUSED_OUTPUT Warning
              [PKey ''steps'', PIndex (od_index d), PKey ''outputName''] (od_step_id d) (od_index d) (od_name d)])"

record extraction_analysis =
  xa_outputs :: "output_definition list"
  xa_usages :: "output_usage list"
  xa_issues :: "extraction_issue list"
  xa_blocking :: bool

definition extraction_report ::
  "(string \<Rightarrow> string \<Rightarrow> int) \<Rightarrow> workflow \<Rightarrow> extraction_analysis" where
  "extraction_report cmp w =
     (let outputs = define_workflow_outputs w;
          s = scan_producers w;
          us = List.map_filter output_usage_of (find_value_sources w);
          issues = sort_by (compare_issues cmp)
            (producer_issues s @
             concat (map (usage_issues (map_of (producers s))) us) @
             concat (map (unused_output_issues us) outputs))
      in \<lparr>xa_outputs = outputs, xa_usages = us, xa_issues = issues,
          xa_blocking = (\<exists>x \<in> set issues. xi_severity x = Blocking)\<rparr>)"

text \<open>
  \<open>WorkflowExtractionAnalysisSchema.parse\<close> bounds the step ids that the analysis
  reports; a workflow definition does not bound its ids, so the final parse can throw
  (\<open>None\<close>).
\<close>

definition MAX_REPORTED_ID :: nat where "MAX_REPORTED_ID = 256"

definition extraction_schema_ok :: "extraction_analysis \<Rightarrow> bool" where
  "extraction_schema_ok a \<longleftrightarrow>
     list_all (\<lambda>d. length (od_step_id d) \<le> MAX_REPORTED_ID) (xa_outputs a) \<and>
     list_all (\<lambda>u. length (ou_step_id u) \<le> MAX_REPORTED_ID) (xa_usages a) \<and>
     list_all (\<lambda>x. case xi_step_id x of None \<Rightarrow> True | Some i \<Rightarrow> length i \<le> MAX_REPORTED_ID) (xa_issues a)"

definition analyze_workflow_extraction ::
  "(string \<Rightarrow> string \<Rightarrow> int) \<Rightarrow> workflow \<Rightarrow> extraction_analysis option" where
  "analyze_workflow_extraction cmp w =
     (let a = extraction_report cmp w in if extraction_schema_ok a then Some a else None)"

definition invalid_extraction_analysis :: extraction_analysis where
  "invalid_extraction_analysis =
     \<lparr>xa_outputs = [], xa_usages = [],
      xa_issues = [\<lparr>xi_code = EX_INVALID_WORKFLOW_DEFINITION, xi_severity = Blocking, xi_path = [],
                    xi_step_id = None, xi_step_index = None, xi_output = None\<rparr>],
      xa_blocking = True\<rparr>"

section \<open>Lemmas\<close>

lemma extraction_issue_at_severity [simp]: "xi_severity (extraction_issue_at c sev p sid i n) = sev"
  by (simp add: extraction_issue_at_def)

lemma step_output_index: "step_output i st = Some d \<Longrightarrow> od_index d = i \<and> od_step_id d = step_id st"
  by (auto simp: step_output_def split: step_body.splits option.splits)

definition outputs_in :: "(nat \<times> workflow_step) list \<Rightarrow> output_definition list" where
  "outputs_in = List.map_filter (\<lambda>(i, st). step_output i st)"

lemma outputs_in_simps [simp]:
  "outputs_in [] = []"
  "outputs_in ((i, st) # xs) =
     (case step_output i st of None \<Rightarrow> outputs_in xs | Some d \<Rightarrow> d # outputs_in xs)"
  by (simp_all add: outputs_in_def map_filter_simps split: option.splits)

lemma set_outputs_in:
  "d \<in> set (outputs_in xs) \<longleftrightarrow> (\<exists>a \<in> set xs. step_output (fst a) (snd a) = Some d)"
  by (induction xs) (auto split: option.splits)

lemma define_outputs_in: "define_workflow_outputs w = outputs_in (List.enumerate 0 (steps w))"
  by (simp add: define_workflow_outputs_def outputs_in_def)

lemma set_define_outputs:
  "set (define_workflow_outputs w) = {d. \<exists>i < length (steps w). step_output i (steps w ! i) = Some d}"
proof -
  have "d \<in> set (define_workflow_outputs w) \<longleftrightarrow>
      (\<exists>i < length (steps w). step_output i (steps w ! i) = Some d)" for d
    unfolding define_outputs_in set_outputs_in by (metis fst_conv snd_conv mem_enumerate prod.exhaust_sel)
  then show ?thesis by blast
qed

lemma find_output_at:
  assumes "i < length (steps w)"
  shows "List.find (\<lambda>d. od_index d = i) (define_workflow_outputs w) = step_output i (steps w ! i)"
proof (cases "List.find (\<lambda>d. od_index d = i) (define_workflow_outputs w)")
  case None
  have False if "step_output i (steps w ! i) = Some d" for d
  proof -
    from that assms have "d \<in> set (define_workflow_outputs w)" and "od_index d = i"
      by (auto simp: set_define_outputs dest: step_output_index)
    with None show False by (auto simp: find_None_iff)
  qed
  with None show ?thesis by (cases "step_output i (steps w ! i)") auto
next
  case (Some e)
  then have e: "e \<in> set (define_workflow_outputs w)" and "od_index e = i"
    using find_Some_set by fast+
  then have "step_output i (steps w ! i) = Some e"
    by (auto simp: set_define_outputs dest: step_output_index)
  with Some show ?thesis by simp
qed

definition is_extract :: "workflow_step \<Rightarrow> bool" where
  "is_extract st \<longleftrightarrow> step_type_of st = TExtract"

lemma not_extract_no_output: "\<not> is_extract st \<Longrightarrow> step_output i st = None"
  by (auto simp: is_extract_def step_output_def split: step_body.splits)

text \<open>
  The producer loop in terms of the outputs of the steps it has visited: the first
  definition of a name is kept, and a round reports an issue exactly for an extract step
  without an output and for a name that is already there.
\<close>

definition finds_outputs :: "output_definition list \<Rightarrow> (nat \<times> workflow_step) list \<Rightarrow> bool" where
  "finds_outputs outputs xs \<longleftrightarrow>
     (\<forall>a \<in> set xs. List.find (\<lambda>d. od_index d = fst a) outputs = step_output (fst a) (snd a))"

abbreviation first_named :: "string \<Rightarrow> output_definition list \<Rightarrow> output_definition option" where
  "first_named n \<equiv> List.find (\<lambda>d. od_name d = n)"

lemma first_named_append:
  "first_named n (xs @ ys) = (case first_named n xs of Some d \<Rightarrow> Some d | None \<Rightarrow> first_named n ys)"
  by (induction xs) auto

lemma outputs_in_Cons: "outputs_in (a # xs) = outputs_in [a] @ outputs_in xs"
  by (cases a) (auto split: option.splits)

lemma scan_producer_lookup:
  assumes "List.find (\<lambda>d. od_index d = fst a) outputs = step_output (fst a) (snd a)"
  shows "map_of (producers (scan_producer outputs a s)) n =
     (case map_of (producers s) n of Some d \<Rightarrow> Some d | None \<Rightarrow> first_named n (outputs_in [a]))"
  using assms
  by (cases a) (auto simp: scan_producer_def step_output_def map_add_def
      split: step_body.splits option.splits)

lemma scan_producer_issues:
  assumes "List.find (\<lambda>d. od_index d = fst a) outputs = step_output (fst a) (snd a)"
  shows "producer_issues (scan_producer outputs a s) = [] \<longleftrightarrow>
     producer_issues s = [] \<and> (is_extract (snd a) \<longrightarrow> step_output (fst a) (snd a) \<noteq> None) \<and>
     (\<forall>d \<in> set (outputs_in [a]). map_of (producers s) (od_name d) = None)"
  using assms
  by (cases a) (auto simp: scan_producer_def step_output_def is_extract_def
      split: step_body.splits option.splits)

lemma fold_scan_producer_lookup:
  "finds_outputs outputs xs \<Longrightarrow>
   map_of (producers (fold (scan_producer outputs) xs s)) n =
     (case map_of (producers s) n of Some d \<Rightarrow> Some d | None \<Rightarrow> first_named n (outputs_in xs))"
proof (induction xs arbitrary: s)
  case (Cons a xs)
  then have "finds_outputs outputs xs"
    and a: "List.find (\<lambda>d. od_index d = fst a) outputs = step_output (fst a) (snd a)"
    by (auto simp: finds_outputs_def)
  then show ?case
    using Cons.IH [of "scan_producer outputs a s"]
    unfolding fold_simps scan_producer_lookup [OF a] outputs_in_Cons [of a xs] first_named_append
    by (simp split: option.split)
qed (simp split: option.split)

lemma fold_scan_producer_issues:
  "finds_outputs outputs xs \<Longrightarrow>
   producer_issues (fold (scan_producer outputs) xs s) = [] \<longleftrightarrow>
     producer_issues s = [] \<and>
     (\<forall>a \<in> set xs. is_extract (snd a) \<longrightarrow> step_output (fst a) (snd a) \<noteq> None) \<and>
     distinct (map od_name (outputs_in xs)) \<and>
     (\<forall>d \<in> set (outputs_in xs). map_of (producers s) (od_name d) = None)"
proof (induction xs arbitrary: s)
  case (Cons a xs)
  then have fs: "finds_outputs outputs xs"
    and a: "List.find (\<lambda>d. od_index d = fst a) outputs = step_output (fst a) (snd a)"
    by (auto simp: finds_outputs_def)
  have fresh: "map_of (producers (scan_producer outputs a s)) n = None \<longleftrightarrow>
      map_of (producers s) n = None \<and> (\<forall>d \<in> set (outputs_in [a]). od_name d \<noteq> n)" for n
    unfolding scan_producer_lookup [OF a] by (auto simp: find_None_iff split: option.splits)
  have "distinct (map od_name (outputs_in [a]))"
    by (cases a) (auto split: option.splits)
  then show ?case
    unfolding fold_simps Cons.IH [OF fs] scan_producer_issues [OF a] outputs_in_Cons [of a xs] fresh
    by (auto simp del: outputs_in_simps(2))
qed simp

section \<open>What the analysis decides\<close>

text \<open>The first definition of a name, and the data-flow discipline the analysis enforces.\<close>

definition producer_of :: "workflow \<Rightarrow> string \<Rightarrow> output_definition option" where
  "producer_of w n = List.find (\<lambda>d. od_name d = n) (define_workflow_outputs w)"

definition usage_ok :: "workflow \<Rightarrow> output_usage \<Rightarrow> bool" where
  "usage_ok w u \<longleftrightarrow>
     (case producer_of w (ou_name u) of
        None \<Rightarrow> False
      | Some d \<Rightarrow>
          od_index d < ou_index u \<and> ou_target u \<noteq> NavigateUrl \<and>
          output_variable_type (od_type d) \<in> set (variable_types (get_compatibility (ou_target u))))"

definition output_usages :: "workflow \<Rightarrow> output_usage list" where
  "output_usages w = List.map_filter output_usage_of (find_value_sources w)"

definition dataflow_ok :: "workflow \<Rightarrow> bool" where
  "dataflow_ok w \<longleftrightarrow>
     (\<forall>st \<in> set (steps w). is_extract st \<longrightarrow> step_output 0 st \<noteq> None) \<and>
     distinct (map od_name (define_workflow_outputs w)) \<and>
     (\<forall>u \<in> set (output_usages w). usage_ok w u)"

lemma step_output_None: "step_output i st = None \<longleftrightarrow> step_output j st = None"
  by (auto simp: step_output_def split: step_body.splits option.splits)

lemma scan_producers_spec:
  "map_of (producers (scan_producers w)) n = producer_of w n \<and>
   (producer_issues (scan_producers w) = [] \<longleftrightarrow>
     (\<forall>st \<in> set (steps w). is_extract st \<longrightarrow> step_output 0 st \<noteq> None) \<and>
     distinct (map od_name (define_workflow_outputs w)))"
proof -
  have "(\<forall>a \<in> set (List.enumerate 0 (steps w)). is_extract (snd a) \<longrightarrow> step_output (fst a) (snd a) \<noteq> None)
      \<longleftrightarrow> (\<forall>st \<in> set (steps w). is_extract st \<longrightarrow> step_output 0 st \<noteq> None)"
    by (metis (no_types, lifting) step_output_None fst_conv snd_conv in_set_conv_nth mem_enumerate
        prod.exhaust_sel)
  moreover have "finds_outputs (define_workflow_outputs w) (List.enumerate 0 (steps w))"
    by (auto simp: finds_outputs_def find_output_at)
  ultimately show ?thesis
    using fold_scan_producer_lookup [of "define_workflow_outputs w" "List.enumerate 0 (steps w)"
        "\<lparr>producers = [], producer_issues = []\<rparr>" n]
      fold_scan_producer_issues [of "define_workflow_outputs w" "List.enumerate 0 (steps w)"
        "\<lparr>producers = [], producer_issues = []\<rparr>"]
    by (simp add: scan_producers_def producer_of_def define_outputs_in [symmetric])
qed

lemma scan_producer_blocking:
  "\<forall>x \<in> set (producer_issues s). xi_severity x = Blocking \<Longrightarrow>
   \<forall>x \<in> set (producer_issues (scan_producer outputs a s)). xi_severity x = Blocking"
  by (auto simp: scan_producer_def split: prod.splits step_body.splits option.splits)

lemma producer_issues_blocking:
  "\<forall>x \<in> set (producer_issues s). xi_severity x = Blocking \<Longrightarrow>
   \<forall>x \<in> set (producer_issues (fold (scan_producer outputs) xs s)). xi_severity x = Blocking"
proof (induction xs arbitrary: s)
  case (Cons a xs)
  show ?case using Cons.IH [OF scan_producer_blocking [OF Cons.prems]] by simp
qed simp

lemma usage_issues_Nil: "usage_issues (producer_of w) u = [] \<longleftrightarrow> usage_ok w u"
  by (auto simp: usage_issues_def usage_ok_def is_output_type_compatible_def Let_def
      split: option.splits)

lemma usage_issues_blocking: "x \<in> set (usage_issues p u) \<Longrightarrow> xi_severity x = Blocking"
  by (auto simp: usage_issues_def Let_def split: option.splits if_splits)

lemma unused_output_not_blocking: "x \<in> set (unused_output_issues us d) \<Longrightarrow> xi_severity x = Warning"
  by (auto simp: unused_output_issues_def split: if_splits)

lemma extraction_blocking_iff: "xa_blocking (extraction_report cmp w) \<longleftrightarrow> \<not> dataflow_ok w"
proof -
  let ?s = "scan_producers w"
  have p: "map_of (producers ?s) = producer_of w" using scan_producers_spec by fast
  have "\<forall>x \<in> set (producer_issues ?s). xi_severity x = Blocking"
    unfolding scan_producers_def by (rule producer_issues_blocking) simp
  then have 1: "(\<exists>x \<in> set (producer_issues ?s). xi_severity x = Blocking) \<longleftrightarrow> producer_issues ?s \<noteq> []"
    by (metis list.set_intros(1) neq_Nil_conv empty_iff list.set(1))
  have 2: "(\<exists>x \<in> set (usage_issues (producer_of w) u). xi_severity x = Blocking) \<longleftrightarrow> \<not> usage_ok w u" for u
    using usage_issues_blocking [of _ "producer_of w" u] usage_issues_Nil [of w u]
    by (metis list.set_intros(1) neq_Nil_conv empty_iff list.set(1))
  have "xa_blocking (extraction_report cmp w) \<longleftrightarrow>
      (\<exists>x \<in> set (producer_issues ?s). xi_severity x = Blocking) \<or>
      (\<exists>u \<in> set (output_usages w). \<exists>x \<in> set (usage_issues (producer_of w) u). xi_severity x = Blocking)"
    by (auto simp: extraction_report_def Let_def p output_usages_def
        dest: unused_output_not_blocking)
  then show ?thesis
    unfolding 1 2 using scan_producers_spec by (auto simp: dataflow_ok_def)
qed

section \<open>Properties\<close>

text \<open>
  C39: the extraction analysis blocks a workflow exactly when its data flow is undisciplined:
  an extract step without a supported source, two outputs of one name, or a use of an output
  that does not exist, is not produced by an earlier step, has the wrong type or is a
  navigation target.
\<close>

theorem extraction_blocks_iff_undisciplined:
  "xa_blocking (extraction_report cmp w) = (\<not> dataflow_ok w)"
  by (rule extraction_blocking_iff)

end
