(* ===== verification/Workflow_Approval.thy ===== *)
theory Workflow_Approval
  imports Workflow_Schema
begin

text \<open>
  \<open>packages/workflow-approval/src\<close>: the status machine of approval requests and the
  analysis that binds each approval step to the step right after it.
\<close>

section \<open>Status machine (contracts.ts, approval-state-machine.ts)\<close>

datatype approval_status =
  ApPending | ApApproved | ApRejected | ApExpired | ApCancelled | ApInvalidated

datatype approval_decision =
  DecApproved | DecRejected | DecExpired | DecCancelled | DecInvalidated

fun approval_transitions :: "approval_status \<Rightarrow> approval_status list" where
  "approval_transitions ApPending = [ApApproved, ApRejected, ApExpired, ApCancelled, ApInvalidated]"
| "approval_transitions _ = []"

definition can_transition_approval_request :: "approval_status \<Rightarrow> approval_status \<Rightarrow> bool" where
  "can_transition_approval_request c n \<longleftrightarrow> n \<in> set (approval_transitions c)"

definition is_terminal_approval_status :: "approval_status \<Rightarrow> bool" where
  "is_terminal_approval_status s \<longleftrightarrow> s \<noteq> ApPending"

interpretation approval_machine: transition_table approval_transitions is_terminal_approval_status
proof unfold_locales
  fix s show "is_terminal_approval_status s \<longleftrightarrow> approval_transitions s = []"
    by (cases s) (auto simp: is_terminal_approval_status_def)
qed

lemma approval_decided_once:
  assumes "history approval_transitions (ApPending # ss)"
  shows "length ss \<le> 1"
proof (cases ss)
  case (Cons s ts)
  with assms have "s \<noteq> ApPending" by (auto simp: can_move_def)
  then have "ts = []"
    using approval_machine.history_terminal_last [of "[ApPending]" s ts] assms Cons
    by (auto simp: is_terminal_approval_status_def)
  with Cons show ?thesis by simp
qed simp

section \<open>Bindings (approval-analysis.ts)\<close>

record approval_binding =
  ab_step_id :: string
  ab_index :: nat
  ab_gated_id :: string
  ab_gated_index :: nat
  ab_risk :: risk_level
  ab_timeout :: int

datatype approval_issue_code = APPROVAL_STEP_ORPHANED | APPROVAL_GATED_STEP_INVALID

record approval_issue =
  ai_code :: approval_issue_code
  ai_step_id :: string
  ai_index :: nat

record approval_analysis =
  aa_bindings :: "approval_binding list"
  aa_issues :: "approval_issue list"
  aa_blocking :: bool

definition is_approval :: "workflow_step \<Rightarrow> bool" where
  "is_approval st \<longleftrightarrow> step_type_of st = TApproval"

definition approval_scan ::
  "workflow_step list \<Rightarrow> nat \<times> workflow_step \<Rightarrow> approval_binding list \<times> approval_issue list
    \<Rightarrow> approval_binding list \<times> approval_issue list" where
  "approval_scan sts a acc =
     (case (a, acc) of ((i, st), (bs, xs)) \<Rightarrow>
        case body st of
          Approval m r t \<Rightarrow>
            if i + 1 < length sts
            then (bs @ [\<lparr>ab_step_id = step_id st, ab_index = i, ab_gated_id = step_id (sts ! (i + 1)),
                         ab_gated_index = i + 1, ab_risk = r, ab_timeout = t\<rparr>], xs)
            else (bs, xs @ [\<lparr>ai_code = APPROVAL_STEP_ORPHANED, ai_step_id = step_id st, ai_index = i\<rparr>])
        | _ \<Rightarrow> (bs, xs))"

definition approval_report :: "workflow \<Rightarrow> approval_analysis" where
  "approval_report w =
     (case fold (approval_scan (steps w)) (List.enumerate 0 (steps w)) ([], []) of
        (bs, xs) \<Rightarrow> \<lparr>aa_bindings = bs, aa_issues = xs, aa_blocking = (xs \<noteq> [])\<rparr>)"

text \<open>
  \<open>WorkflowApprovalAnalysisSchema.parse\<close>: reported ids have at most 256 code units and
  there are at most 1000 bindings and issues; otherwise it throws (\<open>None\<close>).
\<close>

definition MAX_APPROVAL_ID :: nat where "MAX_APPROVAL_ID = 256"
definition MAX_APPROVAL_ISSUES :: nat where "MAX_APPROVAL_ISSUES = 1000"

definition binding_schema_ok :: "approval_binding \<Rightarrow> bool" where
  "binding_schema_ok b \<longleftrightarrow>
     length (ab_step_id b) \<le> MAX_APPROVAL_ID \<and> length (ab_gated_id b) \<le> MAX_APPROVAL_ID \<and>
     MIN_APPROVAL_TIMEOUT_MS \<le> ab_timeout b \<and> ab_timeout b \<le> MAX_APPROVAL_TIMEOUT_MS"

definition analyze_workflow_approvals :: "workflow \<Rightarrow> approval_analysis option" where
  "analyze_workflow_approvals w =
     (let a = approval_report w
      in if list_all binding_schema_ok (aa_bindings a) \<and>
            list_all (\<lambda>x. length (ai_step_id x) \<le> MAX_APPROVAL_ID) (aa_issues a) \<and>
            length (aa_bindings a) \<le> MAX_APPROVAL_ISSUES \<and> length (aa_issues a) \<le> MAX_APPROVAL_ISSUES
         then Some a else None)"

text \<open>\<open>requireApprovalBinding\<close>; \<open>None\<close> where it throws.\<close>

definition require_approval_binding :: "workflow \<Rightarrow> string \<Rightarrow> string option \<Rightarrow> approval_binding option" where
  "require_approval_binding w sid gated =
     (case analyze_workflow_approvals w of
        None \<Rightarrow> None
      | Some a \<Rightarrow>
          (case List.find (\<lambda>b. ab_step_id b = sid) (aa_bindings a) of
             None \<Rightarrow> None
           | Some b \<Rightarrow>
               if ab_gated_id b \<noteq> (case gated of None \<Rightarrow> ab_gated_id b | Some g \<Rightarrow> g) then None
               else Some b))"

section \<open>What the bindings are\<close>

definition binding_at :: "workflow_step list \<Rightarrow> nat \<Rightarrow> approval_binding \<Rightarrow> bool" where
  "binding_at sts i b \<longleftrightarrow>
     i + 1 < length sts \<and> ab_index b = i \<and> ab_step_id b = step_id (sts ! i) \<and>
     ab_gated_index b = i + 1 \<and> ab_gated_id b = step_id (sts ! (i + 1)) \<and>
     (\<exists>m. body (sts ! i) = Approval m (ab_risk b) (ab_timeout b))"

lemma approval_scan_step:
  assumes "i < length sts"
  shows "approval_scan sts (i, sts ! i) (bs, xs) = (bs', xs') \<Longrightarrow>
     (\<forall>b \<in> set bs'. b \<in> set bs \<or> binding_at sts i b) \<and> set bs \<subseteq> set bs' \<and>
     (is_approval (sts ! i) \<and> i + 1 < length sts \<longrightarrow> (\<exists>b \<in> set bs'. binding_at sts i b)) \<and>
     (xs' = [] \<longleftrightarrow> xs = [] \<and> \<not> (is_approval (sts ! i) \<and> length sts \<le> i + 1))"
  using assms
  by (auto simp: approval_scan_def binding_at_def is_approval_def split: step_body.splits if_splits)

lemma fold_approval_scan:
  assumes "\<forall>a \<in> set as. fst a < length sts \<and> snd a = sts ! fst a"
    and "fold (approval_scan sts) as (bs, xs) = (bs', xs')"
  shows "(\<forall>b \<in> set bs'. b \<in> set bs \<or> (\<exists>a \<in> set as. binding_at sts (fst a) b)) \<and> set bs \<subseteq> set bs' \<and>
     (\<forall>a \<in> set as. is_approval (snd a) \<and> fst a + 1 < length sts \<longrightarrow>
        (\<exists>b \<in> set bs'. binding_at sts (fst a) b)) \<and>
     (xs' = [] \<longleftrightarrow> xs = [] \<and> (\<forall>a \<in> set as. \<not> (is_approval (snd a) \<and> length sts \<le> fst a + 1)))"
  using assms
proof (induction as arbitrary: bs xs)
  case (Cons a as)
  obtain i where a: "a = (i, sts ! i)" and i: "i < length sts"
    using Cons.prems(1) by (cases a) auto
  obtain bs1 xs1 where s: "approval_scan sts a (bs, xs) = (bs1, xs1)" by fastforce
  note step = approval_scan_step [OF i, of bs xs bs1 xs1, folded a, OF s]
  have IH: "(\<forall>b \<in> set bs'. b \<in> set bs1 \<or> (\<exists>a \<in> set as. binding_at sts (fst a) b)) \<and> set bs1 \<subseteq> set bs' \<and>
     (\<forall>a \<in> set as. is_approval (snd a) \<and> fst a + 1 < length sts \<longrightarrow>
        (\<exists>b \<in> set bs'. binding_at sts (fst a) b)) \<and>
     (xs' = [] \<longleftrightarrow> xs1 = [] \<and> (\<forall>a \<in> set as. \<not> (is_approval (snd a) \<and> length sts \<le> fst a + 1)))"
    using Cons.prems s by (intro Cons.IH) auto
  have "\<forall>b \<in> set bs'. b \<in> set bs \<or> (\<exists>a \<in> set (a # as). binding_at sts (fst a) b)"
    using step IH a by auto
  moreover have "set bs \<subseteq> set bs'" using step IH by auto
  moreover have "\<forall>c \<in> set (a # as). is_approval (snd c) \<and> fst c + 1 < length sts \<longrightarrow>
      (\<exists>b \<in> set bs'. binding_at sts (fst c) b)"
    using step IH a by auto
  moreover have "xs' = [] \<longleftrightarrow> xs = [] \<and>
      (\<forall>c \<in> set (a # as). \<not> (is_approval (snd c) \<and> length sts \<le> fst c + 1))"
    using step IH a by auto
  ultimately show ?case by blast
qed auto

lemma approval_report_spec:
  "(\<forall>b \<in> set (aa_bindings (approval_report w)). binding_at (steps w) (ab_index b) b) \<and>
   (\<forall>i < length (steps w). is_approval (steps w ! i) \<and> i + 1 < length (steps w) \<longrightarrow>
      (\<exists>b \<in> set (aa_bindings (approval_report w)). binding_at (steps w) i b)) \<and>
   (aa_blocking (approval_report w) \<longleftrightarrow> is_approval (last (steps w)) \<and> steps w \<noteq> [])"
proof -
  obtain bs xs where f: "fold (approval_scan (steps w)) (List.enumerate 0 (steps w)) ([], []) = (bs, xs)"
    by fastforce
  have all: "\<forall>a \<in> set (List.enumerate 0 (steps w)). fst a < length (steps w) \<and> snd a = steps w ! fst a"
    by auto
  note spec = fold_approval_scan [OF all f]
  let ?n = "length (steps w)"
  have "xs = [] \<longleftrightarrow> (\<forall>i < ?n. \<not> (is_approval (steps w ! i) \<and> ?n \<le> i + 1))"
    using spec ball_enumerate [of "steps w" "\<lambda>i st. \<not> (is_approval st \<and> ?n \<le> i + 1)"] by simp
  also have "\<dots> \<longleftrightarrow> \<not> (is_approval (last (steps w)) \<and> steps w \<noteq> [])"
  proof (cases "steps w = []")
    case False
    have "i < length (steps w) \<and> length (steps w) \<le> i + 1 \<longleftrightarrow> i = length (steps w) - 1" for i
      using False by (cases "steps w") auto
    with False show ?thesis by (metis last_conv_nth)
  qed simp
  finally have "aa_blocking (approval_report w) \<longleftrightarrow> is_approval (last (steps w)) \<and> steps w \<noteq> []"
    by (simp add: approval_report_def f)
  moreover have "\<forall>b \<in> set bs. binding_at (steps w) (ab_index b) b"
    using spec by (auto simp: binding_at_def)
  moreover have "\<forall>i < ?n. is_approval (steps w ! i) \<and> i + 1 < ?n \<longrightarrow> (\<exists>b \<in> set bs. binding_at (steps w) i b)"
    using spec ball_enumerate [of "steps w"
        "\<lambda>i st. is_approval st \<and> i + 1 < ?n \<longrightarrow> (\<exists>b \<in> set bs. binding_at (steps w) i b)"] by simp
  ultimately show ?thesis
    by (simp add: approval_report_def f)
qed

lemma require_approval_binding_Some:
  assumes "require_approval_binding w sid g = Some b"
  shows "ab_step_id b = sid \<and> binding_at (steps w) (ab_index b) b"
proof -
  from assms have "b \<in> set (aa_bindings (approval_report w)) \<and> ab_step_id b = sid"
    by (auto simp: require_approval_binding_def analyze_workflow_approvals_def Let_def
        split: option.splits if_splits dest: find_Some_set)
  with approval_report_spec [of w] show ?thesis by blast
qed

section \<open>Properties\<close>

text \<open>
  The approval bindings pair every approval step with the step right after it, and the
  analysis blocks exactly the workflows that end with an approval step.
\<close>

lemma approval_bindings_pair_steps:
  "list_all (\<lambda>b. binding_at (steps w) (ab_index b) b) (aa_bindings (approval_report w)) \<and>
   list_all (\<lambda>i. list_ex (binding_at (steps w) i) (aa_bindings (approval_report w)))
     (filter (\<lambda>i. is_approval (steps w ! i) \<and> i + 1 < length (steps w)) [0..<length (steps w)]) \<and>
   aa_blocking (approval_report w) = (steps w \<noteq> [] \<and> is_approval (last (steps w)))"
  using approval_report_spec [of w]
  by (auto simp: list_all_iff list_ex_iff)

end
