(* ===== verification/Workflow_Recovery.thy ===== *)
theory Workflow_Recovery
  imports Workflow_Schema
begin

text \<open>
  \<open>packages/workflow-recovery/src\<close>: failure classification, the retry policy, the
  status machines of attempts and repair requests and the schema of recorded attempts.
  Error codes are strings, as in the source's signatures.
\<close>

section \<open>Vocabulary and limits (contracts.ts, constants.ts)\<close>

datatype failure_category =
    TransientRead | LocatorResolution | Validation | Policy | Cancellation | ApprovalFailure
  | ActionFailure | NavigationFailure | OutputFailure | Infrastructure | UnknownFailure

datatype effect_certainty = NotStarted | ReadOnly | SideEffectPossible | Completed | UnknownEffect

datatype recovery_mode = AutomaticSafeOnly | AutomaticSafeAndManual | AutomaticSafeAndLocatorProposals

datatype retry_trigger = Initial | AutomaticRetry | ManualRetry

datatype retry_disposition =
  DispNone | DispAutomaticRetry | DispManualRepair | DispLocatorProposal | DispNewRunRequired

datatype attempt_status = AtRunning | AtSucceeded | AtFailed | AtCancelled | AtTimedOut | AtInterrupted

datatype repair_status =
  RpPending | RpRetryApproved | RpAborted | RpExpired | RpCancelled | RpInvalidated

datatype repair_decision = RdRetry | RdAbort | RdExpired | RdCancelled | RdInvalidated

definition MAX_AUTOMATIC_RETRIES :: nat where "MAX_AUTOMATIC_RETRIES = 1"
definition MAX_MANUAL_RETRIES :: nat where "MAX_MANUAL_RETRIES = 1"
definition MAX_TOTAL_ATTEMPTS :: nat where "MAX_TOTAL_ATTEMPTS = 3"
definition MAX_REPAIR_TIMEOUT_MS :: int where "MAX_REPAIR_TIMEOUT_MS = 300000"

section \<open>Failure classification (failure-classifier.ts)\<close>

definition VALIDATION_ERRORS :: "string list" where [code_sets]:
  "VALIDATION_ERRORS =
     [''INVALID_EXECUTION_REQUEST'', ''INVALID_WORKFLOW'', ''INVALID_RUNTIME_INPUTS'',
      ''INVALID_EXECUTION_TIMEOUT'', ''UNSUPPORTED_STEP_TYPE'', ''UNSUPPORTED_LOCATOR'',
      ''UNSUPPORTED_ROLE'', ''VERIFICATION_RULE_INVALID'', ''VERIFICATION_EXPECTATION_INVALID'',
      ''VERIFICATION_TARGET_UNSUPPORTED'', ''EXTRACTION_TARGET_UNSUPPORTED'']"

definition POLICY_ERRORS :: "string list" where [code_sets]:
  "POLICY_ERRORS =
     [''SECRET_RESOLUTION_UNAVAILABLE'', ''INVALID_NAVIGATION_URL'', ''UNSAFE_URL_SCHEME'',
      ''ORIGIN_NOT_ALLOWED'', ''POST_NAVIGATION_ORIGIN_NOT_ALLOWED'']"

definition APPROVAL_ERRORS :: "string list" where [code_sets]:
  "APPROVAL_ERRORS =
     [''APPROVAL_COORDINATOR_UNAVAILABLE'', ''APPROVAL_BINDING_INVALID'', ''APPROVAL_REQUEST_FAILED'',
      ''APPROVAL_REJECTED'', ''APPROVAL_EXPIRED'', ''APPROVAL_INVALIDATED'']"

definition OUTPUT_ERRORS :: "string list" where [code_sets]:
  "OUTPUT_ERRORS = [''OUTPUT_NOT_AVAILABLE'', ''OUTPUT_TYPE_MISMATCH'', ''DUPLICATE_OUTPUT_PRODUCTION'']"

definition INFRASTRUCTURE_ERRORS :: "string list" where [code_sets]:
  "INFRASTRUCTURE_ERRORS =
     [''BROWSER_LAUNCH_FAILED'', ''BROWSER_CONTEXT_FAILED'', ''ADAPTER_START_FAILED'',
      ''RESOURCE_CLEANUP_FAILED'']"

definition classify_failure :: "string \<Rightarrow> failure_category" where
  "classify_failure e =
     (if e = ''VERIFICATION_NOT_MATCHED'' \<or> e = ''EXTRACTION_VALUE_UNAVAILABLE'' then TransientRead
      else if e = ''LOCATOR_NOT_FOUND'' \<or> e = ''LOCATOR_NOT_UNIQUE'' then LocatorResolution
      else if e \<in> set VALIDATION_ERRORS then Validation
      else if e \<in> set POLICY_ERRORS then Policy
      else if e = ''EXECUTION_CANCELLED'' \<or> e = ''TOTAL_EXECUTION_TIMEOUT'' then Cancellation
      else if e \<in> set APPROVAL_ERRORS then ApprovalFailure
      else if e \<in> set OUTPUT_ERRORS then OutputFailure
      else if e \<in> set INFRASTRUCTURE_ERRORS then Infrastructure
      else if e = ''NAVIGATION_TIMEOUT'' then NavigationFailure
      else if e = ''ACTION_TIMEOUT'' \<or> e = ''STEP_TIMEOUT'' \<or> e = ''ACTION_FAILED'' then ActionFailure
      else UnknownFailure)"

section \<open>Retry policy (retry-policy.ts)\<close>

record retry_input =
  ri_step_type :: step_type
  ri_error :: string
  ri_effect :: effect_certainty
  ri_mode :: recovery_mode
  ri_automatic :: nat
  ri_manual :: nat
  ri_total :: nat
  ri_gated :: bool

datatype recovery_error = ApprovalGatedRetryRequiresNewRun | RecoveryAttemptLimitReached

record retry_decision =
  rd_category :: failure_category
  rd_disposition :: retry_disposition
  rd_allowed :: bool
  rd_error :: "recovery_error option"

fun auto_retry_errors :: "step_type \<Rightarrow> string list" where
  "auto_retry_errors TVerify = [''VERIFICATION_NOT_MATCHED'', ''LOCATOR_NOT_FOUND'']"
| "auto_retry_errors TExtract = [''EXTRACTION_VALUE_UNAVAILABLE'', ''LOCATOR_NOT_FOUND'']"
| "auto_retry_errors _ = []"

definition MANUAL_STEP_TYPES :: "step_type list" where
  "MANUAL_STEP_TYPES = [TVerify, TExtract, TClick, TFill, TSelect, TSetChecked]"

definition MANUAL_BLOCKED_CATEGORIES :: "failure_category list" where
  "MANUAL_BLOCKED_CATEGORIES =
     [Validation, Policy, Cancellation, ApprovalFailure, OutputFailure, Infrastructure, UnknownFailure]"

definition decide_retry_parsed :: "retry_input \<Rightarrow> retry_decision" where
  "decide_retry_parsed v =
     (let category = classify_failure (ri_error v);
          give = (\<lambda>d a e. \<lparr>rd_category = category, rd_disposition = d, rd_allowed = a, rd_error = e\<rparr>);
          manual_effect_allowed = (ri_effect v = ReadOnly \<or> ri_effect v = NotStarted)
      in if ri_gated v
         then give DispNewRunRequired False (Some ApprovalGatedRetryRequiresNewRun)
         else if ri_effect v = UnknownEffect \<or> ri_effect v = SideEffectPossible \<or> ri_effect v = Completed
         then give DispNone False None
         else if MAX_TOTAL_ATTEMPTS \<le> ri_total v
         then give DispNone False (Some RecoveryAttemptLimitReached)
         else if ri_effect v = ReadOnly \<and> ri_error v \<in> set (auto_retry_errors (ri_step_type v)) \<and>
                 ri_automatic v < MAX_AUTOMATIC_RETRIES
         then give DispAutomaticRetry True None
         else if ri_mode v = AutomaticSafeAndManual \<and> manual_effect_allowed \<and>
                 ri_step_type v \<in> set MANUAL_STEP_TYPES \<and>
                 category \<notin> set MANUAL_BLOCKED_CATEGORIES \<and> ri_manual v < MAX_MANUAL_RETRIES
         then give DispManualRepair True None
         else if ri_mode v = AutomaticSafeAndLocatorProposals \<and> category = LocatorResolution \<and>
                 manual_effect_allowed \<and> ri_step_type v \<in> set MANUAL_STEP_TYPES
         then give DispLocatorProposal False None
         else give DispNone False None)"

text \<open>The input schema trims the error code and bounds it; \<open>None\<close> where it throws.\<close>

definition decide_retry :: "retry_input \<Rightarrow> retry_decision option" where
  "decide_retry v =
     (case parse_bounded 80 (ri_error v) of
        None \<Rightarrow> None
      | Some e \<Rightarrow> if 0 < ri_total v then Some (decide_retry_parsed (v\<lparr>ri_error := e\<rparr>)) else None)"

section \<open>Attempt and repair status machines (attempt-state.ts, repair-state.ts)\<close>

fun attempt_transitions :: "attempt_status \<Rightarrow> attempt_status list" where
  "attempt_transitions AtRunning = [AtSucceeded, AtFailed, AtCancelled, AtTimedOut, AtInterrupted]"
| "attempt_transitions _ = []"

definition can_transition_attempt :: "attempt_status \<Rightarrow> attempt_status \<Rightarrow> bool" where
  "can_transition_attempt c n \<longleftrightarrow> n \<in> set (attempt_transitions c)"

fun repair_transitions :: "repair_status \<Rightarrow> repair_status list" where
  "repair_transitions RpPending = [RpRetryApproved, RpAborted, RpExpired, RpCancelled, RpInvalidated]"
| "repair_transitions _ = []"

definition can_transition_repair_request :: "repair_status \<Rightarrow> repair_status \<Rightarrow> bool" where
  "can_transition_repair_request c n \<longleftrightarrow> n \<in> set (repair_transitions c)"

definition is_terminal_repair_status :: "repair_status \<Rightarrow> bool" where
  "is_terminal_repair_status s \<longleftrightarrow> repair_transitions s = []"

interpretation attempt_machine: transition_table attempt_transitions "\<lambda>s. s \<noteq> AtRunning"
proof unfold_locales
  fix s show "(s \<noteq> AtRunning) \<longleftrightarrow> attempt_transitions s = []" by (cases s) auto
qed

interpretation repair_machine: transition_table repair_transitions is_terminal_repair_status
  by unfold_locales (simp add: is_terminal_repair_status_def)

section \<open>Gated steps (approval-gating.ts)\<close>

definition is_approval_gated_step :: "workflow \<Rightarrow> string \<Rightarrow> bool" where
  "is_approval_gated_step w sid =
     (case find_index (\<lambda>st. step_id st = sid) (steps w) of
        None \<Rightarrow> False
      | Some i \<Rightarrow> 0 < i \<and> step_type_of (steps w ! (i - 1)) = TApproval)"

section \<open>Recorded attempts (contracts.ts)\<close>

record step_attempt =
  att_number :: nat
  att_trigger :: retry_trigger
  att_status :: attempt_status
  att_started :: int
  att_finished :: "int option"
  att_duration :: "int option"
  att_error :: "string option"
  att_effect :: effect_certainty
  att_repair :: "string option"

definition attempt_schema_ok :: "step_attempt \<Rightarrow> bool" where
  "attempt_schema_ok a \<longleftrightarrow>
     0 < att_number a \<and>
     (case att_duration a of None \<Rightarrow> True | Some d \<Rightarrow> 0 \<le> d) \<and>
     (case att_error a of None \<Rightarrow> True | Some e \<Rightarrow> parse_bounded 80 e \<noteq> None) \<and>
     (if att_status a = AtRunning then \<not> (att_finished a \<noteq> None \<or> att_duration a \<noteq> None)
      else \<not> (att_finished a = None \<or> att_duration a = None)) \<and>
     \<not> (att_trigger a = ManualRetry \<and> att_repair a = None) \<and>
     \<not> (att_trigger a \<noteq> ManualRetry \<and> att_repair a \<noteq> None)"

definition count_trigger :: "retry_trigger \<Rightarrow> step_attempt list \<Rightarrow> nat" where
  "count_trigger t as = length (filter (\<lambda>a. att_trigger a = t) as)"

definition attempt_list_schema_ok :: "step_attempt list \<Rightarrow> bool" where
  "attempt_list_schema_ok as \<longleftrightarrow>
     list_all attempt_schema_ok as \<and> 1 \<le> length as \<and> length as \<le> 3 \<and>
     list_all (\<lambda>(i, a). att_number a = i + 1 \<and>
        \<not> (i = 0 \<and> att_trigger a \<noteq> Initial) \<and> \<not> (0 < i \<and> att_trigger a = Initial))
       (List.enumerate 0 as) \<and>
     \<not> (1 < count_trigger AutomaticRetry as \<or> 1 < count_trigger ManualRetry as)"

section \<open>What the policy guarantees\<close>

lemma decide_retry_ofD:
  assumes "decide_retry v = Some d"
  shows "\<exists>e. parse_bounded 80 (ri_error v) = Some e \<and> d = decide_retry_parsed (v\<lparr>ri_error := e\<rparr>)"
  using assms by (auto simp: decide_retry_def split: option.splits if_splits)

text \<open>The dispositions that make the engine run the step again.\<close>

definition reruns :: "retry_disposition \<Rightarrow> bool" where
  "reruns d \<longleftrightarrow> d = DispAutomaticRetry \<or> d = DispManualRepair"

lemma decide_retry_parsed_reruns:
  "reruns (rd_disposition (decide_retry_parsed v)) \<Longrightarrow>
     \<not> ri_gated v \<and> ri_effect v \<in> {ReadOnly, NotStarted} \<and> ri_total v < 3 \<and>
     rd_allowed (decide_retry_parsed v)"
  by (cases "ri_effect v")
    (auto simp: decide_retry_parsed_def Let_def reruns_def MAX_TOTAL_ATTEMPTS_def split: if_splits)

lemma decide_retry_parsed_automatic:
  "rd_disposition (decide_retry_parsed v) = DispAutomaticRetry \<longleftrightarrow>
     \<not> ri_gated v \<and> ri_effect v = ReadOnly \<and> ri_total v < 3 \<and> ri_automatic v < 1 \<and>
     ri_error v \<in> set (auto_retry_errors (ri_step_type v))"
  by (auto simp: decide_retry_parsed_def Let_def MAX_TOTAL_ATTEMPTS_def MAX_AUTOMATIC_RETRIES_def)

lemma decide_retry_parsed_manual:
  "rd_disposition (decide_retry_parsed v) = DispManualRepair \<Longrightarrow>
     ri_manual v < 1 \<and> ri_mode v = AutomaticSafeAndManual"
  by (auto simp: decide_retry_parsed_def Let_def MAX_MANUAL_RETRIES_def split: if_splits)

lemma decide_retry_parsed_allowed:
  "rd_allowed (decide_retry_parsed v) \<longleftrightarrow> reruns (rd_disposition (decide_retry_parsed v))"
  by (auto simp: decide_retry_parsed_def Let_def reruns_def)

lemma decide_retry_parsed_proposal:
  "rd_disposition (decide_retry_parsed v) = DispLocatorProposal \<Longrightarrow>
     ri_mode v = AutomaticSafeAndLocatorProposals \<and> \<not> ri_gated v"
  by (auto simp: decide_retry_parsed_def Let_def split: if_splits)

lemma is_approval_gated_step_nth:
  assumes "distinct (map step_id (steps w))" and "i < length (steps w)"
  shows "is_approval_gated_step w (step_id (steps w ! i)) \<longleftrightarrow>
    0 < i \<and> step_type_of (steps w ! (i - 1)) = TApproval"
  by (simp add: is_approval_gated_step_def find_index_distinct [OF assms])

section \<open>Properties\<close>

text \<open>
  C38: the retry policy runs a step again only if it is not gated by an approval, its effect
  is known to be read-only or not started, and fewer than three attempts were made; an
  automatic retry only for a read-only failure that is listed for the step type and was not
  retried before, a manual one only in the attended mode and once.
\<close>

theorem retry_policy_is_safe:
  "decide_retry v = Some d \<Longrightarrow> reruns (rd_disposition d) \<Longrightarrow>
     \<not> ri_gated v \<and> ri_effect v \<in> {ReadOnly, NotStarted} \<and> ri_total v < 3 \<and> rd_allowed d \<and>
     (rd_disposition d = DispAutomaticRetry \<longrightarrow>
        ri_effect v = ReadOnly \<and> ri_automatic v < 1 \<and>
        trim (ri_error v) \<in> set (auto_retry_errors (ri_step_type v))) \<and>
     (rd_disposition d = DispManualRepair \<longrightarrow> ri_mode v = AutomaticSafeAndManual \<and> ri_manual v < 1)"
proof -
  assume "decide_retry v = Some d" and r: "reruns (rd_disposition d)"
  then obtain e where e: "parse_bounded 80 (ri_error v) = Some e"
    and d: "d = decide_retry_parsed (v\<lparr>ri_error := e\<rparr>)"
    by (auto dest: decide_retry_ofD)
  from e have t: "e = trim (ri_error v)" by (simp add: parse_bounded_def Let_def split: if_splits)
  from decide_retry_parsed_reruns [of "v\<lparr>ri_error := e\<rparr>"] r d
    decide_retry_parsed_automatic [of "v\<lparr>ri_error := e\<rparr>"]
    decide_retry_parsed_manual [of "v\<lparr>ri_error := e\<rparr>"]
  show ?thesis by (auto simp: t)
qed

theorem retry_policy_is_safe_witness:
  "\<exists>v d. decide_retry v = Some d \<and> rd_disposition d = DispAutomaticRetry \<and> \<not> ri_gated v \<and>
     ri_effect v = ReadOnly"
proof -
  let ?v = "\<lparr>ri_step_type = TVerify, ri_error = ''LOCATOR_NOT_FOUND'', ri_effect = ReadOnly,
    ri_mode = AutomaticSafeOnly, ri_automatic = 0, ri_manual = 0, ri_total = 1, ri_gated = False\<rparr>"
  have s: "map_option rd_disposition (decide_retry ?v) = Some DispAutomaticRetry" by code_simp
  then obtain d where d: "decide_retry ?v = Some d" "rd_disposition d = DispAutomaticRetry" by auto
  then have "reruns (rd_disposition d)" by (simp add: reruns_def)
  from retry_policy_is_safe [OF d(1) this] d(2)
  have "\<not> ri_gated ?v \<and> ri_effect ?v = ReadOnly" by simp
  with d show ?thesis by blast
qed

end
