(* ===== verification/Engine_Contracts.thy ===== *)
theory Engine_Contracts
  imports Workflow_Verification Workflow_Extraction Workflow_Approval Workflow_Recovery
begin

text \<open>
  \<open>packages/workflow-engine/src\<close>: the vocabulary of the engine (contracts.ts), its run
  and step state machines (run-state-machine.ts, step-state-machine.ts) and the arbiter
  that decides which of several racing terminations a run ends with
  (termination-arbiter.ts). Instants are integers, milliseconds of the engine's clock. The
  message of an error is a function of its code (errors.ts), so an error is its code.
\<close>

section \<open>Enumerations (contracts.ts)\<close>

datatype error_code =
    INVALID_EXECUTION_REQUEST
  | INVALID_WORKFLOW
  | INVALID_RUNTIME_INPUTS
  | INVALID_EXECUTION_TIMEOUT
  | UNSUPPORTED_STEP_TYPE
  | SECRET_RESOLUTION_UNAVAILABLE
  | INVALID_NAVIGATION_URL
  | UNSAFE_URL_SCHEME
  | ORIGIN_NOT_ALLOWED
  | POST_NAVIGATION_ORIGIN_NOT_ALLOWED
  | UNSUPPORTED_LOCATOR
  | UNSUPPORTED_ROLE
  | LOCATOR_NOT_FOUND
  | LOCATOR_NOT_UNIQUE
  | BROWSER_LAUNCH_FAILED
  | BROWSER_CONTEXT_FAILED
  | ADAPTER_START_FAILED
  | NAVIGATION_TIMEOUT
  | ACTION_TIMEOUT
  | STEP_TIMEOUT
  | TOTAL_EXECUTION_TIMEOUT
  | ACTION_FAILED
  | EXECUTION_CANCELLED
  | RESOURCE_CLEANUP_FAILED
  | INVALID_RUN_TRANSITION
  | INVALID_STEP_TRANSITION
  | VERIFICATION_RULE_INVALID
  | VERIFICATION_EXPECTATION_INVALID
  | VERIFICATION_NOT_MATCHED
  | VERIFICATION_TARGET_UNSUPPORTED
  | OUTPUT_NOT_AVAILABLE
  | OUTPUT_TYPE_MISMATCH
  | DUPLICATE_OUTPUT_PRODUCTION
  | EXTRACTION_TARGET_UNSUPPORTED
  | EXTRACTION_VALUE_UNAVAILABLE
  | APPROVAL_COORDINATOR_UNAVAILABLE
  | APPROVAL_BINDING_INVALID
  | APPROVAL_REQUEST_FAILED
  | APPROVAL_REJECTED
  | APPROVAL_EXPIRED
  | APPROVAL_INVALIDATED
  | RECOVERY_NOT_ALLOWED
  | RECOVERY_ATTEMPT_LIMIT_REACHED
  | RECOVERY_COORDINATOR_UNAVAILABLE
  | RECOVERY_REQUEST_FAILED
  | RECOVERY_ABORTED
  | RECOVERY_EXPIRED
  | RECOVERY_INVALIDATED
  | APPROVAL_GATED_RETRY_REQUIRES_NEW_RUN

fun code_string :: "error_code \<Rightarrow> string" where
  "code_string INVALID_EXECUTION_REQUEST = ''INVALID_EXECUTION_REQUEST''"
| "code_string INVALID_WORKFLOW = ''INVALID_WORKFLOW''"
| "code_string INVALID_RUNTIME_INPUTS = ''INVALID_RUNTIME_INPUTS''"
| "code_string INVALID_EXECUTION_TIMEOUT = ''INVALID_EXECUTION_TIMEOUT''"
| "code_string UNSUPPORTED_STEP_TYPE = ''UNSUPPORTED_STEP_TYPE''"
| "code_string SECRET_RESOLUTION_UNAVAILABLE = ''SECRET_RESOLUTION_UNAVAILABLE''"
| "code_string INVALID_NAVIGATION_URL = ''INVALID_NAVIGATION_URL''"
| "code_string UNSAFE_URL_SCHEME = ''UNSAFE_URL_SCHEME''"
| "code_string ORIGIN_NOT_ALLOWED = ''ORIGIN_NOT_ALLOWED''"
| "code_string POST_NAVIGATION_ORIGIN_NOT_ALLOWED = ''POST_NAVIGATION_ORIGIN_NOT_ALLOWED''"
| "code_string UNSUPPORTED_LOCATOR = ''UNSUPPORTED_LOCATOR''"
| "code_string UNSUPPORTED_ROLE = ''UNSUPPORTED_ROLE''"
| "code_string LOCATOR_NOT_FOUND = ''LOCATOR_NOT_FOUND''"
| "code_string LOCATOR_NOT_UNIQUE = ''LOCATOR_NOT_UNIQUE''"
| "code_string BROWSER_LAUNCH_FAILED = ''BROWSER_LAUNCH_FAILED''"
| "code_string BROWSER_CONTEXT_FAILED = ''BROWSER_CONTEXT_FAILED''"
| "code_string ADAPTER_START_FAILED = ''ADAPTER_START_FAILED''"
| "code_string NAVIGATION_TIMEOUT = ''NAVIGATION_TIMEOUT''"
| "code_string ACTION_TIMEOUT = ''ACTION_TIMEOUT''"
| "code_string STEP_TIMEOUT = ''STEP_TIMEOUT''"
| "code_string TOTAL_EXECUTION_TIMEOUT = ''TOTAL_EXECUTION_TIMEOUT''"
| "code_string ACTION_FAILED = ''ACTION_FAILED''"
| "code_string EXECUTION_CANCELLED = ''EXECUTION_CANCELLED''"
| "code_string RESOURCE_CLEANUP_FAILED = ''RESOURCE_CLEANUP_FAILED''"
| "code_string INVALID_RUN_TRANSITION = ''INVALID_RUN_TRANSITION''"
| "code_string INVALID_STEP_TRANSITION = ''INVALID_STEP_TRANSITION''"
| "code_string VERIFICATION_RULE_INVALID = ''VERIFICATION_RULE_INVALID''"
| "code_string VERIFICATION_EXPECTATION_INVALID = ''VERIFICATION_EXPECTATION_INVALID''"
| "code_string VERIFICATION_NOT_MATCHED = ''VERIFICATION_NOT_MATCHED''"
| "code_string VERIFICATION_TARGET_UNSUPPORTED = ''VERIFICATION_TARGET_UNSUPPORTED''"
| "code_string OUTPUT_NOT_AVAILABLE = ''OUTPUT_NOT_AVAILABLE''"
| "code_string OUTPUT_TYPE_MISMATCH = ''OUTPUT_TYPE_MISMATCH''"
| "code_string DUPLICATE_OUTPUT_PRODUCTION = ''DUPLICATE_OUTPUT_PRODUCTION''"
| "code_string EXTRACTION_TARGET_UNSUPPORTED = ''EXTRACTION_TARGET_UNSUPPORTED''"
| "code_string EXTRACTION_VALUE_UNAVAILABLE = ''EXTRACTION_VALUE_UNAVAILABLE''"
| "code_string APPROVAL_COORDINATOR_UNAVAILABLE = ''APPROVAL_COORDINATOR_UNAVAILABLE''"
| "code_string APPROVAL_BINDING_INVALID = ''APPROVAL_BINDING_INVALID''"
| "code_string APPROVAL_REQUEST_FAILED = ''APPROVAL_REQUEST_FAILED''"
| "code_string APPROVAL_REJECTED = ''APPROVAL_REJECTED''"
| "code_string APPROVAL_EXPIRED = ''APPROVAL_EXPIRED''"
| "code_string APPROVAL_INVALIDATED = ''APPROVAL_INVALIDATED''"
| "code_string RECOVERY_NOT_ALLOWED = ''RECOVERY_NOT_ALLOWED''"
| "code_string RECOVERY_ATTEMPT_LIMIT_REACHED = ''RECOVERY_ATTEMPT_LIMIT_REACHED''"
| "code_string RECOVERY_COORDINATOR_UNAVAILABLE = ''RECOVERY_COORDINATOR_UNAVAILABLE''"
| "code_string RECOVERY_REQUEST_FAILED = ''RECOVERY_REQUEST_FAILED''"
| "code_string RECOVERY_ABORTED = ''RECOVERY_ABORTED''"
| "code_string RECOVERY_EXPIRED = ''RECOVERY_EXPIRED''"
| "code_string RECOVERY_INVALIDATED = ''RECOVERY_INVALIDATED''"
| "code_string APPROVAL_GATED_RETRY_REQUIRES_NEW_RUN = ''APPROVAL_GATED_RETRY_REQUIRES_NEW_RUN''"

datatype run_status =
    RunPending | RunValidating | RunStarting | RunRunning | RunWaitingForApproval
  | RunWaitingForRepair | RunCancelling | RunSucceeded | RunFailed | RunCancelled
  | RunTimedOut | RunInterrupted

datatype step_status =
    StPending | StRunning | StWaitingForApproval | StWaitingForRepair | StSucceeded
  | StFailed | StCancelled | StTimedOut | StSkipped | StInterrupted

definition is_terminal_run :: "run_status \<Rightarrow> bool" where
  "is_terminal_run s \<longleftrightarrow> s \<in> {RunSucceeded, RunFailed, RunCancelled, RunTimedOut, RunInterrupted}"

definition is_terminal_step :: "step_status \<Rightarrow> bool" where
  "is_terminal_step s \<longleftrightarrow>
     s \<in> {StSucceeded, StFailed, StCancelled, StTimedOut, StSkipped, StInterrupted}"

datatype skip_reason =
    SkPreflightFailed | SkAdapterStartFailed | SkPriorStepFailed | SkPreviousStepFailed
  | SkRunCancelled | SkRunTimedOut | SkApprovalRejected | SkApprovalExpired
  | SkApprovalInvalidated | SkRepairAborted | SkRepairExpired | SkRepairInvalidated
  | SkRunInterrupted

text \<open>The causes that race during a run (\<open>RacingTerminationCause\<close>) and the three others.\<close>

datatype racing_cause =
    AdapterStartFailed | StepFailed | StepTimeout | RunWasCancelled | TotalTimeout
  | ApprovalWasRejected | ApprovalHasExpired | ApprovalWasInvalidated
  | RepairWasAborted | RepairHasExpired | RepairWasInvalidated

datatype termination_cause = RunCompleted | PreflightFailed | CleanupFailed | Racing racing_cause

datatype engine_warning = WarnProgressSinkFailed | WarnResourceCleanupFailed

section \<open>Status machines\<close>

fun run_transitions :: "run_status \<Rightarrow> run_status list" where
  "run_transitions RunPending = [RunValidating, RunCancelling]"
| "run_transitions RunValidating = [RunStarting, RunCancelling, RunFailed]"
| "run_transitions RunStarting = [RunRunning, RunCancelling, RunFailed, RunTimedOut]"
| "run_transitions RunRunning =
     [RunWaitingForApproval, RunWaitingForRepair, RunCancelling, RunSucceeded, RunFailed,
      RunTimedOut, RunInterrupted]"
| "run_transitions RunWaitingForApproval =
     [RunRunning, RunCancelling, RunFailed, RunTimedOut, RunInterrupted]"
| "run_transitions RunWaitingForRepair =
     [RunRunning, RunCancelling, RunFailed, RunTimedOut, RunInterrupted]"
| "run_transitions RunCancelling = [RunCancelled]"
| "run_transitions _ = []"

fun step_transitions :: "step_status \<Rightarrow> step_status list" where
  "step_transitions StPending = [StRunning, StSkipped]"
| "step_transitions StRunning =
     [StWaitingForApproval, StWaitingForRepair, StSucceeded, StFailed, StCancelled,
      StTimedOut, StInterrupted]"
| "step_transitions StWaitingForApproval =
     [StSucceeded, StFailed, StCancelled, StTimedOut, StInterrupted]"
| "step_transitions StWaitingForRepair =
     [StRunning, StFailed, StCancelled, StTimedOut, StInterrupted]"
| "step_transitions _ = []"

interpretation run_machine: transition_table run_transitions is_terminal_run
proof unfold_locales
  fix s show "is_terminal_run s \<longleftrightarrow> run_transitions s = []"
    by (cases s) (simp_all add: is_terminal_run_def)
qed

interpretation step_machine: transition_table step_transitions is_terminal_step
proof unfold_locales
  fix s show "is_terminal_step s \<longleftrightarrow> step_transitions s = []"
    by (cases s) (simp_all add: is_terminal_step_def)
qed

text \<open>
  \<open>StepStateMachine\<close>: the status of every step id and the id of the step that is running.
  \<open>None\<close> is the thrown \<open>INVALID_STEP_TRANSITION\<close>.
\<close>

record step_machine =
  sm_states :: "string \<rightharpoonup> step_status"
  sm_running :: "string option"

definition new_step_machine :: "string list \<Rightarrow> step_machine" where
  "new_step_machine ids =
     \<lparr>sm_states = (\<lambda>i. if i \<in> set ids then Some StPending else None), sm_running = None\<rparr>"

definition sm_transition :: "step_machine \<Rightarrow> string \<Rightarrow> step_status \<Rightarrow> step_machine option" where
  "sm_transition m sid next_status =
     (case sm_states m sid of
        None \<Rightarrow> None
      | Some cur \<Rightarrow>
          if next_status \<notin> set (step_transitions cur) then None
          else if next_status = StRunning \<and> sm_running m \<noteq> None \<and> sm_running m \<noteq> Some sid then None
          else Some \<lparr>sm_states = (sm_states m)(sid \<mapsto> next_status),
                     sm_running = (if next_status = StRunning then Some sid
                                   else if cur = StRunning then None else sm_running m)\<rparr>)"

lemma sm_transition_Some:
  "sm_transition m sid n = Some m' \<Longrightarrow>
     \<exists>c. sm_states m sid = Some c \<and> can_move step_transitions c n \<and>
       sm_states m' = (sm_states m)(sid \<mapsto> n)"
  by (auto simp: sm_transition_def can_move_def split: option.splits if_splits)

section \<open>The termination arbiter (termination-arbiter.ts)\<close>

record candidate =
  tc_cause :: racing_cause
  tc_at :: int
  tc_error :: error_code
  tc_step :: "string option"

fun tie_priority :: "racing_cause \<Rightarrow> nat" where
  "tie_priority TotalTimeout = 0"
| "tie_priority RunWasCancelled = 1"
| "tie_priority _ = 2"

record arbiter =
  arb_candidates :: "(candidate \<times> nat) list"
  arb_locked :: "candidate option"
  arb_sequence :: nat

definition new_arbiter :: arbiter where
  "new_arbiter = \<lparr>arb_candidates = [], arb_locked = None, arb_sequence = 0\<rparr>"

definition arb_record :: "candidate \<Rightarrow> arbiter \<Rightarrow> arbiter" where
  "arb_record c a =
     (if arb_locked a \<noteq> None then a
      else a\<lparr>arb_candidates := arb_candidates a @ [(c, arb_sequence a)],
             arb_sequence := arb_sequence a + 1\<rparr>)"

text \<open>
  The comparison of \<open>sort\<close>; the sort is stable, so its first element is the first one
  of the array that no other element precedes.
\<close>

definition precedes :: "candidate \<times> nat \<Rightarrow> candidate \<times> nat \<Rightarrow> bool" where
  "precedes x y =
     (case (x, y) of ((c, i), (d, j)) \<Rightarrow>
        if tc_at c \<noteq> tc_at d then tc_at c < tc_at d
        else if tie_priority (tc_cause c) \<noteq> tie_priority (tc_cause d)
        then tie_priority (tc_cause c) < tie_priority (tc_cause d)
        else i < j)"

fun first_of_sort :: "(candidate \<times> nat) list \<Rightarrow> (candidate \<times> nat) option" where
  "first_of_sort [] = None"
| "first_of_sort (x # xs) =
     (case first_of_sort xs of
        None \<Rightarrow> Some x
      | Some y \<Rightarrow> if precedes y x then Some y else Some x)"

definition arb_lock :: "arbiter \<Rightarrow> candidate option \<times> arbiter" where
  "arb_lock a =
     (case arb_locked a of
        Some c \<Rightarrow> (Some c, a)
      | None \<Rightarrow>
          (case first_of_sort (arb_candidates a) of
             None \<Rightarrow> (None, a)
           | Some (c, i) \<Rightarrow> (Some c, a\<lparr>arb_locked := Some c\<rparr>)))"


text \<open>
  What the engine relies on: nothing is recorded after the decision, the decision is never
  revised, and it is an earliest candidate, a total timeout before a cancellation before
  anything else among those of one instant.
\<close>

definition no_later :: "candidate \<Rightarrow> candidate \<Rightarrow> bool" where
  "no_later c d \<longleftrightarrow>
     tc_at c < tc_at d \<or> tc_at c = tc_at d \<and> tie_priority (tc_cause c) \<le> tie_priority (tc_cause d)"

lemma no_later_refl: "no_later c c"
  by (simp add: no_later_def)

lemma no_later_trans: "no_later c d \<Longrightarrow> no_later d e \<Longrightarrow> no_later c e"
  by (auto simp: no_later_def)

lemma precedes_no_later: "if precedes x y then no_later (fst x) (fst y) else no_later (fst y) (fst x)"
  by (auto simp: precedes_def no_later_def split: prod.splits if_splits)

lemma first_of_sort_None [simp]: "first_of_sort xs = None \<longleftrightarrow> xs = []"
  by (cases xs) (auto split: option.splits)

lemma first_of_sort_Some:
  "first_of_sort xs = Some x \<Longrightarrow> x \<in> set xs \<and> (\<forall>y \<in> set xs. no_later (fst x) (fst y))"
proof (induction xs arbitrary: x)
  case (Cons z zs)
  show ?case
  proof (cases "first_of_sort zs")
    case None
    with Cons.prems show ?thesis by (simp add: no_later_refl)
  next
    case (Some y)
    from Cons.IH [OF this] have y: "y \<in> set zs" "\<forall>u \<in> set zs. no_later (fst y) (fst u)" by auto
    show ?thesis
    proof (cases "precedes y z")
      case True
      with Cons.prems Some y precedes_no_later [of y z] show ?thesis by simp
    next
      case False
      with precedes_no_later [of y z] have "no_later (fst z) (fst y)" by simp
      with False Cons.prems Some y show ?thesis by (auto intro: no_later_refl no_later_trans)
    qed
  qed
qed simp

locale final_decision =
  fixes recd :: "candidate \<Rightarrow> 'a \<Rightarrow> 'a"
    and lock :: "'a \<Rightarrow> candidate option \<times> 'a"
    and pool :: "'a \<Rightarrow> candidate list"
    and decided :: "'a \<Rightarrow> candidate option"
  assumes recd_open: "decided a = None \<Longrightarrow> pool (recd c a) = pool a @ [c] \<and> decided (recd c a) = None"
    and recd_decided: "decided a = Some d \<Longrightarrow> recd c a = a"
    and lock_decided: "decided a = Some d \<Longrightarrow> lock a = (Some d, a)"
    and lock_empty: "decided a = None \<Longrightarrow> pool a = [] \<Longrightarrow> lock a = (None, a)"
    and lock_picks: "decided a = None \<Longrightarrow> pool a \<noteq> [] \<Longrightarrow>
      \<exists>d b. lock a = (Some d, b) \<and> decided b = Some d \<and> pool b = pool a \<and>
        d \<in> set (pool a) \<and> (\<forall>e \<in> set (pool a). no_later d e)"
begin

lemma pool_after: "decided a = None \<Longrightarrow>
    pool (fold recd cs a) = pool a @ cs \<and> decided (fold recd cs a) = None"
  by (induction cs arbitrary: a) (auto simp: recd_open)

lemma decided_after: "decided a = Some d \<Longrightarrow> fold recd cs a = a"
  by (induction cs) (auto simp: recd_decided)

lemma lock_final: "lock a = (Some d, b) \<Longrightarrow> lock (fold recd cs b) = (Some d, b)"
proof (cases "decided a")
  case None
  assume l: "lock a = (Some d, b)"
  with None lock_empty have "pool a \<noteq> []" by fastforce
  from lock_picks [OF None this] l have "decided b = Some d" by auto
  then show ?thesis by (simp add: decided_after lock_decided)
next
  case (Some e)
  assume "lock a = (Some d, b)"
  with Some lock_decided [OF Some] have "decided b = Some d" by auto
  then show ?thesis by (simp add: decided_after lock_decided)
qed

lemma lock_earliest:
  assumes "decided a = None" and "lock (fold recd cs a) = (Some d, b)" and "pool a = []"
  shows "d \<in> set cs \<and> (\<forall>e \<in> set cs. no_later d e)"
proof -
  let ?f = "fold recd cs a"
  from assms pool_after have f: "pool ?f = cs" "decided ?f = None" by auto
  with assms lock_empty [of ?f] have "pool ?f \<noteq> []" by auto
  from lock_picks [OF f(2) this] assms f show ?thesis by auto
qed

lemma lock_None: "fst (lock a) = None \<longleftrightarrow> decided a = None \<and> pool a = []"
proof (cases "decided a")
  case None
  then show ?thesis
    using lock_empty [OF None] lock_picks [OF None] by (cases "pool a = []") auto
next
  case (Some d)
  with lock_decided [OF Some] show ?thesis by simp
qed

end

definition arb_pool :: "arbiter \<Rightarrow> candidate list" where
  "arb_pool a = map fst (arb_candidates a)"

interpretation arb: final_decision arb_record arb_lock arb_pool arb_locked
proof unfold_locales
  fix a assume open_arbiter: "arb_locked a = None" and ne: "arb_pool a \<noteq> []"
  then obtain c i where f: "first_of_sort (arb_candidates a) = Some (c, i)"
    by (cases "first_of_sort (arb_candidates a)") (auto simp: arb_pool_def)
  from first_of_sort_Some [OF f] f open_arbiter
  show "\<exists>d b. arb_lock a = (Some d, b) \<and> arb_locked b = Some d \<and> arb_pool b = arb_pool a \<and>
        d \<in> set (arb_pool a) \<and> (\<forall>e \<in> set (arb_pool a). no_later d e)"
    by (force simp: arb_lock_def arb_pool_def)
qed (auto simp: arb_record_def arb_lock_def arb_pool_def)

section \<open>Properties\<close>

text \<open>
  C9: the arbiter's decision is one of the recorded causes, none of them precedes it (in time,
  and at one instant a total timeout comes before a cancellation before anything else), and
  nothing recorded afterwards changes it.
\<close>

theorem decision_is_earliest_and_final:
  "arb_lock (fold arb_record cs new_arbiter) = (Some d, b) \<Longrightarrow>
     d \<in> set cs \<and> list_all (no_later d) cs \<and> arb_lock (fold arb_record ds b) = (Some d, b)"
  using arb.lock_earliest [of new_arbiter cs d b] arb.lock_final [of "fold arb_record cs new_arbiter" d b ds]
  by (auto simp: new_arbiter_def arb_pool_def list_all_iff)

theorem decision_is_earliest_and_final_witness:
  "let c = \<lparr>tc_cause = StepFailed, tc_at = 7, tc_error = ACTION_FAILED, tc_step = Some ''s''\<rparr>;
       d = \<lparr>tc_cause = TotalTimeout, tc_at = 7, tc_error = TOTAL_EXECUTION_TIMEOUT, tc_step = None\<rparr>
   in fst (arb_lock (fold arb_record [c, d] new_arbiter)) = Some d \<and>
      fst (arb_lock (fold arb_record [c] (snd (arb_lock (fold arb_record [c, d] new_arbiter))))) = Some d"
proof -
  let ?c = "\<lparr>tc_cause = StepFailed, tc_at = 7, tc_error = ACTION_FAILED, tc_step = Some ''s''\<rparr>"
  let ?d = "\<lparr>tc_cause = TotalTimeout, tc_at = 7, tc_error = TOTAL_EXECUTION_TIMEOUT, tc_step = None\<rparr>"
  let ?b = "snd (arb_lock (fold arb_record [?c, ?d] new_arbiter))"
  have f: "fst (arb_lock (fold arb_record [?c, ?d] new_arbiter)) = Some ?d"
    by (simp add: arb_lock_def arb_record_def new_arbiter_def precedes_def)
  then have "arb_lock (fold arb_record [?c, ?d] new_arbiter) = (Some ?d, ?b)"
    by (metis prod.collapse)
  from decision_is_earliest_and_final [OF this, of "[?c]"]
  have "fst (arb_lock (fold arb_record [?c] ?b)) = Some ?d" by (metis fst_conv)
  with f show ?thesis unfolding Let_def by blast
qed

end
