(* ===== verification/Engine_Values.thy ===== *)
theory Engine_Values
  imports Engine_Contracts
begin

text \<open>
  \<open>packages/workflow-engine/src\<close>: the values a run works with. Thrown exceptions
  (errors.ts), the store of produced outputs (runtime-output-store.ts), the resolution of
  value sources (value-source-resolver.ts) and the origins a run may navigate to
  (origin-policy.ts). The host's URL parser and number formatting are parameters.
\<close>

section \<open>Exceptions (errors.ts)\<close>

datatype verification_kind = VkUrl | VkText | VkVisibility | VkFieldValue | VkChecked
datatype verification_outcome = Matched | NotMatched
datatype observed_state = ObVisible | ObHidden | ObAbsent | ObChecked | ObUnchecked

record verification_result =
  vr_kind :: verification_kind
  vr_outcome :: verification_outcome
  vr_attempts :: int
  vr_duration :: int
  vr_state :: "observed_state option"

definition MAX_VERIFICATION_ATTEMPTS :: int where "MAX_VERIFICATION_ATTEMPTS = 10000"

definition verification_schema_ok :: "verification_result \<Rightarrow> bool" where
  "verification_schema_ok v \<longleftrightarrow>
     0 < vr_attempts v \<and> vr_attempts v \<le> MAX_VERIFICATION_ATTEMPTS \<and> 0 \<le> vr_duration v \<and>
     \<not> (vr_kind v \<noteq> VkVisibility \<and> vr_kind v \<noteq> VkChecked \<and> vr_state v \<noteq> None)"

text \<open>
  A \<open>SafeExecutionException\<close> with its code, verification and effect; a rejection by a
  result schema; any other thrown value; and, of the model only, the end of the fuel.
\<close>

datatype engine_exn =
    SafeException error_code "verification_result option" "effect_certainty option"
  | SchemaRejected
  | OtherException
  | OutOfFuel

fun to_safe_error :: "engine_exn \<Rightarrow> error_code \<Rightarrow> error_code" where
  "to_safe_error (SafeException c v e) fallback = c"
| "to_safe_error _ fallback = fallback"

section \<open>Produced outputs (runtime-output-store.ts)\<close>

datatype output_value = OvString string | OvBoolean bool

fun type_of_output :: "output_value \<Rightarrow> output_type" where
  "type_of_output (OvString s) = OString"
| "type_of_output (OvBoolean b) = OBoolean"

fun output_literal :: "output_value \<Rightarrow> literal" where
  "output_literal (OvString s) = LitString s"
| "output_literal (OvBoolean b) = LitBool b"

record output_store =
  os_definitions :: "output_definition list"
  os_values :: "string \<rightharpoonup> output_type \<times> output_value"

definition new_output_store :: "output_definition list \<Rightarrow> output_store" where
  "new_output_store ds = \<lparr>os_definitions = ds, os_values = Map.empty\<rparr>"

definition os_set :: "output_store \<Rightarrow> string \<Rightarrow> output_type \<Rightarrow> output_value \<Rightarrow> error_code + output_store" where
  "os_set st name ty v =
     (case List.find (\<lambda>d. od_name d = name) (os_definitions st) of
        None \<Rightarrow> Inl OUTPUT_NOT_AVAILABLE
      | Some d \<Rightarrow>
          if os_values st name \<noteq> None then Inl DUPLICATE_OUTPUT_PRODUCTION
          else if od_type d \<noteq> ty \<or> type_of_output v \<noteq> od_type d then Inl OUTPUT_TYPE_MISMATCH
          else Inr (st\<lparr>os_values := (os_values st)(name \<mapsto> (ty, v))\<rparr>))"

definition os_get :: "output_store \<Rightarrow> string \<Rightarrow> variable_type list \<Rightarrow> error_code + output_value" where
  "os_get st name accepted =
     (case os_values st name of
        None \<Rightarrow> Inl OUTPUT_NOT_AVAILABLE
      | Some (ty, v) \<Rightarrow>
          if output_variable_type ty \<notin> set accepted then Inl OUTPUT_TYPE_MISMATCH else Inr v)"

record output_summary =
  sum_name :: string
  sum_type :: output_type
  sum_producer :: string
  sum_produced :: bool

definition os_summaries :: "output_store \<Rightarrow> output_summary list" where
  "os_summaries st =
     map (\<lambda>d. \<lparr>sum_name = od_name d, sum_type = od_type d, sum_producer = od_step_id d,
               sum_produced = (os_values st (od_name d) \<noteq> None)\<rparr>) (os_definitions st)"

definition os_clear :: "output_store \<Rightarrow> output_store" where
  "os_clear st = st\<lparr>os_values := Map.empty\<rparr>"

text \<open>
  The contract of the store towards the engine and the steps: an output is written once, a
  read returns what was written, and no write disturbs another output.
\<close>

locale write_once =
  fixes put :: "'s \<Rightarrow> string \<Rightarrow> output_type \<Rightarrow> output_value \<Rightarrow> error_code + 's"
    and get :: "'s \<Rightarrow> string \<Rightarrow> variable_type list \<Rightarrow> error_code + output_value"
    and written :: "'s \<Rightarrow> string set"
  assumes get_put: "put s n t v = Inr s' \<Longrightarrow> output_variable_type t \<in> set acc \<Longrightarrow> get s' n acc = Inr v"
    and get_other: "put s n t v = Inr s' \<Longrightarrow> m \<noteq> n \<Longrightarrow> get s' m acc = get s m acc"
    and written_put: "put s n t v = Inr s' \<Longrightarrow> written s' = insert n (written s)"
    and put_fresh: "put s n t v = Inr s' \<Longrightarrow> n \<notin> written s"
    and get_unwritten: "n \<notin> written s \<Longrightarrow> get s n acc = Inl OUTPUT_NOT_AVAILABLE"
begin

definition puts :: "(string \<times> output_type \<times> output_value) list \<Rightarrow> 's \<Rightarrow> error_code + 's" where
  "puts ws s = fold (\<lambda>(n, t, v) r. case r of Inl e \<Rightarrow> Inl e | Inr u \<Rightarrow> put u n t v) ws (Inr s)"

lemma fold_put_Inl: "fold (\<lambda>(n, t, v) r. case r of Inl e \<Rightarrow> Inl e | Inr u \<Rightarrow> put u n t v) ws (Inl e) = Inl e"
  by (induction ws) auto

lemma puts_Cons: "puts ((n, t, v) # ws) s = (case put s n t v of Inl e \<Rightarrow> Inl e | Inr u \<Rightarrow> puts ws u)"
  by (auto simp: puts_def fold_put_Inl split: sum.splits)

lemma puts_spec:
  "puts ws s = Inr s' \<Longrightarrow>
     written s' = written s \<union> fst ` set ws \<and> distinct (map fst ws) \<and>
     fst ` set ws \<inter> written s = {} \<and>
     (\<forall>m. m \<notin> fst ` set ws \<longrightarrow> get s' m acc = get s m acc)"
proof (induction ws arbitrary: s)
  case Nil
  then show ?case by (simp add: puts_def)
next
  case (Cons w ws)
  obtain n t v where w: "w = (n, t, v)" by (cases w)
  from Cons.prems w obtain u where u: "put s n t v = Inr u" and r: "puts ws u = Inr s'"
    by (auto simp: puts_Cons split: sum.splits)
  from Cons.IH [OF r] written_put [OF u] put_fresh [OF u] get_other [OF u] w
  show ?case by auto
qed

lemma get_after_puts:
  "puts ws s = Inr s' \<Longrightarrow> (n, t, v) \<in> set ws \<Longrightarrow> output_variable_type t \<in> set acc \<Longrightarrow>
     get s' n acc = Inr v"
proof (induction ws arbitrary: s)
  case (Cons w ws)
  obtain m t' v' where w: "w = (m, t', v')" by (cases w)
  from Cons.prems w obtain u where u: "put s m t' v' = Inr u" and r: "puts ws u = Inr s'"
    by (auto simp: puts_Cons split: sum.splits)
  show ?case
  proof (cases "(n, t, v) \<in> set ws")
    case True
    from Cons.IH [OF r this] Cons.prems show ?thesis by simp
  next
    case False
    with Cons.prems w have here: "n = m" "t = t'" "v = v'" by auto
    from puts_spec [OF r, of acc] written_put [OF u] have "m \<notin> fst ` set ws" by auto
    with puts_spec [OF r, of acc] get_put [OF u] Cons.prems here show ?thesis by auto
  qed
qed simp

end

interpretation outs: write_once os_set os_get "\<lambda>s. dom (os_values s)"
  by unfold_locales
    (auto simp: os_set_def os_get_def split: option.splits if_splits)

section \<open>Value sources at run time (value-source-resolver.ts)\<close>

type_synonym runtime_values = "runtime_input js_object"

record resolver =
  has_variable :: "string \<Rightarrow> variable_type \<Rightarrow> bool"
  has_secret :: "string \<Rightarrow> bool"
  resolve :: "value_source \<Rightarrow> value_target \<Rightarrow> engine_exn + literal"

definition safe_throw :: "error_code \<Rightarrow> engine_exn + 'a" where
  "safe_throw c = Inl (SafeException c None None)"

fun runtime_literal :: "runtime_input \<Rightarrow> literal option" where
  "runtime_literal (RtString s) = Some (LitString s)"
| "runtime_literal (RtNumber n) = Some (LitNumber n)"
| "runtime_literal (RtBoolean b) = Some (LitBool b)"
| "runtime_literal (RtDate d) = Some (LitString d)"
| "runtime_literal (RtFile n m) = None"

text \<open>An inherited member of the values object has no \<open>kind\<close> and matches no type.\<close>

fun resolve_value_source :: "runtime_values \<Rightarrow> value_source \<Rightarrow> value_target \<Rightarrow> engine_exn + literal" where
  "resolve_value_source vs (Secret n) t = safe_throw SECRET_RESOLUTION_UNAVAILABLE"
| "resolve_value_source vs (Literal l) t =
     (if literal_type_of l \<notin> set (literal_types (get_compatibility t))
      then safe_throw INVALID_WORKFLOW else Inr l)"
| "resolve_value_source vs (Output n) t = safe_throw OUTPUT_NOT_AVAILABLE"
| "resolve_value_source vs (Variable n) t =
     (case js_get vs n of
        Own x \<Rightarrow>
          if runtime_kind x \<notin> set (variable_types (get_compatibility t))
          then safe_throw INVALID_RUNTIME_INPUTS
          else (case runtime_literal x of
                  None \<Rightarrow> safe_throw INVALID_RUNTIME_INPUTS
                | Some l \<Rightarrow> Inr l)
      | _ \<Rightarrow> safe_throw INVALID_RUNTIME_INPUTS)"

definition create_runtime_value_resolver :: "runtime_values \<Rightarrow> resolver" where
  "create_runtime_value_resolver vs =
     \<lparr>has_variable = (\<lambda>n ty. case js_get vs n of Own x \<Rightarrow> runtime_kind x = ty | _ \<Rightarrow> False),
      has_secret = (\<lambda>n. False),
      resolve = resolve_value_source vs\<rparr>"

text \<open>The resolver a step sees reads the store as it is when the step runs.\<close>

definition with_runtime_outputs :: "resolver \<Rightarrow> output_store \<Rightarrow> resolver" where
  "with_runtime_outputs r st =
     r\<lparr>resolve := (\<lambda>src t. case src of
         Output n \<Rightarrow>
           (case os_get st n (variable_types (get_compatibility t)) of
              Inl c \<Rightarrow> safe_throw c
            | Inr v \<Rightarrow> Inr (output_literal v))
       | _ \<Rightarrow> resolve r src t)\<rparr>"

definition resolve_text_with_resolver :: "resolver \<Rightarrow> value_source \<Rightarrow> value_target \<Rightarrow> engine_exn + string" where
  "resolve_text_with_resolver r src t =
     (case resolve r src t of
        Inl e \<Rightarrow> Inl e
      | Inr (LitString s) \<Rightarrow> Inr s
      | Inr _ \<Rightarrow> safe_throw INVALID_RUNTIME_INPUTS)"

definition resolve_select_with_resolver ::
  "(rat \<Rightarrow> string) \<Rightarrow> resolver \<Rightarrow> value_source \<Rightarrow> engine_exn + string" where
  "resolve_select_with_resolver num r src =
     (case resolve r src SelectValue of
        Inl e \<Rightarrow> Inl e
      | Inr (LitBool b) \<Rightarrow> safe_throw INVALID_RUNTIME_INPUTS
      | Inr l \<Rightarrow> Inr (js_string num l))"

section \<open>Origins (origin-policy.ts)\<close>

definition ALLOWED_PROTOCOLS :: "string list" where [code_sets]:
  "ALLOWED_PROTOCOLS = [''http:'', ''https:'']"

definition is_bare_origin :: "url \<Rightarrow> bool" where
  "is_bare_origin u \<longleftrightarrow>
     \<not> (url_protocol u \<notin> set ALLOWED_PROTOCOLS \<or> url_username u \<noteq> [] \<or> url_password u \<noteq> [] \<or>
        url_pathname u \<noteq> ''/'' \<or> url_search u \<noteq> [] \<or> url_hash u \<noteq> [])"

fun add_origins :: "url_parser \<Rightarrow> string list \<Rightarrow> string list \<Rightarrow> error_code + string list" where
  "add_origins url_of normalized [] = Inr normalized"
| "add_origins url_of normalized (v # vs) =
     (case url_of v of
        None \<Rightarrow> Inl INVALID_EXECUTION_REQUEST
      | Some u \<Rightarrow>
          if \<not> is_bare_origin u then Inl INVALID_EXECUTION_REQUEST
          else if url_origin u \<in> set normalized then Inl INVALID_EXECUTION_REQUEST
          else add_origins url_of (normalized @ [url_origin u]) vs)"

definition normalize_allowed_origins :: "url_parser \<Rightarrow> string list \<Rightarrow> error_code + string list" where
  "normalize_allowed_origins url_of vs = add_origins url_of [] vs"

definition validate_navigation_url :: "url_parser \<Rightarrow> string \<Rightarrow> string list \<Rightarrow> error_code + url" where
  "validate_navigation_url url_of v allowed =
     (case url_of v of
        None \<Rightarrow> Inl INVALID_NAVIGATION_URL
      | Some u \<Rightarrow>
          if url_protocol u \<notin> set ALLOWED_PROTOCOLS then Inl UNSAFE_URL_SCHEME
          else if url_username u \<noteq> [] \<or> url_password u \<noteq> [] then Inl INVALID_NAVIGATION_URL
          else if url_origin u \<notin> set allowed then Inl ORIGIN_NOT_ALLOWED
          else Inr u)"

lemma add_origins_spec:
  "add_origins url_of acc vs = Inr os \<Longrightarrow>
     (\<exists>us. map url_of vs = map Some us \<and> list_all is_bare_origin us \<and> os = acc @ map url_origin us) \<and>
     (distinct acc \<longrightarrow> distinct os)"
proof (induction vs arbitrary: acc)
  case (Cons v vs)
  then obtain u where u: "url_of v = Some u" "is_bare_origin u" "url_origin u \<notin> set acc"
      and r: "add_origins url_of (acc @ [url_origin u]) vs = Inr os"
    by (auto split: option.splits if_splits)
  from Cons.IH [OF r] obtain us where us: "map url_of vs = map Some us" "list_all is_bare_origin us"
      "os = (acc @ [url_origin u]) @ map url_origin us" "distinct (acc @ [url_origin u]) \<longrightarrow> distinct os"
    by auto
  with u have "map url_of (v # vs) = map Some (u # us) \<and> list_all is_bare_origin (u # us) \<and>
      os = acc @ map url_origin (u # us)" by simp
  with us(4) u(3) show ?case by (intro conjI exI [of _ "u # us"]) auto
qed auto

lemma normalize_allowed_origins_spec:
  assumes "normalize_allowed_origins url_of vs = Inr os"
  shows "distinct os \<and> (\<forall>o' \<in> set os. \<exists>v \<in> set vs. \<exists>u. url_of v = Some u \<and> is_bare_origin u \<and> url_origin u = o')"
proof -
  from add_origins_spec [of url_of "[]" vs os] assms obtain us where
    us: "map url_of vs = map Some us" "list_all is_bare_origin us" "os = map url_origin us" "distinct os"
    by (auto simp: normalize_allowed_origins_def)
  have "\<exists>v \<in> set vs. \<exists>u. url_of v = Some u \<and> is_bare_origin u \<and> url_origin u = o'"
    if o': "o' \<in> set os" for o'
  proof -
    from o' us obtain u where u: "u \<in> set us" "url_origin u = o'" by auto
    then have "Some u \<in> set (map url_of vs)" by (simp add: us(1))
    with u us(2) show ?thesis by (force simp: list_all_iff)
  qed
  with us show ?thesis by blast
qed

lemma validate_navigation_url_iff:
  "validate_navigation_url url_of v allowed = Inr u \<longleftrightarrow>
     url_of v = Some u \<and> url_protocol u \<in> set ALLOWED_PROTOCOLS \<and> url_username u = [] \<and>
     url_password u = [] \<and> url_origin u \<in> set allowed"
  by (auto simp: validate_navigation_url_def split: option.splits)

section \<open>Properties\<close>

text \<open>The values a run produces, stored one after the other; the first refusal ends it.\<close>

definition os_set_all :: "(string \<times> output_type \<times> output_value) list \<Rightarrow> output_store \<Rightarrow> error_code + output_store" where
  "os_set_all ws s = fold (\<lambda>(n, t, v) r. case r of Inl e \<Rightarrow> Inl e | Inr u \<Rightarrow> os_set u n t v) ws (Inr s)"

text \<open>
  The output store is written once: a sequence of values is accepted only if every output
  name occurs once in it, the names written are exactly those, and every value is read back
  unchanged at its type whatever was written after it.
\<close>

lemma output_store_is_write_once:
  "os_set_all ws (new_output_store ds) = Inr s \<Longrightarrow>
     distinct (map fst ws) \<and> dom (os_values s) = fst ` set ws \<and>
     list_all (\<lambda>(n, t, v). os_get s n [output_variable_type t] = Inr v) ws"
proof -
  assume "os_set_all ws (new_output_store ds) = Inr s"
  then have p: "outs.puts ws (new_output_store ds) = Inr s"
    by (simp add: os_set_all_def outs.puts_def)
  have "os_get s n [output_variable_type t] = Inr v" if "(n, t, v) \<in> set ws" for n t v
    by (rule outs.get_after_puts [OF p that]) simp
  with outs.puts_spec [OF p] show ?thesis
    by (auto simp: new_output_store_def list_all_iff)
qed

lemma output_store_is_write_once_witness:
  "let d = \<lparr>od_name = ''n'', od_label = None, od_type = OString, od_step_id = ''s'', od_index = 0\<rparr>
   in \<exists>s. os_set_all [(''n'', OString, OvString ''x'')] (new_output_store [d]) = Inr s \<and>
        dom (os_values s) = {''n''} \<and> os_get s ''n'' [output_variable_type OString] = Inr (OvString ''x'')"
proof -
  let ?d = "\<lparr>od_name = ''n'', od_label = None, od_type = OString, od_step_id = ''s'', od_index = 0\<rparr>"
  obtain s where s: "os_set_all [(''n'', OString, OvString ''x'')] (new_output_store [?d]) = Inr s"
    by (auto simp: os_set_all_def os_set_def new_output_store_def split: option.splits if_splits)
  from output_store_is_write_once [OF s] s show ?thesis by (auto simp: Let_def)
qed

text \<open>
  C10: with a normalised list of allowed origins, a navigation is allowed only to an http or
  https URL without credentials whose origin is that of one of the configured entries, and
  each of those entries is a bare origin.
\<close>

theorem navigation_stays_on_configured_origins:
  "normalize_allowed_origins url_of vs = Inr os \<Longrightarrow> validate_navigation_url url_of v os = Inr u \<Longrightarrow>
     url_of v = Some u \<and> url_protocol u \<in> set ALLOWED_PROTOCOLS \<and> url_username u = [] \<and> url_password u = [] \<and>
     (\<exists>c u'. c \<in> set vs \<and> url_of c = Some u' \<and> is_bare_origin u' \<and> url_origin u' = url_origin u)"
proof -
  assume n: "normalize_allowed_origins url_of vs = Inr os" and v: "validate_navigation_url url_of v os = Inr u"
  from v have u: "url_of v = Some u" "url_protocol u \<in> set ALLOWED_PROTOCOLS" "url_username u = []"
    "url_password u = []" "url_origin u \<in> set os"
    by (simp_all add: validate_navigation_url_iff)
  from normalize_allowed_origins_spec [OF n] u(5) obtain c u' where
    "c \<in> set vs" "url_of c = Some u'" "is_bare_origin u'" "url_origin u' = url_origin u"
    by blast
  with u show ?thesis by blast
qed

definition sample_url_parser :: url_parser where
  "sample_url_parser s =
     (if s = ''https://a.example/'' \<or> s = ''https://a.example/login''
      then Some \<lparr>url_protocol = ''https:'', url_username = [], url_password = [],
                 url_origin = ''https://a.example'', url_hostname = ''a.example'', url_port = [],
                 url_pathname = (if s = ''https://a.example/'' then ''/'' else ''/login''),
                 url_search = [], url_hash = []\<rparr>
      else None)"

theorem navigation_stays_on_configured_origins_witness:
  "\<exists>os u. normalize_allowed_origins sample_url_parser [''https://a.example/''] = Inr os \<and>
     validate_navigation_url sample_url_parser ''https://a.example/login'' os = Inr u \<and>
     url_protocol u \<in> set ALLOWED_PROTOCOLS"
proof -
  obtain os where os: "normalize_allowed_origins sample_url_parser [''https://a.example/''] = Inr os"
    "os = [''https://a.example'']"
    by (simp add: normalize_allowed_origins_def sample_url_parser_def is_bare_origin_def ALLOWED_PROTOCOLS_def)
  obtain u where u: "validate_navigation_url sample_url_parser ''https://a.example/login'' os = Inr u"
    by (simp add: os(2) validate_navigation_url_def sample_url_parser_def ALLOWED_PROTOCOLS_def)
  from navigation_stays_on_configured_origins [OF os(1) u] os(1) u show ?thesis by blast
qed

end
