(* ===== verification/Engine_Preflight.thy ===== *)
theory Engine_Preflight
  imports Engine_Values
begin

text \<open>
  \<open>packages/workflow-engine/src/preflight.ts\<close>: everything that is checked before a run
  starts. A request arrives untyped; \<open>None\<close> in a component of \<open>raw_request\<close> is a value that
  is absent or not of the shape its schema reads. What the host supplies (URL parsing,
  number text, string collation, the adapter's own validation, an external value resolver)
  is the record \<open>host\<close>.
\<close>

section \<open>Requests (contracts.ts, constants.ts)\<close>

record execution_options =
  eo_total :: int
  eo_step :: int
  eo_mode :: recovery_mode

record raw_options =
  ro_total :: int
  ro_step :: int
  ro_mode :: "recovery_mode option"

record raw_request =
  rq_envelope :: bool
  rq_workflow :: "workflow option"
  rq_inputs :: "runtime_values option"
  rq_origins :: "string list option"
  rq_options :: "raw_options option"

definition MIN_EXECUTION_TIMEOUT_MS :: int where "MIN_EXECUTION_TIMEOUT_MS = 100"
definition MAX_EXECUTION_TIMEOUT_MS :: int where "MAX_EXECUTION_TIMEOUT_MS = 600000"
definition MIN_STEP_TIMEOUT_MS :: int where "MIN_STEP_TIMEOUT_MS = 100"
definition MAX_STEP_TIMEOUT_MS :: int where "MAX_STEP_TIMEOUT_MS = 60000"
definition MAX_ALLOWED_ORIGINS :: nat where "MAX_ALLOWED_ORIGINS = 32"
definition MAX_ORIGIN_LENGTH :: nat where "MAX_ORIGIN_LENGTH = 512"

definition parse_options :: "raw_options \<Rightarrow> execution_options option" where
  "parse_options r =
     do { t \<leftarrow> parse_range MIN_EXECUTION_TIMEOUT_MS MAX_EXECUTION_TIMEOUT_MS (ro_total r);
          s \<leftarrow> parse_range MIN_STEP_TIMEOUT_MS MAX_STEP_TIMEOUT_MS (ro_step r);
          Some \<lparr>eo_total = t, eo_step = s,
                eo_mode = (case ro_mode r of None \<Rightarrow> AutomaticSafeOnly | Some m \<Rightarrow> m)\<rparr> }"

definition raw_of_options :: "execution_options \<Rightarrow> raw_options" where
  "raw_of_options e = \<lparr>ro_total = eo_total e, ro_step = eo_step e, ro_mode = Some (eo_mode e)\<rparr>"

definition parse_origins :: "string list \<Rightarrow> string list option" where
  "parse_origins vs =
     do { os \<leftarrow> parse_list (parse_bounded MAX_ORIGIN_LENGTH) vs;
          guard_ok (1 \<le> length os \<and> length os \<le> MAX_ALLOWED_ORIGINS); Some os }"

record execution_request =
  er_workflow :: workflow
  er_inputs :: runtime_values
  er_origins :: "string list"
  er_options :: execution_options

text \<open>\<open>WorkflowExecutionRequestSchema.parse\<close> of a request assembled from parsed parts.\<close>

definition parse_request :: "execution_request \<Rightarrow> execution_request option" where
  "parse_request r =
     do { w \<leftarrow> parse_workflow (er_workflow r);
          i \<leftarrow> parse_submission (er_inputs r);
          os \<leftarrow> parse_origins (er_origins r);
          e \<leftarrow> parse_options (raw_of_options (er_options r));
          Some \<lparr>er_workflow = w, er_inputs = i, er_origins = os, er_options = e\<rparr> }"

record prepared =
  pr_request :: execution_request
  pr_resolver :: resolver
  pr_origins :: "string list"

datatype preflight_result =
    PreflightOk prepared
  | PreflightFailure error_code "workflow option"
  | PreflightThrows

section \<open>The host\<close>

record host =
  url_of :: url_parser
  number_text :: "rat \<Rightarrow> string"
  collate :: "string \<Rightarrow> string \<Rightarrow> int"
  supported_types :: "step_type list"
  validate_step :: "workflow_step \<Rightarrow> engine_exn option"
  external_resolver :: "resolver option"
  approvals_available :: bool
  recovery_available :: bool

section \<open>Preflight\<close>

definition find_typed_workflow :: "raw_request \<Rightarrow> workflow option" where
  "find_typed_workflow rq = Option.bind (rq_workflow rq) parse_workflow"

text \<open>The checks of one step's values; \<open>Inl\<close> is the exception that ends the loop.\<close>

definition check_navigate :: "host \<Rightarrow> resolver \<Rightarrow> string list \<Rightarrow> value_source \<Rightarrow> engine_exn + unit" where
  "check_navigate h r origins src =
     (case src of
        Output n \<Rightarrow> safe_throw INVALID_WORKFLOW
      | _ \<Rightarrow>
          (case resolve_text_with_resolver r src NavigateUrl of
             Inl e \<Rightarrow> Inl e
           | Inr s \<Rightarrow>
               (case validate_navigation_url (url_of h) s origins of
                  Inl c \<Rightarrow> safe_throw c
                | Inr u \<Rightarrow> Inr ())))"

definition check_expected :: "host \<Rightarrow> resolver \<Rightarrow> workflow_assertion \<Rightarrow> engine_exn + unit" where
  "check_expected h r a =
     (case expected_source a of
        None \<Rightarrow> Inr ()
      | Some (Output n, t) \<Rightarrow> Inr ()
      | Some (src, t) \<Rightarrow>
          (case resolve r src t of
             Inl e \<Rightarrow> Inl e
           | Inr l \<Rightarrow>
               if t = VerifyUrlExpected
               then (case l of
                       LitString s \<Rightarrow>
                         (case normalize_url (url_of h) s of
                            Inl f \<Rightarrow> safe_throw VERIFICATION_EXPECTATION_INVALID
                          | Inr p \<Rightarrow> Inr ())
                     | _ \<Rightarrow> safe_throw VERIFICATION_EXPECTATION_INVALID)
               else if t = VerifyTextExpected
               then (case l of
                       LitString s \<Rightarrow>
                         (if normalize_text s = None
                          then safe_throw VERIFICATION_EXPECTATION_INVALID else Inr ())
                     | _ \<Rightarrow> safe_throw VERIFICATION_EXPECTATION_INVALID)
               else Inr ()))"

definition discard :: "'e + 'a \<Rightarrow> 'e + unit" where
  "discard x = (case x of Inl e \<Rightarrow> Inl e | Inr _ \<Rightarrow> Inr ())"

definition is_output :: "value_source \<Rightarrow> bool" where
  "is_output src = (case src of Output n \<Rightarrow> True | _ \<Rightarrow> False)"

definition check_values :: "host \<Rightarrow> resolver \<Rightarrow> string list \<Rightarrow> step_body \<Rightarrow> engine_exn + unit" where
  "check_values h r origins b =
     (case b of
        Navigate src \<Rightarrow> check_navigate h r origins src
      | Fill l src \<Rightarrow>
          (if is_output src then Inr () else discard (resolve_text_with_resolver r src FillValue))
      | Select l src \<Rightarrow>
          (if is_output src then Inr () else discard (resolve_select_with_resolver (number_text h) r src))
      | Verify a t \<Rightarrow> check_expected h r a
      | _ \<Rightarrow> Inr ())"

definition check_step :: "host \<Rightarrow> resolver \<Rightarrow> string list \<Rightarrow> workflow_step \<Rightarrow> engine_exn + unit" where
  "check_step h r origins st =
     (if step_type_of st = TApproval then Inr ()
      else if step_type_of st \<notin> set (supported_types h) then safe_throw UNSUPPORTED_STEP_TYPE
      else case validate_step h st of
             Some e \<Rightarrow> Inl e
           | None \<Rightarrow> check_values h r origins (body st))"

fun check_steps :: "host \<Rightarrow> resolver \<Rightarrow> string list \<Rightarrow> workflow_step list \<Rightarrow> engine_exn + unit" where
  "check_steps h r origins [] = Inr ()"
| "check_steps h r origins (st # sts) =
     (case check_step h r origins st of
        Inl e \<Rightarrow> Inl e
      | Inr u \<Rightarrow> check_steps h r origins sts)"

text \<open>The inputs: against the submission, or against what an external resolver offers.\<close>

definition check_inputs :: "host \<Rightarrow> workflow \<Rightarrow> runtime_values \<Rightarrow> error_code option" where
  "check_inputs h w vs =
     (let a = analyze_workflow_inputs w
      in case external_resolver h of
           None \<Rightarrow>
             if ia_secrets a \<noteq> [] then Some SECRET_RESOLUTION_UNAVAILABLE
             else if \<not> inputs_valid (snd (validate_workflow_run_inputs w (Some vs)))
             then Some INVALID_RUNTIME_INPUTS else None
         | Some r \<Rightarrow>
             if (\<exists>i \<in> set (ia_variables a).
                   (var_required (va_variable i) \<or> 0 < va_count i) \<and>
                   (var_type (va_variable i) = VFile \<or>
                    \<not> has_variable r (var_name (va_variable i)) (var_type (va_variable i))))
             then Some INVALID_RUNTIME_INPUTS
             else if (\<exists>s \<in> set (ia_secrets a). \<not> has_secret r (secret_name s))
             then Some SECRET_RESOLUTION_UNAVAILABLE else None)"

definition analyses_error :: "host \<Rightarrow> workflow \<Rightarrow> engine_exn + error_code option" where
  "analyses_error h w =
     (if ia_blocking (analyze_workflow_inputs w) then Inr (Some INVALID_WORKFLOW)
      else if v_issues (analyze_workflow_verifications (url_of h) w) \<noteq> []
      then Inr (Some VERIFICATION_RULE_INVALID)
      else case analyze_workflow_extraction (collate h) w of
             None \<Rightarrow> Inl SchemaRejected
           | Some x \<Rightarrow>
               if xa_blocking x then Inr (Some INVALID_WORKFLOW)
               else (case analyze_workflow_approvals w of
                       None \<Rightarrow> Inl SchemaRejected
                     | Some a \<Rightarrow>
                         if aa_blocking a then Inr (Some APPROVAL_BINDING_INVALID)
                         else if aa_bindings a \<noteq> [] \<and> \<not> approvals_available h
                         then Inr (Some APPROVAL_COORDINATOR_UNAVAILABLE)
                         else Inr None))"

definition preflight_origins ::
  "host \<Rightarrow> workflow \<Rightarrow> execution_options \<Rightarrow> runtime_values \<Rightarrow> string list option \<Rightarrow> preflight_result" where
  "preflight_origins h w opts vs raw =
     (case Option.bind raw parse_origins of
        None \<Rightarrow> PreflightFailure INVALID_EXECUTION_REQUEST (Some w)
      | Some os \<Rightarrow>
          (case normalize_allowed_origins (url_of h) os of
             Inl c \<Rightarrow> PreflightFailure c (Some w)
           | Inr origins \<Rightarrow>
               (let r = (case external_resolver h of
                           None \<Rightarrow> create_runtime_value_resolver vs | Some r \<Rightarrow> r)
                in case check_steps h r origins (steps w) of
                     Inl e \<Rightarrow> PreflightFailure (to_safe_error e INVALID_WORKFLOW) (Some w)
                   | Inr u \<Rightarrow>
                       (case parse_request \<lparr>er_workflow = w, er_inputs = vs, er_origins = os,
                                            er_options = opts\<rparr> of
                          None \<Rightarrow> PreflightThrows
                        | Some rq \<Rightarrow>
                            PreflightOk \<lparr>pr_request = rq, pr_resolver = r, pr_origins = origins\<rparr>))))"

definition preflight_workflow_execution :: "host \<Rightarrow> raw_request \<Rightarrow> preflight_result" where
  "preflight_workflow_execution h rq =
     (if \<not> rq_envelope rq
      then PreflightFailure INVALID_EXECUTION_REQUEST (find_typed_workflow rq)
      else case Option.bind (rq_workflow rq) parse_workflow of
        None \<Rightarrow> PreflightFailure INVALID_WORKFLOW None
      | Some w \<Rightarrow>
          (case Option.bind (rq_options rq) parse_options of
             None \<Rightarrow> PreflightFailure INVALID_EXECUTION_TIMEOUT (Some w)
           | Some opts \<Rightarrow>
               if eo_mode opts \<noteq> AutomaticSafeOnly \<and> \<not> recovery_available h
               then PreflightFailure RECOVERY_COORDINATOR_UNAVAILABLE (Some w)
               else (case Option.bind (rq_inputs rq) parse_submission of
                  None \<Rightarrow> PreflightFailure INVALID_RUNTIME_INPUTS (Some w)
                | Some vs \<Rightarrow>
                    (case analyses_error h w of
                       Inl e \<Rightarrow> PreflightThrows
                     | Inr (Some c) \<Rightarrow> PreflightFailure c (Some w)
                     | Inr None \<Rightarrow>
                         (case check_inputs h w vs of
                            Some c \<Rightarrow> PreflightFailure c (Some w)
                          | None \<Rightarrow> preflight_origins h w opts vs (rq_origins rq))))))"

section \<open>What a successful preflight establishes\<close>

interpretation options: schema_parser "\<lambda>e. parse_options (raw_of_options e)"
  by unfold_locales (auto simp: parse_options_def raw_of_options_def split: if_split_asm)

interpretation origins: schema_parser parse_origins
proof unfold_locales
  fix x y assume "parse_origins x = Some y"
  then show "parse_origins y = Some y"
    by (auto simp: parse_origins_def split: bind_split_asm if_split_asm
        dest!: bounded.normal_list simp: bounded.again_list)
qed

lemma parse_options_again: "parse_options r = Some e \<Longrightarrow> parse_options (raw_of_options e) = Some e"
  by (auto simp: parse_options_def raw_of_options_def split: if_split_asm)

text \<open>Assembling the request from its parsed parts cannot be rejected.\<close>

lemma parse_request_parsed:
  assumes "parse_workflow w0 = Some w" and "parse_submission vs0 = Some vs"
    and "parse_origins os0 = Some os" and "parse_options r = Some e"
  shows "parse_request \<lparr>er_workflow = w, er_inputs = vs, er_origins = os, er_options = e\<rparr> =
    Some \<lparr>er_workflow = w, er_inputs = vs, er_origins = os, er_options = e\<rparr>"
  using definition_schema.reparse [OF assms(1)] submission.reparse [OF assms(2)]
    origins.reparse [OF assms(3)] parse_options_again [OF assms(4)]
  by (simp add: parse_request_def)

lemma check_steps_Inr:
  "check_steps h r os sts = Inr () \<longleftrightarrow> (\<forall>st \<in> set sts. check_step h r os st = Inr ())"
  by (induction sts) (auto split: sum.splits)


text \<open>Where every check has passed; the parts of the result.\<close>

definition preflight_passed ::
  "host \<Rightarrow> raw_request \<Rightarrow> workflow \<Rightarrow> runtime_values \<Rightarrow> string list \<Rightarrow> string list
    \<Rightarrow> execution_options \<Rightarrow> resolver \<Rightarrow> bool" where
  "preflight_passed h rq w vs os origins e r \<longleftrightarrow>
     rq_envelope rq \<and> Option.bind (rq_workflow rq) parse_workflow = Some w \<and>
     Option.bind (rq_options rq) parse_options = Some e \<and>
     (eo_mode e = AutomaticSafeOnly \<or> recovery_available h) \<and>
     Option.bind (rq_inputs rq) parse_submission = Some vs \<and>
     analyses_error h w = Inr None \<and> check_inputs h w vs = None \<and>
     Option.bind (rq_origins rq) parse_origins = Some os \<and>
     normalize_allowed_origins (url_of h) os = Inr origins \<and>
     r = (case external_resolver h of None \<Rightarrow> create_runtime_value_resolver vs | Some r \<Rightarrow> r) \<and>
     check_steps h r origins (steps w) = Inr ()"

definition prepared_of ::
  "workflow \<Rightarrow> runtime_values \<Rightarrow> string list \<Rightarrow> string list \<Rightarrow> execution_options \<Rightarrow> resolver \<Rightarrow> prepared" where
  "prepared_of w vs os origins e r =
     \<lparr>pr_request = \<lparr>er_workflow = w, er_inputs = vs, er_origins = os, er_options = e\<rparr>,
      pr_resolver = r, pr_origins = origins\<rparr>"

lemma preflight_origins_Ok:
  assumes "parse_workflow w0 = Some w" and "parse_submission vs0 = Some vs"
    and "parse_options e0 = Some e"
  shows "preflight_origins h w e vs raw = PreflightOk p \<longleftrightarrow>
    (\<exists>os origins r. Option.bind raw parse_origins = Some os \<and>
       normalize_allowed_origins (url_of h) os = Inr origins \<and>
       r = (case external_resolver h of None \<Rightarrow> create_runtime_value_resolver vs | Some r \<Rightarrow> r) \<and>
       check_steps h r origins (steps w) = Inr () \<and> p = prepared_of w vs os origins e r)"
    (is "_ \<longleftrightarrow> ?rhs")
proof (cases "Option.bind raw parse_origins")
  case None
  then show ?thesis by (simp add: preflight_origins_def)
next
  case (Some os)
  then obtain os0 where "parse_origins os0 = Some os" by (cases raw) auto
  note again = parse_request_parsed [OF assms(1,2) this assms(3)]
  show ?thesis
    by (auto simp: preflight_origins_def Let_def Some again prepared_of_def split: sum.splits)
qed

lemma preflight_origins_no_throw:
  assumes "parse_workflow w0 = Some w" and "parse_submission vs0 = Some vs"
    and "parse_options e0 = Some e"
  shows "preflight_origins h w e vs raw \<noteq> PreflightThrows"
proof (cases "Option.bind raw parse_origins")
  case (Some os)
  then obtain os0 where "parse_origins os0 = Some os" by (cases raw) auto
  note again = parse_request_parsed [OF assms(1,2) this assms(3)]
  show ?thesis
    by (auto simp: preflight_origins_def Let_def Some again split: sum.splits)
qed (simp add: preflight_origins_def)

lemma preflight_Ok_iff:
  "preflight_workflow_execution h rq = PreflightOk p \<longleftrightarrow>
     (\<exists>w vs os origins e r. preflight_passed h rq w vs os origins e r \<and>
        p = prepared_of w vs os origins e r)"
proof
  assume ok: "preflight_workflow_execution h rq = PreflightOk p"
  then have env: "rq_envelope rq" by (auto simp: preflight_workflow_execution_def split: if_splits)
  from ok obtain w where w: "Option.bind (rq_workflow rq) parse_workflow = Some w"
    by (auto simp: preflight_workflow_execution_def split: if_splits option.splits)
  from ok w obtain e where e: "Option.bind (rq_options rq) parse_options = Some e"
    by (auto simp: preflight_workflow_execution_def split: if_splits option.splits)
  from ok w e have m: "eo_mode e = AutomaticSafeOnly \<or> recovery_available h"
    by (auto simp: preflight_workflow_execution_def split: if_splits)
  with ok w e obtain vs where vs: "Option.bind (rq_inputs rq) parse_submission = Some vs"
    by (auto simp: preflight_workflow_execution_def split: if_splits option.splits)
  from ok w e m vs have a: "analyses_error h w = Inr None"
    by (auto simp: preflight_workflow_execution_def split: if_splits option.splits sum.splits)
  with ok w e m vs have i: "check_inputs h w vs = None"
    by (auto simp: preflight_workflow_execution_def split: if_splits option.splits)
  from ok env w e m vs a i have po: "preflight_origins h w e vs (rq_origins rq) = PreflightOk p"
    by (auto simp: preflight_workflow_execution_def split: if_splits)
  from w obtain w0 where w0: "parse_workflow w0 = Some w" by (cases "rq_workflow rq") auto
  from vs obtain vs0 where vs0: "parse_submission vs0 = Some vs" by (cases "rq_inputs rq") auto
  from e obtain e0 where e0: "parse_options e0 = Some e" by (cases "rq_options rq") auto
  from po [unfolded preflight_origins_Ok [OF w0 vs0 e0]] env w e m vs a i
  show "\<exists>w vs os origins e r. preflight_passed h rq w vs os origins e r \<and>
        p = prepared_of w vs os origins e r"
    unfolding preflight_passed_def by blast
next
  assume "\<exists>w vs os origins e r. preflight_passed h rq w vs os origins e r \<and>
        p = prepared_of w vs os origins e r"
  then obtain w vs os origins e r where pass: "preflight_passed h rq w vs os origins e r"
    and p: "p = prepared_of w vs os origins e r" by blast
  from pass obtain w0 where w0: "parse_workflow w0 = Some w"
    by (cases "rq_workflow rq") (auto simp: preflight_passed_def)
  from pass obtain vs0 where vs0: "parse_submission vs0 = Some vs"
    by (cases "rq_inputs rq") (auto simp: preflight_passed_def)
  from pass obtain e0 where e0: "parse_options e0 = Some e"
    by (cases "rq_options rq") (auto simp: preflight_passed_def)
  have "preflight_origins h w e vs (rq_origins rq) = PreflightOk p"
    unfolding preflight_origins_Ok [OF w0 vs0 e0] using pass p
    by (auto simp: preflight_passed_def)
  with pass show "preflight_workflow_execution h rq = PreflightOk p"
    by (auto simp: preflight_passed_def preflight_workflow_execution_def)
qed

lemma analyses_error_None:
  "analyses_error h w = Inr None \<Longrightarrow>
     (\<forall>a \<in> set (find_value_sources w). source_admissible (variables w) a) \<and>
     v_issues (analyze_workflow_verifications (url_of h) w) = [] \<and> dataflow_ok w \<and>
     \<not> (is_approval (last (steps w)) \<and> steps w \<noteq> []) \<and>
     (aa_bindings (approval_report w) = [] \<or> approvals_available h) \<and>
     (\<exists>a. analyze_workflow_approvals w = Some a)"
  using approval_report_spec [of w]
  by (auto simp: analyses_error_def analyze_blocking_iff analyze_workflow_extraction_def
      analyze_workflow_approvals_def Let_def extraction_blocking_iff
      split: if_splits option.splits)

lemma check_navigate_Inr:
  "check_navigate h r origins src = Inr u \<Longrightarrow>
     \<exists>s v. resolve_text_with_resolver r src NavigateUrl = Inr s \<and> url_of h s = Some v \<and>
       url_protocol v \<in> set ALLOWED_PROTOCOLS \<and> url_origin v \<in> set origins"
  by (auto simp: check_navigate_def safe_throw_def validate_navigation_url_iff
      split: value_source.splits sum.splits)

end
