(* ===== verification/Engine_Result.thy ===== *)
theory Engine_Result
  imports Engine_Preflight
begin

text \<open>
  \<open>packages/workflow-engine/src\<close>: the mutable record the engine keeps of each step and the
  result it builds from the records (result-builder.ts), with the schema that the result has
  to satisfy (contracts.ts). A result the schema rejects is the exception \<open>SchemaRejected\<close>.
\<close>

section \<open>Step records (result-builder.ts)\<close>

record exec_record =
  xr_step :: workflow_step
  xr_status :: step_status
  xr_started :: "int option"
  xr_finished :: "int option"
  xr_skipped :: "skip_reason option"
  xr_error :: "error_code option"
  xr_verification :: "verification_result option"
  xr_attempts :: "step_attempt list option"

definition new_record :: "workflow_step \<Rightarrow> exec_record" where
  "new_record st =
     \<lparr>xr_step = st, xr_status = StPending, xr_started = None, xr_finished = None, xr_skipped = None,
      xr_error = None, xr_verification = None, xr_attempts = None\<rparr>"

definition create_records :: "workflow option \<Rightarrow> exec_record list" where
  "create_records w = (case w of None \<Rightarrow> [] | Some w \<Rightarrow> map new_record (steps w))"

abbreviation attempts_of :: "exec_record \<Rightarrow> step_attempt list" where
  "attempts_of r \<equiv> (case xr_attempts r of None \<Rightarrow> [] | Some as \<Rightarrow> as)"

section \<open>Step results\<close>

datatype locator_kind = LkTestId | LkRole | LkLabel | LkPlaceholder | LkText | LkCss

fun kind_of_locator :: "element_locator \<Rightarrow> locator_kind" where
  "kind_of_locator (TestId v a) = LkTestId"
| "kind_of_locator (Role r n e) = LkRole"
| "kind_of_locator (Label v e) = LkLabel"
| "kind_of_locator (TextLoc v e) = LkText"
| "kind_of_locator (Placeholder v e) = LkPlaceholder"
| "kind_of_locator (Css s) = LkCss"

fun assertion_locator :: "workflow_assertion \<Rightarrow> element_locator option" where
  "assertion_locator (Visible l) = Some l"
| "assertion_locator (Hidden l) = Some l"
| "assertion_locator (TextIs l m oper e) = Some l"
| "assertion_locator (ValueIs l oper e) = Some l"
| "assertion_locator (UrlIs m oper e) = None"
| "assertion_locator (CheckedIs l b) = Some l"

fun body_locator :: "step_body \<Rightarrow> element_locator option" where
  "body_locator (Click l i) = Some l"
| "body_locator (Fill l v) = Some l"
| "body_locator (Select l v) = Some l"
| "body_locator (SetChecked l b) = Some l"
| "body_locator (Extract l s n lb t) = l"
| "body_locator (Verify a t) = assertion_locator a"
| "body_locator _ = None"

record step_result =
  sr_id :: string
  sr_type :: step_type
  sr_status :: step_status
  sr_started :: "int option"
  sr_finished :: int
  sr_duration :: int
  sr_locator :: "locator_kind option"
  sr_skipped :: "skip_reason option"
  sr_error :: "error_code option"
  sr_verification :: "verification_result option"
  sr_attempts :: "step_attempt list option"

definition step_result_of :: "exec_record \<Rightarrow> engine_exn + step_result" where
  "step_result_of r =
     (if \<not> is_terminal_step (xr_status r) then Inl SchemaRejected
      else case xr_finished r of
        None \<Rightarrow> Inl OtherException
      | Some f \<Rightarrow>
          Inr \<lparr>sr_id = step_id (xr_step r), sr_type = step_type_of (xr_step r),
               sr_status = xr_status r, sr_started = xr_started r, sr_finished = f,
               sr_duration = (case xr_started r of None \<Rightarrow> 0 | Some s \<Rightarrow> max 0 (f - s)),
               sr_locator = map_option kind_of_locator (body_locator (body (xr_step r))),
               sr_skipped = xr_skipped r, sr_error = xr_error r,
               sr_verification = xr_verification r, sr_attempts = xr_attempts r\<rparr>)"

text \<open>The attempt statuses a step result may end with, by the status of the step.\<close>

fun compatible_statuses :: "step_status \<Rightarrow> attempt_status list" where
  "compatible_statuses StSucceeded = [AtSucceeded]"
| "compatible_statuses StFailed = [AtFailed]"
| "compatible_statuses StCancelled = [AtCancelled, AtFailed]"
| "compatible_statuses StTimedOut = [AtTimedOut, AtCancelled, AtFailed]"
| "compatible_statuses StInterrupted = [AtInterrupted, AtCancelled, AtFailed]"
| "compatible_statuses _ = []"

definition final_attempt_ok :: "step_status \<Rightarrow> step_attempt list option \<Rightarrow> bool" where
  "final_attempt_ok s as \<longleftrightarrow>
     (case as of
        None \<Rightarrow> True
      | Some as \<Rightarrow> as = [] \<or> s = StSkipped \<or> att_status (last as) \<in> set (compatible_statuses s))"

definition step_result_schema_ok :: "step_result \<Rightarrow> bool" where
  "step_result_schema_ok r \<longleftrightarrow>
     parse_non_empty (sr_id r) \<noteq> None \<and> is_terminal_step (sr_status r) \<and> 0 \<le> sr_duration r \<and>
     (case sr_verification r of None \<Rightarrow> True | Some v \<Rightarrow> verification_schema_ok v) \<and>
     (case sr_attempts r of None \<Rightarrow> True | Some as \<Rightarrow> attempt_list_schema_ok as) \<and>
     \<not> (sr_status r = StSkipped \<and> sr_skipped r = None) \<and>
     \<not> (sr_status r \<noteq> StSkipped \<and> sr_skipped r \<noteq> None) \<and>
     \<not> (sr_status r = StSkipped \<and> sr_started r \<noteq> None) \<and>
     \<not> (sr_status r = StSkipped \<and> sr_attempts r \<noteq> None) \<and>
     final_attempt_ok (sr_status r) (sr_attempts r)"

section \<open>Run results\<close>

record step_counts =
  n_total :: nat
  n_attempted :: nat
  n_succeeded :: nat
  n_failed :: nat
  n_cancelled :: nat
  n_timed_out :: nat
  n_interrupted :: nat
  n_skipped :: nat

definition count_status :: "step_status \<Rightarrow> step_result list \<Rightarrow> nat" where
  "count_status s rs = length (filter (\<lambda>r. sr_status r = s) rs)"

definition counts_of :: "step_result list \<Rightarrow> step_counts" where
  "counts_of rs =
     \<lparr>n_total = length rs, n_attempted = length (filter (\<lambda>r. sr_status r \<noteq> StSkipped) rs),
      n_succeeded = count_status StSucceeded rs, n_failed = count_status StFailed rs,
      n_cancelled = count_status StCancelled rs, n_timed_out = count_status StTimedOut rs,
      n_interrupted = count_status StInterrupted rs, n_skipped = count_status StSkipped rs\<rparr>"

definition counts_schema_ok :: "step_counts \<Rightarrow> bool" where
  "counts_schema_ok c \<longleftrightarrow>
     n_succeeded c + n_failed c + n_cancelled c + n_timed_out c + n_interrupted c + n_skipped c = n_total c \<and>
     n_attempted c + n_skipped c = n_total c"

record execution_result =
  res_workflow_id :: "string option"
  res_version :: "int option"
  res_status :: run_status
  res_started :: int
  res_finished :: int
  res_duration :: int
  res_cause :: termination_cause
  res_counts :: step_counts
  res_failed_step :: "string option"
  res_error :: "error_code option"
  res_warnings :: "engine_warning list"
  res_steps :: "step_result list"
  res_outputs :: "output_summary list"

definition output_summary_schema_ok :: "output_summary \<Rightarrow> bool" where
  "output_summary_schema_ok s \<longleftrightarrow>
     parse_identifier (sum_name s) \<noteq> None \<and> parse_bounded 256 (sum_producer s) \<noteq> None"

definition result_schema_ok :: "bool \<Rightarrow> execution_result \<Rightarrow> bool" where
  "result_schema_ok id_is_uuid r \<longleftrightarrow>
     id_is_uuid \<and>
     (case res_workflow_id r of None \<Rightarrow> True | Some i \<Rightarrow> parse_non_empty i \<noteq> None) \<and>
     (case res_version r of None \<Rightarrow> True | Some v \<Rightarrow> 0 < v) \<and>
     is_terminal_run (res_status r) \<and> 0 \<le> res_duration r \<and> counts_schema_ok (res_counts r) \<and>
     (case res_failed_step r of None \<Rightarrow> True | Some i \<Rightarrow> parse_non_empty i \<noteq> None) \<and>
     list_all step_result_schema_ok (res_steps r) \<and>
     list_all output_summary_schema_ok (res_outputs r) \<and>
     length (res_steps r) = n_total (res_counts r) \<and>
     n_succeeded (res_counts r) = count_status StSucceeded (res_steps r) \<and>
     n_failed (res_counts r) = count_status StFailed (res_steps r) \<and>
     n_cancelled (res_counts r) = count_status StCancelled (res_steps r) \<and>
     n_timed_out (res_counts r) = count_status StTimedOut (res_steps r) \<and>
     n_interrupted (res_counts r) = count_status StInterrupted (res_steps r) \<and>
     n_skipped (res_counts r) = count_status StSkipped (res_steps r)"

record result_input =
  fi_workflow :: "workflow option"
  fi_status :: run_status
  fi_started :: int
  fi_finished :: int
  fi_cause :: termination_cause
  fi_records :: "exec_record list"
  fi_warnings :: "engine_warning list"
  fi_error :: "error_code option"
  fi_failed_step :: "string option"
  fi_outputs :: "output_summary list option"

fun collect_results :: "exec_record list \<Rightarrow> engine_exn + step_result list" where
  "collect_results [] = Inr []"
| "collect_results (r # rs) =
     (case step_result_of r of
        Inl e \<Rightarrow> Inl e
      | Inr x \<Rightarrow> (case collect_results rs of Inl e \<Rightarrow> Inl e | Inr xs \<Rightarrow> Inr (x # xs)))"

definition assemble_result :: "result_input \<Rightarrow> step_result list \<Rightarrow> execution_result" where
  "assemble_result i rs =
     \<lparr>res_workflow_id = map_option workflow_id (fi_workflow i),
      res_version = map_option wf_version (fi_workflow i),
      res_status = fi_status i, res_started = fi_started i, res_finished = fi_finished i,
      res_duration = max 0 (fi_finished i - fi_started i), res_cause = fi_cause i,
      res_counts = counts_of rs, res_failed_step = fi_failed_step i, res_error = fi_error i,
      res_warnings = fi_warnings i, res_steps = rs,
      res_outputs =
        (case fi_outputs i of
           Some os \<Rightarrow> os
         | None \<Rightarrow>
             (case fi_workflow i of
                None \<Rightarrow> []
              | Some w \<Rightarrow>
                  map (\<lambda>d. \<lparr>sum_name = od_name d, sum_type = od_type d, sum_producer = od_step_id d,
                            sum_produced = False\<rparr>) (define_workflow_outputs w)))\<rparr>"

definition build_execution_result :: "bool \<Rightarrow> result_input \<Rightarrow> engine_exn + execution_result" where
  "build_execution_result id_is_uuid i =
     (case collect_results (fi_records i) of
        Inl e \<Rightarrow> Inl e
      | Inr rs \<Rightarrow>
          (let r = assemble_result i rs
           in if result_schema_ok id_is_uuid r then Inr r else Inl SchemaRejected))"

section \<open>The counts always add up\<close>

lemma counts_of_ok:
  "list_all (\<lambda>r. is_terminal_step (sr_status r)) rs \<Longrightarrow> counts_schema_ok (counts_of rs)"
proof (induction rs)
  case (Cons r rs)
  then show ?case
    by (cases "sr_status r") (auto simp: counts_schema_ok_def counts_of_def count_status_def is_terminal_step_def)
qed (simp add: counts_schema_ok_def counts_of_def count_status_def)

lemma step_result_of_Inr:
  "step_result_of r = Inr x \<Longrightarrow>
     is_terminal_step (xr_status r) \<and> sr_status x = xr_status r \<and> sr_id x = step_id (xr_step r) \<and>
     sr_attempts x = xr_attempts r \<and> sr_skipped x = xr_skipped r \<and> sr_started x = xr_started r \<and>
     sr_verification x = xr_verification r \<and> 0 \<le> sr_duration x \<and> Some (sr_finished x) = xr_finished r \<and>
     sr_error x = xr_error r"
  by (auto simp: step_result_of_def split: if_splits option.splits)

lemma collect_results_all:
  "collect_results rs = Inr xs \<Longrightarrow>
     length xs = length rs \<and> list_all2 (\<lambda>r x. step_result_of r = Inr x) rs xs"
  by (induction rs arbitrary: xs) (auto split: sum.splits)

lemma collect_results_total:
  "\<forall>r \<in> set rs. is_terminal_step (xr_status r) \<and> xr_finished r \<noteq> None \<Longrightarrow>
     \<exists>xs. collect_results rs = Inr xs"
  by (induction rs) (auto simp: step_result_of_def split: sum.splits)

section \<open>Properties\<close>

text \<open>
  The counts of a result built from records always satisfy the schema of the counts: the
  numbers by status add up to the total, and those not attempted are the skipped ones.
\<close>

lemma counts_add_up:
  "collect_results rs = Inr xs \<Longrightarrow>
     counts_schema_ok (counts_of xs) \<and> n_total (counts_of xs) = length rs \<and>
     n_attempted (counts_of xs) = length (filter (\<lambda>r. xr_status r \<noteq> StSkipped) rs)"
proof -
  assume "collect_results rs = Inr xs"
  then have l: "length xs = length rs" and r: "list_all2 (\<lambda>r x. step_result_of r = Inr x) rs xs"
    using collect_results_all by auto
  from r have "list_all (\<lambda>x. is_terminal_step (sr_status x)) xs"
    by (induction rule: list_all2_induct) (auto dest: step_result_of_Inr)
  then have "counts_schema_ok (counts_of xs)" by (rule counts_of_ok)
  moreover from r have "length (filter (\<lambda>x. sr_status x \<noteq> StSkipped) xs) =
      length (filter (\<lambda>r. xr_status r \<noteq> StSkipped) rs)"
    by (induction rule: list_all2_induct) (auto dest!: step_result_of_Inr)
  ultimately show ?thesis using l by (simp add: counts_of_def)
qed

lemma counts_add_up_witness:
  "\<exists>xs. collect_results [(new_record (hd (steps sample_workflow)))\<lparr>xr_status := StSkipped, xr_finished := Some 5\<rparr>]
          = Inr xs \<and> counts_schema_ok (counts_of xs) \<and> n_attempted (counts_of xs) = 0"
proof -
  let ?r = "(new_record (hd (steps sample_workflow)))\<lparr>xr_status := StSkipped, xr_finished := Some 5\<rparr>"
  obtain xs where xs: "collect_results [?r] = Inr xs"
    by (simp add: step_result_of_def is_terminal_step_def)
  from counts_add_up [OF xs] xs show ?thesis by simp
qed

end
