(* ===== verification/Workflow_Engine.thy ===== *)
theory Workflow_Engine
  imports Engine_Result
begin

text \<open>
  \<open>packages/workflow-engine/src/workflow-engine.ts\<close>: the execution of a workflow. The class
  is a computation over one record, \<open>engine\<close>, of everything the source mutates; its
  surroundings are the record \<open>world\<close>: the readings of the clock, the progress sink, what
  the adapter and the coordinators answer, and which callbacks (the abort listener, the
  deadline timer) run while the engine awaits. \<open>trace\<close> is what the surroundings observe.
\<close>

section \<open>What the surroundings observe\<close>

datatype progress_event =
    EvRun run_status "error_code option"
  | EvStep string step_type step_status "error_code option" "skip_reason option"
  | EvAttempt string nat retry_trigger attempt_status "error_code option" effect_certainty bool
  | EvApproval string string risk_level approval_status "approval_decision option"
  | EvRepair string nat repair_status error_code effect_certainty bool
  | EvOutput string string output_type
  | EvWarning engine_warning

definition id_256 :: "string \<Rightarrow> bool" where
  "id_256 s \<longleftrightarrow> parse_bounded 256 s \<noteq> None"

text \<open>\<open>WorkflowProgressEventSchema\<close> of an event (contracts.ts).\<close>

fun event_schema_ok :: "progress_event \<Rightarrow> bool" where
  "event_schema_ok (EvStep i ty s e k) = (parse_non_empty i \<noteq> None)"
| "event_schema_ok (EvAttempt i n tr s e f b) = (id_256 i \<and> 0 < n \<and> n \<le> 3)"
| "event_schema_ok (EvApproval i j r s d) = (id_256 i \<and> id_256 j)"
| "event_schema_ok (EvRepair i n s e f b) = (id_256 i \<and> 0 < n \<and> n \<le> 3)"
| "event_schema_ok (EvOutput i n ty) = (id_256 i \<and> parse_non_empty n \<noteq> None)"
| "event_schema_ok _ = True"

record start_context =
  cx_resolver :: resolver
  cx_origins :: "string list"
  cx_total :: int
  cx_remaining :: int
  cx_aborted :: bool

record step_context = start_context +
  cx_step :: workflow_step
  cx_effective :: int

record approval_query =
  aq_binding :: approval_binding
  aq_workflow_id :: string
  aq_version :: int
  aq_expires :: int

record repair_query =
  rq_step_id :: string
  rq_step_index :: "nat option"
  rq_step_type :: step_type
  rq_attempt :: nat
  rq_error :: error_code
  rq_effect :: effect_certainty
  rq_expires :: int

datatype observation =
    Emitted int progress_event
  | CalledStart start_context
  | CalledExecute step_context
  | AskedApproval approval_query
  | AnsweredApproval string approval_decision
  | AskedRepair repair_query
  | AnsweredRepair string repair_decision
  | CalledStop termination_cause

record step_output =
  so_verification :: "verification_result option"
  so_produced :: "(string \<times> output_type \<times> output_value) option"

datatype callback = AbortSignalled | TimerElapsed

text \<open>
  The answers are indexed by the number of the await, the clock by the number of the
  reading, the sink by the number of the call. An answer that its schema rejects
  (\<open>ApprovalCoordinatorResultSchema\<close>, \<open>RecoveryCoordinatorResultSchema\<close>) is an exception.
\<close>

record world =
  the_host :: host
  id_is_uuid :: bool
  clock :: "nat \<Rightarrow> int"
  sink_given :: bool
  sink_throws :: "nat \<Rightarrow> bool"
  sink_aborts :: "nat \<Rightarrow> bool"
  preflight_aborts :: bool
  signal_given :: bool
  callbacks :: "nat \<Rightarrow> callback list"
  adapter_start :: "nat \<Rightarrow> start_context \<Rightarrow> engine_exn option"
  adapter_execute :: "nat \<Rightarrow> step_context \<Rightarrow> engine_exn + step_output"
  adapter_stop :: "nat \<Rightarrow> termination_cause \<Rightarrow> engine_exn + error_code option"
  approval_coordinator :: "(nat \<Rightarrow> approval_query \<Rightarrow> engine_exn + approval_decision \<times> int) option"
  recovery_coordinator :: "(nat \<Rightarrow> repair_query \<Rightarrow> engine_exn + string \<times> repair_decision \<times> int) option"

record primary_termination =
  pt_cause :: racing_cause
  pt_error :: error_code
  pt_step :: "string option"

record engine =
  readings :: nat
  awaits :: nat
  emissions :: nat
  signal_aborted :: bool
  listening :: bool
  timer_armed :: bool
  controller_aborted :: bool
  deadline :: int
  sink_enabled :: bool
  sink_failed :: bool
  run_state :: run_status
  step_states :: step_machine
  recs :: "exec_record list"
  racing :: arbiter
  primary :: "primary_termination option"
  store :: output_store
  cleanup_error :: "error_code option"
  summaries :: "output_summary list"
  trace :: "observation list"

definition initial_engine :: "bool \<Rightarrow> engine" where
  "initial_engine aborted =
     \<lparr>readings = 0, awaits = 0, emissions = 0, signal_aborted = aborted, listening = False,
      timer_armed = False, controller_aborted = False, deadline = 0, sink_enabled = True,
      sink_failed = False, run_state = RunPending, step_states = new_step_machine [], recs = [],
      racing = new_arbiter, primary = None, store = new_output_store [], cleanup_error = None,
      summaries = [], trace = []\<rparr>"

type_synonym 'a eng = "(engine, engine_exn, 'a) comp"

abbreviation safe_exn :: "error_code \<Rightarrow> engine_exn" where
  "safe_exn c \<equiv> SafeException c None None"

section \<open>Clock, signals and callbacks\<close>

definition now_ms :: "world \<Rightarrow> int eng" where
  "now_ms E = bnd (gets readings) (\<lambda>n.
     seqc (modify (\<lambda>s. s\<lparr>readings := n + 1\<rparr>)) (ret (clock E n)))"

definition observe :: "observation \<Rightarrow> unit eng" where
  "observe x = modify (\<lambda>s. s\<lparr>trace := trace s @ [x]\<rparr>)"

definition record_cause :: "racing_cause \<Rightarrow> int \<Rightarrow> error_code \<Rightarrow> string option \<Rightarrow> unit eng" where
  "record_cause c t e sid =
     modify (\<lambda>s. s\<lparr>racing := arb_record \<lparr>tc_cause = c, tc_at = t, tc_error = e, tc_step = sid\<rparr> (racing s)\<rparr>)"

definition abort_controller :: "unit eng" where
  "abort_controller = modify (\<lambda>s. s\<lparr>controller_aborted := True\<rparr>)"

definition on_external_abort :: "world \<Rightarrow> unit eng" where
  "on_external_abort E =
     bnd (now_ms E) (\<lambda>t.
       seqc (record_cause RunWasCancelled t EXECUTION_CANCELLED None) abort_controller)"

text \<open>The external signal fires once and its listener runs once.\<close>

definition signal_abort :: "world \<Rightarrow> unit eng" where
  "signal_abort E =
     bnd (gets (\<lambda>s. signal_given E \<and> \<not> signal_aborted s)) (\<lambda>fires.
       whenc fires
         (seqc (modify (\<lambda>s. s\<lparr>signal_aborted := True\<rparr>))
           (bnd (gets listening) (\<lambda>l.
             whenc l (seqc (modify (\<lambda>s. s\<lparr>listening := False\<rparr>)) (on_external_abort E))))))"

definition record_deadline :: "unit eng" where
  "record_deadline =
     bnd (gets deadline) (\<lambda>d.
       seqc (record_cause TotalTimeout d TOTAL_EXECUTION_TIMEOUT None) abort_controller)"

definition timer_elapses :: "unit eng" where
  "timer_elapses =
     bnd (gets timer_armed) (\<lambda>armed.
       whenc armed (seqc (modify (\<lambda>s. s\<lparr>timer_armed := False\<rparr>)) record_deadline))"

definition run_callback :: "world \<Rightarrow> callback \<Rightarrow> unit eng" where
  "run_callback E c = (case c of AbortSignalled \<Rightarrow> signal_abort E | TimerElapsed \<Rightarrow> timer_elapses)"

text \<open>An await: the callbacks that run before the continuation, and its number.\<close>

definition await :: "world \<Rightarrow> nat eng" where
  "await E = bnd (gets awaits) (\<lambda>n.
     seqc (modify (\<lambda>s. s\<lparr>awaits := n + 1\<rparr>))
       (seqc (for_each (callbacks E n) (run_callback E)) (ret n)))"

section \<open>Progress (progress.ts)\<close>

definition disable_sink :: "unit eng" where
  "disable_sink = modify (\<lambda>s. s\<lparr>sink_enabled := False, sink_failed := True\<rparr>)"

definition call_sink :: "world \<Rightarrow> int \<Rightarrow> progress_event \<Rightarrow> unit eng" where
  "call_sink E t e =
     bnd (gets emissions) (\<lambda>n. block
       [modify (\<lambda>s. s\<lparr>emissions := n + 1\<rparr>),
        observe (Emitted t e),
        whenc (sink_aborts E n) (signal_abort E),
        whenc (sink_throws E n) disable_sink])"

definition emit_at :: "world \<Rightarrow> int \<Rightarrow> progress_event \<Rightarrow> unit eng" where
  "emit_at E t e =
     bnd (gets (\<lambda>s. sink_enabled s \<and> sink_given E)) (\<lambda>on.
       whenc on (if id_is_uuid E \<and> event_schema_ok e then call_sink E t e else disable_sink))"

definition emit :: "world \<Rightarrow> progress_event \<Rightarrow> unit eng" where
  "emit E e = bnd (now_ms E) (\<lambda>t. emit_at E t e)"

definition progress_warnings :: "engine \<Rightarrow> engine_warning list" where
  "progress_warnings s = (if sink_failed s then [WarnProgressSinkFailed] else [])"

section \<open>Transitions\<close>

definition run_transition :: "run_status \<Rightarrow> unit eng" where
  "run_transition n =
     bnd (gets run_state) (\<lambda>c.
       if n \<notin> set (run_transitions c) then throw (safe_exn INVALID_RUN_TRANSITION)
       else modify (\<lambda>s. s\<lparr>run_state := n\<rparr>))"

definition transition_run :: "world \<Rightarrow> run_status \<Rightarrow> error_code option \<Rightarrow> unit eng" where
  "transition_run E n err = seqc (run_transition n) (emit E (EvRun n err))"

definition upd_rec :: "nat \<Rightarrow> (exec_record \<Rightarrow> exec_record) \<Rightarrow> unit eng" where
  "upd_rec i f = modify (\<lambda>s. s\<lparr>recs := (recs s)[i := f (recs s ! i)]\<rparr>)"

definition step_machine_transition :: "string \<Rightarrow> step_status \<Rightarrow> unit eng" where
  "step_machine_transition sid n =
     bnd (gets step_states) (\<lambda>m.
       case sm_transition m sid n of
         None \<Rightarrow> throw (safe_exn INVALID_STEP_TRANSITION)
       | Some m' \<Rightarrow> modify (\<lambda>s. s\<lparr>step_states := m'\<rparr>))"

definition transition_step ::
  "world \<Rightarrow> nat \<Rightarrow> step_status \<Rightarrow> error_code option \<Rightarrow> skip_reason option \<Rightarrow> unit eng" where
  "transition_step E i n err skip =
     bnd (gets (\<lambda>s. xr_step (recs s ! i))) (\<lambda>st. block
       [step_machine_transition (step_id st) n,
        upd_rec i (\<lambda>r. r\<lparr>xr_status := n\<rparr>),
        emit E (EvStep (step_id st) (step_type_of st) n err skip)])"

definition skip_one :: "world \<Rightarrow> skip_reason \<Rightarrow> nat \<Rightarrow> unit eng" where
  "skip_one E reason i =
     bnd (gets (\<lambda>s. xr_status (recs s ! i) = StPending)) (\<lambda>pending.
       whenc pending
         (bnd (now_ms E) (\<lambda>t.
           seqc (upd_rec i (\<lambda>r. r\<lparr>xr_skipped := Some reason, xr_finished := Some t\<rparr>))
             (transition_step E i StSkipped None (Some reason)))))"

definition skip_pending :: "world \<Rightarrow> skip_reason \<Rightarrow> unit eng" where
  "skip_pending E reason =
     bnd (gets (\<lambda>s. length (recs s))) (\<lambda>n. for_each [0..<n] (skip_one E reason))"

definition initialize_steps :: "world \<Rightarrow> workflow option \<Rightarrow> unit eng" where
  "initialize_steps E w =
     seqc (modify (\<lambda>s. s\<lparr>recs := create_records w,
             step_states := new_step_machine (map (\<lambda>r. step_id (xr_step r)) (create_records w))\<rparr>))
       (for_each (create_records w) (\<lambda>r.
          emit E (EvStep (step_id (xr_step r)) (step_type_of (xr_step r)) StPending None None)))"

section \<open>The deadline and the decision\<close>

definition record_deadline_if_elapsed :: "world \<Rightarrow> unit eng" where
  "record_deadline_if_elapsed E =
     bnd (now_ms E) (\<lambda>t. bnd (gets deadline) (\<lambda>d. whenc (d \<le> t) record_deadline))"

text \<open>\<open>primary = choosePrimary()\<close>; the value is also returned.\<close>

definition choose_primary :: "primary_termination option eng" where
  "choose_primary =
     bnd (gets (\<lambda>s. arb_lock (racing s))) (\<lambda>(winner, a).
       let p = map_option (\<lambda>c. \<lparr>pt_cause = tc_cause c, pt_error = tc_error c, pt_step = tc_step c\<rparr>) winner
       in seqc (modify (\<lambda>s. s\<lparr>racing := a, primary := p\<rparr>)) (ret p))"

fun skip_reason_for :: "racing_cause \<Rightarrow> skip_reason" where
  "skip_reason_for AdapterStartFailed = SkAdapterStartFailed"
| "skip_reason_for RunWasCancelled = SkRunCancelled"
| "skip_reason_for TotalTimeout = SkRunTimedOut"
| "skip_reason_for ApprovalWasRejected = SkApprovalRejected"
| "skip_reason_for ApprovalHasExpired = SkApprovalExpired"
| "skip_reason_for ApprovalWasInvalidated = SkApprovalInvalidated"
| "skip_reason_for RepairWasAborted = SkRepairAborted"
| "skip_reason_for RepairHasExpired = SkRepairExpired"
| "skip_reason_for RepairWasInvalidated = SkRepairInvalidated"
| "skip_reason_for StepFailed = SkPriorStepFailed"
| "skip_reason_for StepTimeout = SkPriorStepFailed"

fun terminal_status_for :: "racing_cause \<Rightarrow> run_status" where
  "terminal_status_for RunWasCancelled = RunCancelled"
| "terminal_status_for TotalTimeout = RunTimedOut"
| "terminal_status_for ApprovalWasRejected = RunCancelled"
| "terminal_status_for RepairWasAborted = RunCancelled"
| "terminal_status_for ApprovalHasExpired = RunTimedOut"
| "terminal_status_for RepairHasExpired = RunTimedOut"
| "terminal_status_for ApprovalWasInvalidated = RunInterrupted"
| "terminal_status_for RepairWasInvalidated = RunInterrupted"
| "terminal_status_for AdapterStartFailed = RunFailed"
| "terminal_status_for StepFailed = RunFailed"
| "terminal_status_for StepTimeout = RunFailed"

definition is_cancelling_cause :: "racing_cause \<Rightarrow> bool" where
  "is_cancelling_cause c \<longleftrightarrow> c \<in> {RunWasCancelled, ApprovalWasRejected, RepairWasAborted}"

definition is_timeout_cause :: "racing_cause \<Rightarrow> bool" where
  "is_timeout_cause c \<longleftrightarrow> c \<in> {TotalTimeout, StepTimeout, ApprovalHasExpired, RepairHasExpired}"

definition is_invalidating_cause :: "racing_cause \<Rightarrow> bool" where
  "is_invalidating_cause c \<longleftrightarrow> c \<in> {ApprovalWasInvalidated, RepairWasInvalidated}"

definition step_status_for :: "racing_cause \<Rightarrow> step_status" where
  "step_status_for c =
     (if is_cancelling_cause c then StCancelled
      else if is_timeout_cause c then StTimedOut
      else if is_invalidating_cause c then StInterrupted else StFailed)"

end
