(* ===== verification/Engine_Execution.thy ===== *)
theory Engine_Execution
  imports Workflow_Engine
begin

text \<open>
  \<open>packages/workflow-engine/src/workflow-engine.ts\<close>, continued: the attempts of a step, the
  approval step, the step loop, \<open>executePrepared\<close> and \<open>execute\<close>. A step is run again at most
  twice, so the loop over its attempts has the fuel \<open>ATTEMPT_FUEL\<close>; running out of it is the
  exception \<open>OutOfFuel\<close>, which the proofs show is never thrown.
\<close>

definition ATTEMPT_FUEL :: nat where "ATTEMPT_FUEL = 4"

section \<open>Attempts\<close>

definition begin_attempt :: "world \<Rightarrow> nat \<Rightarrow> retry_trigger \<Rightarrow> string option \<Rightarrow> nat eng" where
  "begin_attempt E i trigger repair =
     bnd (gets (\<lambda>s. length (attempts_of (recs s ! i)) + 1)) (\<lambda>n.
     bnd (now_ms E) (\<lambda>t.
     bnd (gets (\<lambda>s. step_id (xr_step (recs s ! i)))) (\<lambda>sid.
       seqc (upd_rec i (\<lambda>r. r\<lparr>xr_attempts := Some (attempts_of r @
               [\<lparr>att_number = n, att_trigger = trigger, att_status = AtRunning, att_started = t,
                 att_finished = None, att_duration = None, att_error = None,
                 att_effect = UnknownEffect, att_repair = repair\<rparr>])\<rparr>))
       (seqc (emit_at E t (EvAttempt sid n trigger AtRunning None UnknownEffect False))
         (ret n)))))"

definition close_attempt ::
  "int \<Rightarrow> attempt_status \<Rightarrow> effect_certainty \<Rightarrow> error_code option \<Rightarrow> step_attempt \<Rightarrow> step_attempt" where
  "close_attempt t status effect err a =
     a\<lparr>att_status := status, att_finished := Some t,
       att_duration := Some (max 0 (t - att_started a)), att_effect := effect,
       att_error := (case err of None \<Rightarrow> att_error a | Some c \<Rightarrow> Some (code_string c))\<rparr>"

definition finish_attempt ::
  "world \<Rightarrow> nat \<Rightarrow> nat \<Rightarrow> attempt_status \<Rightarrow> effect_certainty \<Rightarrow> bool \<Rightarrow> error_code option \<Rightarrow> unit eng" where
  "finish_attempt E i n status effect allowed err =
     bnd (now_ms E) (\<lambda>t. seqc
       (upd_rec i (\<lambda>r. r\<lparr>xr_attempts := Some ((attempts_of r)[n - 1 :=
          close_attempt t status effect err (attempts_of r ! (n - 1))])\<rparr>))
       (bnd (gets (\<lambda>s. recs s ! i)) (\<lambda>r.
          emit_at E t (EvAttempt (step_id (xr_step r)) n (att_trigger (attempts_of r ! (n - 1)))
            status err effect allowed))))"

definition TIMEOUT_ERROR_CODES :: "error_code list" where [code_sets]:
  "TIMEOUT_ERROR_CODES = [ACTION_TIMEOUT, NAVIGATION_TIMEOUT, STEP_TIMEOUT]"

definition attempt_status_for :: "error_code \<Rightarrow> attempt_status" where
  "attempt_status_for c =
     (if c = EXECUTION_CANCELLED then AtCancelled
      else if c \<in> set TIMEOUT_ERROR_CODES then AtTimedOut else AtFailed)"

text \<open>What is done with the output of \<open>adapter.executeStep\<close>.\<close>

definition store_output :: "world \<Rightarrow> workflow_step \<Rightarrow> step_output \<Rightarrow> unit eng" where
  "store_output E st out =
     (case so_produced out of
        Some (name, ty, v) \<Rightarrow>
          (case body st of
             Extract l src n lb t \<Rightarrow>
               if name \<noteq> n \<or> Some ty \<noteq> output_type_for_source src
               then throw (safe_exn OUTPUT_TYPE_MISMATCH)
               else bnd (gets store) (\<lambda>o'.
                 case os_set o' name ty v of
                   Inl c \<Rightarrow> throw (safe_exn c)
                 | Inr o'' \<Rightarrow>
                     seqc (modify (\<lambda>s. s\<lparr>store := o''\<rparr>))
                       (emit E (EvOutput (step_id st) n ty)))
           | _ \<Rightarrow> throw (safe_exn INVALID_WORKFLOW))
      | None \<Rightarrow>
          (case body st of
             Extract l src n lb t \<Rightarrow>
               throw (SafeException EXTRACTION_VALUE_UNAVAILABLE None (Some ReadOnly))
           | _ \<Rightarrow> ret ()))"

definition note_verification :: "nat \<Rightarrow> verification_result option \<Rightarrow> unit eng" where
  "note_verification i v =
     (case v of
        None \<Rightarrow> ret ()
      | Some v \<Rightarrow> upd_rec i (\<lambda>r. r\<lparr>xr_verification := Some v\<rparr>))"

definition accept_output :: "world \<Rightarrow> nat \<Rightarrow> step_output \<Rightarrow> unit eng" where
  "accept_output E i out =
     seqc (note_verification i (so_verification out))
       (bnd (gets (\<lambda>s. xr_step (recs s ! i))) (\<lambda>st. store_output E st out))"

definition start_context_of :: "prepared \<Rightarrow> int \<Rightarrow> engine \<Rightarrow> start_context" where
  "start_context_of p remaining s =
     \<lparr>cx_resolver = with_runtime_outputs (pr_resolver p) (store s), cx_origins = pr_origins p,
      cx_total = eo_total (er_options (pr_request p)), cx_remaining = remaining,
      cx_aborted = controller_aborted s\<rparr>"

definition step_context_of :: "prepared \<Rightarrow> int \<Rightarrow> workflow_step \<Rightarrow> engine \<Rightarrow> step_context" where
  "step_context_of p remaining st s =
     start_context.extend (start_context_of p remaining s)
       (step_context.fields st (min (eo_step (er_options (pr_request p))) remaining))"

definition remaining_ms :: "world \<Rightarrow> int eng" where
  "remaining_ms E = bnd (now_ms E) (\<lambda>t. bnd (gets deadline) (\<lambda>d. ret (max 0 (d - t))))"

definition perform_step :: "world \<Rightarrow> prepared \<Rightarrow> nat \<Rightarrow> int \<Rightarrow> unit eng" where
  "perform_step E p i remaining =
     bnd (gets (\<lambda>s. step_context_of p remaining (xr_step (recs s ! i)) s)) (\<lambda>cx.
       seqc (observe (CalledExecute cx))
         (bnd (await E) (\<lambda>n.
            case adapter_execute E n cx of
              Inl x \<Rightarrow> throw x
            | Inr out \<Rightarrow> accept_output E i out)))"

text \<open>The error and the effect of one attempt.\<close>

definition effect_of_exn :: "engine_exn \<Rightarrow> effect_certainty" where
  "effect_of_exn x =
     (case x of SafeException c v (Some e) \<Rightarrow> e | _ \<Rightarrow> UnknownEffect)"

definition verification_of_exn :: "engine_exn \<Rightarrow> verification_result option" where
  "verification_of_exn x = (case x of SafeException c v e \<Rightarrow> v | _ \<Rightarrow> None)"

definition note_failure :: "nat \<Rightarrow> engine_exn \<Rightarrow> (error_code \<times> effect_certainty) option eng" where
  "note_failure i x =
     seqc (note_verification i (verification_of_exn x))
       (ret (Some (to_safe_error x ACTION_FAILED, effect_of_exn x)))"

definition try_step :: "world \<Rightarrow> prepared \<Rightarrow> nat \<Rightarrow> (error_code \<times> effect_certainty) option eng" where
  "try_step E p i =
     bnd (remaining_ms E) (\<lambda>remaining.
       catch (seqc (perform_step E p i remaining) (ret None)) (note_failure i))"

definition retry_question :: "prepared \<Rightarrow> error_code \<Rightarrow> effect_certainty \<Rightarrow> exec_record \<Rightarrow> retry_input" where
  "retry_question p c effect r =
     \<lparr>ri_step_type = step_type_of (xr_step r), ri_error = code_string c, ri_effect = effect,
      ri_mode = eo_mode (er_options (pr_request p)),
      ri_automatic = count_trigger AutomaticRetry (attempts_of r),
      ri_manual = count_trigger ManualRetry (attempts_of r),
      ri_total = (case xr_attempts r of None \<Rightarrow> 1 | Some as \<Rightarrow> length as),
      ri_gated = is_approval_gated_step (er_workflow (pr_request p)) (step_id (xr_step r))\<rparr>"

section \<open>Attended repair\<close>

fun repair_status_of :: "repair_decision \<Rightarrow> repair_status" where
  "repair_status_of RdRetry = RpRetryApproved"
| "repair_status_of RdAbort = RpAborted"
| "repair_status_of RdExpired = RpExpired"
| "repair_status_of RdCancelled = RpCancelled"
| "repair_status_of RdInvalidated = RpInvalidated"

fun repair_termination :: "repair_decision \<Rightarrow> (racing_cause \<times> error_code) option" where
  "repair_termination RdAbort = Some (RepairWasAborted, RECOVERY_ABORTED)"
| "repair_termination RdExpired = Some (RepairHasExpired, RECOVERY_EXPIRED)"
| "repair_termination RdCancelled = Some (RunWasCancelled, EXECUTION_CANCELLED)"
| "repair_termination RdInvalidated = Some (RepairWasInvalidated, RECOVERY_INVALIDATED)"
| "repair_termination RdRetry = None"

definition record_now :: "world \<Rightarrow> racing_cause \<Rightarrow> error_code \<Rightarrow> string option \<Rightarrow> unit eng" where
  "record_now E c e sid = bnd (now_ms E) (\<lambda>t. record_cause c t e sid)"

text \<open>
  What follows a failed attempt that may be repaired: the step error that ends the step, a
  repair after which the step is tried again, or neither (a cause has been recorded).
\<close>

datatype repair_outcome = RepairFailed error_code | TryAgain string | GiveUp

definition ask_repair ::
  "world \<Rightarrow> prepared \<Rightarrow> nat \<Rightarrow> nat \<Rightarrow> error_code \<Rightarrow> effect_certainty
    \<Rightarrow> (nat \<Rightarrow> repair_query \<Rightarrow> engine_exn + string \<times> repair_decision \<times> int)
    \<Rightarrow> (string \<times> repair_decision \<times> int) eng" where
  "ask_repair E p i n c effect coordinator =
     bnd (now_ms E) (\<lambda>t1. bnd (now_ms E) (\<lambda>t2. bnd (gets deadline) (\<lambda>d.
     bnd (gets (\<lambda>s. xr_step (recs s ! i))) (\<lambda>st.
       let q = \<lparr>rq_step_id = step_id st,
                rq_step_index = find_index (\<lambda>x. step_id x = step_id st) (steps (er_workflow (pr_request p))),
                rq_step_type = step_type_of st, rq_attempt = n, rq_error = c, rq_effect = effect,
                rq_expires = t1 + min MAX_REPAIR_TIMEOUT_MS (max 1 (d - t2))\<rparr>
       in seqc (observe (AskedRepair q))
            (bnd (await E) (\<lambda>k.
               case coordinator k q of
                 Inl x \<Rightarrow> throw x
               | Inr a \<Rightarrow> seqc (observe (AnsweredRepair (step_id st) (fst (snd a)))) (ret a)))))))"

definition settle_repair ::
  "world \<Rightarrow> nat \<Rightarrow> bool \<Rightarrow> string \<times> repair_decision \<times> int \<Rightarrow> repair_outcome eng" where
  "settle_repair E i proposal_only answer =
     (case answer of (repair_id, decision, decided_at) \<Rightarrow>
        seqc (record_deadline_if_elapsed E)
        (bnd choose_primary (\<lambda>q.
           if \<not> proposal_only \<and> decision = RdRetry \<and> q = None
           then seqc (transition_run E RunRunning None)
                  (seqc (transition_step E i StRunning None None) (ret (TryAgain repair_id)))
           else bnd (gets (\<lambda>s. step_id (xr_step (recs s ! i)))) (\<lambda>sid.
             seqc
               (case repair_termination decision of
                  Some (c, e) \<Rightarrow> record_now E c e (Some sid)
                | None \<Rightarrow>
                    whenc proposal_only
                      (record_now E RepairWasInvalidated RECOVERY_INVALIDATED (Some sid)))
               (ret GiveUp)))))"

definition repair_step ::
  "world \<Rightarrow> prepared \<Rightarrow> nat \<Rightarrow> nat \<Rightarrow> error_code \<Rightarrow> effect_certainty \<Rightarrow> bool \<Rightarrow> repair_outcome eng" where
  "repair_step E p i n c effect proposal_only =
     (case recovery_coordinator E of
        None \<Rightarrow> ret (RepairFailed RECOVERY_COORDINATOR_UNAVAILABLE)
      | Some coordinator \<Rightarrow>
          seqc (transition_step E i StWaitingForRepair None None)
          (seqc (transition_run E RunWaitingForRepair None)
          (bnd (catch (bnd (ask_repair E p i n c effect coordinator) (\<lambda>a. ret (Some a)))
                  (\<lambda>x. ret None)) (\<lambda>answer.
             case answer of
               None \<Rightarrow> ret (RepairFailed RECOVERY_REQUEST_FAILED)
             | Some a \<Rightarrow>
                 bnd (gets (\<lambda>s. step_id (xr_step (recs s ! i)))) (\<lambda>sid.
                   seqc (emit_at E (snd (snd a))
                     (EvRepair sid n (repair_status_of (fst (snd a))) c effect
                       (\<not> proposal_only \<and> fst (snd a) = RdRetry)))
                   (settle_repair E i proposal_only a))))))"

section \<open>The loop over the attempts of a step\<close>

fun attempt_loop ::
  "world \<Rightarrow> prepared \<Rightarrow> nat \<Rightarrow> nat \<Rightarrow> retry_trigger \<Rightarrow> string option \<Rightarrow> error_code option eng" where
  "attempt_loop E p i 0 trigger repair = throw OutOfFuel"
| "attempt_loop E p i (Suc fuel) trigger repair =
     seqc (record_deadline_if_elapsed E)
     (bnd choose_primary (\<lambda>q.
        if q \<noteq> None then ret None
        else bnd (begin_attempt E i trigger repair) (\<lambda>n.
          bnd (try_step E p i) (\<lambda>failure.
            case failure of
              None \<Rightarrow> seqc (finish_attempt E i n AtSucceeded Completed False None) (ret None)
            | Some (c, effect) \<Rightarrow>
                bnd (gets (\<lambda>s. decide_retry (retry_question p c effect (recs s ! i)))) (\<lambda>decision.
                  case decision of
                    None \<Rightarrow> throw OtherException
                  | Some d \<Rightarrow>
                      seqc (finish_attempt E i n (attempt_status_for c) effect (rd_allowed d) (Some c))
                      (if rd_disposition d = DispAutomaticRetry
                       then attempt_loop E p i fuel AutomaticRetry None
                       else if rd_disposition d = DispManualRepair \<or> rd_disposition d = DispLocatorProposal
                       then bnd (repair_step E p i n c effect (rd_disposition d = DispLocatorProposal))
                              (\<lambda>o'. case o' of
                                 RepairFailed e \<Rightarrow> ret (Some e)
                               | GiveUp \<Rightarrow> ret None
                               | TryAgain rid \<Rightarrow> attempt_loop E p i fuel ManualRetry (Some rid))
                       else ret (Some (if rd_disposition d = DispNewRunRequired
                                       then APPROVAL_GATED_RETRY_REQUIRES_NEW_RUN else c))))))))"

section \<open>The approval step\<close>

fun approval_status_of :: "approval_decision \<Rightarrow> approval_status" where
  "approval_status_of DecApproved = ApApproved"
| "approval_status_of DecRejected = ApRejected"
| "approval_status_of DecExpired = ApExpired"
| "approval_status_of DecCancelled = ApCancelled"
| "approval_status_of DecInvalidated = ApInvalidated"

fun approval_termination :: "approval_decision \<Rightarrow> (racing_cause \<times> error_code \<times> attempt_status) option" where
  "approval_termination DecApproved = None"
| "approval_termination DecRejected = Some (ApprovalWasRejected, APPROVAL_REJECTED, AtCancelled)"
| "approval_termination DecExpired = Some (ApprovalHasExpired, APPROVAL_EXPIRED, AtTimedOut)"
| "approval_termination DecInvalidated = Some (ApprovalWasInvalidated, APPROVAL_INVALIDATED, AtInterrupted)"
| "approval_termination DecCancelled = Some (RunWasCancelled, EXECUTION_CANCELLED, AtCancelled)"

text \<open>After the decision; the result says whether the step loop continues with the next step.\<close>

definition settle_approval :: "world \<Rightarrow> nat \<Rightarrow> nat \<Rightarrow> approval_decision \<Rightarrow> bool eng" where
  "settle_approval E i n decision =
     seqc (record_deadline_if_elapsed E)
     (bnd choose_primary (\<lambda>q.
        if decision = DecApproved \<and> q = None
        then seqc (transition_run E RunRunning None)
          (bnd (now_ms E) (\<lambda>t.
             seqc (upd_rec i (\<lambda>r. r\<lparr>xr_finished := Some t\<rparr>))
             (seqc (transition_step E i StSucceeded None None)
             (seqc (finish_attempt E i n AtSucceeded Completed False None) (ret True)))))
        else bnd (gets (\<lambda>s. step_id (xr_step (recs s ! i)))) (\<lambda>sid.
          case approval_termination decision of
            None \<Rightarrow> ret False
          | Some (c, e, st) \<Rightarrow>
              seqc (record_now E c e (Some sid))
                (seqc (finish_attempt E i n st ReadOnly False (Some e)) (ret False)))))"

definition request_approval :: "world \<Rightarrow> prepared \<Rightarrow> nat \<Rightarrow> nat \<Rightarrow> int \<Rightarrow> bool eng" where
  "request_approval E p i n remaining =
     (case approval_coordinator E of
        None \<Rightarrow> throw (safe_exn APPROVAL_COORDINATOR_UNAVAILABLE)
      | Some coordinator \<Rightarrow>
          bnd (gets (\<lambda>s. require_approval_binding (er_workflow (pr_request p))
                           (step_id (xr_step (recs s ! i))) None)) (\<lambda>found.
          case found of
            None \<Rightarrow> throw OtherException
          | Some b \<Rightarrow>
              seqc (transition_step E i StWaitingForApproval None None)
              (seqc (transition_run E RunWaitingForApproval None)
              (bnd (now_ms E) (\<lambda>t.
                let q = \<lparr>aq_binding = b, aq_workflow_id = workflow_id (er_workflow (pr_request p)),
                         aq_version = wf_version (er_workflow (pr_request p)),
                         aq_expires = t + min (ab_timeout b) remaining\<rparr>
                in seqc (emit E (EvApproval (ab_step_id b) (ab_gated_id b) (ab_risk b) ApPending None))
                   (seqc (observe (AskedApproval q))
                   (bnd (await E) (\<lambda>k.
                     case coordinator k q of
                       Inl x \<Rightarrow> throw x
                     | Inr (decision, decided_at) \<Rightarrow>
                         seqc (observe (AnsweredApproval (ab_step_id b) decision))
                         (seqc (emit_at E decided_at (EvApproval (ab_step_id b) (ab_gated_id b)
                                 (ab_risk b) (approval_status_of decision) (Some decision)))
                           (settle_approval E i n decision))))))))))"

definition approval_step :: "world \<Rightarrow> prepared \<Rightarrow> nat \<Rightarrow> int \<Rightarrow> (bool \<times> error_code option) eng" where
  "approval_step E p i remaining =
     bnd (begin_attempt E i Initial None) (\<lambda>n.
       catch (bnd (request_approval E p i n remaining) (\<lambda>go. ret (go, None)))
         (\<lambda>x. let c = to_safe_error x APPROVAL_REQUEST_FAILED
              in seqc (finish_attempt E i n (attempt_status_for c) UnknownEffect False (Some c))
                   (ret (False, Some c))))"

section \<open>The step loop\<close>

definition finish_step :: "world \<Rightarrow> nat \<Rightarrow> error_code option \<Rightarrow> bool eng" where
  "finish_step E i step_error =
     seqc (record_deadline_if_elapsed E)
     (bnd (gets (\<lambda>s. step_id (xr_step (recs s ! i)))) (\<lambda>sid.
      seqc (case step_error of
              None \<Rightarrow> ret ()
            | Some c \<Rightarrow>
                record_now E (if c \<in> set TIMEOUT_ERROR_CODES then StepTimeout else StepFailed) c (Some sid))
      (bnd choose_primary (\<lambda>q.
       bnd (now_ms E) (\<lambda>t.
       seqc (upd_rec i (\<lambda>r. r\<lparr>xr_finished := Some t\<rparr>))
         (case q of
            Some pt \<Rightarrow>
              seqc (upd_rec i (\<lambda>r. r\<lparr>xr_error := Some (pt_error pt)\<rparr>))
                (seqc (transition_step E i (step_status_for (pt_cause pt)) (Some (pt_error pt)) None)
                  (ret True))
          | None \<Rightarrow> seqc (transition_step E i StSucceeded None None) (ret False)))))))"

definition run_body :: "world \<Rightarrow> prepared \<Rightarrow> nat \<Rightarrow> int \<Rightarrow> (bool \<times> error_code option) eng" where
  "run_body E p i remaining =
     bnd (gets (\<lambda>s. is_approval (xr_step (recs s ! i)))) (\<lambda>approval.
       if approval then approval_step E p i remaining
       else bnd (attempt_loop E p i ATTEMPT_FUEL Initial None) (\<lambda>err. ret (False, err)))"

text \<open>One turn of the loop; the result says whether the loop breaks.\<close>

definition run_step :: "world \<Rightarrow> prepared \<Rightarrow> nat \<Rightarrow> bool eng" where
  "run_step E p i =
     seqc (record_deadline_if_elapsed E)
     (bnd choose_primary (\<lambda>q.
        if q \<noteq> None then ret True
        else bnd (remaining_ms E) (\<lambda>remaining.
          if remaining = 0 then seqc record_deadline (bnd choose_primary (\<lambda>q. ret True))
          else bnd (now_ms E) (\<lambda>t.
            seqc (upd_rec i (\<lambda>r. r\<lparr>xr_started := Some t\<rparr>))
            (seqc (transition_step E i StRunning None None)
            (bnd (run_body E p i remaining) (\<lambda>(go, err).
               if go then ret False else finish_step E i err)))))))"

fun step_loop :: "world \<Rightarrow> prepared \<Rightarrow> nat list \<Rightarrow> unit eng" where
  "step_loop E p [] = ret ()"
| "step_loop E p (i # is) =
     bnd (run_step E p i) (\<lambda>stop. if stop then ret () else step_loop E p is)"

section \<open>executePrepared\<close>

definition start_adapter :: "world \<Rightarrow> prepared \<Rightarrow> unit eng" where
  "start_adapter E p =
     bnd (remaining_ms E) (\<lambda>remaining.
     bnd (gets (start_context_of p remaining)) (\<lambda>cx.
       seqc (observe (CalledStart cx))
         (bnd (await E) (\<lambda>n.
            case adapter_start E n cx of
              None \<Rightarrow> ret ()
            | Some x \<Rightarrow>
                record_now E AdapterStartFailed (to_safe_error x ADAPTER_START_FAILED) None))))"

definition begin_termination :: "world \<Rightarrow> unit eng" where
  "begin_termination E =
     bnd (gets primary) (\<lambda>q. case q of
        None \<Rightarrow> ret ()
      | Some pt \<Rightarrow>
          seqc (skip_pending E (skip_reason_for (pt_cause pt)))
            (transition_run E
              (if is_cancelling_cause (pt_cause pt) then RunCancelling
               else terminal_status_for (pt_cause pt)) (Some (pt_error pt))))"

definition run_prepared :: "world \<Rightarrow> prepared \<Rightarrow> unit eng" where
  "run_prepared E p =
     block
       [start_adapter E p,
        record_deadline_if_elapsed E,
        bnd choose_primary (\<lambda>q.
          whenc (q = None)
            (seqc (transition_run E RunRunning None)
              (bnd (gets (\<lambda>s. length (recs s))) (\<lambda>n. step_loop E p [0..<n])))),
        begin_termination E]"

definition release :: "world \<Rightarrow> unit eng" where
  "release E =
     seqc (modify (\<lambda>s. s\<lparr>timer_armed := False, listening := False\<rparr>))
     (bnd (gets (\<lambda>s. case primary s of None \<Rightarrow> RunCompleted | Some pt \<Rightarrow> Racing (pt_cause pt))) (\<lambda>cause.
      seqc (observe (CalledStop cause))
      (bnd (await E) (\<lambda>n.
       seqc (case adapter_stop E n cause of
               Inl x \<Rightarrow> modify (\<lambda>s. s\<lparr>cleanup_error := Some RESOURCE_CLEANUP_FAILED\<rparr>)
             | Inr e \<Rightarrow> modify (\<lambda>s. s\<lparr>cleanup_error := e\<rparr>))
         (modify (\<lambda>s. s\<lparr>summaries := os_summaries (store s), store := os_clear (store s)\<rparr>))))))"

definition arm :: "world \<Rightarrow> prepared \<Rightarrow> unit eng" where
  "arm E p =
     bnd (now_ms E) (\<lambda>t. block
       [modify (\<lambda>s. s\<lparr>deadline := t + eo_total (er_options (pr_request p)),
                      store := new_output_store (define_workflow_outputs (er_workflow (pr_request p))),
                      racing := new_arbiter, primary := None, listening := signal_given E\<rparr>),
        bnd (gets (\<lambda>s. signal_given E \<and> signal_aborted s)) (\<lambda>b. whenc b (on_external_abort E)),
        modify (\<lambda>s. s\<lparr>timer_armed := True, summaries := os_summaries (store s)\<rparr>)])"

text \<open>The outcome of a run: its status, cause and error.\<close>

definition conclude :: "world \<Rightarrow> (run_status \<times> termination_cause \<times> error_code option) eng" where
  "conclude E =
     bnd (gets (\<lambda>s. (primary s, cleanup_error s))) (\<lambda>(q, cleanup). case q of
        Some pt \<Rightarrow>
          seqc (whenc (is_cancelling_cause (pt_cause pt)) (transition_run E RunCancelled (Some (pt_error pt))))
            (ret (terminal_status_for (pt_cause pt), Racing (pt_cause pt), Some (pt_error pt)))
      | None \<Rightarrow>
          (case cleanup of
             Some e \<Rightarrow> seqc (transition_run E RunFailed (Some e)) (ret (RunFailed, CleanupFailed, Some e))
           | None \<Rightarrow> seqc (transition_run E RunSucceeded None) (ret (RunSucceeded, RunCompleted, None))))"

definition report ::
  "world \<Rightarrow> int \<Rightarrow> workflow option \<Rightarrow> run_status \<Rightarrow> termination_cause \<Rightarrow> engine_warning list
    \<Rightarrow> error_code option \<Rightarrow> string option \<Rightarrow> output_summary list option \<Rightarrow> execution_result eng" where
  "report E started w status cause warnings err failed outputs =
     bnd (now_ms E) (\<lambda>t. bnd (gets recs) (\<lambda>rs.
       case build_execution_result (id_is_uuid E)
              \<lparr>fi_workflow = w, fi_status = status, fi_started = started, fi_finished = t,
               fi_cause = cause, fi_records = rs, fi_warnings = warnings, fi_error = err,
               fi_failed_step = failed, fi_outputs = outputs\<rparr> of
         Inl x \<Rightarrow> throw x
       | Inr r \<Rightarrow> ret r))"

definition execute_prepared :: "world \<Rightarrow> prepared \<Rightarrow> int \<Rightarrow> execution_result eng" where
  "execute_prepared E p started =
     seqc (arm E p)
     (seqc (transition_run E RunStarting None)
     (seqc (finally_do (run_prepared E p) (release E))
     (bnd (gets cleanup_error) (\<lambda>cleanup.
      seqc (whenc (cleanup \<noteq> None) (emit E (EvWarning WarnResourceCleanupFailed)))
      (bnd (conclude E) (\<lambda>(status, cause, err).
       bnd (gets (\<lambda>s. (run_state s, progress_warnings s, primary s, summaries s)))
         (\<lambda>(final, warnings, q, outs).
          if \<not> is_terminal_run final then throw OtherException
          else report E started (Some (er_workflow (pr_request p))) status cause
            (warnings @ (if cleanup \<noteq> None then [WarnResourceCleanupFailed] else []))
            err (Option.bind q pt_step) (Some outs))))))))"

section \<open>execute\<close>

definition cancelled_early ::
  "world \<Rightarrow> int \<Rightarrow> workflow option \<Rightarrow> execution_result eng" where
  "cancelled_early E started w =
     seqc (transition_run E RunCancelling None)
     (seqc (skip_pending E SkRunCancelled)
     (seqc (transition_run E RunCancelled (Some EXECUTION_CANCELLED))
     (bnd (gets progress_warnings) (\<lambda>warnings.
        report E started w RunCancelled (Racing RunWasCancelled) warnings (Some EXECUTION_CANCELLED)
          None None))))"

definition failed_preflight ::
  "world \<Rightarrow> int \<Rightarrow> workflow option \<Rightarrow> error_code \<Rightarrow> execution_result eng" where
  "failed_preflight E started w c =
     seqc (skip_pending E SkPreflightFailed)
     (seqc (transition_run E RunFailed (Some c))
     (bnd (gets progress_warnings) (\<lambda>warnings.
        report E started w RunFailed PreflightFailed warnings (Some c) None None)))"

definition is_signal_aborted :: "world \<Rightarrow> bool eng" where
  "is_signal_aborted E = gets (\<lambda>s. signal_given E \<and> signal_aborted s)"

text \<open>
  The adapter and the resolver may abort the external signal while the preflight calls
  them: \<open>preflight_aborts\<close>.
\<close>

definition preflight_outcome :: "world \<Rightarrow> raw_request \<Rightarrow> preflight_result eng" where
  "preflight_outcome E rq =
     seqc (whenc (preflight_aborts E) (signal_abort E))
       (case preflight_workflow_execution (the_host E) rq of
          PreflightThrows \<Rightarrow> throw OtherException
        | r \<Rightarrow> ret r)"

definition execute :: "world \<Rightarrow> raw_request \<Rightarrow> execution_result eng" where
  "execute E rq =
     bnd (now_ms E) (\<lambda>started.
     seqc (emit E (EvRun RunPending None))
     (bnd (is_signal_aborted E) (\<lambda>early.
        if early
        then seqc (initialize_steps E (find_typed_workflow rq))
               (cancelled_early E started (find_typed_workflow rq))
        else seqc (transition_run E RunValidating None)
          (bnd (preflight_outcome E rq) (\<lambda>r.
             let w = (case r of
                        PreflightOk p \<Rightarrow> Some (er_workflow (pr_request p))
                      | PreflightFailure c w \<Rightarrow> w
                      | PreflightThrows \<Rightarrow> None)
             in seqc (initialize_steps E w)
               (bnd (is_signal_aborted E) (\<lambda>aborted.
                  if aborted then cancelled_early E started w
                  else case r of
                    PreflightOk p \<Rightarrow> execute_prepared E p started
                  | PreflightFailure c w' \<Rightarrow> failed_preflight E started w c
                  | PreflightThrows \<Rightarrow> throw OtherException)))))))"

end
