(* ===== verification/Engine_Frame.thy ===== *)
theory Engine_Frame
  imports Engine_Execution
begin

text \<open>
  What the primitive operations of the engine leave alone. Reading the clock, reporting
  progress and awaiting may run callbacks, which only add candidates to the arbiter; such a
  step is \<open>quiet\<close>. The rules here are what the invariant proofs are made of.
\<close>

section \<open>Observed calls and reported run statuses\<close>

fun is_call :: "observation \<Rightarrow> bool" where
  "is_call (Emitted t e) = False"
| "is_call _ = True"

definition calls :: "engine \<Rightarrow> observation list" where
  "calls s = filter is_call (trace s)"

fun run_report :: "observation \<Rightarrow> run_status option" where
  "run_report (Emitted t (EvRun n e)) = Some n"
| "run_report _ = None"

definition run_log :: "engine \<Rightarrow> run_status list" where
  "run_log s = List.map_filter run_report (trace s)"

text \<open>The reported statuses are a history; while the sink works they are up to date.\<close>

definition log_inv :: "world \<Rightarrow> engine \<Rightarrow> bool" where
  "log_inv E s \<longleftrightarrow>
     history run_transitions (run_log s) \<and>
     (sink_given E \<and> sink_enabled s \<longrightarrow> run_log s \<noteq> [] \<and> last (run_log s) = run_state s)"

section \<open>Quiet steps\<close>

definition raced :: "arbiter \<Rightarrow> arbiter \<Rightarrow> bool" where
  "raced a b \<longleftrightarrow>
     arb_locked b = arb_locked a \<and>
     (\<exists>cs. arb_pool b = arb_pool a @ cs \<and>
        (\<forall>c \<in> set cs. tc_cause c = RunWasCancelled \<or> tc_cause c = TotalTimeout) \<and>
        (arb_locked a \<noteq> None \<longrightarrow> cs = []))"

definition quiet :: "world \<Rightarrow> engine \<Rightarrow> engine \<Rightarrow> bool" where
  "quiet E s t \<longleftrightarrow>
     run_state t = run_state s \<and> step_states t = step_states s \<and> recs t = recs s \<and>
     primary t = primary s \<and> store t = store s \<and> deadline t = deadline s \<and>
     cleanup_error t = cleanup_error s \<and> summaries t = summaries s \<and> calls t = calls s \<and>
     raced (racing s) (racing t) \<and> (log_inv E s \<longrightarrow> log_inv E t)"

lemma raced_refl [simp]: "raced a a"
  by (simp add: raced_def)

lemma raced_trans: "raced a b \<Longrightarrow> raced b c \<Longrightarrow> raced a c"
  unfolding raced_def by (elim conjE exE) (rule conjI, simp, rule_tac x = "cs @ csa" in exI, auto)

lemma quiet_refl [simp]: "quiet E s s"
  by (simp add: quiet_def)

lemma quiet_trans: "quiet E s t \<Longrightarrow> quiet E t u \<Longrightarrow> quiet E s u"
  unfolding quiet_def by (auto intro: raced_trans)

definition quietly :: "world \<Rightarrow> 'a eng \<Rightarrow> bool" where
  "quietly E m \<longleftrightarrow> (\<forall>s. wp m (\<lambda>_ t. quiet E s t) (\<lambda>_ _. False) s)"

lemma wp_quietly:
  assumes "quietly E m" and "\<And>a t. quiet E s t \<Longrightarrow> Q a t"
  shows "wp m Q X s"
  using assms by (auto simp: quietly_def intro: wp_mono)

lemma quietly_ret: "quietly E (ret a)"
  by (simp add: quietly_def wp_rules)

lemma quietly_gets: "quietly E (gets f)"
  by (simp add: quietly_def wp_rules)

lemma quietly_bnd:
  assumes "quietly E m" and "\<And>a. quietly E (f a)"
  shows "quietly E (bnd m f)"
  unfolding quietly_def wp_bnd
proof
  fix s
  show "wp m (\<lambda>a. wp (f a) (\<lambda>_ t. quiet E s t) (\<lambda>_ _. False)) (\<lambda>_ _. False) s"
    by (rule wp_quietly [OF assms(1)], rule wp_quietly [OF assms(2)]) (rule quiet_trans)
qed

lemma quietly_seqc: "quietly E m \<Longrightarrow> quietly E k \<Longrightarrow> quietly E (seqc m k)"
  unfolding seqc_def by (rule quietly_bnd)

lemma quietly_whenc: "quietly E m \<Longrightarrow> quietly E (whenc b m)"
  by (simp add: whenc_def quietly_ret)

lemma quietly_if: "quietly E m \<Longrightarrow> quietly E k \<Longrightarrow> quietly E (if b then m else k)"
  by simp

lemma quietly_for_each: "(\<And>x. quietly E (f x)) \<Longrightarrow> quietly E (for_each xs f)"
  by (induction xs) (simp_all add: quietly_ret quietly_seqc)

lemma quietly_block:
  "quietly E (block [])" "quietly E m \<Longrightarrow> quietly E (block ms) \<Longrightarrow> quietly E (block (m # ms))"
  by (simp_all add: block.simps quietly_ret quietly_seqc)

lemma quietly_modify: "(\<And>s. quiet E s (f s)) \<Longrightarrow> quietly E (modify f)"
  by (simp add: quietly_def wp_rules)

lemma quietly_Let: "(\<And>x. quietly E (f x)) \<Longrightarrow> quietly E (let x = v in f x)"
  by simp

lemmas quietly_rules =
  quietly_ret quietly_gets quietly_bnd quietly_seqc quietly_whenc quietly_if quietly_for_each
  quietly_block quietly_Let

lemma log_inv_cong:
  "trace t = trace s \<Longrightarrow> run_state t = run_state s \<Longrightarrow> sink_enabled t = sink_enabled s \<Longrightarrow>
     log_inv E t = log_inv E s"
  by (simp add: log_inv_def run_log_def)

lemma arb_record_raced:
  "tc_cause c = RunWasCancelled \<or> tc_cause c = TotalTimeout \<Longrightarrow> raced a (arb_record c a)"
  using arb.recd_open [of a c] arb.recd_decided [of a _ c]
  by (cases "arb_locked a") (auto simp: raced_def)

lemma quietly_now: "quietly E (now_ms E)"
  unfolding now_ms_def
  by (intro quietly_rules quietly_modify) (auto simp: quiet_def calls_def log_inv_def run_log_def)

lemma quietly_record_cause:
  "c = RunWasCancelled \<or> c = TotalTimeout \<Longrightarrow> quietly E (record_cause c t e sid)"
  unfolding record_cause_def
  by (intro quietly_modify) (auto simp: quiet_def calls_def log_inv_def run_log_def arb_record_raced)

lemma quietly_abort: "quietly E abort_controller"
  unfolding abort_controller_def
  by (intro quietly_modify) (auto simp: quiet_def calls_def log_inv_def run_log_def)

lemma quietly_external: "quietly E (on_external_abort E)"
  unfolding on_external_abort_def
  by (intro quietly_rules quietly_now quietly_record_cause quietly_abort) simp

lemma quietly_signal: "quietly E (signal_abort E)"
  unfolding signal_abort_def
  by (intro quietly_rules quietly_external quietly_modify)
    (auto simp: quiet_def calls_def log_inv_def run_log_def)

lemma quietly_deadline: "quietly E record_deadline"
  unfolding record_deadline_def
  by (intro quietly_rules quietly_record_cause quietly_abort) simp

lemma quietly_timer: "quietly E timer_elapses"
  unfolding timer_elapses_def
  by (intro quietly_rules quietly_deadline quietly_modify)
    (auto simp: quiet_def calls_def log_inv_def run_log_def)

lemma quietly_callback: "quietly E (run_callback E c)"
  by (cases c) (simp_all add: run_callback_def quietly_signal quietly_timer)

lemma quietly_await: "quietly E (await E)"
  unfolding await_def
  by (intro quietly_rules quietly_callback quietly_modify)
    (auto simp: quiet_def calls_def log_inv_def run_log_def)

lemma quietly_disable: "quietly E disable_sink"
  unfolding disable_sink_def
  by (intro quietly_modify) (auto simp: quiet_def calls_def log_inv_def run_log_def)

definition run_event :: "progress_event \<Rightarrow> bool" where
  "run_event e = (case e of EvRun n c \<Rightarrow> True | _ \<Rightarrow> False)"

lemma quietly_observe_emitted:
  "\<not> run_event e \<Longrightarrow> quietly E (observe (Emitted t e))"
  unfolding observe_def
  by (intro quietly_modify)
    (auto simp: quiet_def calls_def log_inv_def run_log_def map_filter_def run_event_def
      split: progress_event.splits)

lemma quietly_emit_at: "\<not> run_event e \<Longrightarrow> quietly E (emit_at E t e)"
  unfolding emit_at_def call_sink_def
  by (intro quietly_rules quietly_observe_emitted quietly_signal quietly_disable quietly_modify)
    (auto simp: quiet_def calls_def log_inv_def run_log_def)

lemma quietly_emit: "\<not> run_event e \<Longrightarrow> quietly E (emit E e)"
  unfolding emit_def by (intro quietly_rules quietly_now quietly_emit_at)

lemma quietly_elapsed: "quietly E (record_deadline_if_elapsed E)"
  unfolding record_deadline_if_elapsed_def
  by (intro quietly_rules quietly_now quietly_deadline)

lemma quietly_remaining: "quietly E (remaining_ms E)"
  unfolding remaining_ms_def by (intro quietly_rules quietly_now)

lemmas quiet_ops =
  quietly_now quietly_external quietly_signal quietly_await quietly_emit_at quietly_emit
  quietly_elapsed quietly_remaining quietly_deadline quietly_rules


section \<open>Run transitions\<close>

definition run_moved :: "world \<Rightarrow> run_status \<Rightarrow> engine \<Rightarrow> engine \<Rightarrow> bool" where
  "run_moved E n s t \<longleftrightarrow>
     run_state t = n \<and> step_states t = step_states s \<and> recs t = recs s \<and>
     primary t = primary s \<and> store t = store s \<and> deadline t = deadline s \<and>
     cleanup_error t = cleanup_error s \<and> summaries t = summaries s \<and> calls t = calls s \<and>
     raced (racing s) (racing t) \<and> (log_inv E s \<longrightarrow> log_inv E t)"

lemma run_moved_quiet: "run_moved E n s t \<Longrightarrow> quiet E t u \<Longrightarrow> run_moved E n s u"
  unfolding run_moved_def quiet_def by (auto intro: raced_trans)

lemma history_last:
  "history table ss \<Longrightarrow> ss \<noteq> [] \<Longrightarrow> can_move table (last ss) n \<Longrightarrow> history table (ss @ [n])"
proof -
  assume "history table ss" "ss \<noteq> []" "can_move table (last ss) n"
  then have "history table (butlast ss @ [last ss, n])"
    using history_snoc [of table "butlast ss" "last ss" n] by simp
  moreover have "butlast ss @ [last ss, n] = ss @ [n]"
    using append_butlast_last_id [OF \<open>ss \<noteq> []\<close>] by (metis append.assoc append_Cons append_Nil)
  ultimately show ?thesis by simp
qed

lemma wp_transition_run:
  assumes ok: "n \<in> set (run_transitions (run_state s))"
    and Q: "\<And>t. run_moved E n s t \<Longrightarrow> Q () t"
  shows "wp (transition_run E n err) Q X s"
proof -
  define u where "u = s\<lparr>run_state := n, readings := readings s + 1\<rparr>"
  have rest: "wp (emit_at E x (EvRun n err)) Q X u" for x
  proof (cases "sink_enabled u \<and> sink_given E")
    case False
    then have "run_moved E n s u"
      by (auto simp: run_moved_def u_def calls_def log_inv_def run_log_def)
    with False Q show ?thesis
      by (auto simp: emit_at_def wp_rules)
  next
    case on: True
    show ?thesis
    proof (cases "id_is_uuid E")
      case False
      let ?v = "u\<lparr>sink_enabled := False, sink_failed := True\<rparr>"
      have "run_moved E n s ?v"
        by (auto simp: run_moved_def u_def calls_def log_inv_def run_log_def)
      with False on Q show ?thesis
        by (simp add: emit_at_def disable_sink_def wp_rules)
    next
      case True
      let ?v = "u\<lparr>emissions := emissions u + 1, trace := trace u @ [Emitted x (EvRun n err)]\<rparr>"
      have "log_inv E s \<Longrightarrow> log_inv E ?v"
      proof -
        assume l: "log_inv E s"
        with on have "history run_transitions (run_log s)" "run_log s \<noteq> []"
          "last (run_log s) = run_state s"
          by (auto simp: log_inv_def u_def)
        with ok have "history run_transitions (run_log s @ [n])"
          by (intro history_last) (auto simp: can_move_def)
        then show "log_inv E ?v"
          by (simp add: log_inv_def run_log_def u_def map_filter_def)
      qed
      then have v: "run_moved E n s ?v"
        by (auto simp: run_moved_def u_def calls_def)
      have "quietly E (block [whenc (sink_aborts E k) (signal_abort E), whenc (sink_throws E k) disable_sink])" for k
        by (intro quiet_ops quietly_disable)
      then have "wp (block [whenc (sink_aborts E k) (signal_abort E), whenc (sink_throws E k) disable_sink]) Q X ?v" for k
        by (rule wp_quietly) (use Q run_moved_quiet [OF v] in simp)
      from this [of "emissions u"] on True show ?thesis
        by (simp add: emit_at_def call_sink_def observe_def wp_rules)
    qed
  qed
  from ok show ?thesis
    using rest unfolding u_def
    by (simp add: transition_run_def run_transition_def emit_def now_ms_def wp_rules)
qed

section \<open>Step transitions\<close>

definition rec_id :: "engine \<Rightarrow> nat \<Rightarrow> string" where
  "rec_id s i = step_id (xr_step (recs s ! i))"

text \<open>The step machine agrees with the records.\<close>

definition synced :: "engine \<Rightarrow> bool" where
  "synced s \<longleftrightarrow>
     distinct (map (\<lambda>r. step_id (xr_step r)) (recs s)) \<and>
     (\<forall>i < length (recs s). sm_states (step_states s) (rec_id s i) = Some (xr_status (recs s ! i)))"

definition step_moved :: "world \<Rightarrow> nat \<Rightarrow> step_status \<Rightarrow> engine \<Rightarrow> engine \<Rightarrow> bool" where
  "step_moved E i n s t \<longleftrightarrow>
     run_state t = run_state s \<and>
     recs t = (recs s)[i := (recs s ! i)\<lparr>xr_status := n\<rparr>] \<and> synced t \<and>
     sm_running (step_states t) =
       (if n = StRunning then Some (rec_id s i)
        else if xr_status (recs s ! i) = StRunning then None else sm_running (step_states s)) \<and>
     primary t = primary s \<and> store t = store s \<and> deadline t = deadline s \<and>
     cleanup_error t = cleanup_error s \<and> summaries t = summaries s \<and> calls t = calls s \<and>
     raced (racing s) (racing t) \<and> (log_inv E s \<longrightarrow> log_inv E t)"

lemma synced_quiet: "quiet E s t \<Longrightarrow> synced t = synced s"
  by (simp add: quiet_def synced_def rec_id_def)

lemma rec_id_inj:
  "synced s \<Longrightarrow> i < length (recs s) \<Longrightarrow> j < length (recs s) \<Longrightarrow> rec_id s i = rec_id s j \<longleftrightarrow> i = j"
  using nth_eq_iff_index_eq [of "map (\<lambda>r. step_id (xr_step r)) (recs s)" i j]
  by (simp add: synced_def rec_id_def)

lemma wp_transition_step:
  assumes sy: "synced s" and i: "i < length (recs s)"
    and ok: "n \<in> set (step_transitions (xr_status (recs s ! i)))"
    and run: "n = StRunning \<Longrightarrow> sm_running (step_states s) = None \<or> sm_running (step_states s) = Some (rec_id s i)"
    and Q: "\<And>t. step_moved E i n s t \<Longrightarrow> Q () t"
  shows "wp (transition_step E i n err skip) Q X s"
proof -
  let ?st = "xr_step (recs s ! i)"
  define m where "m = \<lparr>sm_states = (sm_states (step_states s))(step_id ?st \<mapsto> n),
      sm_running = (if n = StRunning then Some (step_id ?st)
                    else if xr_status (recs s ! i) = StRunning then None
                    else sm_running (step_states s))\<rparr>"
  have m: "sm_transition (step_states s) (step_id ?st) n = Some m"
    using sy i ok run by (auto simp: sm_transition_def synced_def rec_id_def m_def)
  define u where "u = s\<lparr>step_states := m, recs := (recs s)[i := (recs s ! i)\<lparr>xr_status := n\<rparr>]\<rparr>"
  have same: "map (\<lambda>r. step_id (xr_step r)) (recs u) = map (\<lambda>r. step_id (xr_step r)) (recs s)"
    unfolding u_def by (simp add: map_update_eq)
  have ids: "rec_id u j = rec_id s j" if "j < length (recs s)" for j
    using that unfolding rec_id_def u_def by (cases "i = j") (simp_all add: nth_list_update)
  have "synced u"
    unfolding synced_def
  proof (intro conjI allI impI)
    show "distinct (map (\<lambda>r. step_id (xr_step r)) (recs u))"
      using sy by (simp add: same [simplified] synced_def)
    fix j assume "j < length (recs u)"
    then have j: "j < length (recs s)" by (simp add: u_def)
    show "sm_states (step_states u) (rec_id u j) = Some (xr_status (recs u ! j))"
    proof (cases "i = j")
      case True
      with j show ?thesis unfolding ids [OF j] by (simp add: u_def m_def rec_id_def)
    next
      case False
      with rec_id_inj [OF sy i j] have "rec_id s i \<noteq> rec_id s j" by simp
      with False j sy show ?thesis
        unfolding ids [OF j] by (auto simp: u_def m_def rec_id_def synced_def)
    qed
  qed
  then have moved: "step_moved E i n s u"
    by (auto simp: step_moved_def u_def m_def rec_id_def calls_def log_inv_def run_log_def)
  have "quietly E (emit E (EvStep (step_id ?st) (step_type_of ?st) n err skip))"
    by (rule quietly_emit) (simp add: run_event_def)
  then have "wp (emit E (EvStep (step_id ?st) (step_type_of ?st) n err skip)) Q X u"
  proof (rule wp_quietly)
    fix a t assume "quiet E u t"
    with moved have "step_moved E i n s t"
      using synced_quiet [of E u t] raced_trans by (auto simp: step_moved_def quiet_def)
    with Q show "Q a t" by simp
  qed
  with m show ?thesis
    by (simp add: transition_step_def step_machine_transition_def upd_rec_def wp_rules u_def)
qed

end
