(* ===== verification/Engine_Attempts.thy ===== *)
theory Engine_Attempts
  imports Engine_Frame
begin

text \<open>
  The attempts the engine records for one step: which lists the retry policy can produce.
  An attempt follows another only after a failure whose effect is known to be harmless.
\<close>

definition harmless :: "effect_certainty \<Rightarrow> bool" where
  "harmless e \<longleftrightarrow> e = ReadOnly \<or> e = NotStarted"

definition rerunnable :: "step_attempt \<Rightarrow> bool" where
  "rerunnable a \<longleftrightarrow> harmless (att_effect a) \<and> att_status a \<noteq> AtSucceeded \<and> att_status a \<noteq> AtRunning"

definition attempts_inv :: "step_attempt list \<Rightarrow> bool" where
  "attempts_inv as \<longleftrightarrow>
     length as \<le> 3 \<and>
     (\<forall>j < length as. att_number (as ! j) = j + 1 \<and> (att_trigger (as ! j) = Initial \<longleftrightarrow> j = 0)) \<and>
     count_trigger AutomaticRetry as \<le> 1 \<and> count_trigger ManualRetry as \<le> 1 \<and>
     list_all attempt_schema_ok as \<and> (\<forall>j. j + 1 < length as \<longrightarrow> rerunnable (as ! j))"

definition new_attempt :: "nat \<Rightarrow> retry_trigger \<Rightarrow> int \<Rightarrow> string option \<Rightarrow> step_attempt" where
  "new_attempt n trigger t repair =
     \<lparr>att_number = n, att_trigger = trigger, att_status = AtRunning, att_started = t,
      att_finished = None, att_duration = None, att_error = None, att_effect = UnknownEffect,
      att_repair = repair\<rparr>"

text \<open>When the loop may begin one more attempt.\<close>

definition may_begin :: "step_attempt list \<Rightarrow> retry_trigger \<Rightarrow> string option \<Rightarrow> bool" where
  "may_begin as trigger repair \<longleftrightarrow>
     (case trigger of
        Initial \<Rightarrow> as = [] \<and> repair = None
      | AutomaticRetry \<Rightarrow>
          as \<noteq> [] \<and> length as < 3 \<and> rerunnable (last as) \<and> repair = None \<and>
          count_trigger AutomaticRetry as = 0
      | ManualRetry \<Rightarrow>
          as \<noteq> [] \<and> length as < 3 \<and> rerunnable (last as) \<and> repair \<noteq> None \<and>
          count_trigger ManualRetry as = 0)"

lemma count_trigger_append [simp]:
  "count_trigger t (as @ [a]) = count_trigger t as + (if att_trigger a = t then 1 else 0)"
  by (simp add: count_trigger_def)

lemma attempts_inv_Nil [simp]: "attempts_inv []"
  by (simp add: attempts_inv_def count_trigger_def)

lemma attempts_inv_begin:
  assumes inv: "attempts_inv as" and may: "may_begin as trigger repair"
  shows "attempts_inv (as @ [new_attempt (length as + 1) trigger t repair])"
proof -
  let ?a = "new_attempt (length as + 1) trigger t repair"
  have ok: "attempt_schema_ok ?a"
    using may by (cases trigger) (auto simp: attempt_schema_ok_def new_attempt_def may_begin_def)
  have first: "trigger = Initial \<longleftrightarrow> as = []"
    using may by (cases trigger) (auto simp: may_begin_def)
  have len: "length as < 3"
    using may by (cases trigger) (auto simp: may_begin_def)
  have last_ok: "as \<noteq> [] \<Longrightarrow> rerunnable (as ! (length as - 1))"
    using may by (cases trigger) (auto simp: may_begin_def last_conv_nth)
  have re: "rerunnable ((as @ [?a]) ! j)" if "j + 1 < length (as @ [?a])" for j
  proof (cases "j + 1 < length as")
    case True
    with inv show ?thesis by (simp add: attempts_inv_def nth_append)
  next
    case False
    with that have "j = length as - 1" "as \<noteq> []" by (cases as; simp)+
    with last_ok show ?thesis by (simp add: nth_append)
  qed
  have num: "att_number ((as @ [?a]) ! j) = j + 1 \<and> (att_trigger ((as @ [?a]) ! j) = Initial \<longleftrightarrow> j = 0)"
    if "j < length (as @ [?a])" for j
  proof (cases "j < length as")
    case True
    with inv show ?thesis by (simp add: attempts_inv_def nth_append)
  next
    case False
    with that have "j = length as" by simp
    with first show ?thesis by (auto simp: new_attempt_def)
  qed
  have "count_trigger AutomaticRetry (as @ [?a]) \<le> 1 \<and> count_trigger ManualRetry (as @ [?a]) \<le> 1"
    using inv may by (cases trigger) (simp_all add: attempts_inv_def may_begin_def new_attempt_def count_trigger_def)
  then have c: "count_trigger AutomaticRetry (as @ [?a]) \<le> 1" "count_trigger ManualRetry (as @ [?a]) \<le> 1"
    by blast+
  show ?thesis
    unfolding attempts_inv_def
  proof (intro conjI allI impI)
    show "length (as @ [?a]) \<le> 3" using len by simp
    show "list_all attempt_schema_ok (as @ [?a])" using inv ok by (simp add: attempts_inv_def)
  qed (fact c | use num re in blast)+
qed

lemma code_string_ok: "parse_bounded 80 (code_string c) = Some (code_string c)"
  by (cases c) (simp_all add: parse_bounded_def trim_def js_space_def)

definition close_last :: "step_attempt list \<Rightarrow> int \<Rightarrow> attempt_status \<Rightarrow> effect_certainty \<Rightarrow> error_code option
    \<Rightarrow> step_attempt list" where
  "close_last as t status effect err = as[length as - 1 := close_attempt t status effect err (last as)]"

lemma close_attempt_sel [simp]:
  "att_number (close_attempt t st ef er a) = att_number a"
  "att_trigger (close_attempt t st ef er a) = att_trigger a"
  "att_status (close_attempt t st ef er a) = st"
  "att_effect (close_attempt t st ef er a) = ef"
  by (simp_all add: close_attempt_def)

lemma close_last_props [simp]:
  "length (close_last as t st ef er) = length as"
  "as \<noteq> [] \<Longrightarrow> last (close_last as t st ef er) = close_attempt t st ef er (last as)"
  "close_last as t st ef er = [] \<longleftrightarrow> as = []"
  by (auto simp: close_last_def last_conv_nth)

lemma count_trigger_close_last [simp]: "count_trigger tr (close_last as t st ef er) = count_trigger tr as"
proof -
  have "map att_trigger (close_last as t st ef er) = map att_trigger as"
    by (cases "as = []") (simp_all add: close_last_def map_update_eq last_conv_nth)
  moreover have count: "count_trigger tr xs = length (filter (\<lambda>u. u = tr) (map att_trigger xs))" for xs
    by (simp add: count_trigger_def filter_map comp_def)
  ultimately show ?thesis unfolding count by (simp only:)
qed

lemma attempts_inv_close_last:
  assumes inv: "attempts_inv as" and ne: "as \<noteq> []" and st: "status \<noteq> AtRunning"
  shows "attempts_inv (close_last as t status effect err)"
proof -
  let ?l = "length as - 1"
  have l: "?l < length as" using ne by simp
  have last_ok: "attempt_schema_ok (last as)"
    using inv ne by (simp add: attempts_inv_def list_all_iff)
  then have ok: "attempt_schema_ok (close_attempt t status effect err (last as))"
    using st by (auto simp: attempt_schema_ok_def close_attempt_def code_string_ok split: option.splits)
  have nth: "close_last as t status effect err ! j =
      (if j = ?l then close_attempt t status effect err (last as) else as ! j)" if "j < length as" for j
    using that by (simp add: close_last_def nth_list_update)
  have all: "list_all attempt_schema_ok (close_last as t status effect err)"
    using inv ok nth by (simp add: attempts_inv_def list_all_length)
  have num: "att_number (close_last as t status effect err ! j) = j + 1 \<and>
      (att_trigger (close_last as t status effect err ! j) = Initial \<longleftrightarrow> j = 0)" if "j < length as" for j
    using inv nth [OF that] that by (auto simp: attempts_inv_def last_conv_nth [OF ne])
  have "rerunnable (close_last as t status effect err ! j)" if "j + 1 < length as" for j
  proof -
    from that have "j \<noteq> length as - 1" "j < length as" by linarith+
    with nth [of j] inv that show ?thesis by (simp add: attempts_inv_def)
  qed
  with all num inv show ?thesis by (simp add: attempts_inv_def)
qed

lemma attempts_inv_schema: "attempts_inv as \<Longrightarrow> as \<noteq> [] \<Longrightarrow> attempt_list_schema_ok as"
  unfolding attempt_list_schema_ok_def attempts_inv_def
  by (auto simp: Suc_le_eq list_all_iff)

section \<open>What the policy's decision permits\<close>

lemma decide_retry_total:
  "attempts_of r \<noteq> [] \<Longrightarrow>
     decide_retry (retry_question p c effect r) =
       Some (decide_retry_parsed (retry_question p c effect r))"
  by (auto simp: decide_retry_def retry_question_def code_string_ok split: option.splits)

lemma automatic_may_begin:
  assumes d: "rd_disposition (decide_retry_parsed (retry_question p c effect r)) = DispAutomaticRetry"
    and as: "xr_attempts r = Some as" "as \<noteq> []" and st: "status \<noteq> AtRunning" "status \<noteq> AtSucceeded"
  shows "may_begin (close_last as t status effect err) AutomaticRetry None \<and>
    \<not> is_approval_gated_step (er_workflow (pr_request p)) (step_id (xr_step r))"
  using d as st unfolding decide_retry_parsed_automatic
  by (auto simp: retry_question_def may_begin_def rerunnable_def harmless_def)

lemma manual_may_begin:
  assumes d: "rd_disposition (decide_retry_parsed (retry_question p c effect r)) = DispManualRepair"
    and as: "xr_attempts r = Some as" "as \<noteq> []" and st: "status \<noteq> AtRunning" "status \<noteq> AtSucceeded"
  shows "may_begin (close_last as t status effect err) ManualRetry (Some rid) \<and>
    \<not> is_approval_gated_step (er_workflow (pr_request p)) (step_id (xr_step r))"
  using decide_retry_parsed_manual [OF d] decide_retry_parsed_reruns [of "retry_question p c effect r"] d as st
  by (auto simp: retry_question_def may_begin_def rerunnable_def harmless_def reruns_def)

end
