(* ===== verification/Engine_Invariant.thy ===== *)
theory Engine_Invariant
  imports Engine_Attempts
begin

text \<open>
  The invariants of the step loop. Before step \<open>i\<close> all earlier steps have succeeded and all
  later ones are untouched (\<open>upto\<close>, and \<open>between\<close> while nothing is decided); while step
  \<open>i\<close> runs its record is \<open>r\<close>, the run has status \<open>rs\<close> and the adapter has been asked \<open>k\<close>
  times to execute it (\<open>inside\<close>).
\<close>

section \<open>The decision\<close>

definition term_of :: "candidate \<Rightarrow> primary_termination" where
  "term_of c = \<lparr>pt_cause = tc_cause c, pt_error = tc_error c, pt_step = tc_step c\<rparr>"

definition coherent :: "engine \<Rightarrow> bool" where
  "coherent s \<longleftrightarrow> primary s = map_option term_of (arb_locked (racing s))"

definition contested :: "engine \<Rightarrow> bool" where
  "contested s \<longleftrightarrow> arb_locked (racing s) \<noteq> None \<or> arb_pool (racing s) \<noteq> []"

lemma raced_contested: "raced a b \<Longrightarrow> arb_locked a \<noteq> None \<or> arb_pool a \<noteq> [] \<Longrightarrow> arb_locked b \<noteq> None \<or> arb_pool b \<noteq> []"
  by (auto simp: raced_def)

lemma contested_record: "contested (s\<lparr>racing := arb_record c (racing s)\<rparr>)"
  using arb.recd_open [of "racing s" c] arb.recd_decided [of "racing s" _ c]
  by (cases "arb_locked (racing s)") (auto simp: contested_def)

lemma coherent_record: "coherent s \<Longrightarrow> coherent (s\<lparr>racing := arb_record c (racing s)\<rparr>)"
  using arb.recd_open [of "racing s" c] arb.recd_decided [of "racing s" _ c]
  by (cases "arb_locked (racing s)") (auto simp: coherent_def)

lemma wp_choose_primary:
  assumes co: "coherent s"
    and none: "\<not> contested s \<Longrightarrow> primary s = None \<Longrightarrow> Q None s"
    and some: "\<And>pt a. contested s \<Longrightarrow> coherent (s\<lparr>racing := a, primary := Some pt\<rparr>) \<Longrightarrow>
      arb_locked a \<noteq> None \<Longrightarrow> (primary s = None \<longrightarrow> pt_cause pt \<in> tc_cause ` set (arb_pool (racing s))) \<Longrightarrow>
      (\<forall>q. primary s = Some q \<longrightarrow> pt = q) \<Longrightarrow>
      Q (Some pt) (s\<lparr>racing := a, primary := Some pt\<rparr>)"
  shows "wp choose_primary Q X s"
proof (cases "arb_locked (racing s)")
  case (Some c)
  let ?s = "s\<lparr>racing := racing s, primary := Some (term_of c)\<rparr>"
  have "Q (Some (term_of c)) ?s"
    by (rule some) (use Some co in \<open>auto simp: contested_def coherent_def\<close>)
  with arb.lock_decided [OF Some] show ?thesis
    by (simp add: choose_primary_def wp_rules Let_def term_of_def)
next
  case None
  show ?thesis
  proof (cases "arb_pool (racing s) = []")
    case True
    from None co have p: "primary s = None" by (simp add: coherent_def)
    moreover have e: "s\<lparr>primary := None\<rparr> = s" using p by (cases s) simp
    moreover have "Q None s" using none None True p by (simp add: contested_def)
    ultimately show ?thesis using arb.lock_empty [OF None True]
      by (simp add: choose_primary_def wp_rules Let_def e)
  next
    case False
    from arb.lock_picks [OF None False] obtain d b where
      l: "arb_lock (racing s) = (Some d, b)" "arb_locked b = Some d" "d \<in> set (arb_pool (racing s))"
      by auto
    have "Q (Some (term_of d)) (s\<lparr>racing := b, primary := Some (term_of d)\<rparr>)"
      by (rule some) (use None False co l in \<open>auto simp: contested_def coherent_def term_of_def\<close>)
    with l show ?thesis
      by (simp add: choose_primary_def wp_rules Let_def term_of_def)
  qed
qed

section \<open>Calls\<close>

definition exec_count :: "observation list \<Rightarrow> string \<Rightarrow> nat" where
  "exec_count cs sid =
     length (filter (\<lambda>x. case x of CalledExecute cx \<Rightarrow> step_id (cx_step cx) = sid | _ \<Rightarrow> False) cs)"

definition approved_in :: "observation list \<Rightarrow> string \<Rightarrow> bool" where
  "approved_in cs sid \<longleftrightarrow> AnsweredApproval sid DecApproved \<in> set cs"

text \<open>An execution that the engine may ask for after the calls \<open>cs\<close>.\<close>

definition exec_ok :: "workflow \<Rightarrow> observation list \<Rightarrow> step_context \<Rightarrow> bool" where
  "exec_ok w cs cx \<longleftrightarrow>
     (\<exists>j < length (steps w). cx_step cx = steps w ! j \<and> \<not> is_approval (steps w ! j) \<and>
        (\<forall>m < j. is_approval (steps w ! m) \<longrightarrow> approved_in cs (step_id (steps w ! m))) \<and>
        (\<forall>u n. (Output n, u) \<in> set (step_value_sources (steps w ! j) j) \<longrightarrow>
           (\<exists>v. resolve (cx_resolver cx) (Output n) (use_target u) = Inr v)))"

definition execs_ok :: "workflow \<Rightarrow> observation list \<Rightarrow> bool" where
  "execs_ok w cs \<longleftrightarrow> (\<forall>m < length cs. \<forall>cx. cs ! m = CalledExecute cx \<longrightarrow> exec_ok w (take m cs) cx)"

fun is_start_or_stop :: "observation \<Rightarrow> bool" where
  "is_start_or_stop (CalledStart cx) = True"
| "is_start_or_stop (CalledStop c) = True"
| "is_start_or_stop _ = False"

definition started_once :: "observation list \<Rightarrow> bool" where
  "started_once cs \<longleftrightarrow> (\<exists>cx rest. cs = CalledStart cx # rest \<and> list_all (\<lambda>x. \<not> is_start_or_stop x) rest)"

lemma execs_ok_snoc:
  "execs_ok w (cs @ [x]) \<longleftrightarrow> execs_ok w cs \<and> (\<forall>cx. x = CalledExecute cx \<longrightarrow> exec_ok w cs cx)"
  by (auto simp: execs_ok_def nth_append less_Suc_eq)

lemma started_once_snoc:
  "started_once cs \<Longrightarrow> \<not> is_start_or_stop x \<Longrightarrow> started_once (cs @ [x])"
  by (auto simp: started_once_def)

lemma exec_count_snoc:
  "exec_count (cs @ [x]) sid = exec_count cs sid +
     (case x of CalledExecute cx \<Rightarrow> if step_id (cx_step cx) = sid then 1 else 0 | _ \<Rightarrow> 0)"
  by (auto simp: exec_count_def split: observation.splits)

lemma approved_in_snoc: "approved_in cs sid \<Longrightarrow> approved_in (cs @ [x]) sid"
  by (simp add: approved_in_def)

section \<open>Records\<close>

definition fresh :: "exec_record \<Rightarrow> bool" where
  "fresh r \<longleftrightarrow> r = new_record (xr_step r)"

definition attempts_wf :: "workflow \<Rightarrow> exec_record \<Rightarrow> bool" where
  "attempts_wf w r \<longleftrightarrow>
     attempts_inv (attempts_of r) \<and> xr_attempts r \<noteq> Some [] \<and>
     (is_approval_gated_step w (step_id (xr_step r)) \<longrightarrow> length (attempts_of r) \<le> 1)"

definition running_record :: "workflow \<Rightarrow> exec_record \<Rightarrow> bool" where
  "running_record w r \<longleftrightarrow>
     attempts_wf w r \<and> xr_started r \<noteq> None \<and> xr_skipped r = None \<and> xr_error r = None"

definition succeeded :: "workflow \<Rightarrow> exec_record \<Rightarrow> bool" where
  "succeeded w r \<longleftrightarrow>
     running_record w r \<and> xr_status r = StSucceeded \<and> xr_finished r \<noteq> None \<and>
     xr_attempts r \<noteq> None \<and> att_status (last (attempts_of r)) = AtSucceeded"

definition ended :: "workflow \<Rightarrow> primary_termination \<Rightarrow> exec_record \<Rightarrow> bool" where
  "ended w pt r \<longleftrightarrow>
     attempts_wf w r \<and> xr_started r \<noteq> None \<and> xr_skipped r = None \<and>
     xr_error r = Some (pt_error pt) \<and> xr_status r = step_status_for (pt_cause pt) \<and>
     xr_finished r \<noteq> None"

section \<open>Invariants of the loop\<close>

definition stored :: "output_store \<Rightarrow> output_definition \<Rightarrow> bool" where
  "stored st d \<longleftrightarrow> (\<exists>v. os_values st (od_name d) = Some (od_type d, v) \<and> type_of_output v = od_type d)"

definition outputs_upto :: "workflow \<Rightarrow> nat \<Rightarrow> output_store \<Rightarrow> bool" where
  "outputs_upto w i st \<longleftrightarrow>
     (\<forall>j < i. \<forall>d. step_output j (steps w ! j) = Some d \<longrightarrow> stored st d)"

definition calls_upto :: "workflow \<Rightarrow> nat \<Rightarrow> nat \<Rightarrow> engine \<Rightarrow> bool" where
  "calls_upto w i k s \<longleftrightarrow>
     execs_ok w (calls s) \<and> started_once (calls s) \<and>
     (\<forall>j < i. is_approval (steps w ! j) \<longrightarrow> approved_in (calls s) (step_id (steps w ! j))) \<and>
     (\<forall>j < length (steps w). exec_count (calls s) (step_id (steps w ! j)) =
        (if is_approval (steps w ! j) then 0
         else if j = i then k else length (attempts_of (recs s ! j))))"

definition base_inv :: "world \<Rightarrow> workflow \<Rightarrow> engine \<Rightarrow> bool" where
  "base_inv E w s \<longleftrightarrow>
     synced s \<and> map xr_step (recs s) = steps w \<and> coherent s \<and> log_inv E s"

definition upto :: "world \<Rightarrow> workflow \<Rightarrow> nat \<Rightarrow> engine \<Rightarrow> bool" where
  "upto E w i s \<longleftrightarrow>
     base_inv E w s \<and> i \<le> length (recs s) \<and> (\<forall>j < i. succeeded w (recs s ! j)) \<and>
     (\<forall>j < length (recs s). i \<le> j \<longrightarrow> fresh (recs s ! j)) \<and> run_state s = RunRunning \<and>
     sm_running (step_states s) = None \<and> outputs_upto w i (store s) \<and> calls_upto w i 0 s"

definition between :: "world \<Rightarrow> workflow \<Rightarrow> nat \<Rightarrow> engine \<Rightarrow> bool" where
  "between E w i s \<longleftrightarrow> upto E w i s \<and> primary s = None"

definition inside ::
  "world \<Rightarrow> workflow \<Rightarrow> nat \<Rightarrow> run_status \<Rightarrow> exec_record \<Rightarrow> nat \<Rightarrow> engine \<Rightarrow> bool" where
  "inside E w i rs r k s \<longleftrightarrow>
     base_inv E w s \<and> i < length (recs s) \<and> recs s ! i = r \<and> (\<forall>j < i. succeeded w (recs s ! j)) \<and>
     (\<forall>j < length (recs s). i < j \<longrightarrow> fresh (recs s ! j)) \<and> run_state s = rs \<and>
     sm_running (step_states s) = (if xr_status r = StRunning then Some (step_id (xr_step r)) else None) \<and>
     outputs_upto w i (store s) \<and> calls_upto w i k s"

text \<open>What a step of the proofs carries along besides the invariant.\<close>

definition carry :: "engine \<Rightarrow> engine \<Rightarrow> bool" where
  "carry s t \<longleftrightarrow>
     (contested s \<longrightarrow> contested t) \<and> primary t = primary s \<and> calls t = calls s \<and> store t = store s"

lemma carry_refl [simp]: "carry s s" by (simp add: carry_def)

lemma carry_trans: "carry s t \<Longrightarrow> carry t u \<Longrightarrow> carry s u" by (auto simp: carry_def)

lemma base_inv_quiet: "base_inv E w s \<Longrightarrow> quiet E s t \<Longrightarrow> base_inv E w t"
  using synced_quiet [of E s t]
  by (auto simp: base_inv_def quiet_def coherent_def raced_def)

lemma calls_upto_cong:
  "calls t = calls s \<Longrightarrow> (\<And>j. j \<noteq> i \<Longrightarrow> attempts_of (recs t ! j) = attempts_of (recs s ! j)) \<Longrightarrow>
     calls_upto w i k t = calls_upto w i k s"
  by (auto simp: calls_upto_def)

lemma quiet_carry: "quiet E s t \<Longrightarrow> carry s t"
  using raced_contested [of "racing s" "racing t"]
  by (auto simp: quiet_def carry_def contested_def)

lemma inside_quiet: "inside E w i rs r k s \<Longrightarrow> quiet E s t \<Longrightarrow> inside E w i rs r k t"
  using calls_upto_cong [of t s i w k]
  by (auto simp: inside_def quiet_def intro: base_inv_quiet [unfolded quiet_def])

lemma upto_quiet: "upto E w i s \<Longrightarrow> quiet E s t \<Longrightarrow> upto E w i t"
  using calls_upto_cong [of t s i w 0]
  by (auto simp: upto_def quiet_def intro: base_inv_quiet [unfolded quiet_def])

lemma wp_inside_quietly:
  assumes "quietly E m" and "inside E w i rs r k s"
    and "\<And>a t. inside E w i rs r k t \<Longrightarrow> carry s t \<Longrightarrow> Q a t"
  shows "wp m Q X s"
  using assms(1) by (rule wp_quietly) (auto intro: assms(3) inside_quiet [OF assms(2)] quiet_carry)

text \<open>Updates of the record of the running step.\<close>

lemma synced_upd:
  assumes "synced s" and "xr_status r = xr_status (recs s ! i)" and "xr_step r = xr_step (recs s ! i)"
  shows "synced (s\<lparr>recs := (recs s)[i := r]\<rparr>)"
proof -
  let ?t = "s\<lparr>recs := (recs s)[i := r]\<rparr>"
  have m: "map (\<lambda>r. step_id (xr_step r)) (recs ?t) = map (\<lambda>r. step_id (xr_step r)) (recs s)"
    using assms by (simp add: map_update_eq)
  have "xr_step (recs ?t ! j) = xr_step (recs s ! j) \<and> xr_status (recs ?t ! j) = xr_status (recs s ! j)"
    if "j < length (recs s)" for j
    using assms that by (cases "i = j") (simp_all add: nth_list_update)
  with assms(1) show ?thesis
    unfolding synced_def m rec_id_def by simp
qed

lemma inside_upd_state:
  assumes w: "inside E w i rs r k s"
    and f: "xr_status r' = xr_status r" "xr_step r' = xr_step r"
  shows "inside E w i rs r' k (s\<lparr>recs := (recs s)[i := r']\<rparr>)"
proof -
  let ?t = "s\<lparr>recs := (recs s)[i := r']\<rparr>"
  from w have i: "i < length (recs s)" "recs s ! i = r" and b: "base_inv E w s"
    by (auto simp: inside_def)
  have "synced ?t" using b f i by (intro synced_upd) (auto simp: base_inv_def)
  moreover have "map xr_step (recs ?t) = steps w"
    using b f i by (simp add: base_inv_def map_update_eq)
  ultimately have "base_inv E w ?t"
    using b by (auto simp: base_inv_def coherent_def log_inv_def run_log_def)
  moreover have "calls_upto w i k ?t = calls_upto w i k s"
    by (rule calls_upto_cong) (auto simp: calls_def)
  ultimately show ?thesis
    using w i f by (auto simp: inside_def)
qed

lemma wp_inside_upd:
  assumes w: "inside E w i rs r k s"
    and f: "xr_status (f r) = xr_status r" "xr_step (f r) = xr_step r"
    and Q: "\<And>t. inside E w i rs (f r) k t \<Longrightarrow> carry s t \<Longrightarrow> Q () t"
  shows "wp (upd_rec i f) Q X s"
proof -
  let ?t = "s\<lparr>recs := (recs s)[i := f r]\<rparr>"
  have "inside E w i rs (f r) k ?t" by (rule inside_upd_state [OF w f])
  moreover have "carry s ?t" by (simp add: carry_def contested_def calls_def)
  ultimately have "Q () ?t" by (rule Q)
  moreover from w have "recs s ! i = r" by (simp add: inside_def)
  ultimately show ?thesis by (simp add: upd_rec_def wp_rules)
qed

lemma wp_inside_run:
  assumes w: "inside E w i rs r k s" and ok: "n \<in> set (run_transitions rs)"
    and Q: "\<And>t. inside E w i n r k t \<Longrightarrow> carry s t \<Longrightarrow> Q () t"
  shows "wp (transition_run E n err) Q X s"
proof (rule wp_transition_run)
  show "n \<in> set (run_transitions (run_state s))" using w ok by (simp add: inside_def)
  fix t assume m: "run_moved E n s t"
  have "base_inv E w t"
    using w m by (auto simp: inside_def base_inv_def run_moved_def synced_def rec_id_def coherent_def raced_def)
  moreover have "calls_upto w i k t = calls_upto w i k s"
    by (rule calls_upto_cong) (use m in \<open>auto simp: run_moved_def\<close>)
  ultimately have "inside E w i n r k t"
    using w m by (auto simp: inside_def run_moved_def)
  moreover have "carry s t"
    using m raced_contested [of "racing s" "racing t"] by (auto simp: run_moved_def carry_def contested_def)
  ultimately show "Q () t" by (rule Q)
qed

lemma wp_inside_step:
  assumes w: "inside E w i rs r k s" and ok: "n \<in> set (step_transitions (xr_status r))"
    and Q: "\<And>t. inside E w i rs (r\<lparr>xr_status := n\<rparr>) k t \<Longrightarrow> carry s t \<Longrightarrow> Q () t"
  shows "wp (transition_step E i n err skip) Q X s"
proof (rule wp_transition_step)
  from w have i: "i < length (recs s)" "recs s ! i = r" and b: "base_inv E w s" by (auto simp: inside_def)
  show "synced s" using b by (simp add: base_inv_def)
  show "i < length (recs s)" by fact
  show "n \<in> set (step_transitions (xr_status (recs s ! i)))" using ok i by simp
  show "sm_running (step_states s) = None \<or> sm_running (step_states s) = Some (rec_id s i)"
    using w i by (auto simp: inside_def rec_id_def)
  fix t assume m: "step_moved E i n s t"
  have "map xr_step (recs t) = map xr_step (recs s)"
    using m by (simp add: step_moved_def map_update_eq)
  then have "base_inv E w t"
    using b m by (auto simp: base_inv_def step_moved_def coherent_def raced_def)
  moreover have "calls_upto w i k t = calls_upto w i k s"
    by (rule calls_upto_cong) (use m in \<open>auto simp: step_moved_def\<close>)
  ultimately have "inside E w i rs (r\<lparr>xr_status := n\<rparr>) k t"
    using w m i by (auto simp: inside_def step_moved_def rec_id_def split: if_splits)
  moreover have "carry s t"
    using m raced_contested [of "racing s" "racing t"] by (auto simp: step_moved_def carry_def contested_def)
  ultimately show "Q () t" by (rule Q)
qed

lemma wp_inside_choose:
  assumes w: "inside E w i rs r k s"
    and none: "\<not> contested s \<Longrightarrow> primary s = None \<Longrightarrow> Q None s"
    and some: "\<And>pt t. inside E w i rs r k t \<Longrightarrow> primary t = Some pt \<Longrightarrow> contested t \<Longrightarrow> contested s \<Longrightarrow>
      calls t = calls s \<Longrightarrow> store t = store s \<Longrightarrow> Q (Some pt) t"
  shows "wp choose_primary Q X s"
proof (rule wp_choose_primary)
  show "coherent s" using w by (simp add: inside_def base_inv_def)
  show "Q None s" if "\<not> contested s" "primary s = None" using none that by blast
  fix pt a
  let ?t = "s\<lparr>racing := a, primary := Some pt\<rparr>"
  assume c: "coherent ?t" "contested s" "arb_locked a \<noteq> None"
  have "base_inv E w ?t"
    using w c by (auto simp: inside_def base_inv_def synced_def rec_id_def log_inv_def run_log_def)
  moreover have "calls_upto w i k ?t = calls_upto w i k s"
    by (rule calls_upto_cong) (auto simp: calls_def)
  ultimately have "inside E w i rs r k ?t"
    using w by (auto simp: inside_def)
  then show "Q (Some pt) ?t"
    by (rule some) (use c in \<open>auto simp: contested_def calls_def\<close>)
qed

lemma inside_record:
  assumes w: "inside E w i rs r k s"
  shows "inside E w i rs r k (s\<lparr>racing := arb_record c (racing s)\<rparr>)"
proof -
  let ?t = "s\<lparr>racing := arb_record c (racing s)\<rparr>"
  have "base_inv E w ?t"
    using w coherent_record [of s c]
    by (auto simp: inside_def base_inv_def synced_def rec_id_def log_inv_def run_log_def)
  moreover have "calls_upto w i k ?t = calls_upto w i k s"
    by (rule calls_upto_cong) (auto simp: calls_def)
  ultimately show ?thesis using w by (auto simp: inside_def)
qed

lemma wp_inside_record_now:
  assumes w: "inside E w i rs r k s"
    and Q: "\<And>t. inside E w i rs r k t \<Longrightarrow> contested t \<Longrightarrow> carry s t \<Longrightarrow> Q () t"
  shows "wp (record_now E c e sid) Q X s"
  unfolding record_now_def wp_bnd
proof (rule wp_inside_quietly [OF quietly_now w])
  fix a t assume t: "inside E w i rs r k t" "carry s t"
  let ?c = "\<lparr>tc_cause = c, tc_at = a, tc_error = e, tc_step = sid\<rparr>"
  let ?u = "t\<lparr>racing := arb_record ?c (racing t)\<rparr>"
  have "Q () ?u"
  proof (rule Q)
    show "inside E w i rs r k ?u" by (rule inside_record [OF t(1)])
    show "contested ?u" by (rule contested_record)
    with t(2) show "carry s ?u" by (simp add: carry_def calls_def)
  qed
  then show "wp (record_cause c a e sid) Q X t"
    by (simp add: record_cause_def wp_rules)
qed

end
