(* ===== verification/Engine_Steps.thy ===== *)
theory Engine_Steps
  imports Engine_Invariant
begin

text \<open>
  The invariants through one step: its attempts and repairs, or its approval, and its end.
\<close>

abbreviation flow :: "prepared \<Rightarrow> workflow" where
  "flow p \<equiv> er_workflow (pr_request p)"

definition sound :: "workflow \<Rightarrow> bool" where
  "sound w \<longleftrightarrow> distinct (map step_id (steps w)) \<and> dataflow_ok w"

definition mono :: "engine \<Rightarrow> engine \<Rightarrow> bool" where
  "mono s t \<longleftrightarrow> (contested s \<longrightarrow> contested t) \<and> primary t = primary s"

lemma mono_refl [simp]: "mono s s" by (simp add: mono_def)
lemma mono_trans: "mono s t \<Longrightarrow> mono t u \<Longrightarrow> mono s u" by (auto simp: mono_def)
lemma carry_mono: "carry s t \<Longrightarrow> mono s t" by (simp add: carry_def mono_def)

section \<open>Attempt records\<close>

lemma wp_begin_attempt:
  assumes w: "inside E w i rs r k s"
    and Q: "\<And>t' t. inside E w i rs (r\<lparr>xr_attempts :=
        Some (attempts_of r @ [new_attempt (length (attempts_of r) + 1) trigger t' rid])\<rparr>) k t \<Longrightarrow>
      carry s t \<Longrightarrow> Q (length (attempts_of r) + 1) t"
  shows "wp (begin_attempt E i trigger rid) Q X s"
proof -
  have r: "recs s ! i = r" using w by (simp add: inside_def)
  show ?thesis
    unfolding begin_attempt_def wp_bnd wp_gets
  proof (rule wp_inside_quietly [OF quietly_now w], unfold wp_bnd wp_gets wp_seqc, rule wp_inside_upd)
    fix a t u
    assume t: "inside E w i rs r k t" "carry s t"
    show "inside E w i rs r k t" by fact
    assume u: "inside E w i rs (r\<lparr>xr_attempts := Some (attempts_of r @
        [\<lparr>att_number = length (attempts_of (recs s ! i)) + 1, att_trigger = trigger,
          att_status = AtRunning, att_started = a, att_finished = None, att_duration = None,
          att_error = None, att_effect = UnknownEffect, att_repair = rid\<rparr>])\<rparr>) k u" "carry t u"
    show "wp (emit_at E a (EvAttempt (step_id (xr_step (recs t ! i))) (length (attempts_of (recs s ! i)) + 1)
            trigger AtRunning None UnknownEffect False))
          (\<lambda>_. wp (ret (length (attempts_of (recs s ! i)) + 1)) Q X) X u"
    proof (rule wp_inside_quietly [OF quietly_emit_at u(1)])
      fix b v assume v: "inside E w i rs (r\<lparr>xr_attempts := Some (attempts_of r @
        [\<lparr>att_number = length (attempts_of (recs s ! i)) + 1, att_trigger = trigger,
          att_status = AtRunning, att_started = a, att_finished = None, att_duration = None,
          att_error = None, att_effect = UnknownEffect, att_repair = rid\<rparr>])\<rparr>) k v" "carry u v"
      have "carry s v" using t(2) u(2) v(2) by (blast intro: carry_trans)
      with v(1) Q [of a v] show "wp (ret (length (attempts_of (recs s ! i)) + 1)) Q X v"
        by (simp add: wp_rules r new_attempt_def)
    qed (simp add: run_event_def)
  qed simp_all
qed

lemma wp_finish_attempt:
  assumes w: "inside E w i rs r k s" and as: "attempts_of r = as" "as \<noteq> []" and n: "n = length as"
    and Q: "\<And>t' t. inside E w i rs (r\<lparr>xr_attempts := Some (close_last as t' status effect err)\<rparr>) k t \<Longrightarrow>
      carry s t \<Longrightarrow> Q () t"
  shows "wp (finish_attempt E i n status effect allowed err) Q X s"
  unfolding finish_attempt_def wp_bnd
proof (rule wp_inside_quietly [OF quietly_now w], unfold wp_seqc, rule wp_inside_upd)
  fix a t u
  assume t: "inside E w i rs r k t" "carry s t"
  show "inside E w i rs r k t" by fact
  let ?r = "r\<lparr>xr_attempts := Some ((attempts_of r)[n - 1 :=
      close_attempt a status effect err (attempts_of r ! (n - 1))])\<rparr>"
  have c: "(attempts_of r)[n - 1 := close_attempt a status effect err (attempts_of r ! (n - 1))] =
      close_last as a status effect err"
    using as n by (simp add: close_last_def last_conv_nth)
  assume u: "inside E w i rs ?r k u" "carry t u"
  have q: "quietly E (emit_at E a (EvAttempt j m tr st e ef al))" for j m tr st e ef al
    by (rule quietly_emit_at) (simp add: run_event_def)
  show "wp (bnd (gets (\<lambda>s. recs s ! i)) (\<lambda>r. emit_at E a (EvAttempt (step_id (xr_step r)) n
           (att_trigger (attempts_of r ! (n - 1))) status err effect allowed))) Q X u"
    unfolding wp_bnd wp_gets
  proof (rule wp_inside_quietly [OF q u(1)])
    fix b v assume v: "inside E w i rs ?r k v" "carry u v"
    have "carry s v" using t(2) u(2) v(2) by (blast intro: carry_trans)
    with v(1) Q [of a v] show "Q b v" unfolding c by simp
  qed
qed simp_all

section \<open>Observations and outputs\<close>

lemma inside_observe:
  assumes w: "inside E w i rs r k s" and x: "is_call x" "\<not> is_start_or_stop x" "\<forall>cx. x \<noteq> CalledExecute cx"
  shows "inside E w i rs r k (s\<lparr>trace := trace s @ [x]\<rparr>)"
proof -
  let ?t = "s\<lparr>trace := trace s @ [x]\<rparr>"
  have c: "calls ?t = calls s @ [x]" using x by (simp add: calls_def)
  have l: "run_log ?t = run_log s" using x(1) by (cases x) (auto simp: run_log_def map_filter_def)
  have "base_inv E w ?t"
    using w l by (auto simp: inside_def base_inv_def synced_def rec_id_def coherent_def log_inv_def)
  moreover have "exec_count (calls s @ [x]) sid = exec_count (calls s) sid" for sid
    using x(3) by (cases x) (simp_all add: exec_count_snoc)
  then have "calls_upto w i k ?t"
    using w x by (simp add: inside_def calls_upto_def c execs_ok_snoc started_once_snoc approved_in_snoc)
  ultimately show ?thesis using w by (simp add: inside_def)
qed

lemma wp_observe_inside:
  assumes w: "inside E w i rs r k s" and x: "is_call x" "\<not> is_start_or_stop x" "\<forall>cx. x \<noteq> CalledExecute cx"
    and Q: "\<And>t. inside E w i rs r k t \<Longrightarrow> calls t = calls s @ [x] \<Longrightarrow> mono s t \<Longrightarrow> Q () t"
  shows "wp (observe x) Q X s"
proof -
  have "Q () (s\<lparr>trace := trace s @ [x]\<rparr>)"
    by (rule Q [OF inside_observe [OF w x]]) (use x in \<open>auto simp: calls_def mono_def contested_def\<close>)
  then show ?thesis by (simp add: observe_def wp_rules)
qed

lemma output_available:
  assumes so: "sound w" and up: "outputs_upto w i st" and i: "i < length (steps w)"
    and u: "(Output n, u) \<in> set (step_value_sources (steps w ! i) i)"
  shows "\<exists>v. resolve (with_runtime_outputs rv st) (Output n) (use_target u) = Inr v"
proof -
  have idx: "use_step_index u = i"
    using u by (auto simp: locate_def split: step_body.splits workflow_assertion.splits)
  have "(Output n, u) \<in> set (find_value_sources w)"
    unfolding find_value_sources_def
    using u i by (auto intro!: bexI [of _ "(i, steps w ! i)"])
  then have "\<lparr>ou_name = n, ou_step_id = use_step_id u, ou_index = use_step_index u,
      ou_target = use_target u, ou_path = use_path u\<rparr> \<in> set (output_usages w)"
    unfolding output_usages_def map_filter_def by force
  with so have "usage_ok w \<lparr>ou_name = n, ou_step_id = use_step_id u, ou_index = use_step_index u,
      ou_target = use_target u, ou_path = use_path u\<rparr>"
    by (simp add: sound_def dataflow_ok_def)
  then obtain d where d: "producer_of w n = Some d" "od_index d < i"
    "output_variable_type (od_type d) \<in> set (variable_types (get_compatibility (use_target u)))"
    by (auto simp: usage_ok_def idx split: option.splits)
  from find_Some_set [OF d(1) [unfolded producer_of_def]] have dn: "od_name d = n"
    and "d \<in> set (define_workflow_outputs w)" by auto
  then obtain j where j: "step_output j (steps w ! j) = Some d" by (auto simp: set_define_outputs)
  from step_output_index [OF j] have "od_index d = j" by simp
  with up j d(2) have "stored st d" by (auto simp: outputs_upto_def)
  with d(3) dn show ?thesis
    by (auto simp: with_runtime_outputs_def os_get_def stored_def)
qed

lemma inside_execute:
  assumes w: "inside E w i rs r k s" and so: "sound w" and na: "\<not> is_approval (xr_step r)"
    and cx: "cx_step cx = xr_step r" "cx_resolver cx = with_runtime_outputs rv (store s)"
  shows "inside E w i rs r (k + 1) (s\<lparr>trace := trace s @ [CalledExecute cx]\<rparr>)"
proof -
  let ?t = "s\<lparr>trace := trace s @ [CalledExecute cx]\<rparr>"
  from w have i: "i < length (steps w)" and st: "xr_step r = steps w ! i"
    by (auto simp: inside_def base_inv_def dest: arg_cong [of _ _ length])
      (metis nth_map)
  have c: "calls ?t = calls s @ [CalledExecute cx]" by (simp add: calls_def)
  have l: "run_log ?t = run_log s" by (simp add: run_log_def map_filter_def)
  have b: "base_inv E w ?t"
    using w l by (auto simp: inside_def base_inv_def synced_def rec_id_def coherent_def log_inv_def)
  have ok: "exec_ok w (calls s) cx"
    unfolding exec_ok_def
    using w i st cx na output_available [OF so _ i]
    by (intro exI [of _ i]) (auto simp: inside_def calls_upto_def)
  have ids: "j < length (steps w) \<Longrightarrow> step_id (steps w ! j) = step_id (steps w ! i) \<longleftrightarrow> j = i" for j
    using so i nth_eq_iff_index_eq [of "map step_id (steps w)" j i] by (simp add: sound_def)
  have "calls_upto w i (k + 1) ?t"
    unfolding calls_upto_def c
  proof (intro conjI allI impI)
    show "execs_ok w (calls s @ [CalledExecute cx])"
      using w ok by (simp add: execs_ok_snoc inside_def calls_upto_def)
    show "started_once (calls s @ [CalledExecute cx])"
      using w by (simp add: started_once_snoc inside_def calls_upto_def)
    show "approved_in (calls s @ [CalledExecute cx]) (step_id (steps w ! j))"
      if "j < i" "is_approval (steps w ! j)" for j
      using w that by (simp add: approved_in_snoc inside_def calls_upto_def)
    show "exec_count (calls s @ [CalledExecute cx]) (step_id (steps w ! j)) =
        (if is_approval (steps w ! j) then 0
         else if j = i then k + 1 else length (attempts_of (recs ?t ! j)))"
      if j: "j < length (steps w)" for j
    proof -
      have "exec_count (calls s) (step_id (steps w ! j)) =
        (if is_approval (steps w ! j) then 0
         else if j = i then k else length (attempts_of (recs s ! j)))"
        using w j by (simp add: inside_def calls_upto_def)
      moreover have "step_id (cx_step cx) = step_id (steps w ! j) \<longleftrightarrow> j = i"
        using ids [OF j] cx st by auto
      ultimately show ?thesis
        using na st by (auto simp: exec_count_snoc)
    qed
  qed
  with b w show ?thesis by (simp add: inside_def)
qed

lemma stored_set:
  assumes "os_set st n ty v = Inr st'"
  shows "(stored st d \<longrightarrow> stored st' d) \<and>
    (od_name d = n \<and> od_type d = ty \<longrightarrow> stored st' d)"
  using assms by (auto simp: os_set_def stored_def split: option.splits if_splits)

lemma inside_store:
  assumes w: "inside E w i rs r k s" and st: "\<And>d. stored (store s) d \<Longrightarrow> stored st d"
  shows "inside E w i rs r k (s\<lparr>store := st\<rparr>)"
proof -
  have "base_inv E w (s\<lparr>store := st\<rparr>)"
    using w by (auto simp: inside_def base_inv_def synced_def rec_id_def coherent_def log_inv_def run_log_def)
  moreover have "calls_upto w i k (s\<lparr>store := st\<rparr>) = calls_upto w i k s"
    by (rule calls_upto_cong) (auto simp: calls_def)
  moreover have "outputs_upto w i st" using w st by (auto simp: inside_def outputs_upto_def)
  ultimately show ?thesis using w by (simp add: inside_def)
qed


section \<open>One attempt\<close>

definition ran :: "world \<Rightarrow> workflow \<Rightarrow> nat \<Rightarrow> run_status \<Rightarrow> exec_record \<Rightarrow> nat \<Rightarrow> engine \<Rightarrow> engine \<Rightarrow> bool" where
  "ran E w i rs r k s t \<longleftrightarrow>
     (\<exists>v. inside E w i rs (r\<lparr>xr_verification := v\<rparr>) k t) \<and> mono s t"

definition produced :: "workflow \<Rightarrow> nat \<Rightarrow> engine \<Rightarrow> bool" where
  "produced w i t \<longleftrightarrow> (\<forall>d. step_output i (steps w ! i) = Some d \<longrightarrow> stored (store t) d)"

lemma ran_self: "inside E w i rs r k s \<Longrightarrow> ran E w i rs r k s s"
proof -
  assume "inside E w i rs r k s"
  then have "inside E w i rs (r\<lparr>xr_verification := xr_verification r\<rparr>) k s" by simp
  then show ?thesis unfolding ran_def by (intro conjI exI [of _ "xr_verification r"]) simp_all
qed

lemma inside_step: "inside E w i rs r k s \<Longrightarrow> xr_step r = steps w ! i \<and> i < length (steps w)"
proof -
  assume w: "inside E w i rs r k s"
  then have m: "map xr_step (recs s) = steps w" and i: "i < length (recs s)" "recs s ! i = r"
    by (auto simp: inside_def base_inv_def)
  from m have "length (recs s) = length (steps w)" by (metis length_map)
  moreover have "map xr_step (recs s) ! i = xr_step r" using i by simp
  ultimately show ?thesis using m i by simp
qed

lemma wp_store_output:
  assumes w: "inside E w i rs r k s"
  shows "wp (store_output E (xr_step r) out)
     (\<lambda>_ t. inside E w i rs r k t \<and> mono s t \<and> produced w i t) (\<lambda>_ t. t = s) s"
    (is "wp _ ?Q ?X s")
proof -
  have st: "steps w ! i = xr_step r" using inside_step [OF w] by simp
  show ?thesis
  proof (cases "so_produced out")
    case None
    with w st show ?thesis
      by (cases "body (xr_step r)") (auto simp: store_output_def wp_rules produced_def step_output_def)
  next
    case (Some nv)
    obtain name ty v where nv: "nv = (name, ty, v)" by (cases nv)
    show ?thesis
    proof (cases "body (xr_step r)")
      case (Extract l src n lb t)
      show ?thesis
      proof (cases "name \<noteq> n \<or> Some ty \<noteq> output_type_for_source src")
        case False
        show ?thesis
        proof (cases "os_set (store s) name ty v")
          case (Inr st')
          have ins: "inside E w i rs r k (s\<lparr>store := st'\<rparr>)"
            by (rule inside_store [OF w]) (use stored_set [OF Inr] in blast)
          have p: "produced w i (s\<lparr>store := st'\<rparr>)"
            unfolding produced_def st
            using stored_set [OF Inr] False Extract
            by (auto simp: step_output_def split: option.splits)
          have "wp (emit E (EvOutput (step_id (xr_step r)) n ty)) ?Q ?X (s\<lparr>store := st'\<rparr>)"
          proof (rule wp_inside_quietly [OF quietly_emit ins])
            fix a u assume u: "inside E w i rs r k u" "carry (s\<lparr>store := st'\<rparr>) u"
            then have "produced w i u" using p by (simp add: produced_def carry_def)
            moreover have "mono s u" using u(2) by (auto simp: carry_def mono_def contested_def)
            ultimately show "inside E w i rs r k u \<and> mono s u \<and> produced w i u" using u(1) by blast
          qed (simp add: run_event_def)
          with Some nv Extract False Inr show ?thesis by (auto simp: store_output_def wp_rules)
        qed (use Some nv Extract False in \<open>auto simp: store_output_def wp_rules\<close>)
      qed (use Some nv Extract in \<open>auto simp: store_output_def wp_rules\<close>)
    qed (use Some nv in \<open>auto simp: store_output_def wp_rules\<close>)
  qed
qed

lemma wp_note_verification:
  assumes w: "inside E w i rs r k s"
    and Q: "\<And>v t. inside E w i rs (r\<lparr>xr_verification := v\<rparr>) k t \<Longrightarrow> carry s t \<Longrightarrow> Q () t"
  shows "wp (note_verification i v) Q X s"
proof (cases v)
  case None
  with w Q [of "xr_verification r" s] show ?thesis by (simp add: note_verification_def wp_rules)
next
  case (Some a)
  show ?thesis
    unfolding note_verification_def Some option.case
    by (rule wp_inside_upd [OF w]) (use Q in simp_all)
qed

lemma wp_accept_output:
  assumes w: "inside E w i rs r k s"
  shows "wp (accept_output E i out)
     (\<lambda>_ t. ran E w i rs r k s t \<and> produced w i t) (\<lambda>_ t. ran E w i rs r k s t) s"
  unfolding accept_output_def wp_seqc
proof (rule wp_note_verification [OF w])
  fix v t assume t: "inside E w i rs (r\<lparr>xr_verification := v\<rparr>) k t" "carry s t"
  have r: "xr_step (recs t ! i) = xr_step (r\<lparr>xr_verification := v\<rparr>)"
    using t by (simp add: inside_def)
  note c = carry_mono [OF t(2)]
  show "wp (bnd (gets (\<lambda>s. xr_step (recs s ! i))) (\<lambda>st. store_output E st out))
      (\<lambda>_ t. ran E w i rs r k s t \<and> produced w i t) (\<lambda>_ t. ran E w i rs r k s t) t"
    unfolding wp_bnd wp_gets r
    by (rule wp_mono [OF wp_store_output [OF t(1)]])
      (use t c mono_trans in \<open>auto simp: ran_def\<close>)
qed

lemma wp_perform_step:
  assumes w: "inside E w i rs r k s" and so: "sound w" and na: "\<not> is_approval (xr_step r)"
  shows "wp (perform_step E p i remaining)
     (\<lambda>_ t. ran E w i rs r (k + 1) s t \<and> produced w i t) (\<lambda>_ t. ran E w i rs r (k + 1) s t) s"
proof -
  let ?cx = "step_context_of p remaining (xr_step r) s"
  let ?s = "s\<lparr>trace := trace s @ [CalledExecute ?cx]\<rparr>"
  have r: "recs s ! i = r" using w by (simp add: inside_def)
  have "inside E w i rs r (k + 1) ?s"
    by (rule inside_execute [OF w so na, where rv = "pr_resolver p"])
      (simp_all add: step_context_of_def start_context_of_def start_context.defs step_context.defs)
  then have "wp (bnd (await E) (\<lambda>n. case adapter_execute E n ?cx of
              Inl x \<Rightarrow> throw x
            | Inr out \<Rightarrow> accept_output E i out))
     (\<lambda>_ t. ran E w i rs r (k + 1) s t \<and> produced w i t) (\<lambda>_ t. ran E w i rs r (k + 1) s t) ?s"
    unfolding wp_bnd
  proof (rule wp_inside_quietly [OF quietly_await])
    fix n t assume t: "inside E w i rs r (k + 1) t" "carry ?s t"
    then have m: "mono s t" by (auto simp: mono_def carry_def contested_def)
    show "wp (case adapter_execute E n ?cx of Inl x \<Rightarrow> throw x | Inr out \<Rightarrow> accept_output E i out)
      (\<lambda>_ t. ran E w i rs r (k + 1) s t \<and> produced w i t) (\<lambda>_ t. ran E w i rs r (k + 1) s t) t"
    proof (cases "adapter_execute E n ?cx")
      case (Inl x)
      with m ran_self [OF t(1)] show ?thesis by (auto simp: wp_rules ran_def)
    next
      case (Inr out)
      then show ?thesis
        by (simp, intro wp_mono [OF wp_accept_output [OF t(1)]])
          (use m mono_trans in \<open>auto simp: ran_def\<close>)
    qed
  qed
  then show ?thesis
    by (simp add: perform_step_def wp_rules r observe_def)
qed

lemma wp_note_failure:
  assumes u: "ran E w i rs r k s u"
  shows "wp (note_failure i x) (\<lambda>f t. ran E w i rs r k s t \<and> f \<noteq> None) X u"
proof -
  from u obtain v where v: "inside E w i rs (r\<lparr>xr_verification := v\<rparr>) k u" "mono s u"
    by (auto simp: ran_def)
  show ?thesis
    unfolding note_failure_def wp_seqc wp_ret
  proof (rule wp_note_verification [OF v(1)])
    fix v' t assume t: "inside E w i rs (r\<lparr>xr_verification := v, xr_verification := v'\<rparr>) k t" "carry u t"
    with v(2) carry_mono have "mono s t" by (blast intro: mono_trans)
    with t(1) show "ran E w i rs r k s t \<and> Some (to_safe_error x ACTION_FAILED, effect_of_exn x) \<noteq> None"
      by (auto simp: ran_def)
  qed
qed

lemma wp_try_step:
  assumes w: "inside E w i rs r k s" and so: "sound w" and na: "\<not> is_approval (xr_step r)"
  shows "wp (try_step E p i)
     (\<lambda>f t. ran E w i rs r (k + 1) s t \<and> (f = None \<longrightarrow> produced w i t)) (\<lambda>_ _. False) s"
  unfolding try_step_def wp_bnd
proof (rule wp_inside_quietly [OF quietly_remaining w], unfold wp_catch wp_seqc)
  fix a t assume t: "inside E w i rs r k t" "carry s t"
  have up: "ran E w i rs r (k + 1) t u \<Longrightarrow> ran E w i rs r (k + 1) s u" for u
    using carry_mono [OF t(2)] by (auto simp: ran_def intro: mono_trans)
  show "wp (perform_step E p i a)
      (\<lambda>_. wp (ret None) (\<lambda>f t. ran E w i rs r (k + 1) s t \<and> (f = None \<longrightarrow> produced w i t))
             (\<lambda>x. wp (note_failure i x)
               (\<lambda>f t. ran E w i rs r (k + 1) s t \<and> (f = None \<longrightarrow> produced w i t)) (\<lambda>_ _. False)))
      (\<lambda>x. wp (note_failure i x)
               (\<lambda>f t. ran E w i rs r (k + 1) s t \<and> (f = None \<longrightarrow> produced w i t)) (\<lambda>_ _. False)) t"
    by (rule wp_mono [OF wp_perform_step [OF t(1) so na]])
      (auto simp: wp_ret dest: up [simplified] intro!: wp_mono [OF wp_note_failure])
qed

end
