(* ===== verification/Engine_Repair.thy ===== *)
theory Engine_Repair
  imports Engine_Steps
begin

text \<open>
  The loop over the attempts of a step and its attended repairs: it ends after at most three
  attempts, and it ends without an error only if the last attempt succeeded or a cause of
  termination has been recorded.
\<close>

section \<open>Repairs\<close>

abbreviation (input) waiting :: "exec_record \<Rightarrow> exec_record" where
  "waiting r \<equiv> r\<lparr>xr_status := StWaitingForRepair\<rparr>"

lemma wp_ask_repair:
  assumes w: "inside E w i rs r k s"
    and Q: "\<And>a t. inside E w i rs r k t \<Longrightarrow> Q a t" and X: "\<And>x t. inside E w i rs r k t \<Longrightarrow> X x t"
  shows "wp (ask_repair E p i n c effect coordinator) Q X s"
  unfolding ask_repair_def wp_bnd Let_def
proof (rule wp_inside_quietly [OF quietly_now w])
  fix t1 s1 assume s1: "inside E w i rs r k s1"
  show "wp (now_ms E) (\<lambda>a. wp (gets deadline) (\<lambda>aa. wp (gets (\<lambda>s. xr_step (recs s ! i)))
      (\<lambda>ab. wp (seqc (observe (AskedRepair \<lparr>rq_step_id = step_id ab,
                rq_step_index = find_index (\<lambda>x. step_id x = step_id ab) (steps (flow p)),
                rq_step_type = step_type_of ab, rq_attempt = n, rq_error = c, rq_effect = effect,
                rq_expires = t1 + min MAX_REPAIR_TIMEOUT_MS (max 1 (aa - a))\<rparr>))
            (bnd (await E) (\<lambda>k. case coordinator k \<lparr>rq_step_id = step_id ab,
                rq_step_index = find_index (\<lambda>x. step_id x = step_id ab) (steps (flow p)),
                rq_step_type = step_type_of ab, rq_attempt = n, rq_error = c, rq_effect = effect,
                rq_expires = t1 + min MAX_REPAIR_TIMEOUT_MS (max 1 (aa - a))\<rparr> of
                 Inl x \<Rightarrow> throw x
               | Inr a \<Rightarrow> seqc (observe (AnsweredRepair (step_id ab) (fst (snd a)))) (ret a)))) Q X) X) X) X s1"
  proof (rule wp_inside_quietly [OF quietly_now s1], unfold wp_gets wp_seqc wp_bnd)
    fix t2 s2 assume s2: "inside E w i rs r k s2"
    show "wp (observe (AskedRepair \<lparr>rq_step_id = step_id (xr_step (recs s2 ! i)),
                rq_step_index = find_index (\<lambda>x. step_id x = step_id (xr_step (recs s2 ! i))) (steps (flow p)),
                rq_step_type = step_type_of (xr_step (recs s2 ! i)), rq_attempt = n, rq_error = c, rq_effect = effect,
                rq_expires = t1 + min MAX_REPAIR_TIMEOUT_MS (max 1 (deadline s2 - t2))\<rparr>))
            (\<lambda>_. wp (await E) (\<lambda>k. wp (case coordinator k \<lparr>rq_step_id = step_id (xr_step (recs s2 ! i)),
                rq_step_index = find_index (\<lambda>x. step_id x = step_id (xr_step (recs s2 ! i))) (steps (flow p)),
                rq_step_type = step_type_of (xr_step (recs s2 ! i)), rq_attempt = n, rq_error = c, rq_effect = effect,
                rq_expires = t1 + min MAX_REPAIR_TIMEOUT_MS (max 1 (deadline s2 - t2))\<rparr> of
                 Inl x \<Rightarrow> throw x
               | Inr a \<Rightarrow> seqc (observe (AnsweredRepair (step_id (xr_step (recs s2 ! i))) (fst (snd a)))) (ret a)) Q X) X) X s2"
      (is "wp _ (\<lambda>_. wp _ (\<lambda>k. wp (case coordinator k ?q of Inl x \<Rightarrow> throw x | Inr a \<Rightarrow> ?f a) Q X) X) X s2")
    proof (rule wp_observe_inside [OF s2])
      fix s3 assume s3: "inside E w i rs r k s3"
      show "wp (await E) (\<lambda>k. wp (case coordinator k ?q of Inl x \<Rightarrow> throw x | Inr a \<Rightarrow> ?f a) Q X) X s3"
      proof (rule wp_inside_quietly [OF quietly_await s3])
        fix m s4 assume s4: "inside E w i rs r k s4"
        show "wp (case coordinator m ?q of Inl x \<Rightarrow> throw x | Inr a \<Rightarrow> ?f a) Q X s4"
        proof (cases "coordinator m ?q")
          case (Inl x)
          with s4 X show ?thesis by (simp add: wp_throw)
        next
          case (Inr a)
          have "wp (?f a) Q X s4"
            unfolding wp_seqc wp_ret
            by (rule wp_observe_inside [OF s4]) (use Q in simp_all)
          with Inr show ?thesis by simp
        qed
      qed
    qed simp_all
  qed
qed

definition settled ::
  "world \<Rightarrow> workflow \<Rightarrow> nat \<Rightarrow> exec_record \<Rightarrow> nat \<Rightarrow> bool \<Rightarrow> repair_outcome \<Rightarrow> engine \<Rightarrow> bool" where
  "settled E w i r k proposal_only o' t =
     (case o' of
        TryAgain rid \<Rightarrow> inside E w i RunRunning r k t \<and> \<not> proposal_only
      | GiveUp \<Rightarrow> inside E w i RunWaitingForRepair (waiting r) k t \<and> contested t
      | RepairFailed e \<Rightarrow>
          inside E w i RunRunning r k t \<or> inside E w i RunWaitingForRepair (waiting r) k t)"

lemma wp_settle_repair:
  assumes w: "inside E w i RunWaitingForRepair (waiting r) k s" and r: "xr_status r = StRunning"
  shows "wp (settle_repair E i proposal_only (rid, decision, decided)) (settled E w i r k proposal_only) X s"
  unfolding settle_repair_def split wp_seqc wp_bnd
proof (rule wp_inside_quietly [OF quietly_elapsed w])
  fix a s1 assume s1: "inside E w i RunWaitingForRepair (waiting r) k s1"
  let ?again = "seqc (transition_run E RunRunning None)
      (seqc (transition_step E i StRunning None None) (ret (TryAgain rid)))"
  let ?note = "\<lambda>sid. case repair_termination decision of
      Some (c, e) \<Rightarrow> record_now E c e (Some sid)
    | None \<Rightarrow> whenc proposal_only (record_now E RepairWasInvalidated RECOVERY_INVALIDATED (Some sid))"
  let ?stop = "bnd (gets (\<lambda>s. step_id (xr_step (recs s ! i)))) (\<lambda>sid. seqc (?note sid) (ret GiveUp))"
  let ?S = "settled E w i r k proposal_only"
  have rec: "wp (record_now E c e sid) (\<lambda>_. wp (ret GiveUp) ?S X) X t"
    if t: "inside E w i RunWaitingForRepair (waiting r) k t" for t c e sid
    unfolding wp_ret
    by (rule wp_inside_record_now [OF t]) (simp add: settled_def)
  have stop: "wp ?stop ?S X t"
    if t: "inside E w i RunWaitingForRepair (waiting r) k t"
      and d: "decision = RdRetry \<Longrightarrow> \<not> proposal_only \<Longrightarrow> contested t" for t
  proof (cases "repair_termination decision")
    case None
    then have "decision = RdRetry" by (cases decision) simp_all
    with None d t rec [OF t] show ?thesis
      by (auto simp: wp_rules settled_def)
  next
    case (Some ce)
    with rec [OF t] show ?thesis by (cases ce) (simp add: wp_bnd wp_gets wp_seqc)
  qed
  have again: "wp ?again ?S X t"
    if t: "inside E w i RunWaitingForRepair (waiting r) k t" and np: "\<not> proposal_only" for t
    unfolding wp_seqc
  proof (rule wp_inside_run [OF t])
    fix u assume u: "inside E w i RunRunning (waiting r) k u"
    show "wp (transition_step E i StRunning None None) (\<lambda>_. wp (ret (TryAgain rid)) ?S X) X u"
      unfolding wp_ret
    proof (rule wp_inside_step [OF u])
      fix v assume v: "inside E w i RunRunning (waiting r\<lparr>xr_status := StRunning\<rparr>) k v"
      have "waiting r\<lparr>xr_status := StRunning\<rparr> = r" using r by simp
      with v np show "?S (TryAgain rid) v" by (simp add: settled_def)
    qed simp
  qed simp
  show "wp choose_primary (\<lambda>a. wp (if \<not> proposal_only \<and> decision = RdRetry \<and> a = None then ?again else ?stop) ?S X) X s1"
  proof (rule wp_inside_choose [OF s1])
    show "wp (if \<not> proposal_only \<and> decision = RdRetry \<and> None = None then ?again else ?stop) ?S X s1"
    proof (cases "\<not> proposal_only \<and> decision = RdRetry")
      case True
      with again [OF s1] show ?thesis by (simp only: simp_thms if_True)
    next
      case False
      with stop [OF s1] show ?thesis by (auto simp only: simp_thms if_False split: if_splits)
    qed
    fix pt t
    assume t: "inside E w i RunWaitingForRepair (waiting r) k t" "contested t"
    show "wp (if \<not> proposal_only \<and> decision = RdRetry \<and> Some pt = None then ?again else ?stop) ?S X t"
      using stop [OF t(1)] t(2) by simp
  qed
qed

lemma wp_repair_step:
  assumes w: "inside E w i RunRunning r k s" and r: "xr_status r = StRunning"
  shows "wp (repair_step E p i n c effect proposal_only) (settled E w i r k proposal_only) X s"
proof (cases "recovery_coordinator E")
  case None
  with w show ?thesis by (simp add: repair_step_def wp_ret settled_def)
next
  case (Some coordinator)
  let ?S = "settled E w i r k proposal_only"
  let ?ask = "bnd (ask_repair E p i n c effect coordinator) (\<lambda>a. ret (Some a))"
  let ?after = "\<lambda>a. bnd (gets (\<lambda>s. step_id (xr_step (recs s ! i)))) (\<lambda>sid.
     seqc (emit_at E (snd (snd a)) (EvRepair sid n (repair_status_of (fst (snd a))) c effect
             (\<not> proposal_only \<and> fst (snd a) = RdRetry)))
       (settle_repair E i proposal_only a))"
  let ?rest = "\<lambda>answer. case answer of None \<Rightarrow> ret (RepairFailed RECOVERY_REQUEST_FAILED) | Some a \<Rightarrow> ?after a"
  have rest: "wp (?rest answer) ?S X u"
    if u: "inside E w i RunWaitingForRepair (waiting r) k u" for answer u
  proof (cases answer)
    case None
    with u show ?thesis by (simp add: wp_ret settled_def)
  next
    case (Some a)
    obtain rid d decided where a: "a = (rid, d, decided)" by (cases a)
    have q: "quietly E (emit_at E decided (EvRepair j n st c effect al))" for j st al
      by (rule quietly_emit_at) (simp add: run_event_def)
    have "wp (?after a) ?S X u"
      unfolding wp_bnd wp_gets wp_seqc a snd_conv
      by (rule wp_inside_quietly [OF q u]) (rule wp_settle_repair [OF _ r])
    with Some show ?thesis by simp
  qed
  have "wp (transition_step E i StWaitingForRepair None None) (\<lambda>_. wp (seqc (transition_run E RunWaitingForRepair None)
      (bnd (catch ?ask (\<lambda>x. ret None)) ?rest)) ?S X) X s"
  proof (rule wp_inside_step [OF w])
    show "StWaitingForRepair \<in> set (step_transitions (xr_status r))" using r by simp
    fix t assume t: "inside E w i RunRunning (waiting r) k t"
    show "wp (seqc (transition_run E RunWaitingForRepair None) (bnd (catch ?ask (\<lambda>x. ret None)) ?rest)) ?S X t"
      unfolding wp_seqc
    proof (rule wp_inside_run [OF t])
      fix u assume u: "inside E w i RunWaitingForRepair (waiting r) k u"
      show "wp (bnd (catch ?ask (\<lambda>x. ret None)) ?rest) ?S X u"
        unfolding wp_bnd wp_catch wp_ret
        by (rule wp_ask_repair [OF u]) (rule rest, assumption)+
    qed simp
  qed
  with Some show ?thesis by (simp add: repair_step_def wp_seqc)
qed

section \<open>The loop\<close>

text \<open>How the loop leaves the step: its error, if any, the record and the run's status.\<close>

definition loop_done :: "world \<Rightarrow> workflow \<Rightarrow> nat \<Rightarrow> error_code option \<Rightarrow> engine \<Rightarrow> bool" where
  "loop_done E w i err t \<longleftrightarrow>
     (\<exists>r rs. inside E w i rs r (length (attempts_of r)) t \<and> running_record w r \<and>
        (rs = RunRunning \<and> xr_status r = StRunning \<or>
         rs = RunWaitingForRepair \<and> xr_status r = StWaitingForRepair) \<and>
        (err = None \<and> \<not> contested t \<longrightarrow>
           rs = RunRunning \<and> xr_attempts r \<noteq> None \<and>
           att_status (last (attempts_of r)) = AtSucceeded \<and> produced w i t))"

definition startable :: "workflow \<Rightarrow> exec_record \<Rightarrow> bool" where
  "startable w r \<longleftrightarrow> running_record w r \<and> xr_status r = StRunning \<and> \<not> is_approval (xr_step r)"

definition loop_ready ::
  "workflow \<Rightarrow> exec_record \<Rightarrow> nat \<Rightarrow> retry_trigger \<Rightarrow> string option \<Rightarrow> bool" where
  "loop_ready w r fuel trigger rid \<longleftrightarrow>
     startable w r \<and> may_begin (attempts_of r) trigger rid \<and> 4 \<le> fuel + length (attempts_of r) \<and>
     (is_approval_gated_step w (step_id (xr_step r)) \<longrightarrow> attempts_of r = [])"

lemma loop_doneI:
  assumes "inside E w i rs r k t" and "running_record w r" and "k = length (attempts_of r)"
    and "rs = RunRunning \<and> xr_status r = StRunning \<or>
         rs = RunWaitingForRepair \<and> xr_status r = StWaitingForRepair"
    and "err = None \<Longrightarrow> \<not> contested t \<Longrightarrow>
           rs = RunRunning \<and> xr_attempts r \<noteq> None \<and>
           att_status (last (attempts_of r)) = AtSucceeded \<and> produced w i t"
  shows "loop_done E w i err t"
  using assms unfolding loop_done_def by blast

text \<open>The record while an attempt runs, and after it.\<close>

abbreviation begun :: "exec_record \<Rightarrow> retry_trigger \<Rightarrow> int \<Rightarrow> string option \<Rightarrow> step_attempt list" where
  "begun r trigger t rid \<equiv> attempts_of r @ [new_attempt (length (attempts_of r) + 1) trigger t rid]"

definition tried ::
  "exec_record \<Rightarrow> verification_result option \<Rightarrow> step_attempt list \<Rightarrow> exec_record" where
  "tried r v as = r\<lparr>xr_attempts := Some as, xr_verification := v\<rparr>"

lemma tried_sel [simp]:
  "xr_step (tried r v as) = xr_step r" "xr_status (tried r v as) = xr_status r"
  "xr_attempts (tried r v as) = Some as"
  "tried r v as\<lparr>xr_attempts := Some bs\<rparr> = tried r v bs"
  by (simp_all add: tried_def)

lemma tried_running:
  assumes "running_record w r" and "attempts_inv as" and "as \<noteq> []"
    and "is_approval_gated_step w (step_id (xr_step r)) \<Longrightarrow> length as \<le> 1"
  shows "running_record w (tried r v as)"
  using assms by (auto simp: running_record_def attempts_wf_def tried_def)

lemma closed_startable:
  assumes "loop_ready w r fuel trigger rid" and "status \<noteq> AtRunning"
  shows "startable w (tried r v (close_last (begun r trigger t rid) t' status effect err))"
proof -
  have "attempts_inv (begun r trigger t rid)"
    using assms by (intro attempts_inv_begin) (auto simp: loop_ready_def startable_def running_record_def attempts_wf_def)
  then have "attempts_inv (close_last (begun r trigger t rid) t' status effect err)"
    using assms(2) by (intro attempts_inv_close_last) simp_all
  then show ?thesis
    using assms unfolding startable_def loop_ready_def by (auto intro!: tried_running)
qed

text \<open>What follows a failed attempt.\<close>

definition after_failure ::
  "world \<Rightarrow> prepared \<Rightarrow> nat \<Rightarrow> nat \<Rightarrow> nat \<Rightarrow> error_code \<Rightarrow> effect_certainty \<Rightarrow> retry_decision
    \<Rightarrow> error_code option eng" where
  "after_failure E p i fuel n c effect d =
     (if rd_disposition d = DispAutomaticRetry
      then attempt_loop E p i fuel AutomaticRetry None
      else if rd_disposition d = DispManualRepair \<or> rd_disposition d = DispLocatorProposal
      then bnd (repair_step E p i n c effect (rd_disposition d = DispLocatorProposal))
             (\<lambda>o'. case o' of
                RepairFailed e \<Rightarrow> ret (Some e)
              | GiveUp \<Rightarrow> ret None
              | TryAgain rid \<Rightarrow> attempt_loop E p i fuel ManualRetry (Some rid))
      else ret (Some (if rd_disposition d = DispNewRunRequired
                      then APPROVAL_GATED_RETRY_REQUIRES_NEW_RUN else c)))"

lemma wp_after_failure:
  assumes w: "inside E w i RunRunning r (length (attempts_of r)) s" and st: "startable w r"
    and auto: "rd_disposition d = DispAutomaticRetry \<Longrightarrow> loop_ready w r fuel AutomaticRetry None"
    and man: "\<And>rid. rd_disposition d = DispManualRepair \<Longrightarrow> loop_ready w r fuel ManualRetry (Some rid)"
    and IH: "\<And>s trigger rid. inside E w i RunRunning r (length (attempts_of r)) s \<Longrightarrow>
      loop_ready w r fuel trigger rid \<Longrightarrow>
      wp (attempt_loop E p i fuel trigger rid) (loop_done E w i) (\<lambda>_ _. False) s"
  shows "wp (after_failure E p i fuel n c effect d) (loop_done E w i) (\<lambda>_ _. False) s"
proof -
  have run: "running_record w r" "xr_status r = StRunning" using st by (auto simp: startable_def)
  have wait: "running_record w (waiting r)"
    using run by (simp add: running_record_def attempts_wf_def)
  consider "rd_disposition d = DispAutomaticRetry"
    | "rd_disposition d = DispManualRepair \<or> rd_disposition d = DispLocatorProposal"
    | "rd_disposition d \<noteq> DispAutomaticRetry"
      "\<not> (rd_disposition d = DispManualRepair \<or> rd_disposition d = DispLocatorProposal)"
    by blast
  then show ?thesis
  proof cases
    case 1
    with IH [OF w auto [OF 1]] show ?thesis by (simp add: after_failure_def)
  next
    case 2
    let ?po = "rd_disposition d = DispLocatorProposal"
    have "wp (case o' of RepairFailed e \<Rightarrow> ret (Some e) | GiveUp \<Rightarrow> ret None
            | TryAgain rid \<Rightarrow> attempt_loop E p i fuel ManualRetry (Some rid))
          (loop_done E w i) (\<lambda>_ _. False) t"
      if o': "settled E w i r (length (attempts_of r)) ?po o' t" for o' t
    proof (cases o')
      case (RepairFailed e)
      with o' have "inside E w i RunRunning r (length (attempts_of r)) t \<or>
          inside E w i RunWaitingForRepair (waiting r) (length (attempts_of r)) t"
        by (simp add: settled_def)
      then have "loop_done E w i (Some e) t"
      proof
        assume "inside E w i RunRunning r (length (attempts_of r)) t"
        then show ?thesis by (rule loop_doneI) (use run in simp_all)
      next
        assume "inside E w i RunWaitingForRepair (waiting r) (length (attempts_of r)) t"
        then show ?thesis by (rule loop_doneI) (use wait in simp_all)
      qed
      with RepairFailed show ?thesis by (simp add: wp_ret)
    next
      case (TryAgain rid)
      with o' 2 IH man show ?thesis by (auto simp: settled_def)
    next
      case GiveUp
      with o' have g: "inside E w i RunWaitingForRepair (waiting r) (length (attempts_of r)) t" "contested t"
        by (auto simp: settled_def)
      have "loop_done E w i None t"
        by (rule loop_doneI [OF g(1)]) (use wait g(2) in simp_all)
      with GiveUp show ?thesis by (simp add: wp_ret)
    qed
    then have "wp (repair_step E p i n c effect ?po)
        (\<lambda>o'. wp (case o' of RepairFailed e \<Rightarrow> ret (Some e) | GiveUp \<Rightarrow> ret None
            | TryAgain rid \<Rightarrow> attempt_loop E p i fuel ManualRetry (Some rid))
          (loop_done E w i) (\<lambda>_ _. False)) (\<lambda>_ _. False) s"
      by (rule wp_mono [OF wp_repair_step [OF w run(2), where X = "\<lambda>_ _. False"]]) simp_all
    with 2 show ?thesis by (auto simp: after_failure_def wp_bnd)
  next
    case 3
    have "loop_done E w i (Some e) s" for e
      by (rule loop_doneI [OF w run(1)]) (use run in simp_all)
    with 3 show ?thesis by (simp add: after_failure_def wp_ret)
  qed
qed

lemma wp_attempt_loop:
  assumes so: "sound (flow p)"
  shows "inside E (flow p) i RunRunning r (length (attempts_of r)) s \<Longrightarrow>
    loop_ready (flow p) r fuel trigger rid \<Longrightarrow>
    wp (attempt_loop E p i fuel trigger rid) (loop_done E (flow p) i) (\<lambda>_ _. False) s"
proof (induction fuel arbitrary: r trigger rid s)
  case 0
  then have "may_begin (attempts_of r) trigger rid" "4 \<le> length (attempts_of r)"
    by (auto simp: loop_ready_def)
  then show ?case by (cases trigger) (auto simp: may_begin_def)
next
  case (Suc fuel)
  let ?w = "flow p" and ?n = "length (attempts_of r) + 1"
  let ?P = "loop_done E ?w i" and ?X = "\<lambda>_ _. False"
  note ready = Suc.prems(2)
  have run: "running_record ?w r" "xr_status r = StRunning" "\<not> is_approval (xr_step r)"
    using ready by (auto simp: loop_ready_def startable_def)
  let ?fail = "\<lambda>n c effect. bnd (gets (\<lambda>s. decide_retry (retry_question p c effect (recs s ! i))))
      (\<lambda>decision. case decision of
          None \<Rightarrow> throw OtherException
        | Some d \<Rightarrow> seqc (finish_attempt E i n (attempt_status_for c) effect (rd_allowed d) (Some c))
            (after_failure E p i fuel n c effect d))"
  let ?then = "\<lambda>n failure. case failure of
      None \<Rightarrow> seqc (finish_attempt E i n AtSucceeded Completed False None) (ret None)
    | Some (c, effect) \<Rightarrow> ?fail n c effect"
  have success: "wp (?then ?n None) ?P ?X t"
    if t: "inside E ?w i RunRunning (tried r v (begun r trigger t0 rid)) ?n t" and pr: "produced ?w i t" for v t0 t
    unfolding option.case wp_seqc wp_ret
  proof (rule wp_finish_attempt [OF t, where as = "begun r trigger t0 rid"])
    fix t' u
    let ?r = "tried r v (close_last (begun r trigger t0 rid) t' AtSucceeded Completed None)"
    assume u: "inside E ?w i RunRunning (tried r v (begun r trigger t0 rid)\<lparr>xr_attempts :=
        Some (close_last (begun r trigger t0 rid) t' AtSucceeded Completed None)\<rparr>) ?n u" "carry t u"
    have st: "startable ?w ?r" by (rule closed_startable [OF ready]) simp
    show "?P None u"
      by (rule loop_doneI [OF u(1)]) (use st pr u(2) in \<open>auto simp: startable_def produced_def carry_def\<close>)
  qed simp_all
  have failure: "wp (?then ?n (Some (c, effect))) ?P ?X t"
    if t: "inside E ?w i RunRunning (tried r v (begun r trigger t0 rid)) ?n t" for v t0 c effect t
  proof -
    let ?r = "tried r v (begun r trigger t0 rid)" and ?as = "begun r trigger t0 rid"
    define d where "d = decide_retry_parsed (retry_question p c effect ?r)"
    have rec: "recs t ! i = ?r" using t by (simp add: inside_def)
    have dd: "decide_retry (retry_question p c effect ?r) = Some d"
      unfolding d_def by (rule decide_retry_total) simp
    have st: "attempt_status_for c \<noteq> AtRunning" "attempt_status_for c \<noteq> AtSucceeded"
      by (simp_all add: attempt_status_for_def)
    have "wp (finish_attempt E i ?n (attempt_status_for c) effect (rd_allowed d) (Some c))
        (\<lambda>_. wp (after_failure E p i fuel ?n c effect d) ?P ?X) ?X t"
    proof (rule wp_finish_attempt [OF t, where as = ?as])
      fix t' u
      let ?bs = "close_last ?as t' (attempt_status_for c) effect (Some c)"
      assume u: "inside E ?w i RunRunning (?r\<lparr>xr_attempts := Some ?bs\<rparr>) ?n u"
      have sb: "startable ?w (tried r v ?bs)" by (rule closed_startable [OF ready st(1)])
      have next_ready: "loop_ready ?w (tried r v ?bs) fuel tr rid'"
        if "may_begin ?bs tr rid'" "\<not> is_approval_gated_step ?w (step_id (xr_step r))" for tr rid'
        using that sb ready by (simp add: loop_ready_def)
      have a: "rd_disposition d = DispAutomaticRetry \<Longrightarrow> loop_ready ?w (tried r v ?bs) fuel AutomaticRetry None"
        using automatic_may_begin [of p c effect ?r ?as "attempt_status_for c" t' "Some c"] st
        by (intro next_ready) (auto simp: d_def)
      have m: "rd_disposition d = DispManualRepair \<Longrightarrow> loop_ready ?w (tried r v ?bs) fuel ManualRetry (Some rid')" for rid'
        using manual_may_begin [of p c effect ?r ?as "attempt_status_for c" t' "Some c" rid'] st
        by (intro next_ready) (auto simp: d_def)
      show "wp (after_failure E p i fuel ?n c effect d) ?P ?X u"
        by (rule wp_after_failure [OF _ sb a m Suc.IH]) (use u in simp_all)
    qed simp_all
    then show ?thesis
      unfolding option.case prod.case wp_bnd wp_gets rec dd wp_seqc .
  qed
  have attempt: "wp (try_step E p i) (\<lambda>f. wp (?then ?n f) ?P ?X) ?X t"
    if t: "inside E ?w i RunRunning (r\<lparr>xr_attempts := Some (begun r trigger t0 rid)\<rparr>) (length (attempts_of r)) t" for t0 t
  proof (rule wp_mono [OF wp_try_step [OF t so]])
    show "\<not> is_approval (xr_step (r\<lparr>xr_attempts := Some (begun r trigger t0 rid)\<rparr>))" using run by simp
    fix f :: "(error_code \<times> effect_certainty) option" and u
    assume "ran E ?w i RunRunning (r\<lparr>xr_attempts := Some (begun r trigger t0 rid)\<rparr>)
        (length (attempts_of r) + 1) t u \<and> (f = None \<longrightarrow> produced ?w i u)"
    then obtain v where u: "inside E ?w i RunRunning (tried r v (begun r trigger t0 rid)) ?n u"
      and pr: "f = None \<longrightarrow> produced ?w i u"
      by (auto simp: ran_def tried_def)
    show "wp (?then ?n f) ?P ?X u"
    proof (cases f)
      case None
      with success [OF u] pr show ?thesis by simp
    next
      case (Some ce)
      with failure [OF u, of "fst ce" "snd ce"] show ?thesis by (cases ce) simp
    qed
  qed simp
  have "wp (record_deadline_if_elapsed E) (\<lambda>_. wp (bnd choose_primary (\<lambda>q.
        if q \<noteq> None then ret None
        else bnd (begin_attempt E i trigger rid) (\<lambda>n. bnd (try_step E p i) (?then n)))) ?P ?X) ?X s"
    unfolding wp_bnd
  proof (rule wp_inside_quietly [OF quietly_elapsed Suc.prems(1)])
    fix a t assume t: "inside E ?w i RunRunning r (length (attempts_of r)) t"
    show "wp choose_primary (\<lambda>q. wp (if q \<noteq> None then ret None
        else bnd (begin_attempt E i trigger rid) (\<lambda>n. bnd (try_step E p i) (?then n))) ?P ?X) ?X t"
    proof (rule wp_inside_choose [OF t])
      have "wp (begin_attempt E i trigger rid) (\<lambda>n. wp (bnd (try_step E p i) (?then n)) ?P ?X) ?X t"
        unfolding wp_bnd by (rule wp_begin_attempt [OF t]) (rule attempt)
      then show "wp (if None \<noteq> None then ret None
          else bnd (begin_attempt E i trigger rid) (\<lambda>n. bnd (try_step E p i) (?then n))) ?P ?X t"
        by (simp only: wp_bnd simp_thms if_False not_True_eq_False)
      fix pt u assume u: "inside E ?w i RunRunning r (length (attempts_of r)) u" "contested u"
      have "?P None u" by (rule loop_doneI [OF u(1) run(1)]) (use run u(2) in simp_all)
      then show "wp (if Some pt \<noteq> None then ret None
          else bnd (begin_attempt E i trigger rid) (\<lambda>n. bnd (try_step E p i) (?then n))) ?P ?X u"
        by (simp add: wp_ret)
    qed
  qed
  then show ?case unfolding attempt_loop.simps wp_seqc after_failure_def .
qed

end
