(* ===== verification/Engine_Loop.thy ===== *)
theory Engine_Loop
  imports Engine_Repair
begin

text \<open>
  One turn of the step loop and the loop: a step is begun, run (\<open>run_body\<close>: its attempts or
  its approval) and ended, or the decision to end the run has been taken.
\<close>

section \<open>Entering and leaving a step\<close>

lemma base_length: "base_inv E w s \<Longrightarrow> length (recs s) = length (steps w)"
  unfolding base_inv_def by (metis length_map)

lemma base_nth: "base_inv E w s \<Longrightarrow> i < length (recs s) \<Longrightarrow> xr_step (recs s ! i) = steps w ! i"
  unfolding base_inv_def by (metis nth_map)

lemma upto_inside:
  assumes u: "upto E w i s" and i: "i < length (recs s)"
  shows "inside E w i RunRunning (new_record (steps w ! i)) 0 s"
proof -
  have b: "base_inv E w s" using u by (simp add: upto_def)
  have "recs s ! i = new_record (steps w ! i)"
    using u i base_nth [OF b i] by (auto simp: upto_def fresh_def)
  with u i show ?thesis
    by (auto simp: inside_def upto_def new_record_def)
qed

lemma inside_upto:
  assumes w: "inside E w i RunRunning r k s" and su: "succeeded w r" and pr: "produced w i s"
    and ap: "is_approval (xr_step r) \<Longrightarrow> approved_in (calls s) (step_id (xr_step r))"
    and k: "\<not> is_approval (xr_step r) \<Longrightarrow> k = length (attempts_of r)"
  shows "upto E w (Suc i) s"
proof -
  have st: "xr_step r = steps w ! i" "i < length (steps w)" using inside_step [OF w] by auto
  have r: "recs s ! i = r" and b: "base_inv E w s" using w by (auto simp: inside_def)
  have up: "outputs_upto w (Suc i) (store s)"
    using w pr by (auto simp: inside_def outputs_upto_def produced_def less_Suc_eq)
  have zero: "attempts_of (recs s ! j) = []" if "j = Suc i" "j < length (steps w)" for j
  proof -
    have "fresh (recs s ! j)" using w that base_length [OF b] by (simp add: inside_def)
    then have "recs s ! j = new_record (xr_step (recs s ! j))" by (simp add: fresh_def)
    then have "xr_attempts (recs s ! j) = None" by (metis new_record_def exec_record.select_convs(8))
    then show ?thesis by simp
  qed
  have "calls_upto w (Suc i) 0 s"
    unfolding calls_upto_def
  proof (intro conjI allI impI)
    show "execs_ok w (calls s)" "started_once (calls s)"
      using w by (auto simp: inside_def calls_upto_def)
    show "approved_in (calls s) (step_id (steps w ! j))" if "j < Suc i" "is_approval (steps w ! j)" for j
      using w ap st that by (auto simp: inside_def calls_upto_def less_Suc_eq)
    show "exec_count (calls s) (step_id (steps w ! j)) =
        (if is_approval (steps w ! j) then 0 else if j = Suc i then 0 else length (attempts_of (recs s ! j)))"
      if j: "j < length (steps w)" for j
    proof -
      have "exec_count (calls s) (step_id (steps w ! j)) =
        (if is_approval (steps w ! j) then 0 else if j = i then k else length (attempts_of (recs s ! j)))"
        using w j by (simp add: inside_def calls_upto_def)
      with k st r zero [of j] j show ?thesis by auto
    qed
  qed
  with w su r up show ?thesis
    by (auto simp: upto_def inside_def less_Suc_eq succeeded_def)
qed

section \<open>The end of a step\<close>

text \<open>What holds of the step once it has been run.\<close>

definition step_ran :: "world \<Rightarrow> workflow \<Rightarrow> nat \<Rightarrow> error_code option \<Rightarrow> engine \<Rightarrow> bool" where
  "step_ran E w i err t \<longleftrightarrow>
     (\<exists>r rs k. inside E w i rs r k t \<and> running_record w r \<and>
        (rs = RunRunning \<and> xr_status r = StRunning \<or>
         rs = RunWaitingForRepair \<and> xr_status r = StWaitingForRepair \<or>
         rs = RunWaitingForApproval \<and> xr_status r = StWaitingForApproval) \<and>
        (is_approval (xr_step r) \<or> k = length (attempts_of r)) \<and>
        (err = None \<and> \<not> contested t \<longrightarrow>
           rs = RunRunning \<and> \<not> is_approval (xr_step r) \<and> xr_attempts r \<noteq> None \<and>
           att_status (last (attempts_of r)) = AtSucceeded \<and> produced w i t))"

lemma loop_done_step_ran:
  assumes "loop_done E w i err t" and na: "\<not> is_approval (steps w ! i)"
  shows "step_ran E w i err t"
proof -
  from assms obtain r rs where w: "inside E w i rs r (length (attempts_of r)) t" "running_record w r"
    "rs = RunRunning \<and> xr_status r = StRunning \<or> rs = RunWaitingForRepair \<and> xr_status r = StWaitingForRepair"
    "err = None \<and> \<not> contested t \<longrightarrow> rs = RunRunning \<and> xr_attempts r \<noteq> None \<and>
       att_status (last (attempts_of r)) = AtSucceeded \<and> produced w i t"
    unfolding loop_done_def by blast
  with na inside_step [OF w(1)] show ?thesis
    unfolding step_ran_def by (intro exI [of _ r] exI [of _ rs] exI [of _ "length (attempts_of r)"]) auto
qed

text \<open>The run is over in the middle of a step, or before one.\<close>

definition halted :: "world \<Rightarrow> workflow \<Rightarrow> nat \<Rightarrow> engine \<Rightarrow> bool" where
  "halted E w i t \<longleftrightarrow>
     (\<exists>pt r rs k. primary t = Some pt \<and> inside E w i rs r k t \<and> ended w pt r \<and>
        rs \<in> {RunRunning, RunWaitingForRepair, RunWaitingForApproval} \<and>
        (is_approval (xr_step r) \<or> k = length (attempts_of r)))"

definition stopped :: "world \<Rightarrow> workflow \<Rightarrow> nat \<Rightarrow> engine \<Rightarrow> bool" where
  "stopped E w i t \<longleftrightarrow> halted E w i t \<or> upto E w i t \<and> primary t \<noteq> None"

lemma step_status_for_terminal:
  "step_status_for c \<in> set (step_transitions StRunning) \<and>
   step_status_for c \<in> set (step_transitions StWaitingForRepair) \<and>
   step_status_for c \<in> set (step_transitions StWaitingForApproval) \<and>
   is_terminal_step (step_status_for c) \<and> step_status_for c \<noteq> StSkipped \<and> step_status_for c \<noteq> StSucceeded"
  by (auto simp: step_status_for_def is_terminal_step_def)

lemma attempts_wf_cong:
  "xr_attempts r' = xr_attempts r \<Longrightarrow> xr_step r' = xr_step r \<Longrightarrow> attempts_wf w r' = attempts_wf w r"
  by (simp add: attempts_wf_def)

definition end_step :: "world \<Rightarrow> nat \<Rightarrow> primary_termination option \<Rightarrow> bool eng" where
  "end_step E i q =
     bnd (now_ms E) (\<lambda>t.
       seqc (upd_rec i (\<lambda>r. r\<lparr>xr_finished := Some t\<rparr>))
         (case q of
            Some pt \<Rightarrow>
              seqc (upd_rec i (\<lambda>r. r\<lparr>xr_error := Some (pt_error pt)\<rparr>))
                (seqc (transition_step E i (step_status_for (pt_cause pt)) (Some (pt_error pt)) None)
                  (ret True))
          | None \<Rightarrow> seqc (transition_step E i StSucceeded None None) (ret False)))"

lemma wp_end_failed:
  assumes w: "inside E w i rs r k s" and run: "running_record w r" and p: "primary s = Some pt"
    and rs: "rs = RunRunning \<and> xr_status r = StRunning \<or>
         rs = RunWaitingForRepair \<and> xr_status r = StWaitingForRepair \<or>
         rs = RunWaitingForApproval \<and> xr_status r = StWaitingForApproval"
    and k: "is_approval (xr_step r) \<or> k = length (attempts_of r)"
  shows "wp (end_step E i (Some pt)) (\<lambda>stop t. stop \<and> halted E w i t) X s"
  unfolding end_step_def wp_bnd option.case
proof (rule wp_inside_quietly [OF quietly_now w], unfold wp_seqc)
  fix a s1 assume s1: "inside E w i rs r k s1" "carry s s1"
  let ?Q = "\<lambda>stop t. stop \<and> halted E w i t"
  show "wp (upd_rec i (\<lambda>r. r\<lparr>xr_finished := Some a\<rparr>)) (\<lambda>_. wp (upd_rec i (\<lambda>r. r\<lparr>xr_error := Some (pt_error pt)\<rparr>))
     (\<lambda>_. wp (transition_step E i (step_status_for (pt_cause pt)) (Some (pt_error pt)) None) (\<lambda>_. wp (ret True) ?Q X) X) X) X s1"
  proof (rule wp_inside_upd [OF s1(1)])
    fix s2 assume s2: "inside E w i rs (r\<lparr>xr_finished := Some a\<rparr>) k s2" "carry s1 s2"
    show "wp (upd_rec i (\<lambda>r. r\<lparr>xr_error := Some (pt_error pt)\<rparr>))
     (\<lambda>_. wp (transition_step E i (step_status_for (pt_cause pt)) (Some (pt_error pt)) None) (\<lambda>_. wp (ret True) ?Q X) X) X s2"
    proof (rule wp_inside_upd [OF s2(1)])
      let ?r = "r\<lparr>xr_finished := Some a, xr_error := Some (pt_error pt)\<rparr>"
      fix s3 assume s3: "inside E w i rs ?r k s3" "carry s2 s3"
      show "wp (transition_step E i (step_status_for (pt_cause pt)) (Some (pt_error pt)) None) (\<lambda>_. wp (ret True) ?Q X) X s3"
        unfolding wp_ret
      proof (rule wp_inside_step [OF s3(1)])
        show "step_status_for (pt_cause pt) \<in> set (step_transitions (xr_status ?r))"
          using rs step_status_for_terminal [of "pt_cause pt"] by auto
        fix t assume t: "inside E w i rs (?r\<lparr>xr_status := step_status_for (pt_cause pt)\<rparr>) k t" "carry s3 t"
        let ?e = "?r\<lparr>xr_status := step_status_for (pt_cause pt)\<rparr>"
        have "primary t = Some pt" using p s1 s2 s3 t by (simp add: carry_def)
        moreover have "attempts_wf w ?e" using run by (simp add: running_record_def attempts_wf_def)
        then have "ended w pt ?e" using run by (simp add: ended_def running_record_def)
        moreover have "rs \<in> {RunRunning, RunWaitingForRepair, RunWaitingForApproval}" using rs by auto
        moreover have "is_approval (xr_step ?e) \<or> k = length (attempts_of ?e)" using k by simp
        ultimately show "True \<and> halted E w i t" using t(1) unfolding halted_def by blast
      qed
    qed simp_all
  qed simp_all
qed

lemma wp_end_succeeded:
  assumes w: "inside E w i RunRunning r k s" and run: "running_record w r" and p: "primary s = None"
    and r: "xr_status r = StRunning" "\<not> is_approval (xr_step r)" "k = length (attempts_of r)"
      "xr_attempts r \<noteq> None" "att_status (last (attempts_of r)) = AtSucceeded"
    and pr: "produced w i s"
  shows "wp (end_step E i None) (\<lambda>stop t. \<not> stop \<and> between E w (Suc i) t) X s"
  unfolding end_step_def wp_bnd option.case
proof (rule wp_inside_quietly [OF quietly_now w], unfold wp_seqc)
  fix a s1 assume s1: "inside E w i RunRunning r k s1" "carry s s1"
  let ?Q = "\<lambda>stop t. \<not> stop \<and> between E w (Suc i) t"
  show "wp (upd_rec i (\<lambda>r. r\<lparr>xr_finished := Some a\<rparr>))
     (\<lambda>_. wp (transition_step E i StSucceeded None None) (\<lambda>_. wp (ret False) ?Q X) X) X s1"
  proof (rule wp_inside_upd [OF s1(1)])
    fix s2 assume s2: "inside E w i RunRunning (r\<lparr>xr_finished := Some a\<rparr>) k s2" "carry s1 s2"
    show "wp (transition_step E i StSucceeded None None) (\<lambda>_. wp (ret False) ?Q X) X s2"
      unfolding wp_ret
    proof (rule wp_inside_step [OF s2(1)])
      show "StSucceeded \<in> set (step_transitions (xr_status (r\<lparr>xr_finished := Some a\<rparr>)))" using r by simp
      let ?r = "r\<lparr>xr_finished := Some a, xr_status := StSucceeded\<rparr>"
      fix t assume t: "inside E w i RunRunning ?r k t" "carry s2 t"
      have "running_record w ?r"
        using run by (simp add: running_record_def attempts_wf_def)
      then have su: "succeeded w ?r" using r by (simp add: succeeded_def)
      have "produced w i t" using pr s1 s2 t by (simp add: produced_def carry_def)
      then have "upto E w (Suc i) t"
        by (intro inside_upto [OF t(1) su]) (use r in simp_all)
      moreover have "primary t = None" using p s1 s2 t by (simp add: carry_def)
      ultimately show "\<not> False \<and> between E w (Suc i) t" by (simp add: between_def)
    qed
  qed simp_all
qed

lemma wp_finish_step:
  assumes w: "step_ran E w i err s"
  shows "wp (finish_step E i err) (\<lambda>stop t. if stop then halted E w i t else between E w (Suc i) t) X s"
proof -
  let ?Q = "\<lambda>stop t. if stop then halted E w i t else between E w (Suc i) t"
  let ?note = "\<lambda>sid. case err of None \<Rightarrow> ret ()
      | Some c \<Rightarrow> record_now E (if c \<in> set TIMEOUT_ERROR_CODES then StepTimeout else StepFailed) c (Some sid)"
  have alt: "finish_step E i err =
      seqc (record_deadline_if_elapsed E) (bnd (gets (\<lambda>s. step_id (xr_step (recs s ! i))))
        (\<lambda>sid. seqc (?note sid) (bnd choose_primary (end_step E i))))"
    unfolding finish_step_def end_step_def ..
  from w obtain r rs k where r: "inside E w i rs r k s" "running_record w r"
    "rs = RunRunning \<and> xr_status r = StRunning \<or>
         rs = RunWaitingForRepair \<and> xr_status r = StWaitingForRepair \<or>
         rs = RunWaitingForApproval \<and> xr_status r = StWaitingForApproval"
    "is_approval (xr_step r) \<or> k = length (attempts_of r)"
    and good: "err = None \<and> \<not> contested s \<longrightarrow>
           rs = RunRunning \<and> \<not> is_approval (xr_step r) \<and> xr_attempts r \<noteq> None \<and>
           att_status (last (attempts_of r)) = AtSucceeded \<and> produced w i s"
    unfolding step_ran_def by blast
  have choose: "wp (bnd choose_primary (end_step E i)) ?Q X t"
    if t: "inside E w i rs r k t" and m: "err = None \<Longrightarrow> carry s t" "err \<noteq> None \<Longrightarrow> contested t" for t
    unfolding wp_bnd
  proof (rule wp_inside_choose [OF t])
    assume n: "\<not> contested t" "primary t = None"
    with m have e: "err = None" "carry s t" by (cases err, auto)+
    with n(1) good have g: "rs = RunRunning" "\<not> is_approval (xr_step r)" "xr_attempts r \<noteq> None"
      "att_status (last (attempts_of r)) = AtSucceeded" "produced w i s"
      by (auto simp: carry_def)
    have "produced w i t" using g(5) e(2) by (simp add: produced_def carry_def)
    with wp_end_succeeded [of E w i r k t X] t n g r
    show "wp (end_step E i None) ?Q X t"
      by (auto elim!: wp_mono)
  next
    fix pt u assume u: "inside E w i rs r k u" "primary u = Some pt"
    show "wp (end_step E i (Some pt)) ?Q X u"
      by (rule wp_mono [OF wp_end_failed [OF u(1) r(2) u(2) r(3,4)]]) simp_all
  qed
  show ?thesis
    unfolding alt wp_seqc wp_bnd wp_gets
  proof (rule wp_inside_quietly [OF quietly_elapsed r(1)])
    fix a t assume t: "inside E w i rs r k t" "carry s t"
    show "wp (?note (step_id (xr_step (recs t ! i)))) (\<lambda>_. wp choose_primary (\<lambda>a. wp (end_step E i a) ?Q X) X) X t"
    proof (cases err)
      case None
      with choose [OF t(1)] t(2) show ?thesis by (simp add: wp_ret wp_bnd)
    next
      case (Some c)
      have "wp (record_now E (if c \<in> set TIMEOUT_ERROR_CODES then StepTimeout else StepFailed) c
          (Some (step_id (xr_step (recs t ! i))))) (\<lambda>_. wp choose_primary (\<lambda>a. wp (end_step E i a) ?Q X) X) X t"
        by (rule wp_inside_record_now [OF t(1)]) (rule choose [unfolded wp_bnd], use Some in simp_all)
      with Some show ?thesis by (simp only: option.case)
    qed
  qed
qed

section \<open>Approval steps\<close>

definition approval_ran :: "world \<Rightarrow> workflow \<Rightarrow> nat \<Rightarrow> bool \<times> error_code option \<Rightarrow> engine \<Rightarrow> bool" where
  "approval_ran E w i res t \<longleftrightarrow>
     (if fst res then between E w (Suc i) t else step_ran E w i (snd res) t)"

abbreviation (input) awaiting :: "exec_record \<Rightarrow> exec_record" where
  "awaiting r \<equiv> r\<lparr>xr_status := StWaitingForApproval\<rparr>"

text \<open>The record of an approval step: one attempt, which is closed when the step ends.\<close>

definition asked :: "workflow \<Rightarrow> exec_record \<Rightarrow> step_attempt \<Rightarrow> bool" where
  "asked w r a \<longleftrightarrow>
     running_record w r \<and> is_approval (xr_step r) \<and> xr_attempts r = Some [a]"

lemma asked_status: "asked w (r\<lparr>xr_status := st\<rparr>) a = asked w r a"
  by (simp add: asked_def running_record_def attempts_wf_def)

lemma asked_closed:
  assumes "asked w r a" and "status \<noteq> AtRunning"
  shows "running_record w (r\<lparr>xr_attempts := Some (close_last [a] t status effect err)\<rparr>)"
proof -
  have "attempts_inv (close_last [a] t status effect err)"
    using assms by (intro attempts_inv_close_last) (auto simp: asked_def running_record_def attempts_wf_def)
  with assms show ?thesis
    by (auto simp: asked_def running_record_def attempts_wf_def)
qed

lemma approval_step_ranI:
  assumes w: "inside E w i rs r k t" and run: "running_record w r" and a: "is_approval (xr_step r)"
    and rs: "rs = RunRunning \<and> xr_status r = StRunning \<or>
         rs = RunWaitingForApproval \<and> xr_status r = StWaitingForApproval"
    and e: "err = None \<Longrightarrow> contested t"
  shows "step_ran E w i err t"
  unfolding step_ran_def using assms by blast

lemma not_produced: "is_approval (steps w ! i) \<Longrightarrow> produced w i s"
  by (auto simp: produced_def step_output_def is_approval_def split: step_body.splits)

lemma wp_settle_approval:
  assumes w: "inside E w i RunWaitingForApproval (awaiting r) k s" and r: "asked w r a"
    and ans: "decision = DecApproved \<Longrightarrow> approved_in (calls s) (step_id (xr_step r))"
  shows "wp (settle_approval E i 1 decision) (\<lambda>go. approval_ran E w i (go, None)) (\<lambda>_ _. False) s"
  unfolding settle_approval_def wp_seqc
proof (rule wp_inside_quietly [OF quietly_elapsed w], unfold wp_bnd)
  fix b s1 assume s1: "inside E w i RunWaitingForApproval (awaiting r) k s1" "carry s s1"
  let ?P = "\<lambda>go. approval_ran E w i (go, None)" and ?X = "\<lambda>_ _. False"
  let ?go = "seqc (transition_run E RunRunning None)
          (bnd (now_ms E) (\<lambda>t.
             seqc (upd_rec i (\<lambda>r. r\<lparr>xr_finished := Some t\<rparr>))
             (seqc (transition_step E i StSucceeded None None)
             (seqc (finish_attempt E i 1 AtSucceeded Completed False None) (ret True)))))"
  let ?close = "\<lambda>sid. case approval_termination decision of
            None \<Rightarrow> ret False
          | Some (c, e, st) \<Rightarrow>
              seqc (record_now E c e (Some sid))
                (seqc (finish_attempt E i 1 st ReadOnly False (Some e)) (ret False))"
  let ?stop = "bnd (gets (\<lambda>s. step_id (xr_step (recs s ! i)))) ?close"
  have ap: "is_approval (xr_step r)" and run: "running_record w r" and as: "xr_attempts r = Some [a]"
    using r by (auto simp: asked_def)
  have wr: "running_record w (awaiting r)"
    using run by (simp add: running_record_def attempts_wf_def)
  have asked': "asked w (awaiting r) a"
    using wr ap as by (simp add: asked_def)
  have stop: "wp ?stop ?P ?X t"
    if t: "inside E w i RunWaitingForApproval (awaiting r) k t" and c: "decision = DecApproved \<Longrightarrow> contested t" for t
  proof (cases "approval_termination decision")
    case None
    then have d: "decision = DecApproved" by (cases decision) simp_all
    have "step_ran E w i None t"
      by (rule approval_step_ranI [OF t wr]) (use ap c d in simp_all)
    with None show ?thesis by (simp add: wp_rules approval_ran_def)
  next
    case (Some ces)
    obtain c e st where ces: "ces = (c, e, st)" by (cases ces)
    have st: "st \<noteq> AtRunning" using Some ces by (cases decision) auto
    have "wp (record_now E c e (Some sid))
        (\<lambda>_. wp (finish_attempt E i 1 st ReadOnly False (Some e)) (\<lambda>_. wp (ret False) ?P ?X) ?X) ?X t" for sid
    proof (rule wp_inside_record_now [OF t])
      fix u assume u: "inside E w i RunWaitingForApproval (awaiting r) k u" "contested u"
      show "wp (finish_attempt E i 1 st ReadOnly False (Some e)) (\<lambda>_. wp (ret False) ?P ?X) ?X u"
        unfolding wp_ret
      proof (rule wp_finish_attempt [OF u(1), where as = "[a]"])
        fix t' v
        let ?r = "awaiting r\<lparr>xr_attempts := Some (close_last [a] t' st ReadOnly (Some e))\<rparr>"
        assume v: "inside E w i RunWaitingForApproval ?r k v" "carry u v"
        have "step_ran E w i None v"
          by (rule approval_step_ranI [OF v(1) asked_closed [OF asked' st]])
            (use ap u v in \<open>auto simp: carry_def\<close>)
        then show "?P False v" by (simp add: approval_ran_def)
      qed (use as in simp_all)
    qed
    then show ?thesis unfolding wp_bnd wp_gets Some ces option.case prod.case wp_seqc by blast
  qed
  show "wp choose_primary (\<lambda>q. wp (if decision = DecApproved \<and> q = None then ?go else ?stop) ?P ?X) ?X s1"
  proof (rule wp_inside_choose [OF s1(1)])
    fix pt t
    assume "inside E w i RunWaitingForApproval (awaiting r) k t" "contested t"
    with stop [of t] show "wp (if decision = DecApproved \<and> Some pt = None then ?go else ?stop) ?P ?X t" by simp
  next
    assume n: "\<not> contested s1" "primary s1 = None"
    show "wp (if decision = DecApproved \<and> None = None then ?go else ?stop) ?P ?X s1"
    proof (cases "decision = DecApproved")
      case False
      with stop [OF s1(1)] show ?thesis by (simp only: simp_thms if_False)
    next
      case True
      have "wp ?go ?P ?X s1"
        unfolding wp_seqc
      proof (rule wp_inside_run [OF s1(1)], simp, unfold wp_bnd)
        fix s2 assume s2: "inside E w i RunRunning (awaiting r) k s2" "carry s1 s2"
        show "wp (now_ms E) (\<lambda>t. wp (seqc (upd_rec i (\<lambda>r. r\<lparr>xr_finished := Some t\<rparr>))
             (seqc (transition_step E i StSucceeded None None)
             (seqc (finish_attempt E i 1 AtSucceeded Completed False None) (ret True)))) ?P ?X) ?X s2"
        proof (rule wp_inside_quietly [OF quietly_now s2(1)], unfold wp_seqc wp_ret)
          fix f s3 assume s3: "inside E w i RunRunning (awaiting r) k s3" "carry s2 s3"
          let ?r = "awaiting r\<lparr>xr_finished := Some f\<rparr>"
          show "wp (upd_rec i (\<lambda>r. r\<lparr>xr_finished := Some f\<rparr>)) (\<lambda>_. wp (transition_step E i StSucceeded None None)
              (\<lambda>_. wp (finish_attempt E i 1 AtSucceeded Completed False None) (\<lambda>_. ?P True) ?X) ?X) ?X s3"
          proof (rule wp_inside_upd [OF s3(1)])
            fix s4 assume s4: "inside E w i RunRunning ?r k s4" "carry s3 s4"
            show "wp (transition_step E i StSucceeded None None)
              (\<lambda>_. wp (finish_attempt E i 1 AtSucceeded Completed False None) (\<lambda>_. ?P True) ?X) ?X s4"
            proof (rule wp_inside_step [OF s4(1)])
              let ?s = "?r\<lparr>xr_status := StSucceeded\<rparr>"
              fix s5 assume s5: "inside E w i RunRunning ?s k s5" "carry s4 s5"
              show "wp (finish_attempt E i 1 AtSucceeded Completed False None) (\<lambda>_. ?P True) ?X s5"
              proof (rule wp_finish_attempt [OF s5(1), where as = "[a]"])
                fix t' u
                let ?e = "?s\<lparr>xr_attempts := Some (close_last [a] t' AtSucceeded Completed None)\<rparr>"
                assume u: "inside E w i RunRunning ?e k u" "carry s5 u"
                have c: "carry s u" using s1 s2 s3 s4 s5 u by (blast intro: carry_trans)
                have "running_record w (awaiting r\<lparr>xr_attempts := Some (close_last [a] t' AtSucceeded Completed None)\<rparr>)"
                  by (rule asked_closed [OF asked']) simp
                then have "running_record w ?e" by (simp add: running_record_def attempts_wf_def)
                then have su: "succeeded w ?e" by (simp add: succeeded_def)
                have "upto E w (Suc i) u"
                proof (rule inside_upto [OF u(1) su])
                  show "produced w i u"
                    using ap inside_step [OF u(1)] by (intro not_produced) simp
                  show "approved_in (calls u) (step_id (xr_step ?e))"
                    using ans [OF True] c by (simp add: carry_def)
                qed (use ap in simp)
                moreover have "primary u = None" using n(2) s2 s3 s4 s5 u by (simp add: carry_def)
                ultimately show "?P True u" by (simp add: approval_ran_def between_def)
              qed (use as in simp_all)
            qed simp
          qed simp_all
        qed
      qed
      with True show ?thesis by (simp only: simp_thms if_True)
    qed
  qed
qed

definition approval_open :: "world \<Rightarrow> workflow \<Rightarrow> nat \<Rightarrow> exec_record \<Rightarrow> nat \<Rightarrow> engine \<Rightarrow> bool" where
  "approval_open E w i r k t \<longleftrightarrow>
     inside E w i RunRunning r k t \<or> inside E w i RunWaitingForApproval (awaiting r) k t"

definition put_question ::
  "world \<Rightarrow> nat \<Rightarrow> nat \<Rightarrow> (nat \<Rightarrow> approval_query \<Rightarrow> engine_exn + approval_decision \<times> int)
    \<Rightarrow> approval_binding \<Rightarrow> approval_query \<Rightarrow> bool eng" where
  "put_question E i n coordinator b q =
     seqc (emit E (EvApproval (ab_step_id b) (ab_gated_id b) (ab_risk b) ApPending None))
       (seqc (observe (AskedApproval q))
         (bnd (await E) (\<lambda>k.
           case coordinator k q of
             Inl x \<Rightarrow> throw x
           | Inr (decision, decided_at) \<Rightarrow>
               seqc (observe (AnsweredApproval (ab_step_id b) decision))
               (seqc (emit_at E decided_at (EvApproval (ab_step_id b) (ab_gated_id b)
                       (ab_risk b) (approval_status_of decision) (Some decision)))
                 (settle_approval E i n decision)))))"

lemma wp_put_question:
  assumes w: "inside E w i RunWaitingForApproval (awaiting r) k s" and r: "asked w r a"
    and b: "ab_step_id b = step_id (xr_step r)"
  shows "wp (put_question E i 1 coordinator b q) (\<lambda>go. approval_ran E w i (go, None))
     (\<lambda>_. approval_open E w i r k) s"
proof -
  let ?P = "\<lambda>go. approval_ran E w i (go, None)" and ?X = "\<lambda>_. approval_open E w i r k"
  have qe: "quietly E (emit_at E t (EvApproval j g rk st d))" "quietly E (emit E (EvApproval j g rk st d))"
    for t j g rk st d
    by (simp_all add: quietly_emit_at quietly_emit run_event_def)
  show ?thesis
    unfolding put_question_def wp_seqc wp_bnd
  proof (rule wp_inside_quietly [OF qe(2) w])
    fix z s1 assume s1: "inside E w i RunWaitingForApproval (awaiting r) k s1"
    let ?answer = "\<lambda>k. case coordinator k q of
             Inl x \<Rightarrow> throw x
           | Inr (decision, decided_at) \<Rightarrow>
               seqc (observe (AnsweredApproval (ab_step_id b) decision))
               (seqc (emit_at E decided_at (EvApproval (ab_step_id b) (ab_gated_id b)
                       (ab_risk b) (approval_status_of decision) (Some decision)))
                 (settle_approval E i 1 decision))"
    show "wp (observe (AskedApproval q)) (\<lambda>_. wp (await E) (\<lambda>k. wp (?answer k) ?P ?X) ?X) ?X s1"
    proof (rule wp_observe_inside [OF s1])
      fix s2 assume s2: "inside E w i RunWaitingForApproval (awaiting r) k s2"
      show "wp (await E) (\<lambda>k. wp (?answer k) ?P ?X) ?X s2"
      proof (rule wp_inside_quietly [OF quietly_await s2])
        fix m s3 assume s3: "inside E w i RunWaitingForApproval (awaiting r) k s3"
        show "wp (?answer m) ?P ?X s3"
        proof (cases "coordinator m q")
          case (Inl x)
          with s3 show ?thesis by (simp add: wp_throw approval_open_def)
        next
          case (Inr da)
          obtain decision decided where da: "da = (decision, decided)" by (cases da)
          show ?thesis
            unfolding Inr da sum.case prod.case wp_seqc
          proof (rule wp_observe_inside [OF s3])
            fix s4
            assume s4: "inside E w i RunWaitingForApproval (awaiting r) k s4"
              "calls s4 = calls s3 @ [AnsweredApproval (ab_step_id b) decision]"
            show "wp (emit_at E decided (EvApproval (ab_step_id b) (ab_gated_id b)
                       (ab_risk b) (approval_status_of decision) (Some decision)))
                 (\<lambda>_. wp (settle_approval E i 1 decision) ?P ?X) ?X s4"
            proof (rule wp_inside_quietly [OF qe(1) s4(1)])
              fix y s5 assume s5: "inside E w i RunWaitingForApproval (awaiting r) k s5" "carry s4 s5"
              have "approved_in (calls s5) (step_id (xr_step r))" if "decision = DecApproved"
                using that s4(2) s5(2) b by (simp add: carry_def approved_in_def)
              then show "wp (settle_approval E i 1 decision) ?P ?X s5"
                by (rule wp_mono [OF wp_settle_approval [OF s5(1) r]]) simp_all
            qed
          qed simp_all
        qed
      qed
    qed simp_all
  qed
qed

lemma wp_request_approval:
  assumes w: "inside E (flow p) i RunRunning r k s" and r: "asked (flow p) r a" and st: "xr_status r = StRunning"
  shows "wp (request_approval E p i 1 remaining) (\<lambda>go. approval_ran E (flow p) i (go, None))
     (\<lambda>_. approval_open E (flow p) i r k) s"
proof (cases "approval_coordinator E")
  case None
  with w show ?thesis by (simp add: request_approval_def wp_throw approval_open_def)
next
  case (Some coordinator)
  let ?P = "\<lambda>go. approval_ran E (flow p) i (go, None)" and ?X = "\<lambda>_. approval_open E (flow p) i r k"
  let ?q = "\<lambda>b t. \<lparr>aq_binding = b, aq_workflow_id = workflow_id (flow p),
      aq_version = wf_version (flow p), aq_expires = t + min (ab_timeout b) remaining\<rparr>"
  let ?ask = "\<lambda>b. seqc (transition_step E i StWaitingForApproval None None)
      (seqc (transition_run E RunWaitingForApproval None)
      (bnd (now_ms E) (\<lambda>t. put_question E i 1 coordinator b (?q b t))))"
  let ?found = "\<lambda>found. case found of None \<Rightarrow> throw OtherException | Some b \<Rightarrow> ?ask b"
  have alt: "request_approval E p i 1 remaining =
      bnd (gets (\<lambda>s. require_approval_binding (flow p) (step_id (xr_step (recs s ! i))) None)) ?found"
    unfolding request_approval_def Some option.case put_question_def Let_def ..
  have rec: "recs s ! i = r" using w by (simp add: inside_def)
  show ?thesis
  proof (cases "require_approval_binding (flow p) (step_id (xr_step r)) None")
    case None
    show ?thesis
      unfolding alt wp_bnd wp_gets rec None option.case wp_throw
      using w by (simp add: approval_open_def)
  next
    case found: (Some b)
    have b: "ab_step_id b = step_id (xr_step r)"
      using require_approval_binding_Some [OF found] by simp
    have "wp (?ask b) ?P ?X s"
      unfolding wp_seqc
    proof (rule wp_inside_step [OF w])
      show "StWaitingForApproval \<in> set (step_transitions (xr_status r))" using st by simp
      fix t assume t: "inside E (flow p) i RunRunning (awaiting r) k t"
      show "wp (transition_run E RunWaitingForApproval None)
          (\<lambda>_. wp (bnd (now_ms E) (\<lambda>t. put_question E i 1 coordinator b (?q b t))) ?P ?X) ?X t"
      proof (rule wp_inside_run [OF t], simp, unfold wp_bnd)
        fix u assume u: "inside E (flow p) i RunWaitingForApproval (awaiting r) k u"
        show "wp (now_ms E) (\<lambda>t. wp (put_question E i 1 coordinator b (?q b t)) ?P ?X) ?X u"
          by (rule wp_inside_quietly [OF quietly_now u]) (rule wp_put_question [OF _ r b])
      qed
    qed
    then show ?thesis unfolding alt wp_bnd wp_gets rec found option.case .
  qed
qed

lemma wp_approval_step:
  assumes w: "inside E (flow p) i RunRunning r k s" and run: "running_record (flow p) r"
    and st: "xr_status r = StRunning" and na: "attempts_of r = []" and ap: "is_approval (xr_step r)"
  shows "wp (approval_step E p i remaining) (approval_ran E (flow p) i) (\<lambda>_ _. False) s"
  unfolding approval_step_def wp_bnd
proof (rule wp_begin_attempt [OF w], unfold wp_catch wp_bnd)
  fix t' t
  let ?a = "new_attempt (length (attempts_of r) + 1) Initial t' None"
  let ?r = "r\<lparr>xr_attempts := Some (attempts_of r @ [?a])\<rparr>"
  let ?P = "approval_ran E (flow p) i" and ?X = "\<lambda>_ _. False"
  assume t: "inside E (flow p) i RunRunning ?r k t"
  have inv: "attempts_inv (attempts_of r @ [?a])"
    using run na by (intro attempts_inv_begin) (simp_all add: may_begin_def)
  have none: "xr_attempts r = None"
    using run na by (cases "xr_attempts r") (auto simp: running_record_def attempts_wf_def)
  have asked: "asked (flow p) ?r ?a"
    using run inv ap none by (simp add: asked_def running_record_def attempts_wf_def)
  have failed: "wp (let c = to_safe_error x APPROVAL_REQUEST_FAILED
              in seqc (finish_attempt E i 1 (attempt_status_for c) UnknownEffect False (Some c))
                   (ret (False, Some c))) ?P ?X u"
    if u: "approval_open E (flow p) i ?r k u" for x u
  proof -
    let ?c = "to_safe_error x APPROVAL_REQUEST_FAILED"
    from u obtain r' rs where r': "inside E (flow p) i rs r' k u" "asked (flow p) r' ?a"
      "rs = RunRunning \<and> xr_status r' = StRunning \<or>
         rs = RunWaitingForApproval \<and> xr_status r' = StWaitingForApproval"
    proof -
      have "asked (flow p) (awaiting ?r) ?a"
        using asked by (simp only: asked_status)
      with u asked st that show thesis unfolding approval_open_def by fastforce
    qed
    have s: "attempt_status_for ?c \<noteq> AtRunning" by (simp add: attempt_status_for_def)
    show ?thesis
      unfolding Let_def wp_seqc wp_ret
    proof (rule wp_finish_attempt [OF r'(1), where as = "[?a]"])
      fix t2 v
      let ?e = "r'\<lparr>xr_attempts := Some (close_last [?a] t2 (attempt_status_for ?c) UnknownEffect (Some ?c))\<rparr>"
      assume v: "inside E (flow p) i rs ?e k v"
      have "step_ran E (flow p) i (Some ?c) v"
        by (rule approval_step_ranI [OF v asked_closed [OF r'(2) s]]) (use r' in \<open>auto simp: asked_def\<close>)
      then show "?P (False, Some ?c) v" by (simp add: approval_ran_def)
    qed (use r' in \<open>simp_all add: asked_def\<close>)
  qed
  have "wp (request_approval E p i 1 remaining) (\<lambda>go. wp (ret (go, None)) ?P
      (\<lambda>x. wp (let c = to_safe_error x APPROVAL_REQUEST_FAILED
              in seqc (finish_attempt E i 1 (attempt_status_for c) UnknownEffect False (Some c))
                   (ret (False, Some c))) ?P ?X))
      (\<lambda>x. wp (let c = to_safe_error x APPROVAL_REQUEST_FAILED
              in seqc (finish_attempt E i 1 (attempt_status_for c) UnknownEffect False (Some c))
                   (ret (False, Some c))) ?P ?X) t"
    unfolding wp_ret
    by (rule wp_mono [OF wp_request_approval [OF t asked]]) (use st failed in simp_all)
  then show "wp (request_approval E p i (length (attempts_of r) + 1) remaining) (\<lambda>go. wp (ret (go, None)) ?P
      (\<lambda>x. wp (let c = to_safe_error x APPROVAL_REQUEST_FAILED
              in seqc (finish_attempt E i (length (attempts_of r) + 1) (attempt_status_for c) UnknownEffect False (Some c))
                   (ret (False, Some c))) ?P ?X))
      (\<lambda>x. wp (let c = to_safe_error x APPROVAL_REQUEST_FAILED
              in seqc (finish_attempt E i (length (attempts_of r) + 1) (attempt_status_for c) UnknownEffect False (Some c))
                   (ret (False, Some c))) ?P ?X) t"
    by (simp add: na)
qed

section \<open>The loop\<close>

lemma fresh_upto:
  assumes w: "inside E w i RunRunning (new_record st) 0 s"
  shows "upto E w i s"
proof -
  have "fresh (recs s ! i)" using w by (simp add: inside_def fresh_def new_record_def)
  moreover have "i \<le> j \<Longrightarrow> j = i \<or> i < j" for j by auto
  ultimately show ?thesis
    using w by (auto simp: inside_def upto_def new_record_def)
qed

lemma running_new: "running_record w ((new_record st)\<lparr>xr_started := Some t, xr_status := StRunning\<rparr>)"
  by (simp add: running_record_def attempts_wf_def new_record_def)

lemma wp_run_body:
  assumes w: "inside E (flow p) i RunRunning r 0 s" and so: "sound (flow p)"
    and r: "running_record (flow p) r" "xr_status r = StRunning" "attempts_of r = []"
  shows "wp (run_body E p i remaining) (approval_ran E (flow p) i) (\<lambda>_ _. False) s"
proof -
  have rec: "recs s ! i = r" using w by (simp add: inside_def)
  show ?thesis
  proof (cases "is_approval (xr_step r)")
    case True
    with wp_approval_step [OF w r True] show ?thesis
      by (simp add: run_body_def wp_bnd wp_gets rec)
  next
    case False
    have na: "\<not> is_approval (steps (flow p) ! i)" using False inside_step [OF w] by simp
    have ready: "loop_ready (flow p) r ATTEMPT_FUEL Initial None"
      using r False by (simp add: loop_ready_def startable_def may_begin_def ATTEMPT_FUEL_def)
    have w': "inside E (flow p) i RunRunning r (length (attempts_of r)) s" using w r(3) by simp
    have "wp (attempt_loop E p i ATTEMPT_FUEL Initial None)
        (\<lambda>err. wp (ret (False, err)) (approval_ran E (flow p) i) (\<lambda>_ _. False)) (\<lambda>_ _. False) s"
      unfolding wp_ret
      by (rule wp_mono [OF wp_attempt_loop [OF so w' ready]])
        (use loop_done_step_ran na in \<open>auto simp: approval_ran_def\<close>)
    with False show ?thesis by (simp add: run_body_def wp_bnd wp_gets rec)
  qed
qed

lemma wp_run_step:
  assumes w: "between E (flow p) i s" and i: "i < length (recs s)" and so: "sound (flow p)"
  shows "wp (run_step E p i) (\<lambda>stop t. if stop then stopped E (flow p) i t else between E (flow p) (Suc i) t)
     (\<lambda>_ _. False) s"
proof -
  let ?w = "flow p"
  let ?n = "new_record (steps ?w ! i)"
  let ?Q = "\<lambda>stop t. if stop then stopped E ?w i t else between E ?w (Suc i) t" and ?X = "\<lambda>_ _. False"
  have ins: "inside E ?w i RunRunning ?n 0 s" using w i by (intro upto_inside) (simp_all add: between_def)
  let ?finish = "\<lambda>(go, err). if go then ret False else finish_step E i err"
  let ?enter = "\<lambda>remaining. bnd (now_ms E) (\<lambda>t. seqc (upd_rec i (\<lambda>r. r\<lparr>xr_started := Some t\<rparr>))
      (seqc (transition_step E i StRunning None None) (bnd (run_body E p i remaining) ?finish)))"
  let ?rest = "\<lambda>remaining. if remaining = 0 then seqc record_deadline (bnd choose_primary (\<lambda>q. ret True))
      else ?enter remaining"
  have fin: "wp (?finish res) ?Q ?X t" if "approval_ran E ?w i res t" for res t
    using that wp_mono [OF wp_finish_step [of E ?w i "snd res" t ?X]]
    by (cases res) (auto simp: approval_ran_def wp_ret stopped_def split: if_splits elim!: wp_mono)
  have "wp (?enter remaining) ?Q ?X t" if t: "inside E ?w i RunRunning ?n 0 t" for remaining t
    unfolding wp_bnd
  proof (rule wp_inside_quietly [OF quietly_now t], unfold wp_seqc)
    fix a s1 assume s1: "inside E ?w i RunRunning ?n 0 s1"
    show "wp (upd_rec i (\<lambda>r. r\<lparr>xr_started := Some a\<rparr>)) (\<lambda>_. wp (transition_step E i StRunning None None)
        (\<lambda>_. wp (bnd (run_body E p i remaining) ?finish) ?Q ?X) ?X) ?X s1"
    proof (rule wp_inside_upd [OF s1])
      fix s2 assume s2: "inside E ?w i RunRunning (?n\<lparr>xr_started := Some a\<rparr>) 0 s2"
      show "wp (transition_step E i StRunning None None)
        (\<lambda>_. wp (bnd (run_body E p i remaining) ?finish) ?Q ?X) ?X s2"
      proof (rule wp_inside_step [OF s2])
        let ?r = "?n\<lparr>xr_started := Some a, xr_status := StRunning\<rparr>"
        fix s3 assume s3: "inside E ?w i RunRunning ?r 0 s3"
        show "wp (bnd (run_body E p i remaining) ?finish) ?Q ?X s3"
          unfolding wp_bnd
        proof (rule wp_mono [OF wp_run_body [OF s3 so running_new]])
          show "xr_status ?r = StRunning" "attempts_of ?r = []" by (simp_all add: new_record_def)
          fix res t assume "approval_ran E ?w i res t"
          then show "wp (?finish res) ?Q ?X t" by (rule fin)
        qed
      qed (simp add: new_record_def)
    qed simp_all
  qed
  moreover have "wp (seqc record_deadline (bnd choose_primary (\<lambda>q. ret True))) ?Q ?X t"
    if t: "inside E ?w i RunRunning ?n 0 t" for t
  proof -
    let ?c = "\<lparr>tc_cause = TotalTimeout, tc_at = deadline t, tc_error = TOTAL_EXECUTION_TIMEOUT, tc_step = None\<rparr>"
    let ?u = "t\<lparr>racing := arb_record ?c (racing t)\<rparr>"
    have u: "inside E ?w i RunRunning ?n 0 ?u" by (rule inside_record [OF t])
    have ab: "inside E ?w i RunRunning ?n 0 (?u\<lparr>controller_aborted := True\<rparr>)"
      by (rule inside_quiet [OF u]) (auto simp: quiet_def calls_def log_inv_def run_log_def)
    have "contested (?u\<lparr>controller_aborted := True\<rparr>)"
      using contested_record [where s = t and c = ?c] by (simp add: contested_def)
    then have "wp choose_primary (\<lambda>q. ?Q True) ?X (?u\<lparr>controller_aborted := True\<rparr>)"
      by (intro wp_inside_choose [OF ab]) (simp_all add: stopped_def fresh_upto)
    then show ?thesis
      by (simp add: record_deadline_def record_cause_def abort_controller_def wp_rules)
  qed
  ultimately have rest: "wp (?rest remaining) ?Q ?X t" if "inside E ?w i RunRunning ?n 0 t" for remaining t
    using that by simp
  have "wp (record_deadline_if_elapsed E) (\<lambda>_. wp (bnd choose_primary
      (\<lambda>q. if q \<noteq> None then ret True else bnd (remaining_ms E) ?rest)) ?Q ?X) ?X s"
    unfolding wp_bnd
  proof (rule wp_inside_quietly [OF quietly_elapsed ins])
    fix a t assume t: "inside E ?w i RunRunning ?n 0 t"
    show "wp choose_primary (\<lambda>q. wp (if q \<noteq> None then ret True else bnd (remaining_ms E) ?rest) ?Q ?X) ?X t"
    proof (rule wp_inside_choose [OF t])
      have "wp (remaining_ms E) (\<lambda>m. wp (?rest m) ?Q ?X) ?X t"
        by (rule wp_inside_quietly [OF quietly_remaining t]) (rule rest)
      then show "wp (if None \<noteq> None then ret True else bnd (remaining_ms E) ?rest) ?Q ?X t"
        by (simp only: wp_bnd simp_thms if_False not_True_eq_False)
      fix pt u assume "inside E ?w i RunRunning ?n 0 u" "primary u = Some pt"
      then show "wp (if Some pt \<noteq> None then ret True else bnd (remaining_ms E) ?rest) ?Q ?X u"
        by (simp add: wp_ret stopped_def fresh_upto)
    qed
  qed
  then show ?thesis unfolding run_step_def wp_seqc .
qed

text \<open>The steps from \<open>i\<close> on: all of them succeed, or one of them stops the run.\<close>

definition loop_left :: "world \<Rightarrow> workflow \<Rightarrow> engine \<Rightarrow> bool" where
  "loop_left E w t \<longleftrightarrow> between E w (length (steps w)) t \<or> (\<exists>i. stopped E w i t)"

lemma wp_step_loop:
  assumes so: "sound (flow p)"
  shows "between E (flow p) i s \<Longrightarrow> i + n = length (steps (flow p)) \<Longrightarrow>
    wp (step_loop E p [i..<i + n]) (\<lambda>_. loop_left E (flow p)) (\<lambda>_ _. False) s"
proof (induction n arbitrary: i s)
  case 0
  then show ?case by (simp add: wp_ret loop_left_def)
next
  case (Suc n)
  have "length (recs s) = length (steps (flow p))"
    using Suc.prems(1) base_length by (auto simp: between_def upto_def)
  then have i: "i < length (recs s)" using Suc.prems(2) by simp
  have u: "[i..<i + Suc n] = i # [Suc i..<Suc i + n]"
    by (simp add: upt_conv_Cons)
  show ?case
    unfolding u step_loop.simps wp_bnd
  proof (rule wp_mono [OF wp_run_step [OF Suc.prems(1) i so]])
    fix stop t
    assume t: "if stop then stopped E (flow p) i t else between E (flow p) (Suc i) t"
    show "wp (if stop then ret () else step_loop E p [Suc i..<Suc i + n]) (\<lambda>_. loop_left E (flow p)) (\<lambda>_ _. False) t"
    proof (cases stop)
      case True
      with t show ?thesis by (auto simp: wp_ret loop_left_def)
    next
      case False
      with t Suc.prems(2) have "wp (step_loop E p [Suc i..<Suc i + n]) (\<lambda>_. loop_left E (flow p)) (\<lambda>_ _. False) t"
        by (intro Suc.IH) simp_all
      with False show ?thesis by (simp only: if_False)
    qed
  qed simp
qed

end
