(* ===== verification/Engine_Run.thy ===== *)
theory Engine_Run
  imports Engine_Loop
begin

text \<open>
  From the start of the adapter to the end of the run: the steps that were not reached are
  skipped, the adapter is stopped, and the run ends in the status of its cause.
\<close>

section \<open>Skipping what was not reached\<close>

definition skipped :: "skip_reason \<Rightarrow> exec_record \<Rightarrow> bool" where
  "skipped k r \<longleftrightarrow>
     (\<exists>t. r = (new_record (xr_step r))\<lparr>xr_skipped := Some k, xr_finished := Some t, xr_status := StSkipped\<rparr>)"

text \<open>
  The records of a run whose first \<open>i\<close> steps succeeded while the steps before \<open>m\<close> have been
  visited by \<open>skipPending\<close>.
\<close>

definition visit_ok :: "(exec_record \<Rightarrow> bool) \<Rightarrow> skip_reason \<Rightarrow> nat \<Rightarrow> nat \<Rightarrow> nat \<Rightarrow> exec_record \<Rightarrow> bool" where
  "visit_ok last_ok k i m j r \<longleftrightarrow>
     j = i \<and> xr_status r \<noteq> StPending \<and> last_ok r \<or> (if j < m then skipped k r else fresh r)"

definition visited :: "workflow \<Rightarrow> (exec_record \<Rightarrow> bool) \<Rightarrow> skip_reason \<Rightarrow> nat \<Rightarrow> nat \<Rightarrow> exec_record list \<Rightarrow> bool" where
  "visited w last_ok k i m rs \<longleftrightarrow>
     i \<le> length rs \<and> (\<forall>j < i. succeeded w (rs ! j)) \<and>
     (\<forall>j < length rs. i \<le> j \<longrightarrow> visit_ok last_ok k i m j (rs ! j))"

definition attempt_counts :: "exec_record list \<Rightarrow> nat list" where
  "attempt_counts rs = map (\<lambda>r. length (attempts_of r)) rs"

definition frame ::
  "world \<Rightarrow> workflow \<Rightarrow> run_status \<Rightarrow> primary_termination option \<Rightarrow> observation list \<Rightarrow> nat list
    \<Rightarrow> engine \<Rightarrow> bool" where
  "frame E w rs q cs ns s \<longleftrightarrow>
     base_inv E w s \<and> run_state s = rs \<and> sm_running (step_states s) = None \<and> primary s = q \<and>
     calls s = cs \<and> attempt_counts (recs s) = ns"

definition skipping ::
  "world \<Rightarrow> workflow \<Rightarrow> run_status \<Rightarrow> primary_termination option \<Rightarrow> observation list \<Rightarrow> nat list
    \<Rightarrow> (exec_record \<Rightarrow> bool) \<Rightarrow> skip_reason \<Rightarrow> nat \<Rightarrow> nat \<Rightarrow> engine \<Rightarrow> bool" where
  "skipping E w rs q cs ns P k i m s \<longleftrightarrow> frame E w rs q cs ns s \<and> visited w P k i m (recs s)"

lemma frame_quiet: "frame E w rs q cs ns s \<Longrightarrow> quiet E s t \<Longrightarrow> frame E w rs q cs ns t"
  using base_inv_quiet [of E w s t] by (auto simp: frame_def quiet_def)

lemma skipping_quiet: "skipping E w rs q cs ns P k i m s \<Longrightarrow> quiet E s t \<Longrightarrow> skipping E w rs q cs ns P k i m t"
  using frame_quiet [of E w rs q cs ns s t] by (auto simp: skipping_def quiet_def)

lemma fresh_status: "fresh r \<Longrightarrow> xr_status r = StPending"
  by (metis fresh_def new_record_def exec_record.select_convs(2))

lemma skip_update:
  assumes v: "visited w P k i m rs" and m: "m < length rs" "xr_status (rs ! m) = StPending"
  shows "fresh (rs ! m) \<and> visited w P k i (Suc m) (rs[m := (rs ! m)\<lparr>xr_skipped := Some k, xr_finished := Some t, xr_status := StSkipped\<rparr>])"
proof -
  have im: "\<not> m < i" using v m by (auto simp: visited_def succeeded_def)
  with v m(1) have "visit_ok P k i m m (rs ! m)" by (simp add: visited_def)
  with m(2) have f: "fresh (rs ! m)" by (simp add: visit_ok_def)
  have s: "skipped k ((rs ! m)\<lparr>xr_skipped := Some k, xr_finished := Some t, xr_status := StSkipped\<rparr>)"
  proof -
    from f obtain st where "rs ! m = new_record st" unfolding fresh_def by blast
    then show ?thesis by (simp add: skipped_def new_record_def)
  qed
  have "visited w P k i (Suc m) (rs[m := (rs ! m)\<lparr>xr_skipped := Some k, xr_finished := Some t, xr_status := StSkipped\<rparr>])"
    unfolding visited_def
  proof (intro conjI allI impI)
    fix j
    let ?rs = "rs[m := (rs ! m)\<lparr>xr_skipped := Some k, xr_finished := Some t, xr_status := StSkipped\<rparr>]"
    assume j: "j < length ?rs" "i \<le> j"
    show "visit_ok P k i (Suc m) j (?rs ! j)"
    proof (cases "j = m")
      case True
      with s m show ?thesis by (simp add: visit_ok_def)
    next
      case False
      then have "j < Suc m \<longleftrightarrow> j < m" by auto
      with False v j show ?thesis by (simp add: visited_def visit_ok_def)
    qed
  qed (use v im m in \<open>auto simp: visited_def nth_list_update\<close>)
  with f show ?thesis by simp
qed

lemma skip_keep:
  assumes v: "visited w P k i m rs" and m: "m < length rs" "xr_status (rs ! m) \<noteq> StPending"
  shows "visited w P k i (Suc m) rs"
  unfolding visited_def
proof (intro conjI allI impI)
  fix j assume j: "j < length rs" "i \<le> j"
  have "\<not> fresh (rs ! m)" using m fresh_status by blast
  moreover have "visit_ok P k i m j (rs ! j)" using v j by (simp add: visited_def)
  ultimately show "visit_ok P k i (Suc m) j (rs ! j)"
    by (cases "m = j") (auto simp: visit_ok_def less_Suc_eq)
qed (use v in \<open>auto simp: visited_def\<close>)

lemma wp_skip_one:
  assumes w: "skipping E w rs q cs ns P k i m s" and m: "m < length (recs s)"
  shows "wp (skip_one E k m) (\<lambda>_. skipping E w rs q cs ns P k i (Suc m)) (\<lambda>_ _. False) s"
proof (cases "xr_status (recs s ! m) = StPending")
  case False
  with w skip_keep [of w P k i m "recs s"] m show ?thesis
    by (auto simp: skip_one_def wp_rules skipping_def)
next
  case True
  have "wp (now_ms E) (\<lambda>t. wp (seqc (upd_rec m (\<lambda>r. r\<lparr>xr_skipped := Some k, xr_finished := Some t\<rparr>))
         (transition_step E m StSkipped None (Some k))) (\<lambda>_. skipping E w rs q cs ns P k i (Suc m)) (\<lambda>_ _. False)) (\<lambda>_ _. False) s"
  proof (rule wp_quietly [OF quietly_now])
    fix a t assume qt: "quiet E s t"
    have t: "skipping E w rs q cs ns P k i m t" by (rule skipping_quiet [OF w qt])
    let ?r = "(recs t ! m)\<lparr>xr_skipped := Some k, xr_finished := Some a\<rparr>"
    let ?u = "t\<lparr>recs := (recs t)[m := ?r]\<rparr>"
    have mt: "m < length (recs t)" "xr_status (recs t ! m) = StPending"
      using m True qt by (auto simp: quiet_def)
    have sy: "synced ?u"
      using t by (intro synced_upd) (auto simp: skipping_def frame_def base_inv_def)
    have "wp (transition_step E m StSkipped None (Some k)) (\<lambda>_. skipping E w rs q cs ns P k i (Suc m)) (\<lambda>_ _. False) ?u"
    proof (rule wp_transition_step [OF sy])
      show "m < length (recs ?u)" using mt by simp
      show "StSkipped \<in> set (step_transitions (xr_status (recs ?u ! m)))" using mt by simp
      fix v assume v: "step_moved E m StSkipped ?u v"
      have rv: "recs v = (recs t)[m := (recs t ! m)\<lparr>xr_skipped := Some k, xr_finished := Some a, xr_status := StSkipped\<rparr>]"
        using v mt by (simp add: step_moved_def)
      have steps: "map xr_step (recs v) = map xr_step (recs t)"
        by (simp add: rv map_update_eq)
      have "base_inv E w v"
        using t v steps by (auto simp: skipping_def frame_def base_inv_def step_moved_def coherent_def raced_def log_inv_def run_log_def)
      moreover have "attempt_counts (recs v) = attempt_counts (recs t)"
        unfolding rv attempt_counts_def by (simp add: map_update_eq)
      ultimately have "frame E w rs q cs ns v"
        using t v mt by (auto simp: skipping_def frame_def step_moved_def calls_def)
      moreover have "visited w P k i (Suc m) (recs v)"
        unfolding rv using skip_update [of w P k i m "recs t"] t mt by (simp add: skipping_def)
      ultimately show "skipping E w rs q cs ns P k i (Suc m) v" by (simp add: skipping_def)
    qed simp
    then show "wp (seqc (upd_rec m (\<lambda>r. r\<lparr>xr_skipped := Some k, xr_finished := Some a\<rparr>))
         (transition_step E m StSkipped None (Some k))) (\<lambda>_. skipping E w rs q cs ns P k i (Suc m)) (\<lambda>_ _. False) t"
      by (simp add: wp_seqc upd_rec_def wp_modify)
  qed
  with True show ?thesis by (simp add: skip_one_def wp_bnd wp_gets wp_whenc)
qed

lemma wp_skip_from:
  "skipping E w rs q cs ns P k i m s \<Longrightarrow> m + n = length (steps w) \<Longrightarrow>
     wp (for_each [m..<m + n] (skip_one E k)) (\<lambda>_. skipping E w rs q cs ns P k i (length (steps w))) (\<lambda>_ _. False) s"
proof (induction n arbitrary: m s)
  case 0
  then show ?case by (simp add: wp_ret)
next
  case (Suc n)
  have u: "[m..<m + Suc n] = m # [Suc m..<Suc m + n]" by (simp add: upt_conv_Cons)
  have "m < length (recs s)"
    using Suc.prems base_length by (auto simp: skipping_def frame_def)
  from wp_skip_one [OF Suc.prems(1) this] Suc.IH Suc.prems(2) show ?case
    unfolding u for_each.simps wp_seqc by (auto elim!: wp_mono)
qed

lemma wp_skip_pending:
  assumes "skipping E w rs q cs ns P k i 0 s"
  shows "wp (skip_pending E k) (\<lambda>_. skipping E w rs q cs ns P k i (length (steps w))) (\<lambda>_ _. False) s"
proof -
  have n: "length (recs s) = length (steps w)"
    using assms base_length by (auto simp: skipping_def frame_def)
  from wp_skip_from [OF assms, of "length (steps w)"] show ?thesis
    by (simp add: skip_pending_def wp_bnd wp_gets n)
qed

section \<open>The start of the adapter\<close>

definition early_causes :: "racing_cause set" where
  "early_causes = {RunWasCancelled, TotalTimeout, AdapterStartFailed}"

definition starting :: "world \<Rightarrow> workflow \<Rightarrow> observation list \<Rightarrow> engine \<Rightarrow> bool" where
  "starting E w cs s \<longleftrightarrow>
     base_inv E w s \<and> list_all fresh (recs s) \<and> run_state s = RunStarting \<and>
     sm_running (step_states s) = None \<and> primary s = None \<and> calls s = cs \<and>
     arb_locked (racing s) = None \<and> (\<forall>c \<in> set (arb_pool (racing s)). tc_cause c \<in> early_causes)"

lemma starting_quiet: "starting E w cs s \<Longrightarrow> quiet E s t \<Longrightarrow> starting E w cs t"
  using base_inv_quiet [of E w s t]
  by (auto simp: starting_def quiet_def raced_def early_causes_def)

lemma starting_observe:
  "starting E w cs s \<Longrightarrow> is_call x \<Longrightarrow> starting E w (cs @ [x]) (s\<lparr>trace := trace s @ [x]\<rparr>)"
  by (cases x)
    (auto simp: starting_def calls_def base_inv_def synced_def rec_id_def coherent_def log_inv_def
      run_log_def map_filter_def)

lemma starting_record:
  assumes w: "starting E w cs s" and c: "tc_cause c \<in> early_causes"
  shows "starting E w cs (s\<lparr>racing := arb_record c (racing s)\<rparr>)"
  using w c coherent_record [of s c] arb.recd_open [of "racing s" c]
  by (auto simp: starting_def calls_def base_inv_def synced_def rec_id_def log_inv_def run_log_def)

lemma wp_start_adapter:
  assumes w: "starting E w [] s"
  shows "wp (start_adapter E p) (\<lambda>_ t. \<exists>cx. starting E w [CalledStart cx] t) (\<lambda>_ _. False) s"
    (is "wp _ ?Q ?X s")
  unfolding start_adapter_def wp_bnd
proof (rule wp_quietly [OF quietly_remaining], unfold wp_gets wp_seqc)
  fix m t assume "quiet E s t"
  then have t: "starting E w [] t" by (rule starting_quiet [OF w])
  let ?cx = "start_context_of p m t"
  let ?after = "bnd (await E) (\<lambda>n. case adapter_start E n ?cx of None \<Rightarrow> ret ()
      | Some x \<Rightarrow> record_now E AdapterStartFailed (to_safe_error x ADAPTER_START_FAILED) None)"
  have u: "starting E w [CalledStart ?cx] (t\<lparr>trace := trace t @ [CalledStart ?cx]\<rparr>)"
    using starting_observe [OF t, of "CalledStart ?cx"] by simp
  have fail: "wp (record_now E AdapterStartFailed e None) ?Q ?X v" if "starting E w [CalledStart ?cx] v" for e v
    unfolding record_now_def wp_bnd record_cause_def wp_modify
  proof (rule wp_quietly [OF quietly_now])
    fix a x assume "quiet E v x"
    then have "starting E w [CalledStart ?cx] x" by (rule starting_quiet [OF that])
    then have "starting E w [CalledStart ?cx] (x\<lparr>racing := arb_record
        \<lparr>tc_cause = AdapterStartFailed, tc_at = a, tc_error = e, tc_step = None\<rparr> (racing x)\<rparr>)"
      by (rule starting_record) (simp add: early_causes_def)
    then show "?Q () (x\<lparr>racing := arb_record
        \<lparr>tc_cause = AdapterStartFailed, tc_at = a, tc_error = e, tc_step = None\<rparr> (racing x)\<rparr>)" by blast
  qed
  have "wp ?after ?Q ?X (t\<lparr>trace := trace t @ [CalledStart ?cx]\<rparr>)"
    unfolding wp_bnd
  proof (rule wp_quietly [OF quietly_await])
    fix n v assume "quiet E (t\<lparr>trace := trace t @ [CalledStart ?cx]\<rparr>) v"
    then have v: "starting E w [CalledStart ?cx] v" by (rule starting_quiet [OF u])
    show "wp (case adapter_start E n ?cx of None \<Rightarrow> ret ()
      | Some x \<Rightarrow> record_now E AdapterStartFailed (to_safe_error x ADAPTER_START_FAILED) None) ?Q ?X v"
    proof (cases "adapter_start E n ?cx")
      case None
      with v show ?thesis by (auto simp: wp_ret)
    next
      case (Some x)
      with fail [OF v] show ?thesis by simp
    qed
  qed
  then show "wp (observe (CalledStart ?cx)) (\<lambda>_. wp ?after ?Q ?X) ?X t"
    by (simp add: observe_def wp_modify)
qed

section \<open>The end of the loop\<close>

definition calls_done :: "workflow \<Rightarrow> nat list \<Rightarrow> observation list \<Rightarrow> bool" where
  "calls_done w ns cs \<longleftrightarrow>
     execs_ok w cs \<and> started_once cs \<and>
     (\<forall>j < length (steps w). exec_count cs (step_id (steps w ! j)) =
        (if is_approval (steps w ! j) then 0 else ns ! j))"

definition winding_status :: "primary_termination option \<Rightarrow> run_status" where
  "winding_status q =
     (case q of None \<Rightarrow> RunRunning
      | Some pt \<Rightarrow> if is_cancelling_cause (pt_cause pt) then RunCancelling else terminal_status_for (pt_cause pt))"

definition final_records :: "workflow \<Rightarrow> primary_termination option \<Rightarrow> exec_record list \<Rightarrow> bool" where
  "final_records w q rs \<longleftrightarrow>
     (case q of None \<Rightarrow> list_all (succeeded w) rs
      | Some pt \<Rightarrow> \<exists>i. visited w (ended w pt) (skip_reason_for (pt_cause pt)) i (length (steps w)) rs)"

definition wound :: "world \<Rightarrow> workflow \<Rightarrow> engine \<Rightarrow> bool" where
  "wound E w t \<longleftrightarrow>
     (\<exists>q cs ns. frame E w (winding_status q) q cs ns t \<and> final_records w q (recs t) \<and> calls_done w ns cs)"

lemma fresh_attempts: "fresh r \<Longrightarrow> attempts_of r = []"
proof -
  assume "fresh r"
  then obtain st where "r = new_record st" unfolding fresh_def by blast
  then show ?thesis by (simp add: new_record_def)
qed

lemma calls_upto_done:
  assumes c: "calls_upto w i k s" and b: "base_inv E w s"
    and k: "i < length (steps w) \<Longrightarrow> is_approval (steps w ! i) \<or> k = length (attempts_of (recs s ! i))"
  shows "calls_done w (attempt_counts (recs s)) (calls s)"
  using c k base_length [OF b] by (auto simp: calls_upto_def calls_done_def attempt_counts_def)

lemma upto_skipping:
  assumes u: "upto E w i s" and q: "primary s = Some pt"
  shows "skipping E w RunRunning (Some pt) (calls s) (attempt_counts (recs s)) P k i 0 s \<and>
    calls_done w (attempt_counts (recs s)) (calls s)"
proof -
  have b: "base_inv E w s" using u by (simp add: upto_def)
  have "calls_done w (attempt_counts (recs s)) (calls s)"
    by (rule calls_upto_done [OF _ b, of i 0])
      (use u base_length [OF b] fresh_attempts in \<open>auto simp: upto_def\<close>)
  with u q show ?thesis by (auto simp: skipping_def frame_def visited_def visit_ok_def upto_def)
qed

lemma halted_skipping:
  assumes "halted E w i s"
  shows "\<exists>pt rs. primary s = Some pt \<and> rs \<in> {RunRunning, RunWaitingForRepair, RunWaitingForApproval} \<and>
    skipping E w rs (Some pt) (calls s) (attempt_counts (recs s)) (ended w pt) k i 0 s \<and>
    calls_done w (attempt_counts (recs s)) (calls s)"
proof -
  from assms obtain pt r rs n where p: "primary s = Some pt" and w: "inside E w i rs r n s"
    and e: "ended w pt r" and rs: "rs \<in> {RunRunning, RunWaitingForRepair, RunWaitingForApproval}"
    and n: "is_approval (xr_step r) \<or> n = length (attempts_of r)"
    unfolding halted_def by blast
  from w have b: "base_inv E w s" and i: "i < length (recs s)" and r: "recs s ! i = r"
    by (auto simp: inside_def)
  have "calls_done w (attempt_counts (recs s)) (calls s)"
    by (rule calls_upto_done [OF _ b, of i n]) (use w n r inside_step [OF w] in \<open>auto simp: inside_def\<close>)
  moreover have st: "xr_status r \<noteq> StPending" "xr_status r \<noteq> StRunning"
    using e by (simp_all add: ended_def step_status_for_def)
  moreover have "visited w (ended w pt) k i 0 (recs s)"
    using w i r e st by (auto simp: visited_def visit_ok_def inside_def le_less)
  moreover have "frame E w rs (Some pt) (calls s) (attempt_counts (recs s)) s"
    using w p st b by (simp add: frame_def inside_def)
  ultimately show ?thesis using p rs unfolding skipping_def by blast
qed

lemma starting_skipping:
  assumes b: "base_inv E w s" and f: "list_all fresh (recs s)" and st: "run_state s = RunStarting"
    "sm_running (step_states s) = None" "primary s = Some pt" "calls s = [CalledStart cx]"
  shows "skipping E w RunStarting (Some pt) (calls s) (attempt_counts (recs s)) P k 0 0 s \<and>
    calls_done w (attempt_counts (recs s)) (calls s)"
proof -
  have "calls_done w (attempt_counts (recs s)) (calls s)"
    using f st base_length [OF b] fresh_attempts
    by (auto simp: calls_done_def execs_ok_def started_once_def exec_count_def attempt_counts_def
        less_Suc_eq list_all_length)
  moreover have "visited w P k 0 0 (recs s)"
    using f by (simp add: visited_def visit_ok_def list_all_length)
  ultimately show ?thesis using b st by (simp add: skipping_def frame_def)
qed

lemma wp_frame_run:
  assumes w: "frame E w rs q cs ns s" and ok: "n \<in> set (run_transitions rs)"
    and Q: "\<And>t. frame E w n q cs ns t \<Longrightarrow> recs t = recs s \<Longrightarrow> cleanup_error t = cleanup_error s \<Longrightarrow>
      summaries t = summaries s \<Longrightarrow> Q () t"
  shows "wp (transition_run E n err) Q X s"
proof (rule wp_transition_run)
  show "n \<in> set (run_transitions (run_state s))" using w ok by (simp add: frame_def)
  fix t assume m: "run_moved E n s t"
  have "base_inv E w t"
    using w m by (auto simp: frame_def base_inv_def run_moved_def synced_def rec_id_def coherent_def raced_def)
  then have "frame E w n q cs ns t"
    using w m by (simp add: frame_def run_moved_def)
  with m show "Q () t" by (intro Q) (simp_all add: run_moved_def)
qed

lemma wp_wind:
  assumes sk: "\<And>k. skipping E w rs (Some pt) cs ns (ended w pt) k i 0 s" and c: "calls_done w ns cs"
    and ok: "winding_status (Some pt) \<in> set (run_transitions rs)" and q: "primary s = Some pt"
  shows "wp (begin_termination E) (\<lambda>_. wound E w) (\<lambda>_ _. False) s"
proof -
  have "wp (skip_pending E (skip_reason_for (pt_cause pt)))
      (\<lambda>_. wp (transition_run E (winding_status (Some pt)) (Some (pt_error pt))) (\<lambda>_. wound E w) (\<lambda>_ _. False))
      (\<lambda>_ _. False) s"
  proof (rule wp_mono [OF wp_skip_pending [OF sk]])
    fix t assume t: "skipping E w rs (Some pt) cs ns (ended w pt) (skip_reason_for (pt_cause pt)) i (length (steps w)) t"
    show "wp (transition_run E (winding_status (Some pt)) (Some (pt_error pt))) (\<lambda>_. wound E w) (\<lambda>_ _. False) t"
    proof (rule wp_frame_run [OF _ ok])
      show "frame E w rs (Some pt) cs ns t" using t by (simp add: skipping_def)
      fix u assume "frame E w (winding_status (Some pt)) (Some pt) cs ns u" "recs u = recs t"
      with t c show "wound E w u"
        by (auto simp: wound_def skipping_def final_records_def intro!: exI)
    qed
  qed simp
  then show ?thesis
    by (simp add: begin_termination_def wp_bnd wp_gets q wp_seqc winding_status_def)
qed

section \<open>The run between start and stop\<close>

lemma starting_between:
  assumes w: "starting E w [CalledStart cx] s" and m: "run_moved E RunRunning s t"
  shows "between E w 0 t"
proof -
  have b: "base_inv E w t"
    using w m by (auto simp: starting_def base_inv_def run_moved_def synced_def rec_id_def coherent_def raced_def)
  have f: "list_all fresh (recs t)" and c: "calls t = [CalledStart cx]"
    using w m by (auto simp: starting_def run_moved_def)
  have "calls_upto w 0 0 t"
    using f c base_length [OF b] fresh_attempts
    by (auto simp: calls_upto_def execs_ok_def started_once_def exec_count_def less_Suc_eq list_all_length)
  with b f w m show ?thesis
    by (auto simp: between_def upto_def starting_def run_moved_def outputs_upto_def list_all_length)
qed

lemma winding_from:
  "rs \<in> {RunRunning, RunWaitingForRepair, RunWaitingForApproval} \<Longrightarrow>
     winding_status (Some pt) \<in> set (run_transitions rs)"
  by (cases "pt_cause pt") (auto simp: winding_status_def is_cancelling_cause_def)

lemma winding_from_start:
  "pt_cause pt \<in> early_causes \<Longrightarrow> winding_status (Some pt) \<in> set (run_transitions RunStarting)"
  by (auto simp: winding_status_def is_cancelling_cause_def early_causes_def)

lemma wp_end_of_loop:
  assumes l: "loop_left E w s"
  shows "wp (begin_termination E) (\<lambda>_. wound E w) (\<lambda>_ _. False) s"
  using l unfolding loop_left_def
proof (elim disjE exE)
  assume b: "between E w (length (steps w)) s"
  then have u: "upto E w (length (steps w)) s" and q: "primary s = None" by (auto simp: between_def)
  have bi: "base_inv E w s" using u by (simp add: upto_def)
  have "calls_done w (attempt_counts (recs s)) (calls s)"
    by (rule calls_upto_done [OF _ bi, of "length (steps w)" 0]) (use u in \<open>auto simp: upto_def\<close>)
  moreover have "frame E w (winding_status None) None (calls s) (attempt_counts (recs s)) s"
    using u q by (simp add: frame_def upto_def winding_status_def)
  moreover have "final_records w None (recs s)"
    using u base_length [OF bi] by (simp add: final_records_def upto_def list_all_length)
  ultimately have "wound E w s" unfolding wound_def by blast
  with q show ?thesis by (simp add: begin_termination_def wp_bnd wp_gets wp_ret)
next
  fix i assume "stopped E w i s"
  then consider (halted) "halted E w i s" | (upto) pt where "upto E w i s" "primary s = Some pt"
    unfolding stopped_def by blast
  then show ?thesis
  proof cases
    case halted
    from halted_skipping [OF halted] obtain pt where pt: "primary s = Some pt" by blast
    obtain rs where rs: "rs \<in> {RunRunning, RunWaitingForRepair, RunWaitingForApproval}" "run_state s = rs"
      using halted_skipping [OF halted] by (auto simp: skipping_def frame_def)
    have "skipping E w rs (Some pt) (calls s) (attempt_counts (recs s)) (ended w pt) k i 0 s \<and>
        calls_done w (attempt_counts (recs s)) (calls s)" for k
      using halted_skipping [OF halted, of k] pt rs(2) by (auto simp: skipping_def frame_def)
    with wp_wind winding_from [OF rs(1)] pt show ?thesis by blast
  next
    case upto
    from upto_skipping [OF upto] wp_wind [OF _ _ winding_from upto(2)] show ?thesis by blast
  qed
qed

lemma wp_run_prepared:
  assumes w: "starting E (flow p) [] s" and so: "sound (flow p)"
  shows "wp (run_prepared E p) (\<lambda>_. wound E (flow p)) (\<lambda>_ _. False) s"
proof -
  let ?w = "flow p" and ?X = "\<lambda>_ _. False"
  let ?loop = "seqc (transition_run E RunRunning None) (bnd (gets (\<lambda>s. length (recs s))) (\<lambda>n. step_loop E p [0..<n]))"
  have loop: "wp ?loop (\<lambda>_. wp (begin_termination E) (\<lambda>_. wound E ?w) ?X) ?X t"
    if t: "starting E ?w [CalledStart cx] t" for cx t
    unfolding wp_seqc
  proof (rule wp_transition_run)
    show "RunRunning \<in> set (run_transitions (run_state t))" using t by (simp add: starting_def)
    fix u assume m: "run_moved E RunRunning t u"
    from starting_between [OF t m] have b: "between E ?w 0 u" .
    then have n: "length (recs u) = 0 + length (steps ?w)"
      using base_length [of E ?w u] by (simp add: between_def upto_def)
    show "wp (bnd (gets (\<lambda>s. length (recs s))) (\<lambda>n. step_loop E p [0..<n]))
        (\<lambda>_. wp (begin_termination E) (\<lambda>_. wound E ?w) ?X) ?X u"
      unfolding wp_bnd wp_gets n
      by (rule wp_mono [OF wp_step_loop [OF so b]]) (simp_all add: wp_end_of_loop)
  qed
  have choose: "wp choose_primary (\<lambda>q. wp (whenc (q = None) ?loop)
      (\<lambda>_. wp (begin_termination E) (\<lambda>_. wound E ?w) ?X) ?X) ?X t"
    if t: "starting E ?w [CalledStart cx] t" for cx t
  proof (rule wp_choose_primary)
    show "coherent t" using t by (simp add: starting_def base_inv_def)
    show "wp (whenc (None = None) ?loop) (\<lambda>_. wp (begin_termination E) (\<lambda>_. wound E ?w) ?X) ?X t"
      using loop [OF t] by (simp add: wp_whenc)
    fix pt a
    let ?t = "t\<lparr>racing := a, primary := Some pt\<rparr>"
    assume co: "coherent ?t" and cause: "primary t = None \<longrightarrow> pt_cause pt \<in> tc_cause ` set (arb_pool (racing t))"
    have b: "base_inv E ?w ?t"
      using t co by (auto simp: starting_def base_inv_def synced_def rec_id_def log_inv_def run_log_def)
    have sk: "skipping E ?w RunStarting (Some pt) (calls ?t) (attempt_counts (recs ?t)) P k 0 0 ?t \<and>
        calls_done ?w (attempt_counts (recs ?t)) (calls ?t)" for P k
      by (rule starting_skipping [OF b, where cx = cx]) (use t in \<open>auto simp: starting_def calls_def\<close>)
    have e: "pt_cause pt \<in> early_causes" using t cause by (auto simp: starting_def)
    have "wp (begin_termination E) (\<lambda>_. wound E ?w) ?X ?t"
      by (rule wp_wind [OF conjunct1 [OF sk] conjunct2 [OF sk] winding_from_start [OF e]]) simp
    then show "wp (whenc (Some pt = None) ?loop) (\<lambda>_. wp (begin_termination E) (\<lambda>_. wound E ?w) ?X) ?X ?t"
      by (simp add: wp_whenc)
  qed
  show ?thesis
    unfolding run_prepared_def wp_block wp_bnd
  proof (rule wp_mono [OF wp_start_adapter [OF w]])
    fix a t assume "\<exists>cx. starting E ?w [CalledStart cx] t"
    then obtain cx where t: "starting E ?w [CalledStart cx] t" ..
    show "wp (record_deadline_if_elapsed E) (\<lambda>_. wp choose_primary (\<lambda>q. wp (whenc (q = None) ?loop)
        (\<lambda>_. wp (begin_termination E) (\<lambda>_. wound E ?w) ?X) ?X) ?X) ?X t"
      by (rule wp_quietly [OF quietly_elapsed]) (rule choose, erule starting_quiet [OF t])
  qed simp
qed

section \<open>Release and conclusion\<close>

definition stop_cause :: "primary_termination option \<Rightarrow> termination_cause" where
  "stop_cause q = (case q of None \<Rightarrow> RunCompleted | Some pt \<Rightarrow> Racing (pt_cause pt))"

definition released :: "world \<Rightarrow> workflow \<Rightarrow> run_status \<Rightarrow> primary_termination option \<Rightarrow> engine \<Rightarrow> bool" where
  "released E w rs q t \<longleftrightarrow>
     (\<exists>cs ns. frame E w rs q (cs @ [CalledStop (stop_cause q)]) ns t \<and>
        final_records w q (recs t) \<and> calls_done w ns cs)"

lemma released_quiet: "released E w rs q s \<Longrightarrow> quiet E s t \<Longrightarrow> released E w rs q t"
proof -
  assume r: "released E w rs q s" and qt: "quiet E s t"
  then have "recs t = recs s" by (simp add: quiet_def)
  with r frame_quiet [OF _ qt] show ?thesis unfolding released_def by fastforce
qed

lemma released_update:
  "released E w rs q s \<Longrightarrow>
     released E w rs q (s\<lparr>cleanup_error := e, summaries := os, store := st\<rparr>)"
  by (auto simp: released_def frame_def base_inv_def synced_def rec_id_def coherent_def log_inv_def
      run_log_def calls_def)

lemma wp_release:
  assumes w: "wound E w s"
  shows "wp (release E) (\<lambda>_ t. \<exists>q. released E w (winding_status q) q t) X s"
proof -
  from w obtain q cs ns where f: "frame E w (winding_status q) q cs ns s"
    and r: "final_records w q (recs s)" "calls_done w ns cs"
    unfolding wound_def by blast
  let ?Q = "\<lambda>_ t. \<exists>q. released E w (winding_status q) q t"
  let ?u = "s\<lparr>timer_armed := False, listening := False, trace := trace s @ [CalledStop (stop_cause q)]\<rparr>"
  have "frame E w (winding_status q) q (cs @ [CalledStop (stop_cause q)]) ns ?u"
    using f by (auto simp: frame_def calls_def base_inv_def synced_def rec_id_def coherent_def log_inv_def
        run_log_def map_filter_def)
  with r have u: "released E w (winding_status q) q ?u" by (auto simp: released_def)
  have "wp (await E) (\<lambda>n. wp (seqc (case adapter_stop E n (stop_cause q) of
               Inl x \<Rightarrow> modify (\<lambda>s. s\<lparr>cleanup_error := Some RESOURCE_CLEANUP_FAILED\<rparr>)
             | Inr e \<Rightarrow> modify (\<lambda>s. s\<lparr>cleanup_error := e\<rparr>))
         (modify (\<lambda>s. s\<lparr>summaries := os_summaries (store s), store := os_clear (store s)\<rparr>))) ?Q X) X ?u"
  proof (rule wp_quietly [OF quietly_await])
    fix n t assume "quiet E ?u t"
    then have t: "released E w (winding_status q) q t" by (rule released_quiet [OF u])
    show "wp (seqc (case adapter_stop E n (stop_cause q) of
               Inl x \<Rightarrow> modify (\<lambda>s. s\<lparr>cleanup_error := Some RESOURCE_CLEANUP_FAILED\<rparr>)
             | Inr e \<Rightarrow> modify (\<lambda>s. s\<lparr>cleanup_error := e\<rparr>))
         (modify (\<lambda>s. s\<lparr>summaries := os_summaries (store s), store := os_clear (store s)\<rparr>))) ?Q X t"
      using released_update [OF t] by (cases "adapter_stop E n (stop_cause q)") (auto simp: wp_seqc wp_modify)
  qed
  moreover have "primary s = q" using f by (simp add: frame_def)
  ultimately show ?thesis
    by (simp add: release_def wp_seqc wp_bnd wp_gets wp_modify observe_def stop_cause_def)
qed

text \<open>Status, cause and error of a run.\<close>

fun outcome_of ::
  "primary_termination option \<Rightarrow> error_code option \<Rightarrow> run_status \<times> termination_cause \<times> error_code option" where
  "outcome_of (Some pt) cleanup = (terminal_status_for (pt_cause pt), Racing (pt_cause pt), Some (pt_error pt))"
| "outcome_of None (Some e) = (RunFailed, CleanupFailed, Some e)"
| "outcome_of None None = (RunSucceeded, RunCompleted, None)"

lemma outcome_terminal: "is_terminal_run (fst (outcome_of q c))"
proof (cases q)
  case None
  then show ?thesis by (cases c) (simp_all add: is_terminal_run_def)
next
  case (Some pt)
  then show ?thesis by (cases "pt_cause pt") (simp_all add: is_terminal_run_def)
qed

lemma wp_released_run:
  assumes w: "released E w rs q s" and ok: "n \<in> set (run_transitions rs)"
    and Q: "\<And>t. released E w n q t \<Longrightarrow> cleanup_error t = cleanup_error s \<Longrightarrow> Q () t"
  shows "wp (transition_run E n err) Q X s"
proof -
  from w obtain cs ns where f: "frame E w rs q (cs @ [CalledStop (stop_cause q)]) ns s"
    and r: "final_records w q (recs s)" "calls_done w ns cs"
    unfolding released_def by blast
  show ?thesis
  proof (rule wp_frame_run [OF f ok])
    fix t assume t: "frame E w n q (cs @ [CalledStop (stop_cause q)]) ns t" "recs t = recs s"
      and c: "cleanup_error t = cleanup_error s"
    from t r have "released E w n q t" unfolding released_def by metis
    then show "Q () t" using c by (rule Q)
  qed
qed

lemma wp_conclude:
  assumes w: "released E w (winding_status q) q s"
  shows "wp (conclude E) (\<lambda>r t. r = outcome_of q (cleanup_error t) \<and> released E w (fst r) q t) X s"
proof -
  let ?Q = "\<lambda>r t. r = outcome_of q (cleanup_error t) \<and> released E w (fst r) q t"
  have q: "primary s = q" using w by (auto simp: released_def frame_def)
  show ?thesis
  proof (cases q)
    case None
    have "wp (transition_run E n err) (\<lambda>_. ?Q (n, c, err)) X s"
      if n: "n \<in> {RunSucceeded, RunFailed}" "(n, c, err) = outcome_of None (cleanup_error s)" for n c err
    proof (rule wp_released_run [OF w])
      show "n \<in> set (run_transitions (winding_status q))" using n None by (auto simp: winding_status_def)
      fix t assume "released E w n q t" "cleanup_error t = cleanup_error s"
      with n(2) [symmetric] None show "?Q (n, c, err) t" by simp
    qed
    with None q show ?thesis
      by (cases "cleanup_error s") (simp_all add: conclude_def wp_bnd wp_gets wp_seqc wp_ret)
  next
    case (Some pt)
    show ?thesis
    proof (cases "is_cancelling_cause (pt_cause pt)")
      case True
      then have "terminal_status_for (pt_cause pt) = RunCancelled" by (auto simp: is_cancelling_cause_def)
      moreover have "wp (transition_run E RunCancelled (Some (pt_error pt)))
          (\<lambda>_. ?Q (RunCancelled, Racing (pt_cause pt), Some (pt_error pt))) X s"
        by (rule wp_released_run [OF w]) (use True Some calculation in \<open>auto simp: winding_status_def\<close>)
      ultimately show ?thesis
        using True Some q by (simp add: conclude_def wp_bnd wp_gets wp_seqc wp_ret wp_whenc)
    next
      case False
      with Some q w show ?thesis
        by (simp add: conclude_def wp_bnd wp_gets wp_seqc wp_ret wp_whenc winding_status_def)
    qed
  qed
qed

section \<open>The report\<close>

text \<open>Every record is final: the result is built, unless its schema rejects it.\<close>

definition all_final :: "exec_record list \<Rightarrow> bool" where
  "all_final rs \<longleftrightarrow> (\<forall>r \<in> set rs. is_terminal_step (xr_status r) \<and> xr_finished r \<noteq> None)"

lemma skipped_final: "skipped k r \<Longrightarrow> is_terminal_step (xr_status r) \<and> xr_finished r \<noteq> None"
proof -
  assume "skipped k r"
  then obtain st t where "r = (new_record st)\<lparr>xr_skipped := Some k, xr_finished := Some t, xr_status := StSkipped\<rparr>"
    unfolding skipped_def by blast
  then show ?thesis by (simp add: is_terminal_step_def)
qed

lemma visited_final:
  assumes v: "visited w P k i (length rs) rs"
    and P: "\<And>r. P r \<Longrightarrow> is_terminal_step (xr_status r) \<and> xr_finished r \<noteq> None"
  shows "all_final rs"
  unfolding all_final_def
proof
  fix r assume "r \<in> set rs"
  then obtain j where j: "j < length rs" "rs ! j = r" by (auto simp: in_set_conv_nth)
  show "is_terminal_step (xr_status r) \<and> xr_finished r \<noteq> None"
  proof (cases "j < i")
    case True
    with v j show ?thesis by (auto simp: visited_def succeeded_def is_terminal_step_def)
  next
    case False
    with v j have "visit_ok P k i (length rs) j r" by (auto simp: visited_def)
    with j(1) P skipped_final show ?thesis by (auto simp: visit_ok_def)
  qed
qed

lemma final_records_all:
  assumes "final_records w q rs" and n: "length rs = length (steps w)"
  shows "all_final rs"
proof (cases q)
  case None
  with assms show ?thesis
    by (auto simp: final_records_def all_final_def list_all_iff succeeded_def is_terminal_step_def)
next
  case (Some pt)
  with assms obtain i where "visited w (ended w pt) (skip_reason_for (pt_cause pt)) i (length rs) rs"
    by (auto simp: final_records_def)
  then show ?thesis
    by (rule visited_final) (use step_status_for_terminal in \<open>auto simp: ended_def\<close>)
qed

definition report_of ::
  "world \<Rightarrow> int \<Rightarrow> workflow option \<Rightarrow> run_status \<Rightarrow> termination_cause \<Rightarrow> engine_warning list
    \<Rightarrow> error_code option \<Rightarrow> string option \<Rightarrow> output_summary list option \<Rightarrow> exec_record list \<Rightarrow> int
    \<Rightarrow> engine_exn + execution_result" where
  "report_of E started w status cause warnings err failed outputs rs t =
     build_execution_result (id_is_uuid E)
       \<lparr>fi_workflow = w, fi_status = status, fi_started = started, fi_finished = t,
        fi_cause = cause, fi_records = rs, fi_warnings = warnings, fi_error = err,
        fi_failed_step = failed, fi_outputs = outputs\<rparr>"

lemma wp_report:
  assumes fin: "all_final (recs s)"
    and Q: "\<And>res t x. quiet E s t \<Longrightarrow>
      report_of E started w status cause warnings err failed outputs (recs t) x = Inr res \<Longrightarrow> Q res t"
    and X: "\<And>t. quiet E s t \<Longrightarrow> X SchemaRejected t"
  shows "wp (report E started w status cause warnings err failed outputs) Q X s"
  unfolding report_def report_of_def [symmetric] wp_bnd wp_gets
proof (rule wp_quietly [OF quietly_now])
  fix a t assume t: "quiet E s t"
  have "recs t = recs s" using t by (simp add: quiet_def)
  with fin collect_results_total [of "recs t"] obtain xs where "collect_results (recs t) = Inr xs"
    by (auto simp: all_final_def)
  then have e: "report_of E started w status cause warnings err failed outputs (recs t) a = Inl x \<Longrightarrow> x = SchemaRejected" for x
    by (auto simp: report_of_def build_execution_result_def Let_def split: if_splits)
  show "wp (case report_of E started w status cause warnings err failed outputs (recs t) a of
         Inl x \<Rightarrow> throw x | Inr r \<Rightarrow> ret r) Q X t"
  proof (cases "report_of E started w status cause warnings err failed outputs (recs t) a")
    case (Inl x)
    with e X [OF t] show ?thesis by (simp add: wp_throw)
  next
    case (Inr r)
    with Q [OF t Inr] show ?thesis by (simp add: wp_ret)
  qed
qed

text \<open>What a result built from the records says of them.\<close>

definition reports :: "execution_result \<Rightarrow> exec_record list \<Rightarrow> bool" where
  "reports res rs \<longleftrightarrow>
     collect_results rs = Inr (res_steps res) \<and> res_counts res = counts_of (res_steps res) \<and>
     list_all step_result_schema_ok (res_steps res)"

lemma report_of_Inr:
  "report_of E started w status cause warnings err failed outputs rs t = Inr res \<Longrightarrow>
     reports res rs \<and> res_status res = status \<and> res_cause res = cause \<and> res_error res = err \<and>
     res_failed_step res = failed \<and> res_workflow_id res = map_option workflow_id w \<and>
     res_warnings res = warnings \<and> res_duration res \<ge> 0 \<and> res_started res = started \<and> id_is_uuid E"
  by (auto simp: report_of_def build_execution_result_def Let_def reports_def assemble_result_def result_schema_ok_def
      split: sum.splits if_splits)

section \<open>executePrepared\<close>

definition over :: "world \<Rightarrow> workflow \<Rightarrow> primary_termination option \<Rightarrow> engine \<Rightarrow> bool" where
  "over E w q t \<longleftrightarrow> released E w (fst (outcome_of q (cleanup_error t))) q t"

lemma over_quiet: "over E w q s \<Longrightarrow> quiet E s t \<Longrightarrow> over E w q t"
proof -
  assume o': "over E w q s" and qt: "quiet E s t"
  then have "cleanup_error t = cleanup_error s" by (simp add: quiet_def)
  with o' released_quiet [OF _ qt] show ?thesis by (simp add: over_def)
qed

text \<open>The state in which the run is armed: no cause has been recorded but an abort.\<close>

definition armable :: "world \<Rightarrow> workflow \<Rightarrow> engine \<Rightarrow> bool" where
  "armable E w s \<longleftrightarrow>
     synced s \<and> map xr_step (recs s) = steps w \<and> log_inv E s \<and> list_all fresh (recs s) \<and>
     run_state s = RunValidating \<and> sm_running (step_states s) = None \<and> calls s = []"

lemma armable_quiet: "armable E w s \<Longrightarrow> quiet E s t \<Longrightarrow> armable E w t"
  using synced_quiet [of E s t] by (auto simp: armable_def quiet_def)

definition armed :: "world \<Rightarrow> workflow \<Rightarrow> engine \<Rightarrow> bool" where
  "armed E w s \<longleftrightarrow>
     armable E w s \<and> primary s = None \<and> arb_locked (racing s) = None \<and>
     (\<forall>c \<in> set (arb_pool (racing s)). tc_cause c \<in> early_causes)"

lemma armed_quiet: "armed E w s \<Longrightarrow> quiet E s t \<Longrightarrow> armed E w t"
  using armable_quiet [of E w s t]
  by (auto simp: armed_def quiet_def raced_def early_causes_def)

lemma wp_arm:
  assumes a: "armable E w s"
  shows "wp (arm E p) (\<lambda>_ t. armed E w t) X s"
proof -
  define m where "m d st l t = t\<lparr>deadline := d, store := st, racing := new_arbiter, primary := None, listening := l\<rparr>"
    for d st l and t :: engine
  have armed_m: "armed E w (m d st l t)" if "armable E w t" for d st l t
    using that
    by (auto simp: m_def armed_def armable_def synced_def rec_id_def log_inv_def run_log_def calls_def
        new_arbiter_def arb_pool_def)
  have upd: "armed E w (t\<lparr>timer_armed := True, summaries := os\<rparr>)" if "armed E w t" for os t
    using that by (auto simp: armed_def armable_def synced_def rec_id_def log_inv_def run_log_def calls_def)
  have q: "quietly E (bnd (gets (\<lambda>s. signal_given E \<and> signal_aborted s)) (\<lambda>b. whenc b (on_external_abort E)))"
    by (intro quiet_ops)
  show ?thesis
    unfolding arm_def wp_bnd wp_block wp_modify m_def [symmetric]
  proof (rule wp_quietly [OF quietly_now])
    fix x t assume t: "quiet E s t"
    note am = armed_m [OF armable_quiet [OF a t]]
    show "wp (gets (\<lambda>s. signal_given E \<and> signal_aborted s)) (\<lambda>b. wp (whenc b (on_external_abort E))
        (\<lambda>_ s. armed E w (s\<lparr>timer_armed := True, summaries := os_summaries (store s)\<rparr>)) X) X
        (m (x + eo_total (er_options (pr_request p))) (new_output_store (define_workflow_outputs (flow p))) (signal_given E) t)"
      unfolding wp_bnd [symmetric]
      by (rule wp_quietly [OF q]) (intro upd, erule armed_quiet [OF am])
  qed
qed

lemma wp_execute_prepared:
  assumes a: "armable E (flow p) s" and so: "sound (flow p)"
  shows "wp (execute_prepared E p started)
     (\<lambda>res t. \<exists>q. over E (flow p) q t \<and> reports res (recs t) \<and>
        (res_status res, res_cause res, res_error res) = outcome_of q (cleanup_error t) \<and>
        res_failed_step res = Option.bind q pt_step)
     (\<lambda>x t. x = SchemaRejected \<and> (\<exists>q. over E (flow p) q t)) s"
proof -
  let ?w = "flow p"
  let ?Q = "\<lambda>res t. \<exists>q. over E ?w q t \<and> reports res (recs t) \<and>
        (res_status res, res_cause res, res_error res) = outcome_of q (cleanup_error t) \<and>
        res_failed_step res = Option.bind q pt_step"
  let ?X = "\<lambda>x t. x = SchemaRejected \<and> (\<exists>q. over E ?w q t)"
  let ?report = "\<lambda>cleanup (status, cause, err). bnd (gets (\<lambda>s. (run_state s, progress_warnings s, primary s, summaries s)))
         (\<lambda>(final, warnings, q, outs).
          if \<not> is_terminal_run final then throw OtherException
          else report E started (Some ?w) status cause
            (warnings @ (if cleanup \<noteq> None then [WarnResourceCleanupFailed] else []))
            err (Option.bind q pt_step) (Some outs))"
  let ?close = "bnd (gets cleanup_error) (\<lambda>cleanup.
      seqc (whenc (cleanup \<noteq> None) (emit E (EvWarning WarnResourceCleanupFailed)))
      (bnd (conclude E) (?report cleanup)))"
  have rep: "wp (?report cleanup r) ?Q ?X t"
    if r: "r = outcome_of q (cleanup_error t)" "released E ?w (fst r) q t" for cleanup r q t
  proof -
    obtain status cause err where e: "r = (status, cause, err)" by (cases r)
    have ov: "over E ?w q t" using r by (simp add: over_def)
    have "released E ?w status q t" using r(2) e by simp
    then have f: "run_state t = status" "primary t = q" "final_records ?w q (recs t)" "base_inv E ?w t"
      by (auto simp: released_def frame_def)
    have tm: "is_terminal_run status" using outcome_terminal [of q "cleanup_error t"] unfolding r(1) [symmetric] e by simp
    have fin: "all_final (recs t)" by (rule final_records_all [OF f(3) base_length [OF f(4)]])
    have "wp (report E started (Some ?w) status cause ws err (Option.bind q pt_step) (Some outs)) ?Q ?X t" for ws outs
    proof (rule wp_report [OF fin])
      fix res u x assume u: "quiet E t u"
        and res: "report_of E started (Some ?w) status cause ws err (Option.bind q pt_step) (Some outs) (recs u) x = Inr res"
      have "cleanup_error u = cleanup_error t" using u by (simp add: quiet_def)
      moreover have "(status, cause, err) = outcome_of q (cleanup_error t)" using r(1) e by simp
      ultimately show "?Q res u" using report_of_Inr [OF res] over_quiet [OF ov u] by auto
    next
      fix u assume "quiet E t u"
      with over_quiet [OF ov] show "?X SchemaRejected u" by blast
    qed
    with e tm f show ?thesis by (simp add: wp_bnd wp_gets)
  qed
  have fin: "wp ?close ?Q ?X t" if t: "\<exists>q. released E ?w (winding_status q) q t" for t
  proof -
    from t obtain q where t: "released E ?w (winding_status q) q t" by blast
    have q: "quietly E (whenc b (emit E (EvWarning WarnResourceCleanupFailed)))" for b
      by (intro quiet_ops) (simp add: run_event_def)
    show ?thesis
      unfolding wp_bnd wp_gets wp_seqc
    proof (rule wp_quietly [OF q])
      fix z u assume "quiet E t u"
      then have u: "released E ?w (winding_status q) q u" by (rule released_quiet [OF t])
      show "wp (conclude E) (\<lambda>r. wp (?report (cleanup_error t) r) ?Q ?X) ?X u"
      proof (rule wp_mono [OF wp_conclude [OF u, where X = "\<lambda>_ _. False"]])
        fix r v assume "r = outcome_of q (cleanup_error v) \<and> released E ?w (fst r) q v"
        then have "r = outcome_of q (cleanup_error v)" "released E ?w (fst r) q v" by blast+
        then show "wp (?report (cleanup_error t) r) ?Q ?X v" by (rule rep)
      qed simp
    qed
  qed
  show ?thesis
    unfolding execute_prepared_def wp_seqc
  proof (rule wp_mono [OF wp_arm [OF a, where X = "\<lambda>_ _. False"]])
    fix z t assume t: "armed E ?w t"
    show "wp (transition_run E RunStarting None)
        (\<lambda>_. wp (finally_do (run_prepared E p) (release E)) (\<lambda>_. wp ?close ?Q ?X) ?X) ?X t"
    proof (rule wp_transition_run)
      show "RunStarting \<in> set (run_transitions (run_state t))" using t by (simp add: armed_def armable_def)
      fix u assume m: "run_moved E RunStarting t u"
      have "starting E ?w [] u"
        using t m by (auto simp: starting_def armed_def armable_def run_moved_def base_inv_def synced_def rec_id_def
            coherent_def raced_def early_causes_def)
      note start = wp_run_prepared [OF this so]
      show "wp (finally_do (run_prepared E p) (release E)) (\<lambda>_. wp ?close ?Q ?X) ?X u"
        unfolding wp_finally
      proof (rule wp_mono [OF start])
        fix y v assume "wound E ?w v"
        then show "wp (release E) (\<lambda>_. wp ?close ?Q ?X) ?X v"
        proof (rule wp_mono [OF wp_release [where X = "\<lambda>_ _. False"]])
          fix x v' assume "\<exists>q. released E ?w (winding_status q) q v'"
          then show "wp ?close ?Q ?X v'" by (rule fin)
        qed simp
      qed simp
    qed
  qed simp
qed

end
