(* ===== verification/Engine_Main.thy ===== *)
theory Engine_Main
  imports Engine_Run
begin

text \<open>
  \<open>execute\<close>: the run before the preflight, its three ways on, and the theorems on whole runs.
\<close>

section \<open>What the preflight establishes for the run\<close>

lemma typed_workflow_sound:
  assumes "preflight_workflow_execution h rq = PreflightOk p"
  shows "find_typed_workflow rq = Some (flow p) \<and> sound (flow p)"
proof -
  from assms obtain w vs os origins e r where
    pass: "preflight_passed h rq w vs os origins e r" and p: "p = prepared_of w vs os origins e r"
    unfolding preflight_Ok_iff by blast
  from pass have bound: "Option.bind (rq_workflow rq) parse_workflow = Some w" and a: "analyses_error h w = Inr None"
    by (auto simp: preflight_passed_def)
  then obtain w0 where "parse_workflow w0 = Some w" by (cases "rq_workflow rq") auto
  then have "distinct (map step_id (steps w))"
    using parse_workflow_wf by (auto simp: wf_workflow_def)
  with analyses_error_None [OF a] bound p show ?thesis
    by (simp add: sound_def find_typed_workflow_def prepared_of_def)
qed

lemma typed_workflow_distinct:
  "find_typed_workflow rq = Some w \<Longrightarrow> distinct (map step_id (steps w))"
  using parse_workflow_wf by (cases "rq_workflow rq") (auto simp: find_typed_workflow_def wf_workflow_def)

lemma failure_workflow:
  "preflight_workflow_execution h rq = PreflightFailure c w \<Longrightarrow> w = find_typed_workflow rq"
  by (auto simp: preflight_workflow_execution_def preflight_origins_def Let_def find_typed_workflow_def
      split: if_splits option.splits sum.splits)

section \<open>Before the run\<close>

definition flow_steps :: "workflow option \<Rightarrow> workflow_step list" where
  "flow_steps ow = (case ow of None \<Rightarrow> [] | Some w \<Rightarrow> steps w)"

definition opened :: "world \<Rightarrow> run_status \<Rightarrow> engine \<Rightarrow> bool" where
  "opened E rs s \<longleftrightarrow>
     log_inv E s \<and> run_state s = rs \<and> recs s = [] \<and> primary s = None \<and> calls s = []"

definition laid_out :: "world \<Rightarrow> workflow option \<Rightarrow> run_status \<Rightarrow> engine \<Rightarrow> bool" where
  "laid_out E ow rs s \<longleftrightarrow>
     log_inv E s \<and> run_state s = rs \<and> recs s = create_records ow \<and> synced s \<and>
     sm_running (step_states s) = None \<and> primary s = None \<and> arb_locked (racing s) = None \<and> calls s = []"

lemma opened_quiet: "opened E rs s \<Longrightarrow> quiet E s t \<Longrightarrow> opened E rs t"
  by (auto simp: opened_def quiet_def)

lemma laid_out_quiet: "laid_out E ow rs s \<Longrightarrow> quiet E s t \<Longrightarrow> laid_out E ow rs t"
  using synced_quiet [of E s t] by (auto simp: laid_out_def quiet_def raced_def)

text \<open>The first event: from here on the reported statuses are up to date.\<close>

lemma wp_open:
  "wp (seqc (now_ms E) (emit E (EvRun RunPending None)))
     (\<lambda>_ t. opened E RunPending t \<and> arb_locked (racing t) = None) X (initial_engine a)"
proof -
  let ?s = "(initial_engine a)\<lparr>readings := 2\<rparr>"
  let ?Q = "\<lambda>_ t. opened E RunPending t \<and> arb_locked (racing t) = None"
  have "wp (emit_at E x (EvRun RunPending None)) ?Q X ?s" for x
  proof (cases "sink_given E")
    case False
    then show ?thesis
      by (simp add: emit_at_def wp_rules initial_engine_def opened_def log_inv_def run_log_def calls_def new_arbiter_def)
  next
    case on: True
    show ?thesis
    proof (cases "id_is_uuid E")
      case False
      with on show ?thesis
        by (simp add: emit_at_def disable_sink_def wp_rules initial_engine_def opened_def log_inv_def
            run_log_def calls_def new_arbiter_def)
    next
      case True
      let ?t = "?s\<lparr>emissions := 1, trace := [Emitted x (EvRun RunPending None)]\<rparr>"
      have t: "opened E RunPending ?t" "arb_locked (racing ?t) = None"
        by (simp_all add: initial_engine_def opened_def log_inv_def run_log_def calls_def new_arbiter_def)
      have "quietly E (block [whenc (sink_aborts E 0) (signal_abort E), whenc (sink_throws E 0) disable_sink])"
        by (intro quiet_ops quietly_disable)
      then have "wp (block [whenc (sink_aborts E 0) (signal_abort E), whenc (sink_throws E 0) disable_sink]) ?Q X ?t"
        by (rule wp_quietly) (use t opened_quiet [OF t(1)] in \<open>auto simp: quiet_def raced_def\<close>)
      with on True show ?thesis
        by (simp add: emit_at_def call_sink_def observe_def wp_rules initial_engine_def)
    qed
  qed
  then show ?thesis
    by (simp add: emit_def now_ms_def wp_rules initial_engine_def numeral_2_eq_2)
qed

lemma wp_initialize:
  assumes o': "opened E rs s" "arb_locked (racing s) = None"
    and d: "distinct (map step_id (flow_steps ow))"
  shows "wp (initialize_steps E ow) (\<lambda>_. laid_out E ow rs) X s"
proof -
  let ?m = "new_step_machine (map (\<lambda>r. step_id (xr_step r)) (create_records ow))"
  let ?t = "s\<lparr>recs := create_records ow, step_states := ?m\<rparr>"
  have steps: "map xr_step (create_records ow) = flow_steps ow"
    by (cases ow) (simp_all add: create_records_def flow_steps_def new_record_def comp_def)
  have ids: "map (\<lambda>r. step_id (xr_step r)) (create_records ow) = map step_id (flow_steps ow)"
    unfolding steps [symmetric] by simp
  have new: "r \<in> set (create_records ow) \<Longrightarrow> xr_status r = StPending" for r
    by (cases ow) (auto simp: create_records_def new_record_def)
  have "synced ?t"
    unfolding synced_def rec_id_def
  proof (intro conjI allI impI)
    show "distinct (map (\<lambda>r. step_id (xr_step r)) (recs ?t))" using d ids by simp
    fix i assume "i < length (recs ?t)"
    then have "recs ?t ! i \<in> set (create_records ow)" by simp
    with new show "sm_states (step_states ?t) (step_id (xr_step (recs ?t ! i))) = Some (xr_status (recs ?t ! i))"
      by (auto simp: new_step_machine_def)
  qed
  then have t: "laid_out E ow rs ?t"
    using o' by (auto simp: laid_out_def opened_def log_inv_def run_log_def calls_def new_step_machine_def)
  have q: "quietly E (for_each (create_records ow) (\<lambda>r.
      emit E (EvStep (step_id (xr_step r)) (step_type_of (xr_step r)) StPending None None)))"
    by (intro quiet_ops) (simp add: run_event_def)
  show ?thesis
    unfolding initialize_steps_def wp_seqc wp_modify
    by (rule wp_quietly [OF q]) (rule laid_out_quiet [OF t])
qed

text \<open>A run that ends before the adapter is started: every step is skipped.\<close>

definition unstarted :: "world \<Rightarrow> workflow option \<Rightarrow> skip_reason \<Rightarrow> run_status \<Rightarrow> engine \<Rightarrow> bool" where
  "unstarted E ow k rs t \<longleftrightarrow>
     log_inv E t \<and> run_state t = rs \<and> map xr_step (recs t) = flow_steps ow \<and>
     list_all (skipped k) (recs t) \<and> calls t = []"

lemma unstarted_quiet: "unstarted E ow k rs s \<Longrightarrow> quiet E s t \<Longrightarrow> unstarted E ow k rs t"
  by (auto simp: unstarted_def quiet_def)

lemma unstarted_moved: "unstarted E ow k rs s \<Longrightarrow> run_moved E n s t \<Longrightarrow> unstarted E ow k n t"
  by (auto simp: unstarted_def run_moved_def)

lemma wp_skip_all:
  assumes l: "laid_out E ow rs s"
  shows "wp (skip_pending E k) (\<lambda>_. unstarted E ow k rs) (\<lambda>_ _. False) s"
proof -
  define w where "w = (undefined :: workflow)\<lparr>steps := flow_steps ow\<rparr>"
  have w: "steps w = flow_steps ow" by (simp add: w_def)
  have rec: "map xr_step (recs s) = flow_steps ow" "list_all fresh (recs s)"
    using l by (cases ow; auto simp: laid_out_def create_records_def flow_steps_def new_record_def fresh_def comp_def list_all_iff)+
  have "base_inv E w s"
    using l rec by (simp add: base_inv_def laid_out_def coherent_def w)
  then have "skipping E w rs None [] (attempt_counts (recs s)) (\<lambda>_. False) k 0 0 s"
    using l rec by (simp add: skipping_def frame_def laid_out_def visited_def visit_ok_def list_all_length)
  from wp_skip_pending [OF this] show ?thesis
  proof (rule wp_mono)
    fix x t assume t: "skipping E w rs None [] (attempt_counts (recs s)) (\<lambda>_. False) k 0 (length (steps w)) t"
    then have b: "base_inv E w t" by (simp add: skipping_def frame_def)
    with t base_length [OF b] show "unstarted E ow k rs t"
      by (auto simp: unstarted_def skipping_def frame_def base_inv_def w visited_def visit_ok_def list_all_length)
  qed simp
qed

lemma unstarted_final: "unstarted E ow k rs t \<Longrightarrow> all_final (recs t)"
  using skipped_final by (auto simp: unstarted_def all_final_def list_all_iff)

section \<open>The run as a whole\<close>

text \<open>How an execution ends, in a result \<open>res\<close> or a rejection of it.\<close>

definition prevented :: "world \<Rightarrow> workflow option \<Rightarrow> skip_reason \<Rightarrow> run_status \<Rightarrow> engine \<Rightarrow> bool" where
  "prevented E ow k rs t \<longleftrightarrow> unstarted E ow k rs t \<and>
     (k = SkRunCancelled \<and> rs = RunCancelled \<or> k = SkPreflightFailed \<and> rs = RunFailed)"

definition ended_state :: "world \<Rightarrow> workflow option \<Rightarrow> engine \<Rightarrow> bool" where
  "ended_state E ow t \<longleftrightarrow>
     (\<exists>k rs. prevented E ow k rs t) \<or> (\<exists>w q. ow = Some w \<and> over E w q t)"

definition ended_with :: "world \<Rightarrow> workflow option \<Rightarrow> execution_result \<Rightarrow> engine \<Rightarrow> bool" where
  "ended_with E ow res t \<longleftrightarrow>
     reports res (recs t) \<and> res_status res = run_state t \<and>
     ((\<exists>k rs. prevented E ow k rs t \<and> res_failed_step res = None \<and>
         (k = SkRunCancelled \<and> res_cause res = Racing RunWasCancelled \<and> res_error res = Some EXECUTION_CANCELLED \<or>
          k = SkPreflightFailed \<and> res_cause res = PreflightFailed \<and> res_error res \<noteq> None)) \<or>
      (\<exists>w q. ow = Some w \<and> over E w q t \<and>
         (res_status res, res_cause res, res_error res) = outcome_of q (cleanup_error t) \<and>
         res_failed_step res = Option.bind q pt_step))"

abbreviation rejected :: "world \<Rightarrow> workflow option \<Rightarrow> engine_exn \<Rightarrow> engine \<Rightarrow> bool" where
  "rejected E ow x t \<equiv> x = SchemaRejected \<and> ended_state E ow t"

lemma wp_cancelled_early:
  assumes l: "laid_out E ow rs s" and rs: "rs = RunPending \<or> rs = RunValidating"
  shows "wp (cancelled_early E started ow) (ended_with E ow) (rejected E ow) s"
  unfolding cancelled_early_def wp_seqc
proof (rule wp_transition_run)
  show "RunCancelling \<in> set (run_transitions (run_state s))" using l rs by (auto simp: laid_out_def)
  fix t assume m: "run_moved E RunCancelling s t"
  have t: "laid_out E ow RunCancelling t"
    using l m by (auto simp: laid_out_def run_moved_def synced_def rec_id_def raced_def)
  show "wp (skip_pending E SkRunCancelled) (\<lambda>_. wp (transition_run E RunCancelled (Some EXECUTION_CANCELLED))
      (\<lambda>_. wp (bnd (gets progress_warnings) (\<lambda>warnings. report E started ow RunCancelled
         (Racing RunWasCancelled) warnings (Some EXECUTION_CANCELLED) None None)) (ended_with E ow) (rejected E ow))
      (rejected E ow)) (rejected E ow) t"
  proof (rule wp_mono [OF wp_skip_all [OF t]])
    fix x u assume u: "unstarted E ow SkRunCancelled RunCancelling u"
    show "wp (transition_run E RunCancelled (Some EXECUTION_CANCELLED))
      (\<lambda>_. wp (bnd (gets progress_warnings) (\<lambda>warnings. report E started ow RunCancelled
         (Racing RunWasCancelled) warnings (Some EXECUTION_CANCELLED) None None)) (ended_with E ow) (rejected E ow))
      (rejected E ow) u"
    proof (rule wp_transition_run)
      show "RunCancelled \<in> set (run_transitions (run_state u))" using u by (simp add: unstarted_def)
      fix v assume "run_moved E RunCancelled u v"
      with u have v: "unstarted E ow SkRunCancelled RunCancelled v" by (rule unstarted_moved)
      show "wp (bnd (gets progress_warnings) (\<lambda>warnings. report E started ow RunCancelled
         (Racing RunWasCancelled) warnings (Some EXECUTION_CANCELLED) None None)) (ended_with E ow) (rejected E ow) v"
        unfolding wp_bnd wp_gets
      proof (rule wp_report [OF unstarted_final [OF v]])
        fix res x' y assume y: "quiet E v x'"
          and res: "report_of E started ow RunCancelled (Racing RunWasCancelled) (progress_warnings v)
            (Some EXECUTION_CANCELLED) None None (recs x') y = Inr res"
        have "prevented E ow SkRunCancelled RunCancelled x'"
          using unstarted_quiet [OF v y] by (simp add: prevented_def)
        moreover from this have "run_state x' = RunCancelled" by (simp add: prevented_def unstarted_def)
        ultimately show "ended_with E ow res x'"
          using report_of_Inr [OF res] unfolding ended_with_def by auto
      next
        fix x' assume "quiet E v x'"
        with unstarted_quiet [OF v] show "rejected E ow SchemaRejected x'"
          by (auto simp: ended_state_def prevented_def)
      qed
    qed
  qed simp
qed

lemma wp_failed_preflight:
  assumes l: "laid_out E ow RunValidating s"
  shows "wp (failed_preflight E started ow c) (ended_with E ow) (rejected E ow) s"
  unfolding failed_preflight_def wp_seqc
proof (rule wp_mono [OF wp_skip_all [OF l]])
  fix x u assume u: "unstarted E ow SkPreflightFailed RunValidating u"
  show "wp (transition_run E RunFailed (Some c))
      (\<lambda>_. wp (bnd (gets progress_warnings) (\<lambda>warnings. report E started ow RunFailed PreflightFailed
         warnings (Some c) None None)) (ended_with E ow) (rejected E ow)) (rejected E ow) u"
  proof (rule wp_transition_run)
    show "RunFailed \<in> set (run_transitions (run_state u))" using u by (simp add: unstarted_def)
    fix v assume "run_moved E RunFailed u v"
    with u have v: "unstarted E ow SkPreflightFailed RunFailed v" by (rule unstarted_moved)
    show "wp (bnd (gets progress_warnings) (\<lambda>warnings. report E started ow RunFailed PreflightFailed
         warnings (Some c) None None)) (ended_with E ow) (rejected E ow) v"
      unfolding wp_bnd wp_gets
    proof (rule wp_report [OF unstarted_final [OF v]])
      fix res x' y assume y: "quiet E v x'"
        and res: "report_of E started ow RunFailed PreflightFailed (progress_warnings v) (Some c) None None (recs x') y = Inr res"
      have "prevented E ow SkPreflightFailed RunFailed x'"
        using unstarted_quiet [OF v y] by (simp add: prevented_def)
      moreover from this have "run_state x' = RunFailed" by (simp add: prevented_def unstarted_def)
      ultimately show "ended_with E ow res x'"
        using report_of_Inr [OF res] unfolding ended_with_def by auto
    next
      fix x' assume "quiet E v x'"
      with unstarted_quiet [OF v] show "rejected E ow SchemaRejected x'"
        by (auto simp: ended_state_def prevented_def)
    qed
  qed
qed simp

section \<open>execute\<close>

definition thrown :: "world \<Rightarrow> raw_request \<Rightarrow> engine_exn \<Rightarrow> engine \<Rightarrow> bool" where
  "thrown E rq x t \<longleftrightarrow>
     rejected E (find_typed_workflow rq) x t \<or>
     x = OtherException \<and> preflight_workflow_execution (the_host E) rq = PreflightThrows \<and> opened E RunValidating t"

lemma wp_branches:
  assumes o': "opened E RunValidating s" "arb_locked (racing s) = None"
    and w: "case r of PreflightOk p \<Rightarrow> ow = Some (flow p) \<and> sound (flow p) | PreflightFailure c w \<Rightarrow> w = ow
      | PreflightThrows \<Rightarrow> False"
    and d: "distinct (map step_id (flow_steps ow))"
  shows "wp (seqc (initialize_steps E ow) (bnd (is_signal_aborted E) (\<lambda>aborted.
            if aborted then cancelled_early E started ow
            else case r of
              PreflightOk p \<Rightarrow> execute_prepared E p started
            | PreflightFailure c w' \<Rightarrow> failed_preflight E started ow c
            | PreflightThrows \<Rightarrow> throw OtherException))) (ended_with E ow) (rejected E ow) s"
  unfolding wp_seqc
proof (rule wp_mono [OF wp_initialize [OF o' d, where X = "\<lambda>_ _. False"]])
  fix x t assume t: "laid_out E ow RunValidating t"
  have "wp (case r of PreflightOk p \<Rightarrow> execute_prepared E p started
            | PreflightFailure c w' \<Rightarrow> failed_preflight E started ow c
            | PreflightThrows \<Rightarrow> throw OtherException) (ended_with E ow) (rejected E ow) t"
  proof (cases r)
    case (PreflightOk p)
    with w have f: "ow = Some (flow p)" "sound (flow p)" by simp_all
    have a: "armable E (flow p) t"
      using t f by (auto simp: laid_out_def armable_def create_records_def new_record_def fresh_def
          list_all_iff comp_def)
    have "wp (execute_prepared E p started) (ended_with E ow) (rejected E ow) t"
    proof (rule wp_mono [OF wp_execute_prepared [OF a f(2)]])
      fix res u assume "\<exists>q. over E (flow p) q u \<and> reports res (recs u) \<and>
          (res_status res, res_cause res, res_error res) = outcome_of q (cleanup_error u) \<and>
          res_failed_step res = Option.bind q pt_step"
      then obtain q where q: "over E (flow p) q u" "reports res (recs u)"
        "(res_status res, res_cause res, res_error res) = outcome_of q (cleanup_error u)"
        "res_failed_step res = Option.bind q pt_step" by blast
      have "run_state u = fst (outcome_of q (cleanup_error u))"
        using q(1) by (auto simp: over_def released_def frame_def)
      then have "res_status res = run_state u" unfolding q(3) [symmetric] by simp
      with q f show "ended_with E ow res u" unfolding ended_with_def by blast
    next
      fix x u assume "x = SchemaRejected \<and> (\<exists>q. over E (flow p) q u)"
      with f show "rejected E ow x u" unfolding ended_state_def by blast
    qed
    with PreflightOk show ?thesis by simp
  next
    case (PreflightFailure c w')
    with wp_failed_preflight [OF t] show ?thesis by simp
  next
    case PreflightThrows
    with w show ?thesis by simp
  qed
  moreover have "wp (cancelled_early E started ow) (ended_with E ow) (rejected E ow) t"
    by (rule wp_cancelled_early [OF t]) simp
  ultimately show "wp (bnd (is_signal_aborted E) (\<lambda>aborted.
            if aborted then cancelled_early E started ow
            else case r of
              PreflightOk p \<Rightarrow> execute_prepared E p started
            | PreflightFailure c w' \<Rightarrow> failed_preflight E started ow c
            | PreflightThrows \<Rightarrow> throw OtherException)) (ended_with E ow) (rejected E ow) t"
    unfolding is_signal_aborted_def wp_bnd wp_gets wp_if by simp
qed simp

lemma wp_execute:
  "wp (execute E rq) (ended_with E (find_typed_workflow rq)) (thrown E rq) (initial_engine a)"
proof -
  let ?ow = "find_typed_workflow rq"
  let ?Q = "ended_with E ?ow" and ?X = "thrown E rq"
  have d: "distinct (map step_id (flow_steps ?ow))"
    using typed_workflow_distinct [of rq] by (cases "?ow") (simp_all add: flow_steps_def)
  have sub: "wp m ?Q (rejected E ?ow) s \<Longrightarrow> wp m ?Q ?X s" for m s
    by (erule wp_mono) (simp_all add: thrown_def)
  let ?branches = "\<lambda>started r ow. seqc (initialize_steps E ow) (bnd (is_signal_aborted E) (\<lambda>aborted.
            if aborted then cancelled_early E started ow
            else case r of
              PreflightOk p \<Rightarrow> execute_prepared E p started
            | PreflightFailure c w' \<Rightarrow> failed_preflight E started ow c
            | PreflightThrows \<Rightarrow> throw OtherException))"
  let ?late = "\<lambda>started r. let w = (case r of
                        PreflightOk p \<Rightarrow> Some (er_workflow (pr_request p))
                      | PreflightFailure c w \<Rightarrow> w
                      | PreflightThrows \<Rightarrow> None) in ?branches started r w"
  have late_sub: "wp (?late started r) ?Q ?X t"
    if "wp (?branches started r ?ow) ?Q (rejected E ?ow) t"
      "(case r of PreflightOk p \<Rightarrow> Some (er_workflow (pr_request p)) | PreflightFailure c w \<Rightarrow> w
        | PreflightThrows \<Rightarrow> None) = ?ow" for started r t
    unfolding Let_def that(2) by (rule sub [OF that(1)])
  have late: "wp (?late started (preflight_workflow_execution (the_host E) rq)) ?Q ?X t"
    if t: "opened E RunValidating t" "arb_locked (racing t) = None"
      and nt: "preflight_workflow_execution (the_host E) rq \<noteq> PreflightThrows" for started t
  proof (cases "preflight_workflow_execution (the_host E) rq")
    case (PreflightOk p)
    note s = typed_workflow_sound [OF PreflightOk]
    have "wp (?branches started (PreflightOk p) ?ow) ?Q (rejected E ?ow) t"
      by (rule wp_branches [OF t _ d]) (use s in simp)
    then show ?thesis unfolding PreflightOk by (rule late_sub) (use s in simp)
  next
    case (PreflightFailure c w)
    have e: "w = ?ow" by (rule failure_workflow [OF PreflightFailure])
    have "wp (?branches started (PreflightFailure c w) ?ow) ?Q (rejected E ?ow) t"
      by (rule wp_branches [OF t _ d]) (use e in simp)
    then show ?thesis unfolding PreflightFailure by (rule late_sub) (use e in simp)
  next
    case PreflightThrows
    with nt show ?thesis by simp
  qed
  have preflight: "wp (bnd (preflight_outcome E rq) (?late started)) ?Q ?X t"
    if t: "opened E RunValidating t" "arb_locked (racing t) = None" for started t
  proof -
    have q: "quietly E (whenc (preflight_aborts E) (signal_abort E))" by (intro quiet_ops)
    show ?thesis
      unfolding preflight_outcome_def wp_bnd wp_seqc
    proof (rule wp_quietly [OF q])
      fix x u assume u: "quiet E t u"
      have ou: "opened E RunValidating u" "arb_locked (racing u) = None"
        using opened_quiet [OF t(1) u] u t(2) by (auto simp: quiet_def raced_def)
      show "wp (case preflight_workflow_execution (the_host E) rq of
            PreflightThrows \<Rightarrow> throw OtherException | r \<Rightarrow> ret r) (\<lambda>r. wp (?late started r) ?Q ?X) ?X u"
      proof (cases "preflight_workflow_execution (the_host E) rq = PreflightThrows")
        case True
        with ou show ?thesis by (simp add: wp_throw thrown_def)
      next
        case False
        with late [OF ou False, of started] show ?thesis
          by (cases "preflight_workflow_execution (the_host E) rq") (simp_all only: preflight_result.case wp_ret, simp)
      qed
    qed
  qed
  have early: "wp (seqc (initialize_steps E ?ow) (cancelled_early E started ?ow)) ?Q ?X t"
    if t: "opened E RunPending t" "arb_locked (racing t) = None" for started t
    unfolding wp_seqc
    by (rule wp_mono [OF wp_initialize [OF t d, where X = "\<lambda>_ _. False"]])
      (use sub wp_cancelled_early in blast)+
  have rest: "wp (bnd (is_signal_aborted E) (\<lambda>early.
        if early then seqc (initialize_steps E ?ow) (cancelled_early E started ?ow)
        else seqc (transition_run E RunValidating None) (bnd (preflight_outcome E rq) (?late started)))) ?Q ?X t"
    if t: "opened E RunPending t \<and> arb_locked (racing t) = None" for started t
  proof -
    have "wp (seqc (transition_run E RunValidating None) (bnd (preflight_outcome E rq) (?late started))) ?Q ?X t"
      unfolding wp_seqc
    proof (rule wp_transition_run)
      show "RunValidating \<in> set (run_transitions (run_state t))" using t by (simp add: opened_def)
      fix u assume "run_moved E RunValidating t u"
      with t have u: "opened E RunValidating u" "arb_locked (racing u) = None"
        by (auto simp: opened_def run_moved_def raced_def)
      then show "wp (bnd (preflight_outcome E rq) (?late started)) ?Q ?X u" by (rule preflight)
    qed
    with early t show ?thesis unfolding is_signal_aborted_def wp_bnd wp_gets wp_if by simp
  qed
  have "wp (now_ms E) (\<lambda>_. wp (emit E (EvRun RunPending None))
      (\<lambda>_ t. opened E RunPending t \<and> arb_locked (racing t) = None) (\<lambda>_ _. False)) (\<lambda>_ _. False) (initial_engine a)"
    using wp_open [of E "\<lambda>_ _. False" a] unfolding wp_seqc .
  then have "wp (now_ms E) (\<lambda>started. wp (emit E (EvRun RunPending None)) (\<lambda>_. wp (bnd (is_signal_aborted E) (\<lambda>early.
        if early then seqc (initialize_steps E ?ow) (cancelled_early E started ?ow)
        else seqc (transition_run E RunValidating None) (bnd (preflight_outcome E rq) (?late started)))) ?Q ?X) ?X) ?X
      (initial_engine a)"
    by (rule wp_mono) (erule wp_mono, rule rest, simp_all)
  then show ?thesis
    unfolding execute_def wp_bnd wp_seqc .
qed

end
