(* ===== verification/Engine_Examples.thy ===== *)
theory Engine_Examples
  imports Engine_Main
begin

text \<open>
  Concrete runs, evaluated: a run that succeeds, and the two ways found in which \<open>execute\<close>
  rejects instead of returning a result.
\<close>

definition sample_host :: host where
  "sample_host =
     \<lparr>url_of = sample_url_parser, number_text = (\<lambda>n. []), collate = (\<lambda>a b. 0),
      supported_types = [TNavigate, TClick, TFill, TSelect, TSetChecked, TWait, TExtract, TVerify, TApproval],
      validate_step = (\<lambda>st. None), external_resolver = None, approvals_available = True,
      recovery_available = False\<rparr>"

definition request_of :: "workflow \<Rightarrow> runtime_values \<Rightarrow> raw_request" where
  "request_of w vs =
     \<lparr>rq_envelope = True, rq_workflow = Some w, rq_inputs = Some vs,
      rq_origins = Some [''https://a.example/''],
      rq_options = Some \<lparr>ro_total = 1000, ro_step = 500, ro_mode = None\<rparr>\<rparr>"

definition wait_workflow :: workflow where
  "wait_workflow =
     \<lparr>workflow_id = ''w'', wf_version = 1, wf_name = ''Wait'', wf_description = None,
      wf_status = Draft, variables = [],
      steps = [\<lparr>step_id = ''wait'', step_name = ''Wait'', body = Wait 10\<rparr>]\<rparr>"

text \<open>Every call of the adapter succeeds; \<open>cbs\<close> runs while the first step is executed.\<close>

definition wait_world :: "callback list \<Rightarrow> world" where
  "wait_world cbs =
     \<lparr>the_host = sample_host, id_is_uuid = True, clock = (\<lambda>n. int n),
      sink_given = False, sink_throws = (\<lambda>n. False), sink_aborts = (\<lambda>n. False),
      preflight_aborts = False, signal_given = False,
      callbacks = (\<lambda>n. if n = 1 then cbs else []), adapter_start = (\<lambda>n cx. None),
      adapter_execute = (\<lambda>n cx. Inr \<lparr>so_verification = None, so_produced = None\<rparr>),
      adapter_stop = (\<lambda>n c. Inr None), approval_coordinator = None, recovery_coordinator = None\<rparr>"

definition step_targets_ok :: "host \<Rightarrow> resolver \<Rightarrow> string list \<Rightarrow> workflow_step \<Rightarrow> bool" where
  "step_targets_ok h r origins st \<longleftrightarrow>
     (is_approval st \<or> step_type_of st \<in> set (supported_types h) \<and> validate_step h st = None) \<and>
     (case body st of
        Navigate src \<Rightarrow>
          (\<exists>s v. resolve_text_with_resolver r src NavigateUrl = Inr s \<and> url_of h s = Some v \<and>
             url_protocol v \<in> set ALLOWED_PROTOCOLS \<and> url_origin v \<in> set origins)
      | _ \<Rightarrow> True)"

lemma check_steps_targets:
  assumes "check_steps h r origins sts = Inr ()"
  shows "list_all (step_targets_ok h r origins) sts"
  unfolding list_all_iff
proof
  fix st assume "st \<in> set sts"
  with assms have c: "check_step h r origins st = Inr ()" by (simp add: check_steps_Inr)
  show "step_targets_ok h r origins st"
  proof (cases "\<exists>src. body st = Navigate src")
    case True
    then obtain src where b: "body st = Navigate src" ..
    with c have "check_navigate h r origins src = Inr ()"
      and "step_type_of st \<in> set (supported_types h) \<and> validate_step h st = None"
      by (auto simp: check_step_def check_values_def safe_throw_def split: if_splits option.splits)
    with b check_navigate_Inr [of h r origins src] show ?thesis
      by (auto simp: step_targets_ok_def)
  next
    case False
    with c show ?thesis
      by (auto simp: step_targets_ok_def check_step_def is_approval_def safe_throw_def
          split: if_splits option.splits step_body.splits)
  qed
qed

section \<open>Properties\<close>

text \<open>
  C8: a workflow that passes the preflight is normalised, every value source of its steps is
  admissible, its verifications have no issue, every output it uses is produced by an earlier
  step at a fitting type, no approval is its last step and approvals have a coordinator; and
  every navigation to a literal or a variable leads to an allowed origin over http or https.
\<close>

theorem prepared_runs_are_admissible:
  "preflight_workflow_execution h rq = PreflightOk p \<Longrightarrow>
     parse_workflow (flow p) = Some (flow p) \<and>
     list_all (source_admissible (variables (flow p))) (find_value_sources (flow p)) \<and>
     v_issues (analyze_workflow_verifications (url_of h) (flow p)) = [] \<and> dataflow_ok (flow p) \<and>
     \<not> is_approval (last (steps (flow p))) \<and>
     (aa_bindings (approval_report (flow p)) = [] \<or> approvals_available h) \<and>
     list_all (step_targets_ok h (pr_resolver p) (pr_origins p)) (steps (flow p))"
proof -
  assume "preflight_workflow_execution h rq = PreflightOk p"
  then obtain w vs os origins e r where
    pass: "preflight_passed h rq w vs os origins e r" and p: "p = prepared_of w vs os origins e r"
    unfolding preflight_Ok_iff by blast
  from pass obtain w0 where w0: "parse_workflow w0 = Some w"
    by (cases "rq_workflow rq") (auto simp: preflight_passed_def)
  have a: "analyses_error h w = Inr None" and c: "check_steps h r origins (steps w) = Inr ()"
    using pass unfolding preflight_passed_def by blast+
  have "steps w \<noteq> []" using parse_workflow_wf [OF w0] by (auto simp: wf_workflow_def)
  with definition_schema.reparse [OF w0] analyses_error_None [OF a] check_steps_targets [OF c] show ?thesis
    by (auto simp: p prepared_of_def list_all_iff)
qed

theorem prepared_runs_are_admissible_witness:
  "\<exists>p. preflight_workflow_execution sample_host (request_of wait_workflow []) = PreflightOk p \<and>
     dataflow_ok (flow p) \<and>
     list_all (step_targets_ok sample_host (pr_resolver p) (pr_origins p)) (steps (flow p))"
proof -
  have "case preflight_workflow_execution sample_host (request_of wait_workflow []) of
      PreflightOk p \<Rightarrow> True | _ \<Rightarrow> False"
    by code_simp
  then obtain p where "preflight_workflow_execution sample_host (request_of wait_workflow []) = PreflightOk p"
    by (auto split: preflight_result.splits)
  with prepared_runs_are_admissible [OF this] show ?thesis by blast
qed

text \<open>
  The same request against the same adapter returns a successful result when the deadline
  is not reached, and rejects with the schema error when the deadline timer fires while the
  step that then succeeds is executed: the step has timed out and its last attempt succeeded,
  a combination the result schema refuses.
\<close>

lemma deadline_during_success_rejects:
  "(case execute (wait_world []) (request_of wait_workflow []) (initial_engine False) of
      (Inl x, t) \<Rightarrow> False | (Inr res, t) \<Rightarrow> res_status res = RunSucceeded) \<and>
   (case execute (wait_world [TimerElapsed]) (request_of wait_workflow []) (initial_engine False) of
      (Inl x, t) \<Rightarrow> x = SchemaRejected \<and> map xr_status (recs t) = [StTimedOut] \<and>
        map att_status (concat (map attempts_of (recs t))) = [AtSucceeded]
    | (Inr res, t) \<Rightarrow> False)"
proof (intro conjI)
  show "case execute (wait_world []) (request_of wait_workflow []) (initial_engine False) of
      (Inl x, t) \<Rightarrow> False | (Inr res, t) \<Rightarrow> res_status res = RunSucceeded"
    by code_simp
  show "case execute (wait_world [TimerElapsed]) (request_of wait_workflow []) (initial_engine False) of
      (Inl x, t) \<Rightarrow> x = SchemaRejected \<and> map xr_status (recs t) = [StTimedOut] \<and>
        map att_status (concat (map attempts_of (recs t))) = [AtSucceeded]
    | (Inr res, t) \<Rightarrow> False"
    by code_simp
qed

definition long_id_workflow :: "nat \<Rightarrow> workflow" where
  "long_id_workflow n =
     wait_workflow\<lparr>steps := \<lparr>step_id = replicate n CHR ''a'', step_name = ''Ask'',
         body = Approval ''Continue?'' RiskMedium 60000\<rparr> # steps wait_workflow\<rparr>"

text \<open>
  A workflow whose approval step has an identifier of 256 characters passes the preflight;
  with 257 the workflow schema still accepts it, but the preflight throws instead of reporting
  a failure.
\<close>

lemma long_step_id_throws:
  "(case preflight_workflow_execution sample_host (request_of (long_id_workflow 256) []) of
      PreflightOk p \<Rightarrow> True | _ \<Rightarrow> False) \<and>
   parse_workflow (long_id_workflow 257) = Some (long_id_workflow 257) \<and>
   preflight_workflow_execution sample_host (request_of (long_id_workflow 257) []) = PreflightThrows"
proof (intro conjI)
  show "case preflight_workflow_execution sample_host (request_of (long_id_workflow 256) []) of
      PreflightOk p \<Rightarrow> True | _ \<Rightarrow> False"
    by code_simp
  show "parse_workflow (long_id_workflow 257) = Some (long_id_workflow 257)"
    by code_simp
  have "(case preflight_workflow_execution sample_host (request_of (long_id_workflow 257) []) of
      PreflightThrows \<Rightarrow> True | _ \<Rightarrow> False)"
    by code_simp
  then show "preflight_workflow_execution sample_host (request_of (long_id_workflow 257) []) = PreflightThrows"
    by (simp split: preflight_result.splits)
qed

end
