(* ===== verification/Workflow_Policy.thy ===== *)
theory Workflow_Policy
  imports Workflow_Verification Workflow_Approval "HOL-Library.AList"
begin

text \<open>
  \<open>packages/workflow-policy/src\<close>: the execution policy of a workspace. Origin patterns and
  their canonical form, rules, the risk and the decision of every step of a workflow, and
  the check of an origin at run time. The URL parser and the collation of strings
  (\<open>localeCompare\<close>) are the host's, parameters \<open>url_of\<close> and \<open>cmp\<close>; \<open>None\<close> is a throw.
\<close>

section \<open>Risks and decisions (contracts.ts, risk.ts)\<close>

datatype policy_decision = Allow | RequireApproval | Deny

fun risk_strength :: "risk_level \<Rightarrow> nat" where
  "risk_strength RiskLow = 0"
| "risk_strength RiskMedium = 1"
| "risk_strength RiskHigh = 2"
| "risk_strength RiskCritical = 3"

fun decision_strength :: "policy_decision \<Rightarrow> nat" where
  "decision_strength Allow = 0"
| "decision_strength RequireApproval = 1"
| "decision_strength Deny = 2"

text \<open>The strengths order both types, so that the strongest of many is their maximum.\<close>

lemma risk_strength_inj: "risk_strength r = risk_strength s \<Longrightarrow> r = s"
  by (cases r; cases s) auto

lemma decision_strength_inj: "decision_strength d = decision_strength e \<Longrightarrow> d = e"
  by (cases d; cases e) auto

instantiation risk_level :: linorder
begin

definition less_eq_risk_level :: "risk_level \<Rightarrow> risk_level \<Rightarrow> bool" where
  "less_eq_risk_level r s \<longleftrightarrow> risk_strength r \<le> risk_strength s"

definition less_risk_level :: "risk_level \<Rightarrow> risk_level \<Rightarrow> bool" where
  "less_risk_level r s \<longleftrightarrow> risk_strength r < risk_strength s"

instance
  by standard (auto simp: less_eq_risk_level_def less_risk_level_def dest: risk_strength_inj)

end

instantiation policy_decision :: linorder
begin

definition less_eq_policy_decision :: "policy_decision \<Rightarrow> policy_decision \<Rightarrow> bool" where
  "less_eq_policy_decision d e \<longleftrightarrow> decision_strength d \<le> decision_strength e"

definition less_policy_decision :: "policy_decision \<Rightarrow> policy_decision \<Rightarrow> bool" where
  "less_policy_decision d e \<longleftrightarrow> decision_strength d < decision_strength e"

instance
  by standard
    (auto simp: less_eq_policy_decision_def less_policy_decision_def dest: decision_strength_inj)

end

definition stronger_risk :: "risk_level \<Rightarrow> risk_level \<Rightarrow> risk_level" where
  "stronger_risk l r = (if risk_strength r \<le> risk_strength l then l else r)"

definition stronger_decision :: "policy_decision \<Rightarrow> policy_decision \<Rightarrow> policy_decision" where
  "stronger_decision l r = (if decision_strength r \<le> decision_strength l then l else r)"

definition risk_at_least :: "risk_level \<Rightarrow> risk_level \<Rightarrow> bool" where
  "risk_at_least v t \<longleftrightarrow> risk_strength t \<le> risk_strength v"

lemma stronger_risk_max: "stronger_risk l r = max l r"
  by (auto simp: stronger_risk_def max_def less_eq_risk_level_def dest: risk_strength_inj)

lemma stronger_decision_max: "stronger_decision l r = max l r"
  by (auto simp: stronger_decision_def max_def less_eq_policy_decision_def dest: decision_strength_inj)

datatype action_intent =
    IntentRead | IntentNavigate | IntentEnterData | IntentChangeState | IntentSubmit | IntentSend
  | IntentDelete | IntentPurchase | IntentPermissionChange | IntentApprovalGate | IntentUnknown

fun intent_of_click :: "click_intent \<Rightarrow> action_intent" where
  "intent_of_click ChangeState = IntentChangeState"
| "intent_of_click Submit = IntentSubmit"
| "intent_of_click Send = IntentSend"
| "intent_of_click Delete = IntentDelete"
| "intent_of_click Purchase = IntentPurchase"
| "intent_of_click PermissionChange = IntentPermissionChange"
| "intent_of_click UnknownIntent = IntentUnknown"

fun derive_action_intent :: "step_body \<Rightarrow> action_intent" where
  "derive_action_intent (Wait d) = IntentRead"
| "derive_action_intent (Extract l s n lb t) = IntentRead"
| "derive_action_intent (Verify a t) = IntentRead"
| "derive_action_intent (Navigate u) = IntentNavigate"
| "derive_action_intent (Fill l v) = IntentEnterData"
| "derive_action_intent (Select l v) = IntentChangeState"
| "derive_action_intent (SetChecked l b) = IntentChangeState"
| "derive_action_intent (Approval m r t) = IntentApprovalGate"
| "derive_action_intent (Click l i) =
     (case i of None \<Rightarrow> IntentUnknown | Some c \<Rightarrow> intent_of_click c)"

fun base_risk_for_intent :: "action_intent \<Rightarrow> risk_level \<Rightarrow> risk_level" where
  "base_risk_for_intent IntentRead u = RiskLow"
| "base_risk_for_intent IntentNavigate u = RiskLow"
| "base_risk_for_intent IntentApprovalGate u = RiskLow"
| "base_risk_for_intent IntentEnterData u = RiskMedium"
| "base_risk_for_intent IntentChangeState u = RiskMedium"
| "base_risk_for_intent IntentSubmit u = RiskHigh"
| "base_risk_for_intent IntentSend u = RiskHigh"
| "base_risk_for_intent IntentDelete u = RiskCritical"
| "base_risk_for_intent IntentPurchase u = RiskCritical"
| "base_risk_for_intent IntentPermissionChange u = RiskCritical"
| "base_risk_for_intent IntentUnknown u = u"

section \<open>Origins (origin-pattern.ts)\<close>

text \<open>\<open>toLowerCase\<close> on the code units below 256.\<close>

definition lower_char :: "char \<Rightarrow> char" where
  "lower_char c =
     (let n = of_char c :: nat
      in if (65 \<le> n \<and> n \<le> 90) \<or> (192 \<le> n \<and> n \<le> 222 \<and> n \<noteq> 215) then char_of (n + 32) else c)"

definition lower_case :: "string \<Rightarrow> string" where
  "lower_case s = map lower_char s"

definition LOOPBACK_HOSTS :: "string list" where [code_sets]:
  "LOOPBACK_HOSTS = [''localhost'', ''127.0.0.1'', ''[::1]'']"

definition is_loopback_hostname :: "string \<Rightarrow> bool" where
  "is_loopback_hostname h \<longleftrightarrow> lower_case h \<in> set LOOPBACK_HOSTS"

definition normalize_canonical_origin :: "url_parser \<Rightarrow> string \<Rightarrow> string option" where
  "normalize_canonical_origin url_of v =
     (case url_of v of
        None \<Rightarrow> None
      | Some u \<Rightarrow>
          if (url_protocol u \<noteq> ''http:'' \<and> url_protocol u \<noteq> ''https:'') \<or>
             url_username u \<noteq> [] \<or> url_password u \<noteq> [] \<or> url_pathname u \<noteq> ''/'' \<or>
             url_search u \<noteq> [] \<or> url_hash u \<noteq> []
          then None else Some (url_origin u))"

definition rx_up_to :: "nat \<Rightarrow> rx \<Rightarrow> rx" where
  "rx_up_to n r = ((\<lambda>s. Either Empty (Cat r s)) ^^ n) Empty"

definition domain_label_rx :: rx where
  "domain_label_rx =
     (let alnum = Class (\<lambda>c. is_lower c \<or> is_digit c);
          inner = Class (\<lambda>c. is_lower c \<or> is_digit c \<or> c = CHR ''-'')
      in Cat alnum (Either Empty (Cat (rx_up_to 61 inner) alnum)))"

definition domain_rx :: rx where
  "domain_rx = Cat (Many (Cat domain_label_rx (rx_lit ''.''))) domain_label_rx"

definition drop_final_dot :: "string \<Rightarrow> string" where
  "drop_final_dot s = (if s \<noteq> [] \<and> last s = CHR ''.'' then butlast s else s)"

definition normalize_https_domain :: "string \<Rightarrow> string option" where
  "normalize_https_domain v =
     (let n = drop_final_dot (lower_case (trim v))
      in if length n = 0 \<or> 253 < length n \<or> CHR ''*'' \<in> set n \<or> \<not> rx_matches domain_rx n
         then None else Some n)"

datatype policy_issue_code =
    POLICY_UNKNOWN_ACTION_INTENT | POLICY_HIGH_RISK_ACTION | POLICY_MULTIPLE_WORKFLOW_ORIGINS
  | POLICY_UNSAFE_URL_SCHEME | POLICY_URL_CREDENTIALS_DENIED | POLICY_ORIGIN_INVALID
  | POLICY_HTTP_ORIGIN_DENIED | POLICY_ORIGIN_BLOCKED | POLICY_ORIGIN_NOT_ALLOWED
  | POLICY_ACTION_DENIED | POLICY_APPROVAL_REQUIRED_MISSING | POLICY_APPROVAL_BINDING_INVALID

record origin_fact =
  of_origin :: "string option"
  of_safe :: bool
  of_loopback :: bool
  of_error :: "policy_issue_code option"

definition unsafe_origin :: "policy_issue_code \<Rightarrow> origin_fact" where
  "unsafe_origin c = \<lparr>of_origin = None, of_safe = False, of_loopback = False, of_error = Some c\<rparr>"

definition inspect_url_origin :: "url_parser \<Rightarrow> string \<Rightarrow> origin_fact" where
  "inspect_url_origin url_of v =
     (case url_of v of
        None \<Rightarrow> unsafe_origin POLICY_ORIGIN_INVALID
      | Some u \<Rightarrow>
          if url_username u \<noteq> [] \<or> url_password u \<noteq> []
          then unsafe_origin POLICY_URL_CREDENTIALS_DENIED
          else if url_protocol u \<noteq> ''http:'' \<and> url_protocol u \<noteq> ''https:''
          then unsafe_origin POLICY_UNSAFE_URL_SCHEME
          else \<lparr>of_origin = Some (url_origin u), of_safe = True,
                of_loopback = is_loopback_hostname (url_hostname u), of_error = None\<rparr>)"

section \<open>Policies (contracts.ts)\<close>

datatype origin_pattern =
    ExactOrigin string
  | HttpsSubdomains string bool

record rule_match =
  rm_step_types :: "step_type list option"
  rm_intents :: "action_intent list option"
  rm_origins :: "origin_pattern list option"

record policy_rule =
  rule_id :: string
  rule_match :: rule_match
  rule_risk :: "risk_level option"
  rule_decision :: "policy_decision option"

datatype network_mode = WorkflowDeclaredOrigins | ExplicitAllowlist
datatype approval_threshold = HighOrAbove | CriticalOnly
datatype critical_behavior = CriticalDeny | CriticalRequireApproval

record execution_policy =
  net_mode :: network_mode
  net_allowed :: "origin_pattern list"
  net_blocked :: "origin_pattern list"
  net_loopback_http :: bool
  unknown_action_risk :: risk_level
  ap_threshold :: approval_threshold
  ap_critical :: critical_behavior
  policy_rules :: "policy_rule list"

definition MAX_POLICY_ORIGIN_PATTERNS :: nat where "MAX_POLICY_ORIGIN_PATTERNS = 64"
definition MAX_POLICY_RULES :: nat where "MAX_POLICY_RULES = 128"
definition MAX_POLICY_ISSUES :: nat where "MAX_POLICY_ISSUES = 2000"

fun parse_pattern :: "url_parser \<Rightarrow> origin_pattern \<Rightarrow> origin_pattern option" where
  "parse_pattern url_of (ExactOrigin v) =
     do { t \<leftarrow> parse_bounded 512 v;
          guard_ok (normalize_canonical_origin url_of t \<noteq> None);
          Some (ExactOrigin t) }"
| "parse_pattern url_of (HttpsSubdomains d a) =
     do { t \<leftarrow> parse_bounded 253 d;
          guard_ok (normalize_https_domain t \<noteq> None);
          Some (HttpsSubdomains t a) }"

definition parse_patterns :: "url_parser \<Rightarrow> origin_pattern list \<Rightarrow> origin_pattern list option" where
  "parse_patterns url_of ps =
     do { qs \<leftarrow> parse_list (parse_pattern url_of) ps;
          guard_ok (length qs \<le> MAX_POLICY_ORIGIN_PATTERNS); Some qs }"

definition rule_id_rx :: rx where
  "rule_id_rx =
     Cat (Class (\<lambda>c. is_upper c \<or> is_lower c))
         (Many (Class (\<lambda>c. is_alnum c \<or> c = CHR ''_'' \<or> c = CHR ''-'')))"

text \<open>\<open>z.array(\<dots>).min(1).max(n).optional()\<close>\<close>

definition size_ok :: "nat \<Rightarrow> 'a list option \<Rightarrow> bool" where
  "size_ok n xs \<longleftrightarrow> (case xs of None \<Rightarrow> True | Some ys \<Rightarrow> 1 \<le> length ys \<and> length ys \<le> n)"

definition parse_rule :: "url_parser \<Rightarrow> policy_rule \<Rightarrow> policy_rule option" where
  "parse_rule url_of r = do {
     i \<leftarrow> parse_bounded 64 (rule_id r);
     guard_ok (rx_matches rule_id_rx i);
     guard_ok (size_ok 9 (rm_step_types (rule_match r)) \<and> size_ok 11 (rm_intents (rule_match r)));
     qs \<leftarrow> parse_opt (parse_patterns url_of) (rm_origins (rule_match r));
     guard_ok (size_ok MAX_POLICY_ORIGIN_PATTERNS qs);
     guard_ok (rule_risk r \<noteq> None \<or> rule_decision r \<noteq> None);
     guard_ok (rm_step_types (rule_match r) \<noteq> None \<or> rm_intents (rule_match r) \<noteq> None \<or> qs \<noteq> None);
     Some (r\<lparr>rule_id := i, rule_match := (rule_match r)\<lparr>rm_origins := qs\<rparr>\<rparr>) }"

definition parse_policy :: "url_parser \<Rightarrow> execution_policy \<Rightarrow> execution_policy option" where
  "parse_policy url_of p = do {
     as \<leftarrow> parse_patterns url_of (net_allowed p);
     bs \<leftarrow> parse_patterns url_of (net_blocked p);
     rs \<leftarrow> parse_list (parse_rule url_of) (policy_rules p);
     guard_ok (length rs \<le> MAX_POLICY_RULES);
     guard_ok (repeats [] 0 (map rule_id rs) = []);
     Some (p\<lparr>net_allowed := as, net_blocked := bs, policy_rules := rs\<rparr>) }"

definition DEFAULT_WORKSPACE_EXECUTION_POLICY :: execution_policy where
  "DEFAULT_WORKSPACE_EXECUTION_POLICY =
     \<lparr>net_mode = WorkflowDeclaredOrigins, net_allowed = [], net_blocked = [], net_loopback_http = True,
      unknown_action_risk = RiskMedium, ap_threshold = HighOrAbove, ap_critical = CriticalDeny,
      policy_rules = []\<rparr>"

section \<open>Canonical policies (canonicalization.ts)\<close>

fun canonicalize_origin_pattern :: "url_parser \<Rightarrow> origin_pattern \<Rightarrow> origin_pattern option" where
  "canonicalize_origin_pattern url_of p = do {
     q \<leftarrow> parse_pattern url_of p;
     case q of
       ExactOrigin v \<Rightarrow> map_option ExactOrigin (normalize_canonical_origin url_of v)
     | HttpsSubdomains d a \<Rightarrow> map_option (\<lambda>n. HttpsSubdomains n a) (normalize_https_domain d) }"

fun origin_pattern_key :: "origin_pattern \<Rightarrow> string" where
  "origin_pattern_key (ExactOrigin v) = ''exact:'' @ v"
| "origin_pattern_key (HttpsSubdomains d a) =
     ''https_subdomains:'' @ d @ '':'' @ (if a then ''1'' else ''0'')"

text \<open>The \<open>Map\<close> keeps the place of a key that is set again.\<close>

definition patterns_by_key :: "origin_pattern list \<Rightarrow> (string \<times> origin_pattern) list" where
  "patterns_by_key ps = fold (\<lambda>p m. AList.update (origin_pattern_key p) p m) ps []"

definition canonicalize_patterns ::
  "url_parser \<Rightarrow> (string \<Rightarrow> string \<Rightarrow> int) \<Rightarrow> origin_pattern list \<Rightarrow> origin_pattern list option" where
  "canonicalize_patterns url_of cmp ps =
     map_option (\<lambda>qs. map snd (sort_by (\<lambda>l r. cmp (fst l) (fst r)) (patterns_by_key qs)))
       (parse_list (canonicalize_origin_pattern url_of) ps)"

fun step_type_string :: "step_type \<Rightarrow> string" where
  "step_type_string TNavigate = ''navigate''"
| "step_type_string TClick = ''click''"
| "step_type_string TFill = ''fill''"
| "step_type_string TSelect = ''select''"
| "step_type_string TSetChecked = ''setChecked''"
| "step_type_string TWait = ''wait''"
| "step_type_string TExtract = ''extract''"
| "step_type_string TVerify = ''verify''"
| "step_type_string TApproval = ''approval''"

fun intent_string :: "action_intent \<Rightarrow> string" where
  "intent_string IntentRead = ''read''"
| "intent_string IntentNavigate = ''navigate''"
| "intent_string IntentEnterData = ''enter_data''"
| "intent_string IntentChangeState = ''change_state''"
| "intent_string IntentSubmit = ''submit''"
| "intent_string IntentSend = ''send''"
| "intent_string IntentDelete = ''delete''"
| "intent_string IntentPurchase = ''purchase''"
| "intent_string IntentPermissionChange = ''permission_change''"
| "intent_string IntentApprovalGate = ''approval_gate''"
| "intent_string IntentUnknown = ''unknown''"

definition unique_sorted :: "(string \<Rightarrow> string \<Rightarrow> int) \<Rightarrow> ('a \<Rightarrow> string) \<Rightarrow> 'a list \<Rightarrow> 'a list" where
  "unique_sorted cmp text xs = sort_by (\<lambda>l r. cmp (text l) (text r)) (js_unique xs)"

definition canonicalize_rule ::
  "url_parser \<Rightarrow> (string \<Rightarrow> string \<Rightarrow> int) \<Rightarrow> policy_rule \<Rightarrow> policy_rule option" where
  "canonicalize_rule url_of cmp r = do {
     qs \<leftarrow> parse_opt (canonicalize_patterns url_of cmp) (rm_origins (rule_match r));
     Some (r\<lparr>rule_match :=
       \<lparr>rm_step_types = map_option (unique_sorted cmp step_type_string) (rm_step_types (rule_match r)),
        rm_intents = map_option (unique_sorted cmp intent_string) (rm_intents (rule_match r)),
        rm_origins = qs\<rparr>\<rparr>) }"

definition canonicalize_policy ::
  "url_parser \<Rightarrow> (string \<Rightarrow> string \<Rightarrow> int) \<Rightarrow> execution_policy \<Rightarrow> execution_policy option" where
  "canonicalize_policy url_of cmp input = do {
     p \<leftarrow> parse_policy url_of input;
     as \<leftarrow> canonicalize_patterns url_of cmp (net_allowed p);
     bs \<leftarrow> canonicalize_patterns url_of cmp (net_blocked p);
     rs \<leftarrow> parse_list (canonicalize_rule url_of cmp) (policy_rules p);
     parse_policy url_of
       (p\<lparr>net_allowed := as, net_blocked := bs,
          policy_rules := sort_by (\<lambda>l r. cmp (rule_id l) (rule_id r)) rs\<rparr>) }"

section \<open>Matching (matching.ts)\<close>

definition ends_with :: "string \<Rightarrow> string \<Rightarrow> bool" where
  "ends_with s e \<longleftrightarrow> length e \<le> length s \<and> drop (length s - length e) s = e"

text \<open>
  \<open>None\<close> where the pattern itself, or the URL parser on an origin it has produced, throws;
  an origin that does not normalise only fails to match.
\<close>

definition origin_matches_pattern :: "url_parser \<Rightarrow> string \<Rightarrow> origin_pattern \<Rightarrow> bool option" where
  "origin_matches_pattern url_of input p =
     (case normalize_canonical_origin url_of input of
        None \<Rightarrow> Some False
      | Some origin \<Rightarrow>
          (case p of
             ExactOrigin v \<Rightarrow> map_option (\<lambda>n. origin = n) (normalize_canonical_origin url_of v)
           | HttpsSubdomains d apex \<Rightarrow>
               (case url_of origin of
                  None \<Rightarrow> None
                | Some u \<Rightarrow>
                    if url_protocol u \<noteq> ''https:'' \<or> url_port u \<noteq> [] then Some False
                    else map_option
                      (\<lambda>domain. (apex \<and> lower_case (url_hostname u) = domain) \<or>
                                ends_with (lower_case (url_hostname u)) (''.'' @ domain))
                      (normalize_https_domain d))))"

text \<open>\<open>Array.prototype.some\<close>: stops at the first hit, before it can throw further on.\<close>

fun some_matches :: "('a \<Rightarrow> bool option) \<Rightarrow> 'a list \<Rightarrow> bool option" where
  "some_matches f [] = Some False"
| "some_matches f (x # xs) =
     (case f x of None \<Rightarrow> None | Some True \<Rightarrow> Some True | Some False \<Rightarrow> some_matches f xs)"

definition listed :: "'a option \<Rightarrow> ('a \<Rightarrow> 'b list) \<Rightarrow> 'b \<Rightarrow> bool" where
  "listed xs f y \<longleftrightarrow> (case xs of None \<Rightarrow> True | Some x \<Rightarrow> y \<in> set (f x))"

definition rule_matches ::
  "url_parser \<Rightarrow> policy_rule \<Rightarrow> workflow_step \<Rightarrow> action_intent \<Rightarrow> string option \<Rightarrow> bool option" where
  "rule_matches url_of r st intent origin =
     (if \<not> listed (rm_step_types (rule_match r)) id (step_type_of st) then Some False
      else if \<not> listed (rm_intents (rule_match r)) id intent then Some False
      else case rm_origins (rule_match r) of
             None \<Rightarrow> Some True
           | Some ps \<Rightarrow>
               (case origin of
                  None \<Rightarrow> Some False
                | Some v \<Rightarrow> some_matches (origin_matches_pattern url_of v) ps))"

section \<open>Evaluation (evaluation.ts)\<close>

record policy_issue =
  pi_code :: policy_issue_code
  pi_severity :: severity
  pi_step_id :: "string option"
  pi_index :: "nat option"
  pi_rule :: "string option"

definition step_issue :: "policy_issue_code \<Rightarrow> severity \<Rightarrow> workflow_step \<Rightarrow> nat \<Rightarrow> policy_issue" where
  "step_issue c sev st i =
     \<lparr>pi_code = c, pi_severity = sev, pi_step_id = Some (step_id st), pi_index = Some i, pi_rule = None\<rparr>"

fun policy_code_string :: "policy_issue_code \<Rightarrow> string" where
  "policy_code_string POLICY_UNKNOWN_ACTION_INTENT = ''POLICY_UNKNOWN_ACTION_INTENT''"
| "policy_code_string POLICY_HIGH_RISK_ACTION = ''POLICY_HIGH_RISK_ACTION''"
| "policy_code_string POLICY_MULTIPLE_WORKFLOW_ORIGINS = ''POLICY_MULTIPLE_WORKFLOW_ORIGINS''"
| "policy_code_string POLICY_UNSAFE_URL_SCHEME = ''POLICY_UNSAFE_URL_SCHEME''"
| "policy_code_string POLICY_URL_CREDENTIALS_DENIED = ''POLICY_URL_CREDENTIALS_DENIED''"
| "policy_code_string POLICY_ORIGIN_INVALID = ''POLICY_ORIGIN_INVALID''"
| "policy_code_string POLICY_HTTP_ORIGIN_DENIED = ''POLICY_HTTP_ORIGIN_DENIED''"
| "policy_code_string POLICY_ORIGIN_BLOCKED = ''POLICY_ORIGIN_BLOCKED''"
| "policy_code_string POLICY_ORIGIN_NOT_ALLOWED = ''POLICY_ORIGIN_NOT_ALLOWED''"
| "policy_code_string POLICY_ACTION_DENIED = ''POLICY_ACTION_DENIED''"
| "policy_code_string POLICY_APPROVAL_REQUIRED_MISSING = ''POLICY_APPROVAL_REQUIRED_MISSING''"
| "policy_code_string POLICY_APPROVAL_BINDING_INVALID = ''POLICY_APPROVAL_BINDING_INVALID''"

definition compare_policy_issues ::
  "(string \<Rightarrow> string \<Rightarrow> int) \<Rightarrow> policy_issue \<Rightarrow> policy_issue \<Rightarrow> int" where
  "compare_policy_issues cmp l r =
     (let index = (\<lambda>x. case pi_index x of None \<Rightarrow> -1 | Some i \<Rightarrow> int i);
          rule = (\<lambda>x. case pi_rule x of None \<Rightarrow> [] | Some n \<Rightarrow> n);
          codec = cmp (policy_code_string (pi_code l)) (policy_code_string (pi_code r))
      in if index l - index r \<noteq> 0 then index l - index r
         else if codec \<noteq> 0 then codec
         else cmp (rule l) (rule r))"

definition declared_origin :: "url_parser \<Rightarrow> workflow_step \<Rightarrow> string option" where
  "declared_origin url_of st =
     (case body st of
        Navigate (Literal (LitString v)) \<Rightarrow>
          (let fact = inspect_url_origin url_of v in if of_safe fact then of_origin fact else None)
      | _ \<Rightarrow> None)"

definition workflow_declared_origins ::
  "url_parser \<Rightarrow> (string \<Rightarrow> string \<Rightarrow> int) \<Rightarrow> workflow \<Rightarrow> string list" where
  "workflow_declared_origins url_of cmp w =
     sort_by cmp (js_unique (List.map_filter (declared_origin url_of) (steps w)))"

type_synonym origin_verdict = "policy_decision \<times> string option \<times> policy_issue_code option"

definition origin_decision ::
  "url_parser \<Rightarrow> execution_policy \<Rightarrow> string list \<Rightarrow> string \<Rightarrow> origin_verdict option" where
  "origin_decision url_of p declared v =
     (let fact = inspect_url_origin url_of v
      in if \<not> of_safe fact \<or> of_origin fact = None
         then Some (Deny, None,
           Some (case of_error fact of None \<Rightarrow> POLICY_ORIGIN_INVALID | Some c \<Rightarrow> c))
         else let origin = the (of_origin fact) in do {
           u \<leftarrow> url_of origin;
           if url_protocol u = ''http:'' \<and> (\<not> of_loopback fact \<or> \<not> net_loopback_http p)
           then Some (Deny, Some origin, Some POLICY_HTTP_ORIGIN_DENIED)
           else do {
             blocked \<leftarrow> some_matches (origin_matches_pattern url_of origin) (net_blocked p);
             if blocked then Some (Deny, Some origin, Some POLICY_ORIGIN_BLOCKED)
             else do {
               allowed \<leftarrow>
                 (case net_mode p of
                    WorkflowDeclaredOrigins \<Rightarrow> Some (origin \<in> set declared)
                  | ExplicitAllowlist \<Rightarrow>
                      some_matches (origin_matches_pattern url_of origin) (net_allowed p));
               if allowed then Some (Allow, Some origin, None)
               else Some (Deny, Some origin, Some POLICY_ORIGIN_NOT_ALLOWED) } } })"

definition approval_required :: "execution_policy \<Rightarrow> risk_level \<Rightarrow> bool" where
  "approval_required p risk =
     (case ap_threshold p of
        HighOrAbove \<Rightarrow> risk_at_least risk RiskHigh
      | CriticalOnly \<Rightarrow> risk = RiskCritical)"

record step_evaluation =
  se_step_id :: string
  se_index :: nat
  se_type :: step_type
  se_intent :: action_intent
  se_risk :: risk_level
  se_decision :: policy_decision
  se_rules :: "string list"
  se_approval_required :: bool
  se_approval_satisfied :: bool
  se_issues :: "policy_issue list"

text \<open>The verdict on the target of a step: a decision, the origin from there on, and issues.\<close>

definition navigation_verdict ::
  "url_parser \<Rightarrow> execution_policy \<Rightarrow> string list \<Rightarrow> workflow_step \<Rightarrow> nat \<Rightarrow> string option
    \<Rightarrow> (policy_decision \<times> string option \<times> policy_issue list) option" where
  "navigation_verdict url_of p declared st i current =
     (case body st of
        Navigate (Literal (LitString v)) \<Rightarrow>
          do { (d, origin, code) \<leftarrow> origin_decision url_of p declared v;
               Some (stronger_decision Allow d, origin,
                 case code of None \<Rightarrow> [] | Some c \<Rightarrow> [step_issue c Blocking st i]) }
      | Navigate u \<Rightarrow> Some (Deny, None, [step_issue POLICY_ORIGIN_INVALID Blocking st i])
      | _ \<Rightarrow> Some (Allow, current, []))"

fun filter_matching :: "('a \<Rightarrow> bool option) \<Rightarrow> 'a list \<Rightarrow> 'a list option" where
  "filter_matching f [] = Some []"
| "filter_matching f (x # xs) =
     do { b \<leftarrow> f x; ys \<leftarrow> filter_matching f xs; Some (if b then x # ys else ys) }"

definition apply_rule ::
  "policy_rule \<Rightarrow> risk_level \<times> policy_decision \<Rightarrow> risk_level \<times> policy_decision" where
  "apply_rule r acc =
     (case acc of (risk, d) \<Rightarrow>
        (case rule_risk r of None \<Rightarrow> risk | Some m \<Rightarrow> stronger_risk risk m,
         case rule_decision r of None \<Rightarrow> d | Some e \<Rightarrow> stronger_decision d e))"

definition decide_by_risk :: "execution_policy \<Rightarrow> risk_level \<Rightarrow> policy_decision \<Rightarrow> policy_decision" where
  "decide_by_risk p risk d =
     (if risk = RiskCritical
      then stronger_decision d
        (case ap_critical p of CriticalDeny \<Rightarrow> Deny | CriticalRequireApproval \<Rightarrow> RequireApproval)
      else if approval_required p risk then stronger_decision d RequireApproval else d)"

definition evaluate_step ::
  "url_parser \<Rightarrow> (string \<Rightarrow> string \<Rightarrow> int) \<Rightarrow> execution_policy \<Rightarrow> string list \<Rightarrow> (nat \<times> nat) list
    \<Rightarrow> workflow_step \<Rightarrow> nat \<Rightarrow> string option \<Rightarrow> (step_evaluation \<times> string option) option" where
  "evaluate_step url_of cmp p declared bindings st i current = do {
     let intent = derive_action_intent (body st);
     (d0, origin, target_issues) \<leftarrow> navigation_verdict url_of p declared st i current;
     matched \<leftarrow> filter_matching (\<lambda>r. rule_matches url_of r st intent origin) (policy_rules p);
     let (risk, d1) = fold apply_rule matched (base_risk_for_intent intent (unknown_action_risk p), d0);
     let decision = decide_by_risk p risk d1;
     let required = (decision = RequireApproval);
     let satisfied = (required \<and> 0 < i \<and> (i - 1, i) \<in> set bindings);
     let issues =
       (if intent = IntentUnknown then [step_issue POLICY_UNKNOWN_ACTION_INTENT Warning st i] else []) @
       target_issues @
       (if risk_at_least risk RiskHigh then [step_issue POLICY_HIGH_RISK_ACTION Warning st i] else []) @
       (if decision = Deny then [step_issue POLICY_ACTION_DENIED Blocking st i]
        else if required \<and> \<not> satisfied
        then [step_issue POLICY_APPROVAL_REQUIRED_MISSING Blocking st i] else []);
     Some (\<lparr>se_step_id = step_id st, se_index = i, se_type = step_type_of st, se_intent = intent,
            se_risk = risk, se_decision = decision,
            se_rules = sort_by cmp (map rule_id matched),
            se_approval_required = required, se_approval_satisfied = satisfied,
            se_issues = sort_by (compare_policy_issues cmp) issues\<rparr>, origin) }"

fun evaluate_steps ::
  "url_parser \<Rightarrow> (string \<Rightarrow> string \<Rightarrow> int) \<Rightarrow> execution_policy \<Rightarrow> string list \<Rightarrow> (nat \<times> nat) list
    \<Rightarrow> workflow_step list \<Rightarrow> nat \<Rightarrow> string option \<Rightarrow> step_evaluation list option" where
  "evaluate_steps url_of cmp p declared bindings [] i current = Some []"
| "evaluate_steps url_of cmp p declared bindings (st # sts) i current = do {
     (e, origin) \<leftarrow> evaluate_step url_of cmp p declared bindings st i current;
     es \<leftarrow> evaluate_steps url_of cmp p declared bindings sts (Suc i) origin;
     Some (e # es) }"

record policy_evaluation =
  pe_policy_digest :: string
  pe_workflow_digest :: string
  pe_decision :: policy_decision
  pe_highest_risk :: risk_level
  pe_steps :: "step_evaluation list"
  pe_rules :: "string list"
  pe_issues :: "policy_issue list"
  pe_blocking :: bool

definition sha256_digest_ok :: "string \<Rightarrow> bool" where
  "sha256_digest_ok s \<longleftrightarrow>
     length s = 64 \<and> list_all (\<lambda>c. in_range CHR ''a'' CHR ''f'' c \<or> is_digit c) s"

definition MAX_POLICY_ID :: nat where "MAX_POLICY_ID = 256"

definition issue_schema_ok :: "policy_issue \<Rightarrow> bool" where
  "issue_schema_ok x \<longleftrightarrow>
     (case pi_step_id x of None \<Rightarrow> True | Some s \<Rightarrow> parse_bounded MAX_POLICY_ID s = Some s) \<and>
     (case pi_rule x of None \<Rightarrow> True | Some r \<Rightarrow> parse_bounded 64 r = Some r)"

definition evaluation_schema_ok :: "policy_evaluation \<Rightarrow> bool" where
  "evaluation_schema_ok e \<longleftrightarrow>
     sha256_digest_ok (pe_policy_digest e) \<and> sha256_digest_ok (pe_workflow_digest e) \<and>
     length (pe_steps e) \<le> MAX_POLICY_ISSUES \<and> length (pe_issues e) \<le> MAX_POLICY_ISSUES \<and>
     length (pe_rules e) \<le> MAX_POLICY_RULES \<and> list_all issue_schema_ok (pe_issues e) \<and>
     list_all (\<lambda>s. parse_bounded MAX_POLICY_ID (se_step_id s) = Some (se_step_id s) \<and>
                   length (se_rules s) \<le> MAX_POLICY_RULES \<and> length (se_issues s) \<le> MAX_POLICY_ISSUES \<and>
                   list_all issue_schema_ok (se_issues s)) (pe_steps e)"

definition policy_report ::
  "(string \<Rightarrow> string \<Rightarrow> int) \<Rightarrow> workflow \<Rightarrow> string list \<Rightarrow> approval_issue list \<Rightarrow> string \<Rightarrow> string
    \<Rightarrow> step_evaluation list \<Rightarrow> policy_evaluation" where
  "policy_report cmp w declared gate_issues pd wd es =
     (let issues = sort_by (compare_policy_issues cmp)
            (concat (map se_issues es) @
             (if 1 < length declared
              then [\<lparr>pi_code = POLICY_MULTIPLE_WORKFLOW_ORIGINS, pi_severity = Warning,
                     pi_step_id = None, pi_index = None, pi_rule = None\<rparr>] else []) @
             map (\<lambda>a. step_issue POLICY_APPROVAL_BINDING_INVALID Blocking (steps w ! ai_index a) (ai_index a))
               gate_issues)
      in \<lparr>pe_policy_digest = pd, pe_workflow_digest = wd,
          pe_decision = fold (\<lambda>s d. stronger_decision d (se_decision s)) es Allow,
          pe_highest_risk = fold (\<lambda>s r. stronger_risk r (se_risk s)) es RiskLow,
          pe_steps = es, pe_rules = sort_by cmp (js_unique (concat (map se_rules es))),
          pe_issues = issues, pe_blocking = (\<exists>x \<in> set issues. pi_severity x = Blocking)\<rparr>)"

definition evaluate_workflow_policy ::
  "url_parser \<Rightarrow> (string \<Rightarrow> string \<Rightarrow> int) \<Rightarrow> execution_policy \<Rightarrow> workflow \<Rightarrow> string \<Rightarrow> string
    \<Rightarrow> policy_evaluation option" where
  "evaluate_workflow_policy url_of cmp policy_input workflow_input pd wd = do {
     p0 \<leftarrow> parse_policy url_of policy_input;
     w \<leftarrow> parse_workflow workflow_input;
     guard_ok (sha256_digest_ok pd \<and> sha256_digest_ok wd);
     p \<leftarrow> canonicalize_policy url_of cmp p0;
     let declared = workflow_declared_origins url_of cmp w;
     gates \<leftarrow> analyze_workflow_approvals w;
     es \<leftarrow> evaluate_steps url_of cmp p declared
             (map (\<lambda>b. (ab_index b, ab_gated_index b)) (aa_bindings gates)) (steps w) 0 None;
     let e = policy_report cmp w declared (aa_issues gates) pd wd es;
     guard_ok (evaluation_schema_ok e);
     Some e }"

text \<open>\<open>evaluateRuntimeOrigin\<close>: whether it is allowed, the code of a refusal and the origin.\<close>

record runtime_origin =
  ro_allowed :: bool
  ro_issue :: "policy_issue_code option"
  ro_origin :: "string option"

definition evaluate_runtime_origin ::
  "url_parser \<Rightarrow> (string \<Rightarrow> string \<Rightarrow> int) \<Rightarrow> execution_policy \<Rightarrow> workflow \<Rightarrow> string \<Rightarrow> runtime_origin option" where
  "evaluate_runtime_origin url_of cmp policy_input workflow_input v = do {
     p \<leftarrow> canonicalize_policy url_of cmp policy_input;
     w \<leftarrow> parse_workflow workflow_input;
     (d, origin, code) \<leftarrow> origin_decision url_of p (workflow_declared_origins url_of cmp w) v;
     Some (if d = Allow then \<lparr>ro_allowed = True, ro_issue = None, ro_origin = origin\<rparr>
           else \<lparr>ro_allowed = False, ro_issue = code, ro_origin = None\<rparr>) }"

section \<open>Parsing and canonicalising again\<close>

lemma size_ok_simps [simp]:
  "size_ok n None"
  "size_ok n (Some ys) \<longleftrightarrow> 1 \<le> length ys \<and> length ys \<le> n"
  by (simp_all add: size_ok_def)

interpretation pattern: schema_parser "parse_pattern url_of" for url_of
proof unfold_locales
  fix x y assume "parse_pattern url_of x = Some y"
  then show "parse_pattern url_of y = Some y"
    by (cases x) (auto split: bind_splits if_splits dest: bounded.reparse)
qed

interpretation patterns: schema_parser "parse_patterns url_of" for url_of
proof unfold_locales
  fix x y assume "parse_patterns url_of x = Some y"
  then have "parse_list (parse_pattern url_of) x = Some y" and "length y \<le> MAX_POLICY_ORIGIN_PATTERNS"
    by (auto simp: parse_patterns_def split: bind_splits if_splits)
  then show "parse_patterns url_of y = Some y"
    by (simp add: parse_patterns_def pattern.again_list [OF pattern.normal_list])
qed

interpretation rule: schema_parser "parse_rule url_of" for url_of
proof unfold_locales
  fix x y assume "parse_rule url_of x = Some y"
  then obtain i qs where p: "parse_bounded 64 (rule_id x) = Some i" "rx_matches rule_id_rx i"
      "size_ok 9 (rm_step_types (rule_match x))" "size_ok 11 (rm_intents (rule_match x))"
      "parse_opt (parse_patterns url_of) (rm_origins (rule_match x)) = Some qs"
      "size_ok MAX_POLICY_ORIGIN_PATTERNS qs"
      "\<not> (rule_risk x = None \<and> rule_decision x = None)"
      "\<not> (rm_step_types (rule_match x) = None \<and> rm_intents (rule_match x) = None \<and> qs = None)"
    and y: "y = x\<lparr>rule_id := i, rule_match := (rule_match x)\<lparr>rm_origins := qs\<rparr>\<rparr>"
    unfolding parse_rule_def by (auto split: bind_splits if_splits simp del: rx_matches.simps)
  show "parse_rule url_of y = Some y"
    unfolding y parse_rule_def
    using p bounded.reparse [OF p(1)] patterns.again_opt [OF patterns.normal_opt [OF p(5)]]
    by simp
qed

interpretation policy: schema_parser "parse_policy url_of" for url_of
proof unfold_locales
  fix x y assume "parse_policy url_of x = Some y"
  then obtain as bs rs where "parse_patterns url_of (net_allowed x) = Some as"
      "parse_patterns url_of (net_blocked x) = Some bs"
      "parse_list (parse_rule url_of) (policy_rules x) = Some rs"
      "length rs \<le> MAX_POLICY_RULES" "repeats [] 0 (map rule_id rs) = []"
      "y = x\<lparr>net_allowed := as, net_blocked := bs, policy_rules := rs\<rparr>"
    by (auto simp: parse_policy_def split: bind_splits if_splits)
  then show "parse_policy url_of y = Some y"
    by (simp add: parse_policy_def patterns.reparse rule.again_list [OF rule.normal_list])
qed

lemma canonicalize_parsed:
  "parse_policy url_of p = Some q \<Longrightarrow> canonicalize_policy url_of cmp q = canonicalize_policy url_of cmp p"
  by (simp add: canonicalize_policy_def policy.reparse)

section \<open>The strongest demand\<close>

text \<open>
  What the policy says of one step, without an order: the origin the step runs on, the
  rules that match it, the risks and decisions they ask for. The sequential strengthening
  of the code computes the maximum of these.
\<close>

definition next_origin :: "url_parser \<Rightarrow> workflow_step \<Rightarrow> string option \<Rightarrow> string option" where
  "next_origin url_of st current =
     (case body st of
        Navigate (Literal (LitString v)) \<Rightarrow> of_origin (inspect_url_origin url_of v)
      | Navigate u \<Rightarrow> None
      | _ \<Rightarrow> current)"

definition origin_at :: "url_parser \<Rightarrow> workflow_step list \<Rightarrow> nat \<Rightarrow> string option" where
  "origin_at url_of sts i = fold (next_origin url_of) (take (Suc i) sts) None"

definition matching_rules ::
  "url_parser \<Rightarrow> execution_policy \<Rightarrow> workflow_step \<Rightarrow> string option \<Rightarrow> policy_rule list" where
  "matching_rules url_of p st origin =
     filter (\<lambda>r. rule_matches url_of r st (derive_action_intent (body st)) origin = Some True)
       (policy_rules p)"

definition risk_demands ::
  "url_parser \<Rightarrow> execution_policy \<Rightarrow> workflow_step \<Rightarrow> string option \<Rightarrow> risk_level list" where
  "risk_demands url_of p st origin =
     base_risk_for_intent (derive_action_intent (body st)) (unknown_action_risk p) #
     List.map_filter rule_risk (matching_rules url_of p st origin)"

definition demand_of_risk :: "execution_policy \<Rightarrow> risk_level \<Rightarrow> policy_decision" where
  "demand_of_risk p risk =
     (if risk = RiskCritical \<and> ap_critical p = CriticalDeny then Deny
      else if risk = RiskCritical \<or> (risk = RiskHigh \<and> ap_threshold p = HighOrAbove)
      then RequireApproval else Allow)"

definition demand_of_target :: "url_parser \<Rightarrow> execution_policy \<Rightarrow> string list \<Rightarrow> workflow_step \<Rightarrow> policy_decision" where
  "demand_of_target url_of p declared st =
     (case body st of
        Navigate (Literal (LitString v)) \<Rightarrow>
          (case origin_decision url_of p declared v of Some (d, _) \<Rightarrow> d | None \<Rightarrow> Deny)
      | Navigate u \<Rightarrow> Deny
      | _ \<Rightarrow> Allow)"

definition decision_demands ::
  "url_parser \<Rightarrow> execution_policy \<Rightarrow> string list \<Rightarrow> workflow_step \<Rightarrow> string option \<Rightarrow> policy_decision list" where
  "decision_demands url_of p declared st origin =
     demand_of_target url_of p declared st #
     demand_of_risk p (Max (set (risk_demands url_of p st origin))) #
     List.map_filter rule_decision (matching_rules url_of p st origin)"

lemma Max_insert_max:
  "finite A \<Longrightarrow> Max (insert (max a b) A) = Max (insert a (insert b A))" for a b :: "'a::linorder"
  by (cases "A = {}") (simp_all add: max.assoc)

lemma max_Max_insert:
  "finite A \<Longrightarrow> max (Max (insert a A)) b = Max (insert a (insert b A))" for a b :: "'a::linorder"
  by (cases "A = {}") (simp_all add: max.assoc max.commute max.left_commute)

lemma fold_apply_rule:
  "fold apply_rule ms (r, d) =
     (Max (set (r # List.map_filter rule_risk ms)), Max (set (d # List.map_filter rule_decision ms)))"
proof (induction ms arbitrary: r d)
  case (Cons m ms)
  have "apply_rule m (r, d) =
      (case rule_risk m of None \<Rightarrow> r | Some x \<Rightarrow> max r x,
       case rule_decision m of None \<Rightarrow> d | Some e \<Rightarrow> max d e)"
    by (simp add: apply_rule_def stronger_risk_max stronger_decision_max cong: option.case_cong)
  then show ?case
    by (auto simp: Cons.IH map_filter_simps Max_insert_max simp del: Max_insert split: option.splits)
qed (simp add: map_filter_simps)

lemma decide_by_risk_max: "decide_by_risk p risk d = max d (demand_of_risk p risk)"
proof -
  have "max d Allow = d" by (cases d) (auto simp: max_def less_eq_policy_decision_def)
  then show ?thesis
    by (cases risk; cases "ap_critical p"; cases "ap_threshold p")
      (auto simp: decide_by_risk_def demand_of_risk_def approval_required_def risk_at_least_def
        stronger_decision_max)
qed

lemma filter_matching_Some:
  "filter_matching f xs = Some ys \<Longrightarrow> ys = filter (\<lambda>x. f x = Some True) xs"
  by (induction xs arbitrary: ys) (auto split: bind_splits if_splits)

lemma origin_decision_origin:
  "origin_decision url_of p declared v = Some (d, origin, c) \<Longrightarrow>
     origin = of_origin (inspect_url_origin url_of v)"
  by (auto simp: origin_decision_def inspect_url_origin_def unsafe_origin_def Let_def
      split: option.splits if_splits bind_splits network_mode.splits)

lemma navigation_verdict_Some:
  assumes "navigation_verdict url_of p declared st i current = Some (d, origin, xs)"
  shows "origin = next_origin url_of st current \<and> d = demand_of_target url_of p declared st"
proof -
  have "max Allow e = e" for e by (cases e) (auto simp: max_def less_eq_policy_decision_def)
  with assms show ?thesis
    by (auto simp: navigation_verdict_def next_origin_def demand_of_target_def stronger_decision_max
        dest: origin_decision_origin split: step_body.splits value_source.splits literal.splits bind_splits)
qed

lemma evaluate_step_Some:
  assumes "evaluate_step url_of cmp p declared bindings st i current = Some (e, origin)"
  shows "origin = next_origin url_of st current \<and> se_step_id e = step_id st \<and> se_index e = i \<and>
    se_risk e = Max (set (risk_demands url_of p st origin)) \<and>
    se_decision e = Max (set (decision_demands url_of p declared st origin)) \<and>
    (se_approval_required e \<longleftrightarrow> se_decision e = RequireApproval) \<and>
    (se_approval_satisfied e \<longleftrightarrow> se_decision e = RequireApproval \<and> 0 < i \<and> (i - 1, i) \<in> set bindings) \<and>
    (se_decision e = Deny \<or> (se_decision e = RequireApproval \<and> \<not> se_approval_satisfied e) \<longrightarrow>
       (\<exists>x \<in> set (se_issues e). pi_severity x = Blocking))"
proof -
  let ?intent = "derive_action_intent (body st)"
  from assms obtain d0 xs matched where
    v: "navigation_verdict url_of p declared st i current = Some (d0, origin, xs)" and
    f: "filter_matching (\<lambda>r. rule_matches url_of r st ?intent origin) (policy_rules p) = Some matched"
    by (auto simp: evaluate_step_def Let_def split: bind_splits prod.splits)
  have m: "matched = matching_rules url_of p st origin"
    using filter_matching_Some [OF f] by (simp add: matching_rules_def)
  note fold = fold_apply_rule [of matched "base_risk_for_intent ?intent (unknown_action_risk p)" d0]
  have r: "Max (set (base_risk_for_intent ?intent (unknown_action_risk p) # List.map_filter rule_risk matched))
      = Max (set (risk_demands url_of p st origin))"
    by (simp add: risk_demands_def m)
  have d: "max (Max (set (d0 # List.map_filter rule_decision matched)))
        (demand_of_risk p (Max (set (risk_demands url_of p st origin))))
      = Max (set (decision_demands url_of p declared st origin))"
    using navigation_verdict_Some [OF v]
    by (simp add: decision_demands_def m max_Max_insert del: Max_insert)
  from assms have "se_step_id e = step_id st \<and> se_index e = i \<and>
      se_risk e = Max (set (risk_demands url_of p st origin)) \<and>
      se_decision e = Max (set (decision_demands url_of p declared st origin)) \<and>
      (se_approval_required e \<longleftrightarrow> se_decision e = RequireApproval) \<and>
      (se_approval_satisfied e \<longleftrightarrow> se_decision e = RequireApproval \<and> 0 < i \<and> (i - 1, i) \<in> set bindings) \<and>
      (se_decision e = Deny \<or> (se_decision e = RequireApproval \<and> \<not> se_approval_satisfied e) \<longrightarrow>
         (\<exists>x \<in> set (se_issues e). pi_severity x = Blocking))"
    unfolding evaluate_step_def Let_def v bind.simps prod.case f fold r decide_by_risk_max d
    by (auto simp: step_issue_def)
  with navigation_verdict_Some [OF v] show ?thesis by blast
qed

lemma fold_take_Suc_shift:
  "fold f (take (Suc k) (x # xs)) a = fold f (take k xs) (f x a)"
  by simp

lemma evaluate_steps_Some:
  assumes "evaluate_steps url_of cmp p declared bindings sts i current = Some es"
  shows "length es = length sts \<and>
    (\<forall>k < length sts. \<exists>c.
       evaluate_step url_of cmp p declared bindings (sts ! k) (i + k) c =
         Some (es ! k, fold (next_origin url_of) (take (Suc k) sts) current))"
  using assms
proof (induction sts arbitrary: i current es)
  case (Cons st sts)
  then obtain e origin es' where
    e: "evaluate_step url_of cmp p declared bindings st i current = Some (e, origin)" and
    es': "evaluate_steps url_of cmp p declared bindings sts (Suc i) origin = Some es'" and
    es: "es = e # es'"
    by (auto split: bind_splits)
  have o: "origin = next_origin url_of st current"
    using evaluate_step_Some [OF e] by blast
  from Cons.IH [OF es'] have len: "length es' = length sts" and
    IH: "\<And>k. k < length sts \<Longrightarrow> \<exists>c.
       evaluate_step url_of cmp p declared bindings (sts ! k) (Suc i + k) c =
         Some (es' ! k, fold (next_origin url_of) (take (Suc k) sts) origin)" by blast+
  have "\<exists>c. evaluate_step url_of cmp p declared bindings ((st # sts) ! k) (i + k) c =
         Some (es ! k, fold (next_origin url_of) (take (Suc k) (st # sts)) current)"
    if "k < length (st # sts)" for k
  proof (cases k)
    case 0
    with e es o show ?thesis by auto
  next
    case (Suc n)
    with IH [of n] that es o show ?thesis by simp
  qed
  with es len show ?case by auto
qed simp

text \<open>The parts of an evaluation.\<close>

lemma evaluate_workflow_policy_Some:
  assumes "evaluate_workflow_policy url_of cmp pol w0 pd wd = Some ev"
    and "canonicalize_policy url_of cmp pol = Some p" and "parse_workflow w0 = Some w"
  obtains gates where "analyze_workflow_approvals w = Some gates"
    and "evaluate_steps url_of cmp p (workflow_declared_origins url_of cmp w)
      (map (\<lambda>b. (ab_index b, ab_gated_index b)) (aa_bindings gates)) (steps w) 0 None = Some (pe_steps ev)"
    and "ev = policy_report cmp w (workflow_declared_origins url_of cmp w) (aa_issues gates) pd wd (pe_steps ev)"
proof -
  from assms(1) obtain p0 where "parse_policy url_of pol = Some p0"
    by (auto simp: evaluate_workflow_policy_def split: bind_splits)
  with assms canonicalize_parsed [OF this, of cmp] that show thesis
    by (auto simp: evaluate_workflow_policy_def Let_def policy_report_def split: bind_splits if_splits)
qed

lemma fold_stronger_decision:
  "fold (\<lambda>s d. stronger_decision d (se_decision s)) es d = Max (insert d (se_decision ` set es))"
  by (induction es arbitrary: d)
    (simp_all add: stronger_decision_max Max_insert_max insert_commute del: Max_insert)

lemma fold_stronger_risk:
  "fold (\<lambda>s r. stronger_risk r (se_risk s)) es r = Max (insert r (se_risk ` set es))"
  by (induction es arbitrary: r)
    (simp_all add: stronger_risk_max Max_insert_max insert_commute del: Max_insert)

lemma evaluation_steps:
  assumes "evaluate_workflow_policy url_of cmp pol w0 pd wd = Some ev"
    and "canonicalize_policy url_of cmp pol = Some p" and "parse_workflow w0 = Some w"
  shows "length (pe_steps ev) = length (steps w)"
    and "i < length (steps w) \<Longrightarrow>
      se_index (pe_steps ev ! i) = i \<and>
      se_risk (pe_steps ev ! i) = Max (set (risk_demands url_of p (steps w ! i) (origin_at url_of (steps w) i))) \<and>
      se_decision (pe_steps ev ! i) =
        Max (set (decision_demands url_of p (workflow_declared_origins url_of cmp w) (steps w ! i)
          (origin_at url_of (steps w) i)))"
proof -
  obtain gates :: approval_analysis where e: "evaluate_steps url_of cmp p (workflow_declared_origins url_of cmp w)
      (map (\<lambda>b. (ab_index b, ab_gated_index b)) (aa_bindings gates)) (steps w) 0 None = Some (pe_steps ev)"
    by (rule evaluate_workflow_policy_Some [OF assms]) blast
  from evaluate_steps_Some [OF e] show "length (pe_steps ev) = length (steps w)" by blast
  assume "i < length (steps w)"
  with evaluate_steps_Some [OF e] obtain c where
    "evaluate_step url_of cmp p (workflow_declared_origins url_of cmp w)
      (map (\<lambda>b. (ab_index b, ab_gated_index b)) (aa_bindings gates)) (steps w ! i) (0 + i) c =
      Some (pe_steps ev ! i, fold (next_origin url_of) (take (Suc i) (steps w)) None)" by blast
  from evaluate_step_Some [OF this] show "se_index (pe_steps ev ! i) = i \<and>
      se_risk (pe_steps ev ! i) = Max (set (risk_demands url_of p (steps w ! i) (origin_at url_of (steps w) i))) \<and>
      se_decision (pe_steps ev ! i) =
        Max (set (decision_demands url_of p (workflow_declared_origins url_of cmp w) (steps w ! i)
          (origin_at url_of (steps w) i)))"
    by (simp add: origin_at_def)
qed

section \<open>What a verdict without blocking issues establishes\<close>

text \<open>The navigation the policy permits, from the parts of the URL.\<close>

definition navigation_permitted :: "url_parser \<Rightarrow> execution_policy \<Rightarrow> string list \<Rightarrow> string \<Rightarrow> bool" where
  "navigation_permitted url_of p declared v \<longleftrightarrow>
     (case url_of v of
        None \<Rightarrow> False
      | Some u \<Rightarrow>
          url_username u = [] \<and> url_password u = [] \<and> url_protocol u \<in> {''http:'', ''https:''} \<and>
          (case url_of (url_origin u) of
             None \<Rightarrow> False
           | Some o' \<Rightarrow>
               (url_protocol o' = ''http:'' \<longrightarrow> is_loopback_hostname (url_hostname u) \<and> net_loopback_http p) \<and>
               some_matches (origin_matches_pattern url_of (url_origin u)) (net_blocked p) = Some False \<and>
               (case net_mode p of
                  WorkflowDeclaredOrigins \<Rightarrow> url_origin u \<in> set declared
                | ExplicitAllowlist \<Rightarrow>
                    some_matches (origin_matches_pattern url_of (url_origin u)) (net_allowed p) = Some True)))"

lemma origin_decision_allow_iff:
  "(case origin_decision url_of p declared v of Some (d, _) \<Rightarrow> d = Allow | None \<Rightarrow> False) \<longleftrightarrow>
     navigation_permitted url_of p declared v"
proof (cases "\<exists>u o'. url_of v = Some u \<and> url_username u = [] \<and> url_password u = [] \<and>
    (url_protocol u = ''http:'' \<or> url_protocol u = ''https:'') \<and> url_of (url_origin u) = Some o'")
  case True
  then obtain u o' where u: "url_of v = Some u" "url_username u = []" "url_password u = []"
      "url_protocol u = ''http:'' \<or> url_protocol u = ''https:''" "url_of (url_origin u) = Some o'"
    by blast
  then have fact: "inspect_url_origin url_of v = \<lparr>of_origin = Some (url_origin u), of_safe = True,
      of_loopback = is_loopback_hostname (url_hostname u), of_error = None\<rparr>"
    by (auto simp: inspect_url_origin_def)
  from u show ?thesis
    unfolding origin_decision_def fact navigation_permitted_def Let_def
    by (cases "some_matches (origin_matches_pattern url_of (url_origin u)) (net_blocked p)";
        cases "some_matches (origin_matches_pattern url_of (url_origin u)) (net_allowed p)";
        cases "net_mode p") auto
next
  case False
  then show ?thesis
    by (cases "url_of v")
      (auto simp: origin_decision_def navigation_permitted_def inspect_url_origin_def unsafe_origin_def
        Let_def split: option.splits)
qed

text \<open>A step that the policy lets run, said without the evaluation.\<close>

definition step_cleared ::
  "url_parser \<Rightarrow> execution_policy \<Rightarrow> string list \<Rightarrow> workflow_step list \<Rightarrow> nat \<Rightarrow> bool" where
  "step_cleared url_of p declared sts i \<longleftrightarrow>
     (let st = sts ! i;
          rules = matching_rules url_of p st (origin_at url_of sts i);
          by_risk = demand_of_risk p (Max (set (risk_demands url_of p st (origin_at url_of sts i))))
      in (case body st of
            Navigate (Literal (LitString v)) \<Rightarrow> navigation_permitted url_of p declared v
          | Navigate u \<Rightarrow> False
          | _ \<Rightarrow> True) \<and>
         by_risk \<noteq> Deny \<and> list_all (\<lambda>r. rule_decision r \<noteq> Some Deny) rules \<and>
         (if by_risk = RequireApproval \<or> list_ex (\<lambda>r. rule_decision r = Some RequireApproval) rules
          then 0 < i \<and> is_approval (sts ! (i - 1)) else True))"

lemma Max_not_Deny:
  "Max (set (d # ds)) \<noteq> Deny \<Longrightarrow> e \<in> set (d # ds) \<Longrightarrow> e \<noteq> Deny"
proof
  assume "Max (set (d # ds)) \<noteq> Deny" and e: "e \<in> set (d # ds)" and "e = Deny"
  with Max_ge [OF _ e] have "Deny \<le> Max (set (d # ds))" by simp
  with \<open>Max (set (d # ds)) \<noteq> Deny\<close> show False
    by (cases "Max (set (d # ds))") (auto simp: less_eq_policy_decision_def)
qed

lemma Max_RequireApproval:
  assumes "Max (set (d # ds)) \<noteq> Deny" and e: "RequireApproval \<in> set (d # ds)"
  shows "Max (set (d # ds)) = RequireApproval"
  using Max_ge [OF _ e] assms(1)
  by (cases "Max (set (d # ds))") (auto simp: less_eq_policy_decision_def)

lemma set_map_filter: "set (List.map_filter f xs) = {y. \<exists>x \<in> set xs. f x = Some y}"
  by (induction xs) (auto simp: map_filter_simps split: option.splits)

lemma target_allow_or_deny: "demand_of_target url_of p declared st \<noteq> RequireApproval"
proof -
  have "origin_decision url_of p declared v = Some (d, x) \<Longrightarrow> d \<noteq> RequireApproval" for v d x
    by (auto simp: origin_decision_def Let_def split: if_splits bind_splits)
  then show ?thesis
    by (auto simp: demand_of_target_def split: step_body.splits value_source.splits literal.splits option.splits)
qed

lemma cleared_by_demands:
  assumes nd: "Max (set (decision_demands url_of p declared (sts ! i) (origin_at url_of sts i))) \<noteq> Deny"
    and ap: "Max (set (decision_demands url_of p declared (sts ! i) (origin_at url_of sts i))) = RequireApproval \<Longrightarrow>
      0 < i \<and> is_approval (sts ! (i - 1))"
  shows "step_cleared url_of p declared sts i"
proof -
  let ?st = "sts ! i" and ?o = "origin_at url_of sts i"
  let ?ds = "decision_demands url_of p declared ?st ?o"
  note no_deny = Max_not_Deny [OF nd [unfolded decision_demands_def], folded decision_demands_def]
  note one = Max_RequireApproval [OF nd [unfolded decision_demands_def], folded decision_demands_def]
  have "demand_of_target url_of p declared ?st \<in> set ?ds" by (simp add: decision_demands_def)
  with no_deny target_allow_or_deny have target: "demand_of_target url_of p declared ?st = Allow"
    by (metis policy_decision.exhaust)
  have nav: "case body ?st of Navigate (Literal (LitString v)) \<Rightarrow> navigation_permitted url_of p declared v
      | Navigate u \<Rightarrow> False | _ \<Rightarrow> True"
    using target
    by (auto simp: demand_of_target_def simp flip: origin_decision_allow_iff
        split: step_body.splits value_source.splits literal.splits option.splits)
  have rules: "list_all (\<lambda>r. rule_decision r \<noteq> Some Deny) (matching_rules url_of p ?st ?o)"
    using no_deny [of Deny] by (auto simp: decision_demands_def set_map_filter list_all_iff)
  have "demand_of_risk p (Max (set (risk_demands url_of p ?st ?o))) \<in> set ?ds"
    by (simp add: decision_demands_def)
  with no_deny have risk: "demand_of_risk p (Max (set (risk_demands url_of p ?st ?o))) \<noteq> Deny" by blast
  have "0 < i \<and> is_approval (sts ! (i - 1))"
    if "demand_of_risk p (Max (set (risk_demands url_of p ?st ?o))) = RequireApproval \<or>
      list_ex (\<lambda>r. rule_decision r = Some RequireApproval) (matching_rules url_of p ?st ?o)"
  proof -
    from that have "RequireApproval \<in> set ?ds"
      by (auto simp: decision_demands_def set_map_filter list_ex_iff)
    from ap [OF one [OF this]] show ?thesis .
  qed
  with nav rules risk show ?thesis by (simp add: step_cleared_def Let_def)
qed

lemma not_blocking_steps:
  assumes "evaluate_workflow_policy url_of cmp pol w0 pd wd = Some ev"
    and "canonicalize_policy url_of cmp pol = Some p" and "parse_workflow w0 = Some w"
    and "\<not> pe_blocking ev" and i: "i < length (steps w)"
  shows "se_decision (pe_steps ev ! i) \<noteq> Deny \<and>
    (se_decision (pe_steps ev ! i) = RequireApproval \<longrightarrow> 0 < i \<and> is_approval (steps w ! (i - 1)))"
proof -
  obtain gates :: approval_analysis where g: "analyze_workflow_approvals w = Some gates"
    and e: "evaluate_steps url_of cmp p (workflow_declared_origins url_of cmp w)
      (map (\<lambda>b. (ab_index b, ab_gated_index b)) (aa_bindings gates)) (steps w) 0 None = Some (pe_steps ev)"
    and r: "ev = policy_report cmp w (workflow_declared_origins url_of cmp w) (aa_issues gates) pd wd (pe_steps ev)"
    by (rule evaluate_workflow_policy_Some [OF assms(1-3)])
  from evaluate_steps_Some [OF e] i obtain c where
    s: "evaluate_step url_of cmp p (workflow_declared_origins url_of cmp w)
      (map (\<lambda>b. (ab_index b, ab_gated_index b)) (aa_bindings gates)) (steps w ! i) (0 + i) c =
      Some (pe_steps ev ! i, fold (next_origin url_of) (take (Suc i) (steps w)) None)"
    and len: "length (pe_steps ev) = length (steps w)" by blast
  note step = evaluate_step_Some [OF s]
  from assms(4) have "\<forall>x \<in> set (concat (map se_issues (pe_steps ev))). pi_severity x \<noteq> Blocking"
    by (subst (asm) r) (auto simp: policy_report_def Let_def)
  moreover from i len have "pe_steps ev ! i \<in> set (pe_steps ev)" by simp
  ultimately have "\<forall>x \<in> set (se_issues (pe_steps ev ! i)). pi_severity x \<noteq> Blocking" by auto
  with step have nd: "se_decision (pe_steps ev ! i) \<noteq> Deny"
    and sat: "se_decision (pe_steps ev ! i) = RequireApproval \<Longrightarrow>
      0 < i \<and> (i - 1, i) \<in> set (map (\<lambda>b. (ab_index b, ab_gated_index b)) (aa_bindings gates))"
    by auto
  from g have "aa_bindings gates = aa_bindings (approval_report w)"
    by (auto simp: analyze_workflow_approvals_def Let_def split: if_splits)
  then have "is_approval (steps w ! (i - 1))"
    if "(i - 1, i) \<in> set (map (\<lambda>b. (ab_index b, ab_gated_index b)) (aa_bindings gates))"
    using that approval_report_spec [of w] by (auto simp: binding_at_def is_approval_def)
  with nd sat show ?thesis by blast
qed

section \<open>Properties\<close>

text \<open>
  C12: the decision on every step is the strongest of all demands: its risk is the maximum of
  the base risk of its intent and the minimum risks of the matching rules, its decision the
  maximum of what its target, its risk and the matching rules ask for, whatever the order of
  the rules; the decision and risk of the workflow are the maxima over its steps.
\<close>

theorem decision_is_strongest_demand:
  "evaluate_workflow_policy url_of cmp pol w0 pd wd = Some ev \<Longrightarrow>
   canonicalize_policy url_of cmp pol = Some p \<Longrightarrow> parse_workflow w0 = Some w \<Longrightarrow>
     map (\<lambda>e. (se_index e, se_risk e, se_decision e)) (pe_steps ev) =
     map (\<lambda>i. (i, Max (set (risk_demands url_of p (steps w ! i) (origin_at url_of (steps w) i))),
            Max (set (decision_demands url_of p (workflow_declared_origins url_of cmp w) (steps w ! i)
              (origin_at url_of (steps w) i))))) [0..<length (steps w)] \<and>
     pe_decision ev = Max (insert Allow (se_decision ` set (pe_steps ev))) \<and>
     pe_highest_risk ev = Max (insert RiskLow (se_risk ` set (pe_steps ev)))"
proof -
  assume a: "evaluate_workflow_policy url_of cmp pol w0 pd wd = Some ev"
    "canonicalize_policy url_of cmp pol = Some p" "parse_workflow w0 = Some w"
  obtain gates :: approval_analysis where
    r: "ev = policy_report cmp w (workflow_declared_origins url_of cmp w) (aa_issues gates) pd wd (pe_steps ev)"
    by (rule evaluate_workflow_policy_Some [OF a])
  have "pe_decision ev = Max (insert Allow (se_decision ` set (pe_steps ev)))"
    by (subst r) (simp add: policy_report_def Let_def fold_stronger_decision del: Max_insert)
  moreover have "pe_highest_risk ev = Max (insert RiskLow (se_risk ` set (pe_steps ev)))"
    by (subst r) (simp add: policy_report_def Let_def fold_stronger_risk del: Max_insert)
  moreover note evaluation_steps [OF a]
  ultimately show ?thesis by (auto intro!: nth_equalityI)
qed

text \<open>
  C11: when a verdict has no blocking issue, every step is cleared by the policy itself: a
  navigation goes to a literal URL of an allowed and not blocked origin (plain HTTP only to
  the loopback, where the policy permits it), no matching rule and no critical risk denies
  the step, and where a rule or the risk asks for an approval the step right before it is an
  approval step.
\<close>

theorem clean_policy_verdict_is_safe:
  "evaluate_workflow_policy url_of cmp pol w0 pd wd = Some ev \<Longrightarrow>
   canonicalize_policy url_of cmp pol = Some p \<Longrightarrow> parse_workflow w0 = Some w \<Longrightarrow>
   \<not> pe_blocking ev \<Longrightarrow>
     list_all (step_cleared url_of p (workflow_declared_origins url_of cmp w) (steps w))
       [0..<length (steps w)]"
proof -
  assume a: "evaluate_workflow_policy url_of cmp pol w0 pd wd = Some ev"
    "canonicalize_policy url_of cmp pol = Some p" "parse_workflow w0 = Some w" "\<not> pe_blocking ev"
  have "step_cleared url_of p (workflow_declared_origins url_of cmp w) (steps w) i"
    if "i < length (steps w)" for i
    using not_blocking_steps [OF a that] evaluation_steps(2) [OF a(1-3) that]
    by (intro cleared_by_demands) auto
  then show ?thesis by (simp add: list_all_iff)
qed

text \<open>
  A shop workflow: open the shop, ask for approval, delete an entry. Its policy allows the
  shop's origin only and asks for an approval of critical actions.
\<close>

definition shop_url_parser :: url_parser where
  "shop_url_parser s =
     (if s = ''https://a.example'' \<or> s = ''https://a.example/items''
      then Some \<lparr>url_protocol = ''https:'', url_username = [], url_password = [],
                 url_origin = ''https://a.example'', url_hostname = ''a.example'', url_port = [],
                 url_pathname = (if s = ''https://a.example'' then ''/'' else ''/items''),
                 url_search = [], url_hash = []\<rparr>
      else None)"

definition shop_workflow :: workflow where
  "shop_workflow =
     \<lparr>workflow_id = ''w'', wf_version = 1, wf_name = ''Shop'', wf_description = None,
      wf_status = Published, variables = [],
      steps =
        [\<lparr>step_id = ''open'', step_name = ''Open'',
           body = Navigate (Literal (LitString ''https://a.example/items''))\<rparr>,
         \<lparr>step_id = ''ask'', step_name = ''Ask'', body = Approval ''Delete?'' RiskHigh 10000\<rparr>,
         \<lparr>step_id = ''del'', step_name = ''Delete'', body = Click (Css ''.del'') (Some Delete)\<rparr>]\<rparr>"

definition shop_policy :: execution_policy where
  "shop_policy =
     \<lparr>net_mode = ExplicitAllowlist, net_allowed = [ExactOrigin '' https://a.example''],
      net_blocked = [], net_loopback_http = False, unknown_action_risk = RiskMedium,
      ap_threshold = HighOrAbove, ap_critical = CriticalRequireApproval,
      policy_rules =
        [\<lparr>rule_id = ''clicks'',
           rule_match = \<lparr>rm_step_types = Some [TClick], rm_intents = None, rm_origins = None\<rparr>,
           rule_risk = Some RiskHigh, rule_decision = Some RequireApproval\<rparr>]\<rparr>"

definition shop_digest :: string where
  "shop_digest = replicate 64 CHR ''a''"

definition shop_verdict :: policy_evaluation where
  "shop_verdict =
     the (evaluate_workflow_policy shop_url_parser (\<lambda>a b. 0) shop_policy shop_workflow shop_digest shop_digest)"

lemma shop_evaluated:
  "evaluate_workflow_policy shop_url_parser (\<lambda>a b. 0) shop_policy shop_workflow shop_digest shop_digest
     = Some shop_verdict"
  "canonicalize_policy shop_url_parser (\<lambda>a b. 0) shop_policy =
     Some (shop_policy\<lparr>net_allowed := [ExactOrigin ''https://a.example'']\<rparr>)"
  "parse_workflow shop_workflow = Some shop_workflow"
  "\<not> pe_blocking shop_verdict"
  by code_simp+

text \<open>
  The check the runner makes of a URL at run time allows exactly the navigations that the
  policy permits for the workflow, the ones the evaluation before the run decides on.
\<close>

lemma runtime_origin_check_is_the_policy:
  "(case evaluate_runtime_origin url_of cmp pol w0 v of None \<Rightarrow> False | Some r \<Rightarrow> ro_allowed r) \<longleftrightarrow>
   (case (canonicalize_policy url_of cmp pol, parse_workflow w0) of
      (Some p, Some w) \<Rightarrow> navigation_permitted url_of p (workflow_declared_origins url_of cmp w) v
    | _ \<Rightarrow> False)"
  by (auto simp: evaluate_runtime_origin_def simp flip: origin_decision_allow_iff
      split: option.splits bind_splits)

theorem decision_is_strongest_demand_witness:
  "map (\<lambda>e. (se_index e, se_risk e, se_decision e)) (pe_steps shop_verdict) =
     [(0, RiskLow, Allow), (1, RiskLow, Allow), (2, RiskCritical, RequireApproval)] \<and>
   pe_decision shop_verdict = Max (insert Allow (se_decision ` set (pe_steps shop_verdict)))"
proof
  show "map (\<lambda>e. (se_index e, se_risk e, se_decision e)) (pe_steps shop_verdict) =
     [(0, RiskLow, Allow), (1, RiskLow, Allow), (2, RiskCritical, RequireApproval)]" by code_simp
  show "pe_decision shop_verdict = Max (insert Allow (se_decision ` set (pe_steps shop_verdict)))"
    using decision_is_strongest_demand [OF shop_evaluated(1-3)] by blast
qed

theorem clean_policy_verdict_is_safe_witness:
  "list_all (step_cleared shop_url_parser (shop_policy\<lparr>net_allowed := [ExactOrigin ''https://a.example'']\<rparr>)
     (workflow_declared_origins shop_url_parser (\<lambda>a b. 0) shop_workflow) (steps shop_workflow)) [0, 1, 2]"
proof -
  have "[0..<length (steps shop_workflow)] = [0, 1, 2]" by code_simp
  with clean_policy_verdict_is_safe [OF shop_evaluated(1-4)] show ?thesis by (simp only:)
qed

end
