(* ===== verification/Run_Protocol.thy ===== *)
theory Run_Protocol
  imports Engine_Preflight Workflow_Policy
begin

text \<open>
  \<open>packages/run-protocol/src\<close>: the statuses of a persisted run and of its steps
  (run-state.ts), and the readiness report that the control plane makes before it queues a
  run (run-readiness.ts). The last section relates the report to the preflight of the
  runner: what the control plane calls ready, the engine does not refuse.
\<close>

section \<open>Persisted statuses (contracts.ts, run-state.ts)\<close>

datatype workflow_run_status =
    WrQueued | WrClaimed | WrRunning | WrWaitingForApproval | WrWaitingForRepair | WrCancelRequested
  | WrSucceeded | WrFailed | WrCancelled | WrTimedOut | WrInterrupted

datatype persisted_step_status =
    PsPending | PsRunning | PsWaitingForApproval | PsWaitingForRepair | PsSucceeded | PsFailed
  | PsCancelled | PsTimedOut | PsSkipped | PsInterrupted

fun run_status_transitions :: "workflow_run_status \<Rightarrow> workflow_run_status list" where
  "run_status_transitions WrQueued = [WrClaimed, WrCancelled]"
| "run_status_transitions WrClaimed =
     [WrRunning, WrWaitingForApproval, WrWaitingForRepair, WrCancelRequested, WrSucceeded, WrFailed,
      WrCancelled, WrTimedOut, WrInterrupted]"
| "run_status_transitions WrRunning =
     [WrWaitingForApproval, WrWaitingForRepair, WrCancelRequested, WrSucceeded, WrFailed, WrCancelled,
      WrTimedOut, WrInterrupted]"
| "run_status_transitions WrWaitingForApproval =
     [WrRunning, WrCancelRequested, WrSucceeded, WrFailed, WrCancelled, WrTimedOut, WrInterrupted]"
| "run_status_transitions WrWaitingForRepair =
     [WrRunning, WrCancelRequested, WrFailed, WrCancelled, WrTimedOut, WrInterrupted]"
| "run_status_transitions WrCancelRequested = [WrSucceeded, WrFailed, WrCancelled, WrTimedOut, WrInterrupted]"
| "run_status_transitions _ = []"

fun persisted_step_transitions :: "persisted_step_status \<Rightarrow> persisted_step_status list" where
  "persisted_step_transitions PsPending =
     [PsRunning, PsSucceeded, PsFailed, PsCancelled, PsTimedOut, PsSkipped, PsInterrupted]"
| "persisted_step_transitions PsRunning =
     [PsWaitingForApproval, PsWaitingForRepair, PsSucceeded, PsFailed, PsCancelled, PsTimedOut,
      PsInterrupted]"
| "persisted_step_transitions PsWaitingForApproval =
     [PsRunning, PsSucceeded, PsFailed, PsCancelled, PsTimedOut, PsInterrupted]"
| "persisted_step_transitions PsWaitingForRepair =
     [PsRunning, PsFailed, PsCancelled, PsTimedOut, PsInterrupted]"
| "persisted_step_transitions _ = []"

definition can_transition_workflow_run :: "workflow_run_status \<Rightarrow> workflow_run_status \<Rightarrow> bool" where
  "can_transition_workflow_run c n \<longleftrightarrow> n \<in> set (run_status_transitions c)"

definition can_transition_run_step :: "persisted_step_status \<Rightarrow> persisted_step_status \<Rightarrow> bool" where
  "can_transition_run_step c n \<longleftrightarrow> n \<in> set (persisted_step_transitions c)"

definition is_terminal_workflow_run_status :: "workflow_run_status \<Rightarrow> bool" where
  "is_terminal_workflow_run_status s \<longleftrightarrow> length (run_status_transitions s) = 0"

interpretation persisted_run: transition_table run_status_transitions is_terminal_workflow_run_status
  by unfold_locales (simp add: is_terminal_workflow_run_status_def)

section \<open>Readiness (run-readiness.ts)\<close>

datatype readiness_code =
    RD_WORKFLOW_VERSION_NOT_PUBLISHED | RD_INVALID_WORKFLOW_DEFINITION | RD_RUNTIME_INPUT_REQUIRED
  | RD_SECRET_RESOLUTION_UNAVAILABLE | RD_FILE_INPUT_UNAVAILABLE | RD_UNSUPPORTED_STEP_TYPE
  | RD_FIRST_STEP_MUST_NAVIGATE | RD_NAVIGATION_URL_MUST_BE_LITERAL | RD_INVALID_NAVIGATION_URL
  | RD_NO_ALLOWED_ORIGIN | RD_RUNNER_CAPABILITY_UNAVAILABLE

record readiness_issue =
  rd_code :: readiness_code
  rd_message :: string
  rd_step :: "(string \<times> nat) option"

record readiness_report =
  rr_ready :: bool
  rr_origins :: "string list"
  rr_issues :: "readiness_issue list"

definition ready_issue :: "readiness_code \<Rightarrow> string \<Rightarrow> readiness_issue" where
  "ready_issue c m = \<lparr>rd_code = c, rd_message = m, rd_step = None\<rparr>"

definition ready_step_issue :: "readiness_code \<Rightarrow> string \<Rightarrow> workflow_step \<Rightarrow> nat \<Rightarrow> readiness_issue" where
  "ready_step_issue c m st i = \<lparr>rd_code = c, rd_message = m, rd_step = Some (step_id st, i)\<rparr>"

definition SUPPORTED_STEPS :: "step_type list" where [code_sets]:
  "SUPPORTED_STEPS =
     [TNavigate, TClick, TFill, TSelect, TSetChecked, TWait, TVerify, TExtract, TApproval]"

text \<open>The \<open>try\<close> block of a literal navigation: the origin it adds, or \<open>None\<close> for a throw.\<close>

definition literal_origin :: "url_parser \<Rightarrow> string \<Rightarrow> string option" where
  "literal_origin parse_url v =
     (case parse_url v of
        None \<Rightarrow> None
      | Some u \<Rightarrow>
          (case normalize_allowed_origins parse_url [url_origin u] of
             Inl e \<Rightarrow> None
           | Inr os \<Rightarrow>
               (case validate_navigation_url parse_url v os of
                  Inl e \<Rightarrow> None
                | Inr w \<Rightarrow> Some (hd os))))"

definition step_readiness ::
  "url_parser \<Rightarrow> nat \<times> workflow_step \<Rightarrow> readiness_issue list \<times> string list" where
  "step_readiness parse_url a =
     (case a of (i, st) \<Rightarrow>
        if step_type_of st \<notin> set SUPPORTED_STEPS
        then ([ready_step_issue RD_UNSUPPORTED_STEP_TYPE
                 ''The workflow contains an unsupported execution step.'' st i], [])
        else case body st of
          Navigate (Literal (LitString v)) \<Rightarrow>
            (case literal_origin parse_url v of
               Some origin \<Rightarrow> ([], [origin])
             | None \<Rightarrow>
                 ([ready_step_issue RD_INVALID_NAVIGATION_URL
                     ''Navigate contains an unsafe or invalid URL.'' st i], []))
        | Navigate src \<Rightarrow>
            ([ready_step_issue RD_NAVIGATION_URL_MUST_BE_LITERAL
                ''Navigate requires a literal URL for persisted dispatch.'' st i], [])
        | _ \<Rightarrow> ([], []))"

definition when_issue :: "bool \<Rightarrow> readiness_code \<Rightarrow> string \<Rightarrow> readiness_issue list" where
  "when_issue b c m = (if b then [ready_issue c m] else [])"

text \<open>\<open>findIndex(\<dots>) === index\<close>: the first issue of each code and step.\<close>

fun unique_issues :: "readiness_issue list \<Rightarrow> readiness_issue list \<Rightarrow> readiness_issue list" where
  "unique_issues seen [] = []"
| "unique_issues seen (x # xs) =
     (if \<exists>y \<in> set seen. rd_code y = rd_code x \<and> rd_step y = rd_step x
      then unique_issues (seen @ [x]) xs
      else x # unique_issues (seen @ [x]) xs)"

definition origin_schema_ok :: "url_parser \<Rightarrow> string \<Rightarrow> bool" where
  "origin_schema_ok parse_url v \<longleftrightarrow> parse_url v \<noteq> None \<and> length v \<le> 512"

definition readiness_of_issues ::
  "url_parser \<Rightarrow> readiness_issue list \<Rightarrow> string list \<Rightarrow> readiness_report option" where
  "readiness_of_issues parse_url issues origins =
     (let allowed = js_unique origins;
          issues' = issues @ when_issue (allowed = []) RD_NO_ALLOWED_ORIGIN
            ''The workflow does not provide a safe allowed origin.'';
          unique = unique_issues [] issues'
      in if length allowed \<le> 32 \<and> list_all (origin_schema_ok parse_url) allowed
         then Some \<lparr>rr_ready = (unique = []), rr_origins = allowed, rr_issues = unique\<rparr>
         else None)"

text \<open>The checks of a parsed workflow; \<open>None\<close> where an analysis throws.\<close>

definition workflow_readiness ::
  "url_parser \<Rightarrow> (string \<Rightarrow> string \<Rightarrow> int) \<Rightarrow> workflow \<Rightarrow> readiness_report option" where
  "workflow_readiness parse_url cmp w = do {
     let a = analyze_workflow_inputs w;
     x \<leftarrow> analyze_workflow_extraction cmp w;
     g \<leftarrow> analyze_workflow_approvals w;
     let per_step = map (step_readiness parse_url) (List.enumerate 0 (steps w));
     readiness_of_issues parse_url
       (when_issue (wf_status w \<noteq> Published) RD_WORKFLOW_VERSION_NOT_PUBLISHED
          ''Only a published workflow version can run.'' @
        when_issue (ia_blocking a) RD_INVALID_WORKFLOW_DEFINITION
          ''The workflow has invalid input references.'' @
        when_issue (v_issues (analyze_workflow_verifications parse_url w) \<noteq> []) RD_INVALID_WORKFLOW_DEFINITION
          ''The workflow contains an invalid verification rule.'' @
        when_issue (xa_blocking x) RD_INVALID_WORKFLOW_DEFINITION
          ''The workflow contains an invalid output data flow.'' @
        when_issue (aa_blocking g) RD_INVALID_WORKFLOW_DEFINITION
          ''The workflow contains an invalid approval gate.'' @
        when_issue (\<exists>i \<in> set (ia_variables a). 0 < va_count i) RD_RUNTIME_INPUT_REQUIRED
          ''Runtime variable delivery is unavailable.'' @
        when_issue (ia_secrets a \<noteq> []) RD_SECRET_RESOLUTION_UNAVAILABLE
          ''Secret resolution is unavailable.'' @
        when_issue (\<exists>i \<in> set (ia_variables a). var_type (va_variable i) = VFile \<and>
                      (var_required (va_variable i) \<or> 0 < va_count i)) RD_FILE_INPUT_UNAVAILABLE
          ''File input delivery is unavailable.'' @
        when_issue (\<not> inputs_valid (snd (validate_workflow_run_inputs w (Some [])))) RD_RUNTIME_INPUT_REQUIRED
          ''The workflow requires runtime input delivery.'' @
        when_issue (steps w = [] \<or> step_type_of (hd (steps w)) \<noteq> TNavigate) RD_FIRST_STEP_MUST_NAVIGATE
          ''The first executable step must be Navigate.'' @
        concat (map fst per_step))
       (concat (map snd per_step)) }"

definition analyze_workflow_run_readiness ::
  "url_parser \<Rightarrow> (string \<Rightarrow> string \<Rightarrow> int) \<Rightarrow> workflow option \<Rightarrow> readiness_report option" where
  "analyze_workflow_run_readiness parse_url cmp input =
     (case Option.bind input parse_workflow of
        None \<Rightarrow> Some \<lparr>rr_ready = False, rr_origins = [],
          rr_issues = [ready_issue RD_INVALID_WORKFLOW_DEFINITION ''The workflow definition is invalid.'']\<rparr>
      | Some w \<Rightarrow> workflow_readiness parse_url cmp w)"

section \<open>What a ready report establishes\<close>

lemma when_issue_Nil [simp]: "when_issue b c m = [] \<longleftrightarrow> \<not> b"
  by (simp add: when_issue_def)

lemma unique_issues_Nil [simp]: "unique_issues [] xs = [] \<longleftrightarrow> xs = []"
  by (cases xs) auto

lemma normalize_single:
  "normalize_allowed_origins parse_url [v] = Inr os \<longleftrightarrow>
     (\<exists>u. parse_url v = Some u \<and> is_bare_origin u \<and> os = [url_origin u])"
  by (auto simp: normalize_allowed_origins_def split: option.splits)

text \<open>An origin that is its own origin: what the origin policy of the engine accepts.\<close>

definition settled_origin :: "url_parser \<Rightarrow> string \<Rightarrow> bool" where
  "settled_origin parse_url v \<longleftrightarrow>
     (case parse_url v of None \<Rightarrow> False | Some u \<Rightarrow> is_bare_origin u \<and> url_origin u = v)"

lemma literal_origin_Some:
  assumes "literal_origin parse_url v = Some o'"
  shows "settled_origin parse_url o' \<and>
    (\<exists>u. parse_url v = Some u \<and> url_protocol u \<in> set ALLOWED_PROTOCOLS \<and> url_username u = [] \<and>
      url_password u = [] \<and> url_origin u = o')"
proof -
  from assms obtain u os where u: "parse_url v = Some u"
    and n: "normalize_allowed_origins parse_url [url_origin u] = Inr os"
    and ok: "validate_navigation_url parse_url v os = Inr u" and o': "o' = hd os"
    by (auto simp: literal_origin_def validate_navigation_url_iff split: option.splits sum.splits)
  from n obtain x where "parse_url (url_origin u) = Some x" "is_bare_origin x" "os = [url_origin x]"
    by (auto simp: normalize_single)
  with ok o' u show ?thesis
    by (auto simp: validate_navigation_url_iff settled_origin_def)
qed

lemma normalize_settled:
  assumes "list_all (settled_origin parse_url) os" and "distinct os"
  shows "normalize_allowed_origins parse_url os = Inr os"
proof -
  have "list_all (settled_origin parse_url) vs \<Longrightarrow> distinct (acc @ vs) \<Longrightarrow>
      add_origins parse_url acc vs = Inr (acc @ vs)" for acc vs
    by (induction vs arbitrary: acc) (auto simp: settled_origin_def split: option.splits)
  from this [of os "[]"] assms show ?thesis by (simp add: normalize_allowed_origins_def)
qed

text \<open>A workflow that needs no delivery of inputs: every source is a literal or an output.\<close>

definition self_contained :: "located \<Rightarrow> bool" where
  "self_contained a \<longleftrightarrow>
     (case fst a of
        Literal l \<Rightarrow> literal_type_of l \<in> set (literal_types (get_compatibility (use_target (snd a))))
      | Output n \<Rightarrow> True
      | _ \<Rightarrow> False)"

lemma no_inputs_self_contained:
  assumes "\<not> ia_blocking (analyze_workflow_inputs w)"
    and "\<forall>i \<in> set (ia_variables (analyze_workflow_inputs w)). va_count i = 0"
    and "ia_secrets (analyze_workflow_inputs w) = []"
    and a: "a \<in> set (find_value_sources w)"
  shows "self_contained a"
proof -
  obtain src u where a': "a = (src, u)" by (cases a)
  from assms(1) a have adm: "source_admissible (variables w) (src, u)"
    by (auto simp: analyze_blocking_iff a')
  show ?thesis
  proof (cases src)
    case (Literal l)
    with adm show ?thesis by (simp add: self_contained_def a')
  next
    case (Variable n)
    with adm obtain v where v: "variable_by_name (variables w) n = Some v"
      by (auto split: option.splits)
    then have vn: "v \<in> set (variables w)" "var_name v = n"
      by (auto simp: variable_by_name_def dest!: map_of_SomeD)
    have "usages_by (scan_sources w) n = map snd (filter (\<lambda>a. fst a = Variable n \<and>
        variable_by_name (variables w) n \<noteq> None) (find_value_sources w))"
      by (simp add: scan_sources_def fold_scan_usages initial_scan_def)
    with v a Variable have "u \<in> set (usages_by (scan_sources w) n)" by (force simp: a')
    then have "length (usages_by (scan_sources w) (var_name v)) \<noteq> 0" by (auto simp: vn)
    with assms(2) vn(1) show ?thesis
      by (auto simp: analyze_workflow_inputs_def Let_def)
  next
    case (Secret n)
    have "secret_usages_in (variables w) n (find_value_sources w) = []"
      using analyze_secrets_recorded [of w n] assms(3) by simp
    with a adm Secret show ?thesis
      by (auto simp: secret_usages_in_def filter_empty_conv a')
  next
    case (Output n)
    then show ?thesis by (simp add: self_contained_def a')
  qed
qed

text \<open>The sources of a step are among those of its workflow.\<close>

lemma step_sources_found:
  "i < length (steps w) \<Longrightarrow> set (step_value_sources (steps w ! i) i) \<subseteq> set (find_value_sources w)"
  by (force simp: find_value_sources_def)

lemma verification_clean:
  assumes "v_issues (analyze_workflow_verifications parse_url w) = []" and "i < length (steps w)"
  shows "step_verification_issues parse_url (variables w) i (steps w ! i) = []"
proof -
  from assms(2) have m: "(i, steps w ! i) \<in> set (List.enumerate 0 (steps w))" by simp
  from assms(1) have "\<forall>(i, st) \<in> set (List.enumerate 0 (steps w)).
      step_verification_issues parse_url (variables w) i st = []"
    by (auto simp: analyze_workflow_verifications_def Let_def)
  from bspec [OF this m] show ?thesis by simp
qed

lemma resolve_contained:
  assumes "self_contained (src, u)" and "\<not> is_output src"
  obtains l where "src = Literal l"
    and "resolve (create_runtime_value_resolver vs) src (use_target u) = Inr l"
    and "literal_type_of l \<in> set (literal_types (get_compatibility (use_target u)))"
  using assms that
  by (cases src) (auto simp: self_contained_def is_output_def create_runtime_value_resolver_def)

lemma literal_string:
  "literal_type_of l \<in> set [LtString] \<Longrightarrow> \<exists>s. l = LitString s"
  by (cases l) auto

text \<open>Every value check of the preflight passes on a clean step of a self-contained workflow.\<close>

lemma check_expected_contained:
  assumes "expected_source a = Some (src, t)"
    and "self_contained (src, u)" and "use_target u = t"
    and clean: "source_issue (url_of h) vs t src = None"
  shows "check_expected h (create_runtime_value_resolver rt) a = Inr ()"
proof (cases "is_output src")
  case True
  with assms(1) show ?thesis by (cases src) (auto simp: check_expected_def is_output_def)
next
  case False
  with assms(2,3) obtain l where l: "src = Literal l"
    "resolve (create_runtime_value_resolver rt) src t = Inr l"
    "literal_type_of l \<in> set (literal_types (get_compatibility t))"
    by (auto elim: resolve_contained)
  have "t \<in> {VerifyUrlExpected, VerifyTextExpected, VerifyValueExpected}"
    using assms(1) by (cases a) auto
  with l clean assms(1) show ?thesis
    by (cases l)
      (auto simp: check_expected_def literal_issue_def is_literal_compatible_def normalize_text_def Let_def
        split: if_splits sum.splits url_failure.splits)
qed

lemma check_values_contained:
  assumes c: "\<forall>a \<in> set (step_value_sources st i). self_contained a"
    and v: "step_verification_issues (url_of h) vs i st = []"
    and nav: "\<And>src. body st = Navigate src \<Longrightarrow> check_navigate h (create_runtime_value_resolver rt) os src = Inr ()"
  shows "check_values h (create_runtime_value_resolver rt) os (body st) = Inr ()"
proof (cases "body st")
  case (Navigate src)
  with nav show ?thesis by (simp add: check_values_def)
next
  case (Fill l src)
  with c have s: "self_contained (locate src st i FillValue [''value''])" by simp
  show ?thesis
  proof (cases "is_output src")
    case False
    with s obtain x where "src = Literal x" "literal_type_of x = LtString"
      by (cases src) (auto simp: self_contained_def is_output_def locate_def)
    then show ?thesis
      using Fill literal_string [of x]
      by (auto simp: check_values_def discard_def resolve_text_with_resolver_def is_output_def
          create_runtime_value_resolver_def)
  qed (simp add: check_values_def Fill)
next
  case (Select l src)
  with c have s: "self_contained (locate src st i SelectValue [''value''])" by simp
  show ?thesis
  proof (cases "is_output src")
    case False
    with s obtain x where "src = Literal x" "literal_type_of x \<in> {LtString, LtNumber}"
      by (cases src) (auto simp: self_contained_def is_output_def locate_def)
    then show ?thesis
      using Select
      by (cases x) (auto simp: check_values_def discard_def resolve_select_with_resolver_def is_output_def
          create_runtime_value_resolver_def)
  qed (simp add: check_values_def Select)
next
  case (Verify a t)
  show ?thesis
  proof (cases "expected_source a")
    case None
    then show ?thesis by (simp add: check_values_def check_expected_def Verify)
  next
    case (Some x)
    then obtain src tg where x: "expected_source a = Some (src, tg)" by (cases x) auto
    with c Verify have "self_contained (locate src st i tg [''assertion'', ''expected''])"
      by (cases a) auto
    then have "self_contained (src, snd (locate src st i tg [''assertion'', ''expected'']))"
      by (simp add: locate_def)
    moreover have "use_target (snd (locate src st i tg [''assertion'', ''expected''])) = tg"
      by (simp add: locate_def)
    moreover from v Verify x have "source_issue (url_of h) vs tg src = None"
      by (auto simp: step_verification_issues_def analyze_expected_def split: option.splits)
    ultimately have "check_expected h (create_runtime_value_resolver rt) a = Inr ()"
      by (rule check_expected_contained [OF x])
    then show ?thesis by (simp add: check_values_def Verify)
  qed
qed (simp_all add: check_values_def)

text \<open>The parts of a ready report.\<close>

definition ready_workflow ::
  "url_parser \<Rightarrow> (string \<Rightarrow> string \<Rightarrow> int) \<Rightarrow> workflow \<Rightarrow> string list \<Rightarrow> bool" where
  "ready_workflow parse_url cmp w os \<longleftrightarrow>
     wf_status w = Published \<and>
     \<not> ia_blocking (analyze_workflow_inputs w) \<and>
     v_issues (analyze_workflow_verifications parse_url w) = [] \<and>
     (\<exists>x. analyze_workflow_extraction cmp w = Some x \<and> \<not> xa_blocking x) \<and>
     (\<exists>g. analyze_workflow_approvals w = Some g \<and> \<not> aa_blocking g) \<and>
     (\<forall>i \<in> set (ia_variables (analyze_workflow_inputs w)). va_count i = 0) \<and>
     ia_secrets (analyze_workflow_inputs w) = [] \<and>
     inputs_valid (snd (validate_workflow_run_inputs w (Some []))) \<and>
     (\<forall>a \<in> set (List.enumerate 0 (steps w)). fst (step_readiness parse_url a) = []) \<and>
     os = js_unique (concat (map (snd \<circ> step_readiness parse_url) (List.enumerate 0 (steps w)))) \<and>
     os \<noteq> [] \<and> length os \<le> 32 \<and> list_all (origin_schema_ok parse_url) os"

lemma readiness_of_issues_ready:
  assumes "readiness_of_issues parse_url xs os = Some r" and "rr_ready r"
  shows "xs = [] \<and> rr_origins r = js_unique os \<and> js_unique os \<noteq> [] \<and> length (js_unique os) \<le> 32 \<and>
    list_all (origin_schema_ok parse_url) (js_unique os)"
  using assms by (auto simp: readiness_of_issues_def Let_def split: if_splits)

lemma readiness_ready:
  assumes r: "analyze_workflow_run_readiness parse_url cmp (Some w0) = Some r" and ready: "rr_ready r"
  obtains w where "parse_workflow w0 = Some w" and "ready_workflow parse_url cmp w (rr_origins r)"
proof -
  from r ready obtain w where w: "parse_workflow w0 = Some w"
    and wr: "workflow_readiness parse_url cmp w = Some r"
    by (auto simp: analyze_workflow_run_readiness_def split: option.splits)
  from wr obtain x g where x: "analyze_workflow_extraction cmp w = Some x"
    and g: "analyze_workflow_approvals w = Some g"
    by (auto simp: workflow_readiness_def Let_def split: bind_splits)
  from wr have "ready_workflow parse_url cmp w (rr_origins r)"
    unfolding workflow_readiness_def Let_def x g bind.simps
    by (drule_tac readiness_of_issues_ready [OF _ ready])
      (auto simp: ready_workflow_def x g comp_def)
  with w that show thesis by blast
qed

lemma ready_step:
  assumes "ready_workflow parse_url cmp w os" and i: "i < length (steps w)"
    and b: "body (steps w ! i) = Navigate src"
  shows "\<exists>v o'. src = Literal (LitString v) \<and> literal_origin parse_url v = Some o' \<and> o' \<in> set os"
proof -
  from i have m: "(i, steps w ! i) \<in> set (List.enumerate 0 (steps w))" by simp
  with assms(1) have "fst (step_readiness parse_url (i, steps w ! i)) = []"
    by (auto simp: ready_workflow_def)
  with b obtain v o' where v: "src = Literal (LitString v)" "literal_origin parse_url v = Some o'"
    by (auto simp: step_readiness_def code_sets split: value_source.splits literal.splits option.splits)
  with b have "snd (step_readiness parse_url (i, steps w ! i)) = [o']"
    by (simp add: step_readiness_def code_sets)
  moreover from assms(1) have "set os = (\<Union>a \<in> set (List.enumerate 0 (steps w)). set (snd (step_readiness parse_url a)))"
    by (simp add: ready_workflow_def)
  ultimately have "o' \<in> set os" using m by (metis UN_I list.set_intros(1))
  with v show ?thesis by blast
qed

lemma ready_origins_settled:
  assumes "ready_workflow parse_url cmp w os"
  shows "list_all (settled_origin parse_url) os"
proof -
  have "settled_origin parse_url o'" if "o' \<in> set (snd (step_readiness parse_url a))" for o' a
    using that
    by (auto simp: step_readiness_def dest: literal_origin_Some
        split: prod.splits if_splits step_body.splits value_source.splits literal.splits option.splits)
  with assms show ?thesis by (auto simp: ready_workflow_def list_all_iff)
qed

text \<open>The host's parser serialises an origin without surrounding white space.\<close>

definition serialises_origins :: "url_parser \<Rightarrow> bool" where
  "serialises_origins parse_url \<longleftrightarrow>
     (\<forall>s u. parse_url s = Some u \<longrightarrow> url_origin u \<noteq> [] \<and> trim (url_origin u) = url_origin u)"

lemma ready_origins_parse:
  assumes r: "ready_workflow parse_url cmp w os" and s: "serialises_origins parse_url"
  shows "parse_origins os = Some os"
proof -
  have "parse_bounded MAX_ORIGIN_LENGTH o' = Some o'" if "o' \<in> set os" for o'
  proof -
    from ready_origins_settled [OF r] that have "settled_origin parse_url o'" by (simp add: list_all_iff)
    with s have "o' \<noteq> [] \<and> trim o' = o'"
      by (auto simp: settled_origin_def serialises_origins_def split: option.splits)
    moreover from r that have "length o' \<le> 512"
      by (auto simp: ready_workflow_def list_all_iff origin_schema_ok_def)
    ultimately show ?thesis by (cases o') (auto simp: parse_bounded_def MAX_ORIGIN_LENGTH_def)
  qed
  then have "parse_list (parse_bounded MAX_ORIGIN_LENGTH) os = Some os"
    by (simp add: parse_list_normal)
  moreover have "1 \<le> length os" "length os \<le> MAX_ALLOWED_ORIGINS"
    using r by (auto simp: ready_workflow_def MAX_ALLOWED_ORIGINS_def Suc_le_eq simp del: length_greater_0_conv)
  ultimately show ?thesis by (simp add: parse_origins_def)
qed

text \<open>A runner that supports what the control plane supports.\<close>

definition capable_host :: "host \<Rightarrow> bool" where
  "capable_host h \<longleftrightarrow>
     external_resolver h = None \<and> set SUPPORTED_STEPS \<subseteq> set (supported_types h) \<and>
     validate_step h = (\<lambda>st. None) \<and> approvals_available h \<and> serialises_origins (url_of h)"

lemma ready_check_step:
  assumes r: "ready_workflow (url_of h) cmp w os" and h: "capable_host h" and i: "i < length (steps w)"
  shows "check_step h (create_runtime_value_resolver []) os (steps w ! i) = Inr ()"
proof -
  let ?r = "create_runtime_value_resolver []" and ?st = "steps w ! i"
  have "check_navigate h ?r os src = Inr ()" if b: "body ?st = Navigate src" for src
  proof -
    from ready_step [OF r i b] obtain v o' where v: "src = Literal (LitString v)"
      "literal_origin (url_of h) v = Some o'" "o' \<in> set os" by blast
    with literal_origin_Some [OF v(2)] show ?thesis
      by (auto simp: check_navigate_def resolve_text_with_resolver_def create_runtime_value_resolver_def
          validate_navigation_url_iff split: sum.splits)
        (auto simp: validate_navigation_url_def)
  qed
  moreover have "\<forall>a \<in> set (step_value_sources ?st i). self_contained a"
    using step_sources_found [OF i] r by (auto simp: ready_workflow_def intro: no_inputs_self_contained)
  moreover have "step_verification_issues (url_of h) (variables w) i ?st = []"
    using r i by (auto simp: ready_workflow_def intro: verification_clean)
  ultimately have "check_values h ?r os (body ?st) = Inr ()" by (intro check_values_contained)
  moreover have "step_type_of ?st \<in> set (supported_types h)"
    using h by (cases "step_type_of ?st") (auto simp: capable_host_def code_sets)
  ultimately show ?thesis using h by (simp add: check_step_def capable_host_def)
qed

section \<open>Properties\<close>

text \<open>The request a runner makes from a ready report: no inputs, the report's origins.\<close>

definition ready_request :: "workflow \<Rightarrow> readiness_report \<Rightarrow> raw_options \<Rightarrow> raw_request" where
  "ready_request w0 r opts =
     \<lparr>rq_envelope = True, rq_workflow = Some w0, rq_inputs = Some [], rq_origins = Some (rr_origins r),
      rq_options = Some opts\<rparr>"

text \<open>
  C13: a workflow that the control plane reports ready is not refused by the engine: on a
  runner that supports the step types, with valid options and the origins of the report, the
  preflight succeeds, and the run may navigate to exactly these origins.
\<close>

theorem ready_run_passes_preflight:
  "analyze_workflow_run_readiness (url_of h) (collate h) (Some w0) = Some r \<Longrightarrow> rr_ready r \<Longrightarrow>
   capable_host h \<Longrightarrow> parse_options opts = Some e \<Longrightarrow>
   eo_mode e = AutomaticSafeOnly \<or> recovery_available h \<Longrightarrow>
     (case preflight_workflow_execution h (ready_request w0 r opts) of
        PreflightOk p \<Rightarrow> pr_origins p = rr_origins r
      | _ \<Rightarrow> False)"
proof -
  assume r: "analyze_workflow_run_readiness (url_of h) (collate h) (Some w0) = Some r" "rr_ready r"
    and h: "capable_host h" and e: "parse_options opts = Some e"
    and m: "eo_mode e = AutomaticSafeOnly \<or> recovery_available h"
  from readiness_ready [OF r] obtain w where w: "parse_workflow w0 = Some w"
    and ready: "ready_workflow (url_of h) (collate h) w (rr_origins r)" .
  let ?os = "rr_origins r" and ?r = "create_runtime_value_resolver []"
  from ready obtain x g where x: "analyze_workflow_extraction (collate h) w = Some x" "\<not> xa_blocking x"
    and g: "analyze_workflow_approvals w = Some g" "\<not> aa_blocking g" by (auto simp: ready_workflow_def)
  with ready h have "analyses_error h w = Inr None"
    by (simp add: analyses_error_def ready_workflow_def capable_host_def)
  moreover from ready h have "check_inputs h w [] = None"
    by (simp add: check_inputs_def Let_def ready_workflow_def capable_host_def)
  moreover from ready_origins_parse [OF ready] h have "parse_origins ?os = Some ?os"
    by (simp add: capable_host_def)
  moreover have "distinct ?os" using ready by (auto simp: ready_workflow_def distinct_unique_from)
  with ready_origins_settled [OF ready] have "normalize_allowed_origins (url_of h) ?os = Inr ?os"
    by (intro normalize_settled)
  moreover have "check_steps h ?r ?os (steps w) = Inr ()"
    unfolding check_steps_Inr using ready_check_step [OF ready h] by (metis in_set_conv_nth)
  moreover have "parse_submission [] = Some []" by (simp add: parse_submission_def)
  ultimately have "preflight_passed h (ready_request w0 r opts) w [] ?os ?os e ?r"
    using w e m h by (simp add: preflight_passed_def ready_request_def capable_host_def)
  then have "preflight_workflow_execution h (ready_request w0 r opts) =
      PreflightOk (prepared_of w [] ?os ?os e ?r)"
    using preflight_Ok_iff by blast
  then show ?thesis by (simp add: prepared_of_def)
qed

definition shop_host :: host where
  "shop_host =
     \<lparr>url_of = shop_url_parser, number_text = (\<lambda>n. []), collate = (\<lambda>a b. 0),
      supported_types = SUPPORTED_STEPS, validate_step = (\<lambda>st. None), external_resolver = None,
      approvals_available = True, recovery_available = False\<rparr>"

lemma shop_host_capable: "capable_host shop_host"
  by (auto simp: capable_host_def shop_host_def serialises_origins_def shop_url_parser_def split: if_splits)
    code_simp+

theorem ready_run_passes_preflight_witness:
  "analyze_workflow_run_readiness shop_url_parser (\<lambda>a b. 0) (Some shop_workflow) =
     Some \<lparr>rr_ready = True, rr_origins = [''https://a.example''], rr_issues = []\<rparr> \<and>
   (case preflight_workflow_execution shop_host
      (ready_request shop_workflow \<lparr>rr_ready = True, rr_origins = [''https://a.example''], rr_issues = []\<rparr>
        \<lparr>ro_total = 1000, ro_step = 500, ro_mode = None\<rparr>) of
      PreflightOk p \<Rightarrow> pr_origins p = [''https://a.example'']
    | _ \<Rightarrow> False)"
proof -
  let ?r = "\<lparr>rr_ready = True, rr_origins = [''https://a.example''], rr_issues = []\<rparr> :: readiness_report"
  have 1: "analyze_workflow_run_readiness shop_url_parser (\<lambda>a b. 0) (Some shop_workflow) = Some ?r"
    by code_simp
  then have "analyze_workflow_run_readiness (url_of shop_host) (collate shop_host) (Some shop_workflow) = Some ?r"
    by (simp add: shop_host_def)
  from ready_run_passes_preflight [OF this _ shop_host_capable, of "\<lparr>ro_total = 1000, ro_step = 500, ro_mode = None\<rparr>"
      "\<lparr>eo_total = 1000, eo_step = 500, eo_mode = AutomaticSafeOnly\<rparr>"] 1
  show ?thesis by (simp add: parse_options_def MIN_EXECUTION_TIMEOUT_MS_def MAX_EXECUTION_TIMEOUT_MS_def
        MIN_STEP_TIMEOUT_MS_def MAX_STEP_TIMEOUT_MS_def cong: preflight_result.case_cong)
qed

end
