(* ===== verification/Iso_Time.thy ===== *)
theory Iso_Time
  imports Calendar "HOL-Library.Monad_Syntax"
begin

text \<open>
  ECMAScript's date-time strings: \<open>toISOString\<close> of a time value (milliseconds since
  1970-01-01 UTC) and what \<open>new Date(s)\<close> reads from a string with a time and an offset. The
  audit trail normalises its timestamps with the two (\<open>normalizeAuditTimestamp\<close> of
  packages/audit-trail/src/canonical-json.ts).
\<close>

section \<open>Digits\<close>

definition digit_char :: "int \<Rightarrow> char" where
  "digit_char n = char_of (48 + nat n)"

fun digits :: "nat \<Rightarrow> int \<Rightarrow> string" where
  "digits 0 n = []"
| "digits (Suc w) n = digits w (n div 10) @ [digit_char (n mod 10)]"

lemma length_digits [simp]: "length (digits w n) = w"
  by (induction w arbitrary: n) auto

lemma of_digit_char: "0 \<le> n \<Longrightarrow> n < 10 \<Longrightarrow> of_char (digit_char n) = 48 + nat n"
  by (simp add: digit_char_def)

lemma digit_value_char: "0 \<le> n \<Longrightarrow> n < 10 \<Longrightarrow> digit_value (digit_char n) = n"
  by (simp add: digit_value_def of_digit_char)

lemma is_digit_char: "0 \<le> n \<Longrightarrow> n < 10 \<Longrightarrow> is_digit (digit_char n)"
  by (simp add: is_digit_def in_range_def of_digit_char)

lemma all_digits [simp]: "list_all is_digit (digits w n)"
  by (induction w arbitrary: n) (auto simp: is_digit_char)

lemma digits_value_digits: "0 \<le> n \<Longrightarrow> n < 10 ^ w \<Longrightarrow> digits_value (digits w n) = n"
proof (induction w arbitrary: n)
  case 0
  then show ?case by (simp add: digits_value_def)
next
  case (Suc w)
  then have "n div 10 < 10 ^ w" by simp
  with Suc have "digits_value (digits w (n div 10)) = n div 10" by simp
  with Suc.prems show ?case by (simp add: digits_value_def digit_value_char)
qed

section \<open>Writing\<close>

definition day_ms :: int where "day_ms = 86400000"
definition MAX_TIME :: int where "MAX_TIME = 8640000000000000"

definition year_text :: "int \<Rightarrow> string" where
  "year_text y =
     (if 0 \<le> y \<and> y \<le> 9999 then digits 4 y
      else (if y < 0 then CHR ''-'' else CHR ''+'') # digits 6 \<bar>y\<bar>)"

definition to_iso_string :: "int \<Rightarrow> string" where
  "to_iso_string ms =
     (let (y, m, k) = civil_of_day (ms div day_ms); t = ms mod day_ms
      in year_text y @ ''-'' @ digits 2 (m + 1) @ ''-'' @ digits 2 k @ ''T'' @
         digits 2 (t div 3600000) @ '':'' @ digits 2 (t div 60000 mod 60) @ '':'' @
         digits 2 (t div 1000 mod 60) @ ''.'' @ digits 3 (t mod 1000) @ ''Z'')"

section \<open>Reading\<close>

definition expect :: "char \<Rightarrow> string \<Rightarrow> string option" where
  "expect c s = (case s of [] \<Rightarrow> None | d # r \<Rightarrow> if d = c then Some r else None)"

definition take_digits :: "nat \<Rightarrow> string \<Rightarrow> (int \<times> string) option" where
  "take_digits n s =
     (if n \<le> length s \<and> list_all is_digit (take n s)
      then Some (digits_value (take n s), drop n s) else None)"

text \<open>Four digits, or a sign and six digits; the year -000000 does not exist.\<close>

definition read_year :: "string \<Rightarrow> (int \<times> string) option" where
  "read_year s =
     (case s of
        [] \<Rightarrow> None
      | c # r \<Rightarrow>
          if c = CHR ''+'' then take_digits 6 r
          else if c = CHR ''-''
          then do { (y, r) \<leftarrow> take_digits 6 r; if y = 0 then None else Some (- y, r) }
          else take_digits 4 s)"

text \<open>Seconds and a fraction are optional; of the fraction three digits count.\<close>

definition read_fraction :: "string \<Rightarrow> (int \<times> string) option" where
  "read_fraction s =
     (case expect CHR ''.'' s of
        None \<Rightarrow> Some (0, s)
      | Some r \<Rightarrow>
          let ds = takeWhile is_digit r
          in if ds = [] then None
             else Some (digits_value (take 3 (ds @ ''00'')), dropWhile is_digit r))"

definition read_seconds :: "string \<Rightarrow> (int \<times> string) option" where
  "read_seconds s =
     (case expect CHR '':'' s of
        None \<Rightarrow> Some (0, s)
      | Some r \<Rightarrow> do {
          (sec, r) \<leftarrow> take_digits 2 r;
          (f, r) \<leftarrow> read_fraction r;
          if sec \<le> 59 then Some (sec * 1000 + f, r) else None })"

text \<open>The offset from UTC in milliseconds, which must end the string.\<close>

definition read_offset :: "string \<Rightarrow> int option" where
  "read_offset s =
     (if s = ''Z'' then Some 0
      else case s of
        [] \<Rightarrow> None
      | c # r \<Rightarrow> do {
          sg \<leftarrow> (if c = CHR ''+'' then Some 1 else if c = CHR ''-'' then Some (- 1) else None);
          (h, r) \<leftarrow> take_digits 2 r;
          (m, r) \<leftarrow> take_digits 2 (case expect CHR '':'' r of None \<Rightarrow> r | Some q \<Rightarrow> q);
          if r = [] \<and> h \<le> 23 \<and> m \<le> 59 then Some (sg * (h * 3600000 + m * 60000)) else None })"

definition time_clip :: "int \<Rightarrow> int option" where
  "time_clip t = (if \<bar>t\<bar> \<le> MAX_TIME then Some t else None)"

definition time_value :: "int \<Rightarrow> int \<Rightarrow> int \<Rightarrow> int \<Rightarrow> int \<Rightarrow> int \<Rightarrow> int \<Rightarrow> int option" where
  "time_value y m d h mi sec off =
     (if 1 \<le> m \<and> m \<le> 12 \<and> 1 \<le> d \<and> d \<le> 31 \<and> h \<le> 23 \<and> mi \<le> 59
      then time_clip (make_day y (m - 1) d * day_ms + h * 3600000 + mi * 60000 + sec - off)
      else None)"

definition parse_date_time :: "string \<Rightarrow> int option" where
  "parse_date_time s = do {
     (y, s) \<leftarrow> read_year s;
     s \<leftarrow> expect CHR ''-'' s;
     (m, s) \<leftarrow> take_digits 2 s;
     s \<leftarrow> expect CHR ''-'' s;
     (d, s) \<leftarrow> take_digits 2 s;
     s \<leftarrow> expect CHR ''T'' s;
     (h, s) \<leftarrow> take_digits 2 s;
     s \<leftarrow> expect CHR '':'' s;
     (mi, s) \<leftarrow> take_digits 2 s;
     (sec, s) \<leftarrow> read_seconds s;
     off \<leftarrow> read_offset s;
     time_value y m d h mi sec off }"

text \<open>\<open>normalizeAuditTimestamp\<close>; an invalid date throws a \<open>TypeError\<close>.\<close>

definition normalize_audit_timestamp :: "string \<Rightarrow> string option" where
  "normalize_audit_timestamp s = map_option to_iso_string (parse_date_time s)"

section \<open>Reading back what was written\<close>

lemma take_digits_digits:
  "0 \<le> n \<Longrightarrow> n < 10 ^ w \<Longrightarrow> take_digits w (digits w n @ r) = Some (n, r)"
  by (simp add: take_digits_def digits_value_digits)

lemma expect_Cons [simp]: "expect c (c # r) = Some r"
  by (simp add: expect_def)

lemma digits_head: "\<exists>d ds. digits (Suc w) n = d # ds \<and> is_digit d"
proof -
  have "digits (Suc w) n \<noteq> []" by simp
  then obtain d ds where "digits (Suc w) n = d # ds" by (cases "digits (Suc w) n") blast+
  with all_digits [of "Suc w" n] show ?thesis by (simp del: digits.simps)
qed

lemma read_year_text:
  assumes "\<bar>y\<bar> < 1000000"
  shows "read_year (year_text y @ r) = Some (y, r)"
proof (cases "0 \<le> y \<and> y \<le> 9999")
  case True
  obtain d ds where d: "digits 4 y = d # ds" "is_digit d"
    using digits_head [of 3 y] by (auto simp: numeral_eq_Suc)
  have "d \<noteq> CHR ''+''" "d \<noteq> CHR ''-''" using d(2) by (auto simp: is_digit_def in_range_def)
  with True d(1) take_digits_digits [of y 4 r] show ?thesis
    by (simp add: read_year_def year_text_def)
next
  case False
  with assms take_digits_digits [of "\<bar>y\<bar>" 6 r] show ?thesis
    by (auto simp: read_year_def year_text_def)
qed

lemma read_seconds_text:
  assumes "0 \<le> t" "t < 60000"
  shows "read_seconds ('':'' @ digits 2 (t div 1000) @ ''.'' @ digits 3 (t mod 1000) @ ''Z'') = Some (t, ''Z'')"
proof -
  have z: "\<not> is_digit CHR ''Z''" by (simp add: is_digit_def in_range_def)
  have ds: "takeWhile is_digit (digits 3 n @ ''Z'') = digits 3 n" "dropWhile is_digit (digits 3 n @ ''Z'') = ''Z''" for n
    using all_digits [of 3 n] z by (simp_all add: takeWhile_append dropWhile_append list_all_iff del: digits.simps)
  have ne: "digits 3 n \<noteq> []" for n
    by (metis length_digits list.size(3) zero_neq_numeral)
  have tk: "take 3 (digits 3 n @ x) = digits 3 n" for n x by simp
  have "read_fraction (''.'' @ digits 3 (t mod 1000) @ ''Z'') = Some (t mod 1000, ''Z'')"
    unfolding read_fraction_def append_Cons append_Nil expect_Cons option.case ds Let_def tk
    using ne digits_value_digits [of "t mod 1000" 3] by simp
  moreover have "take_digits 2 (digits 2 (t div 1000) @ s) = Some (t div 1000, s)" for s
    using assms by (intro take_digits_digits) auto
  moreover have "t div 1000 \<le> 59" using assms by simp
  ultimately show ?thesis
    by (simp add: read_seconds_def del: digits.simps)
qed

lemma make_day_civil:
  "civil_of_day n = (y, m, d) \<Longrightarrow> make_day y m d = n"
proof -
  let ?y = "year_of_day n"
  let ?k = "n - day_from_year ?y"
  assume c: "civil_of_day n = (y, m, d)"
  from year_of_day_spec [of n] day_from_year_Suc [of ?y]
  have "0 \<le> ?k" "?k < sum_list (month_lengths ?y)" by (simp_all add: month_lengths_props)
  from month_of_spec [OF month_lengths_props(1) this] obtain i where
    i: "i < 12" "fst (month_of (month_lengths ?y) ?k) = int i"
      "month_start (month_lengths ?y) i + snd (month_of (month_lengths ?y) ?k) = ?k"
    by (auto simp: month_lengths_props)
  with c have "y = ?y" "m = int i" "d = snd (month_of (month_lengths ?y) ?k) + 1"
    by (auto simp: civil_of_day_def Let_def split: prod.splits)
  with i show ?thesis
    by (simp add: make_day_def div_pos_pos_trivial mod_pos_pos_trivial)
qed

lemma year_bound:
  assumes "\<bar>n\<bar> \<le> 100000000"
  shows "\<bar>year_of_day n\<bar> < 1000000"
proof (rule ccontr)
  assume "\<not> ?thesis"
  then consider "1000000 \<le> year_of_day n" | "year_of_day n \<le> - 1000000" by linarith
  then show False
  proof cases
    case 1
    from day_from_year_mono [OF 1] year_of_day_spec [of n] assms show False
      by (simp add: day_from_year_def)
  next
    case 2
    then have "year_of_day n + 1 \<le> - 999999" by simp
    from day_from_year_mono [OF this] year_of_day_spec [of n] assms show False
      by (simp add: day_from_year_def)
  qed
qed

lemma clock_parts:
  fixes t :: int
  assumes "0 \<le> t" "t < day_ms"
  shows "t div 3600000 \<in> {0..23}" "t div 60000 mod 60 \<in> {0..59}"
    "t div 3600000 * 3600000 + t div 60000 mod 60 * 60000 + t mod 60000 = t"
    "t mod 60000 div 1000 = t div 1000 mod 60" "t mod 60000 mod 1000 = t mod 1000"
proof -
  from assms show "t div 3600000 \<in> {0..23}" by (auto simp: day_ms_def)
  show "t div 60000 mod 60 \<in> {0..59}" by (auto intro: pos_mod_bound [THEN zle_diff1_eq [THEN iffD2, THEN order_trans]])
  have "t div 60000 = 60 * (t div 60000 div 60) + t div 60000 mod 60" by simp
  also have "t div 60000 div 60 = t div 3600000" by (simp flip: zdiv_zmult2_eq)
  finally show "t div 3600000 * 3600000 + t div 60000 mod 60 * 60000 + t mod 60000 = t"
    using div_mult_mod_eq [of t 60000] by linarith
  have m: "t mod 60000 = 1000 * (t div 1000 mod 60) + t mod 1000"
    using zmod_zmult2_eq [of 60 t 1000] by simp
  then show "t mod 60000 div 1000 = t div 1000 mod 60" by simp
  show "t mod 60000 mod 1000 = t mod 1000" by (simp add: mod_mod_cancel)
qed

lemma parse_to_iso_string:
  assumes "\<bar>ms\<bar> \<le> MAX_TIME"
  shows "parse_date_time (to_iso_string ms) = Some ms"
proof -
  define n t where "n = ms div day_ms" and "t = ms mod day_ms"
  obtain y m d where c: "civil_of_day n = (y, m, d)" by (metis prod_cases3)
  have ms: "n * day_ms + t = ms" by (simp add: n_def t_def)
  have t: "0 \<le> t" "t < day_ms" by (simp_all add: t_def day_ms_def)
  note p = clock_parts [OF t]
  from assms have "\<bar>n\<bar> \<le> 100000000"
    unfolding n_def MAX_TIME_def day_ms_def by (simp add: abs_le_iff) linarith
  from year_bound [OF this] c have y: "\<bar>y\<bar> < 1000000"
    by (simp add: civil_of_day_def Let_def split: prod.splits)
  from civil_of_day_valid [of n] c have v: "valid_civil y m d" by simp
  then have m: "0 \<le> m" "m < 12" by (simp_all add: valid_civil_def)
  have d: "1 \<le> d" "d \<le> 31"
  proof -
    have "list_all (\<lambda>l. l \<le> 31) (month_lengths y)" by (simp add: month_lengths_def)
    with m have "month_lengths y ! nat m \<le> 31"
      by (simp add: list_all_length month_lengths_props)
    with v show "1 \<le> d" "d \<le> 31" by (simp_all add: valid_civil_def)
  qed
  have s: "to_iso_string ms =
      year_text y @ CHR ''-'' # digits 2 (m + 1) @ CHR ''-'' # digits 2 d @ CHR ''T'' #
      digits 2 (t div 3600000) @ CHR '':'' # digits 2 (t div 60000 mod 60) @
      ('':'' @ digits 2 (t mod 60000 div 1000) @ ''.'' @ digits 3 (t mod 60000 mod 1000) @ ''Z'')"
    by (simp add: to_iso_string_def n_def [symmetric] t_def [symmetric] c p(4,5) del: digits.simps)
  have sec: "read_seconds ('':'' @ digits 2 (t mod 60000 div 1000) @ ''.'' @ digits 3 (t mod 60000 mod 1000) @ ''Z'') =
      Some (t mod 60000, ''Z'')"
    by (rule read_seconds_text) auto
  have td: "take_digits 2 (digits 2 k @ r) = Some (k, r)" if "0 \<le> k" "k < 100" for k r
    using that take_digits_digits [of k 2 r] by simp
  have h: "0 \<le> t div 3600000" "t div 3600000 < 100" "0 \<le> t div 60000 mod 60" "t div 60000 mod 60 < 100"
    using p(1,2) by auto
  have z: "read_offset ''Z'' = Some 0" by (simp add: read_offset_def)
  have "parse_date_time (to_iso_string ms) =
      time_value y (m + 1) d (t div 3600000) (t div 60000 mod 60) (t mod 60000) 0"
    unfolding s parse_date_time_def read_year_text [OF y] bind.bind_lunit case_prod_conv expect_Cons
    using m d h by (simp add: td sec z del: digits.simps append.simps)
  moreover have "n * day_ms + t div 3600000 * 3600000 + t div 60000 mod 60 * 60000 + t mod 60000 - 0 = ms"
    using p(3) ms by linarith
  ultimately show ?thesis
    using m d p(1,2) assms unfolding time_value_def time_clip_def by (simp add: make_day_civil [OF c])
qed

lemma parse_date_time_bound: "parse_date_time s = Some ms \<Longrightarrow> \<bar>ms\<bar> \<le> MAX_TIME"
proof -
  have "time_value y m d h mi sec off = Some ms \<Longrightarrow> \<bar>ms\<bar> \<le> MAX_TIME" for y m d h mi sec off
    by (auto simp: time_value_def time_clip_def split: if_splits)
  then show "parse_date_time s = Some ms \<Longrightarrow> \<bar>ms\<bar> \<le> MAX_TIME"
    unfolding parse_date_time_def by (fastforce split: bind_splits)
qed

lemma normalize_idem:
  "normalize_audit_timestamp s = Some u \<Longrightarrow> normalize_audit_timestamp u = Some u"
  by (auto simp: normalize_audit_timestamp_def parse_to_iso_string dest: parse_date_time_bound)

end
