(* ===== verification/Schedule_Zone.thy ===== *)
theory Schedule_Zone
  imports Iso_Time
begin

text \<open>
  Wall clocks and instants (packages/workflow-scheduling/src/timezone.ts). Luxon and the time-zone
  database are parameters: a zone is the offset of its wall clock at every instant and the
  instant that Luxon gives a wall clock. The arithmetic of Luxon's \<open>DateTime\<close> that the schedules
  use (startOf, set, plus, diff) is written out on them. The locale \<open>civil_zone\<close> states what the
  schedules rely on, from a first day on; it is interpreted on the zones of a fixed offset, UTC
  among them, and on zones whose clock is advanced, with the transition of America/New\_York in
  March 2024 and that of Africa/Cairo in April 2024, a day without a midnight.
\<close>

section \<open>Zones\<close>

text \<open>Instants and wall clocks are milliseconds; a wall clock is read as if it were UTC.\<close>

record zone =
  zone_offset :: "int \<Rightarrow> int"
  zone_resolve :: "int \<Rightarrow> int"

definition wall :: "zone \<Rightarrow> int \<Rightarrow> int" where
  "wall z i = i + zone_offset z i"

definition wall_day :: "zone \<Rightarrow> int \<Rightarrow> int" where
  "wall_day z i = wall z i div day_ms"

text \<open>The instant of a time \<open>t\<close> (milliseconds since midnight) on a local day.\<close>

definition at_time :: "zone \<Rightarrow> int \<Rightarrow> int \<Rightarrow> int" where
  "at_time z day t = zone_resolve z (day * day_ms + t)"

definition start_of_day :: "zone \<Rightarrow> int \<Rightarrow> int" where
  "start_of_day z i = at_time z (wall_day z i) 0"

definition set_time :: "zone \<Rightarrow> int \<Rightarrow> int \<Rightarrow> int" where
  "set_time z t i = at_time z (wall_day z i) t"

definition plus_days :: "zone \<Rightarrow> int \<Rightarrow> int \<Rightarrow> int" where
  "plus_days z n i = zone_resolve z (wall z i + n * day_ms)"

text \<open>\<open>Math.floor(later.diff(earlier, 'days').days)\<close>: whole local days that fit between them.\<close>

definition days_between :: "zone \<Rightarrow> int \<Rightarrow> int \<Rightarrow> int" where
  "days_between z earlier later =
     (let n = wall_day z later - wall_day z earlier
      in if later < plus_days z n earlier then n - 1 else n)"

text \<open>ISO weekdays and weeks, Monday first; day 0 was a Thursday.\<close>

definition iso_weekday :: "int \<Rightarrow> int" where
  "iso_weekday day = (day + 3) mod 7 + 1"

definition monday_of :: "int \<Rightarrow> int" where
  "monday_of day = day - (iso_weekday day - 1)"

definition start_of_week :: "zone \<Rightarrow> int \<Rightarrow> int" where
  "start_of_week z i = at_time z (monday_of (wall_day z i)) 0"

definition set_weekday_time :: "zone \<Rightarrow> int \<Rightarrow> int \<Rightarrow> int \<Rightarrow> int" where
  "set_weekday_time z wd t i = at_time z (monday_of (wall_day z i) + wd - 1) t"

definition weeks_between :: "zone \<Rightarrow> int \<Rightarrow> int \<Rightarrow> int" where
  "weeks_between z earlier later =
     (let n = (wall_day z later - wall_day z earlier) div 7
      in if later < plus_days z (7 * n) earlier then n - 1 else n)"

section \<open>From a local date and time to an instant\<close>

type_synonym local_date = "int \<times> int \<times> int"

text \<open>\<open>DateTime.fromObject\<close>: invalid when the calendar has no such day. Months count from 1.\<close>

definition date_day :: "local_date \<Rightarrow> int option" where
  "date_day date =
     (case date of (y, m, d) \<Rightarrow> if valid_civil y (m - 1) d then Some (make_day y (m - 1) d) else None)"

definition day_date :: "int \<Rightarrow> local_date" where
  "day_date day = (case civil_of_day day of (y, m, d) \<Rightarrow> (y, m + 1, d))"

datatype dst_outcome = Nonexistent | Repeated int | Unambiguous int

definition same_minute :: "int \<Rightarrow> int \<Rightarrow> bool" where
  "same_minute a b \<longleftrightarrow> a div 60000 = b div 60000"

definition local_date_time_to_utc :: "zone \<Rightarrow> local_date \<Rightarrow> int \<Rightarrow> dst_outcome" where
  "local_date_time_to_utc z date t =
     (case date_day date of
        None \<Rightarrow> Nonexistent
      | Some day \<Rightarrow>
          let primary = at_time z day t
          in if \<not> same_minute (wall z primary) (day * day_ms + t) then Nonexistent
             else if same_minute (wall z (primary + 3600000)) (day * day_ms + t) then Repeated primary
             else Unambiguous primary)"

definition is_local_date_time_valid :: "zone \<Rightarrow> local_date \<Rightarrow> int \<Rightarrow> bool" where
  "is_local_date_time_valid z date t \<longleftrightarrow> local_date_time_to_utc z date t \<noteq> Nonexistent"

fun outcome_instant :: "dst_outcome \<Rightarrow> int option" where
  "outcome_instant Nonexistent = None"
| "outcome_instant (Repeated i) = Some i"
| "outcome_instant (Unambiguous i) = Some i"

lemma day_date_day [simp]: "date_day (day_date n) = Some n"
proof -
  obtain y m d where c: "civil_of_day n = (y, m, d)" by (metis prod_cases3)
  with civil_of_day_valid [of n] make_day_civil [OF c] show ?thesis
    by (simp add: date_day_def day_date_def)
qed

section \<open>What the schedules rely on\<close>

definition in_day :: "int \<Rightarrow> bool" where
  "in_day t \<longleftrightarrow> 0 \<le> t \<and> t < day_ms"

text \<open>
  The clock with which a local day begins. It is not midnight on a day whose clocks go forward at
  midnight: 26 April 2024 begins at 01:00 in Cairo.
\<close>

definition day_clock :: "zone \<Rightarrow> int \<Rightarrow> int" where
  "day_clock z day = wall z (at_time z day 0) - day * day_ms"

definition has_midnight :: "zone \<Rightarrow> int \<Rightarrow> bool" where
  "has_midnight z day \<longleftrightarrow> day_clock z day = 0"

text \<open>
  The laws of a zone, from the local day \<open>first\<close> on: a time is resolved within its day and not
  before the day begins; the first instant of a day is not later than any other and is the instant
  of its own wall clock; instants of different local days are ordered as the days; a day
  lasts longer than an hour; and the days before \<open>first\<close> begin before it. A day without a
  midnight is covered. Not covered are a day the zone left out (30 December 2011 in Apia) and a
  clock set back over midnight (St. John's until 2011): there \<open>first\<close> has to be a later day.
  For a wall clock that occurs twice Luxon leaves open which instant it gives; the model
  takes one of them for every wall clock.
\<close>

locale civil_zone =
  fixes z :: zone and first :: int
  assumes within: "\<lbrakk>first \<le> day; in_day t\<rbrakk> \<Longrightarrow> wall_day z (at_time z day t) = day"
    and not_before: "\<lbrakk>first \<le> day; in_day t\<rbrakk> \<Longrightarrow> at_time z day 0 \<le> at_time z day t"
    and begins: "first \<le> wall_day z i \<Longrightarrow> at_time z (wall_day z i) 0 \<le> i"
    and stable: "first \<le> day \<Longrightarrow> zone_resolve z (wall z (at_time z day 0)) = at_time z day 0"
    and ordered: "\<lbrakk>first \<le> wall_day z j; wall_day z i < wall_day z j\<rbrakk> \<Longrightarrow> i < j"
    and long_day: "first \<le> day \<Longrightarrow> at_time z day 0 + 3600000 < at_time z (day + 1) 0"
    and earlier: "day < first \<Longrightarrow> at_time z day 0 < at_time z first 0"
begin

lemma in_day_0 [simp]: "in_day 0"
  by (simp add: in_day_def day_ms_def)

lemma start_less: "\<lbrakk>wall_day z i < day; first \<le> day; in_day t\<rbrakk> \<Longrightarrow> i < at_time z day t"
  using ordered [of "at_time z day t" i] by (simp add: within)

lemma start_le_iff: "first \<le> day \<Longrightarrow> at_time z day 0 \<le> i \<longleftrightarrow> day \<le> wall_day z i"
proof
  assume "first \<le> day" "at_time z day 0 \<le> i"
  then show "day \<le> wall_day z i" using start_less [of i day 0] by fastforce
next
  assume f: "first \<le> day" and d: "day \<le> wall_day z i"
  show "at_time z day 0 \<le> i"
  proof (cases "day = wall_day z i")
    case False
    with f d ordered [of i "at_time z day 0"] show ?thesis by (simp add: within)
  qed (use f begins in simp)
qed

lemma starts_le: "\<lbrakk>first \<le> a; first \<le> b\<rbrakk> \<Longrightarrow> at_time z a 0 \<le> at_time z b 0 \<longleftrightarrow> a \<le> b"
  by (simp add: start_le_iff within)

lemma starts_less: "first \<le> b \<Longrightarrow> at_time z a 0 < at_time z b 0 \<longleftrightarrow> a < b"
proof (cases "first \<le> a")
  case False
  assume "first \<le> b"
  then have "at_time z first 0 \<le> at_time z b 0" by (simp add: starts_le)
  with earlier [of a] False \<open>first \<le> b\<close> show ?thesis by simp
qed (use starts_le [of b a] in \<open>auto simp: not_le [symmetric]\<close>)

lemma clock_in_day: "first \<le> day \<Longrightarrow> in_day (day_clock z day)"
proof -
  assume "first \<le> day"
  then have "wall z (at_time z day 0) div day_ms = day"
    using within [of day 0] by (simp add: wall_day_def)
  then have "wall z (at_time z day 0) = day * day_ms + wall z (at_time z day 0) mod day_ms"
    using div_mult_mod_eq [of "wall z (at_time z day 0)" day_ms] by simp
  then have "day_clock z day = wall z (at_time z day 0) mod day_ms" by (simp add: day_clock_def)
  then show ?thesis by (simp add: in_day_def day_ms_def)
qed

lemma plus_start: "plus_days z n (at_time z day 0) = at_time z (day + n) (day_clock z day)"
  by (simp add: plus_days_def day_clock_def at_time_def algebra_simps)

lemma clock_start: "first \<le> day \<Longrightarrow> at_time z day (day_clock z day) = at_time z day 0"
  using stable [of day] by (simp add: at_time_def day_clock_def)

lemma plus_midnight: "has_midnight z day \<Longrightarrow> plus_days z n (at_time z day 0) = at_time z (day + n) 0"
  by (simp add: plus_start has_midnight_def)

lemma between_starts:
  "\<lbrakk>first \<le> a; a \<le> b\<rbrakk> \<Longrightarrow> days_between z (at_time z a 0) (at_time z b 0) =
     (if at_time z b 0 < at_time z b (day_clock z a) then b - a - 1 else b - a)"
  by (simp add: days_between_def Let_def within plus_start)

lemma between_midnights:
  "\<lbrakk>first \<le> a; has_midnight z a; a \<le> b\<rbrakk> \<Longrightarrow> days_between z (at_time z a 0) (at_time z b 0) = b - a"
  by (simp add: between_starts has_midnight_def)

lemma weeks_between_starts:
  "\<lbrakk>first \<le> a; a \<le> b; 7 dvd b - a\<rbrakk> \<Longrightarrow> weeks_between z (at_time z a 0) (at_time z b 0) =
     (if at_time z b 0 < at_time z b (day_clock z a) then (b - a) div 7 - 1 else (b - a) div 7)"
  by (simp add: weeks_between_def Let_def within plus_start)

lemma plus_day: 
  assumes "first \<le> wall_day z i + n"
  shows "wall_day z (plus_days z n i) = wall_day z i + n"
proof -
  have "in_day (wall z i mod day_ms)" by (simp add: in_day_def day_ms_def)
  moreover have "plus_days z n i = at_time z (wall_day z i + n) (wall z i mod day_ms)"
    using div_mult_mod_eq [of "wall z i" day_ms]
    by (simp add: plus_days_def at_time_def wall_day_def algebra_simps)
  ultimately show ?thesis using assms by (simp add: within)
qed

text \<open>The laws hold from every later day on.\<close>

lemma later_first: "first \<le> day \<Longrightarrow> civil_zone z day"
proof
  fix d i j t
  assume f: "first \<le> day"
  show "\<lbrakk>day \<le> d; in_day t\<rbrakk> \<Longrightarrow> wall_day z (at_time z d t) = d" using f within [of d t] by simp
  show "\<lbrakk>day \<le> d; in_day t\<rbrakk> \<Longrightarrow> at_time z d 0 \<le> at_time z d t" using f not_before [of d t] by simp
  show "day \<le> wall_day z i \<Longrightarrow> at_time z (wall_day z i) 0 \<le> i" using f begins [of i] by simp
  show "day \<le> d \<Longrightarrow> zone_resolve z (wall z (at_time z d 0)) = at_time z d 0" using f stable [of d] by simp
  show "\<lbrakk>day \<le> wall_day z j; wall_day z i < wall_day z j\<rbrakk> \<Longrightarrow> i < j" using f ordered [of j i] by simp
  show "day \<le> d \<Longrightarrow> at_time z d 0 + 3600000 < at_time z (d + 1) 0" using f long_day [of d] by simp
  show "d < day \<Longrightarrow> at_time z d 0 < at_time z day 0" using f starts_less [of day d] by simp
qed

end

text \<open>The wall clock of a day at a time exists when the zone resolves it to itself.\<close>

definition time_exists :: "zone \<Rightarrow> int \<Rightarrow> int \<Rightarrow> bool" where
  "time_exists z day t \<longleftrightarrow> same_minute (wall z (at_time z day t)) (day * day_ms + t)"

lemma outcome_of_date:
  "outcome_instant (local_date_time_to_utc z date t) =
     (case date_day date of
        None \<Rightarrow> None
      | Some day \<Rightarrow> if time_exists z day t then Some (at_time z day t) else None)"
  by (simp add: local_date_time_to_utc_def Let_def time_exists_def split: option.split)

section \<open>Zones of a fixed offset, and a zone whose clock is advanced\<close>

definition fixed_zone :: "int \<Rightarrow> zone" where
  "fixed_zone off = \<lparr>zone_offset = (\<lambda>_. off), zone_resolve = (\<lambda>lt. lt - off)\<rparr>"

abbreviation utc :: zone where "utc \<equiv> fixed_zone 0"

lemma div_day: "in_day t \<Longrightarrow> (day * day_ms + t) div day_ms = day"
  by (simp add: in_day_def day_ms_def)

lemma div_less_imp: "a div day_ms < b div day_ms \<Longrightarrow> a < b" for a b :: int
  using zdiv_mono1 [of b a day_ms] by (fastforce simp: day_ms_def)

interpretation fixed: civil_zone "fixed_zone off" first for off first
proof
  fix i j day t
  note defs = wall_day_def wall_def at_time_def fixed_zone_def
  show "in_day t \<Longrightarrow> wall_day (fixed_zone off) (at_time (fixed_zone off) day t) = day"
    by (simp add: defs div_day)
  show "in_day t \<Longrightarrow> at_time (fixed_zone off) day 0 \<le> at_time (fixed_zone off) day t"
    by (simp add: defs in_day_def)
  show "at_time (fixed_zone off) (wall_day (fixed_zone off) i) 0 \<le> i"
    using floor_le [of day_ms "i + off"] by (simp add: defs day_ms_def)
  show "zone_resolve (fixed_zone off) (wall (fixed_zone off) (at_time (fixed_zone off) day 0)) = at_time (fixed_zone off) day 0"
    by (simp add: defs)
  show "wall_day (fixed_zone off) i < wall_day (fixed_zone off) j \<Longrightarrow> i < j"
    using div_less_imp [of "i + off" "j + off"] by (simp add: defs)
  show "at_time (fixed_zone off) day 0 + 3600000 < at_time (fixed_zone off) (day + 1) 0"
    by (simp add: defs day_ms_def)
  show "day < first \<Longrightarrow> at_time (fixed_zone off) day 0 < at_time (fixed_zone off) first 0"
    by (simp add: defs day_ms_def)
qed

text \<open>
  Clocks advanced from \<open>before\<close> to \<open>after\<close> at the instant \<open>change\<close>; a wall clock in the gap is
  read with the earlier offset, which moves it on.
\<close>

definition advancing_zone :: "int \<Rightarrow> int \<Rightarrow> int \<Rightarrow> zone" where
  "advancing_zone change before_offset after_offset =
     \<lparr>zone_offset = (\<lambda>i. if i < change then before_offset else after_offset),
      zone_resolve = (\<lambda>lt. if lt - after_offset < change then lt - before_offset else lt - after_offset)\<rparr>"

text \<open>The laws hold where the gap and the times it moves on lie in one day.\<close>

lemma advancing_civil:
  assumes ba: "b \<le> a" and gap: "gap_day * day_ms \<le> c + b" "c + 2 * a - b < (gap_day + 1) * day_ms"
  shows "civil_zone (advancing_zone c b a) first"
proof
  fix i j day t
  let ?z = "advancing_zone c b a"
  note defs = wall_def wall_day_def at_time_def advancing_zone_def
  have in_gap: "day = gap_day"
    if "in_day t" "day * day_ms + t - a < c" "\<not> day * day_ms + t - b < c" for day t
    using that gap ba by (simp add: in_day_def day_ms_def)
  show "wall_day ?z (at_time ?z day t) = day" if t: "in_day t"
  proof (cases "day * day_ms + t - a < c \<and> \<not> day * day_ms + t - b < c")
    case True
    with in_gap [OF t] have d: "day = gap_day" by blast
    have "wall ?z (at_time ?z day t) = day * day_ms + (t + a - b)"
      using True by (simp add: defs)
    moreover have "in_day (t + a - b)" using True t gap ba by (simp add: d in_day_def day_ms_def)
    ultimately show ?thesis using div_day by (simp add: wall_day_def)
  next
    case False
    then show ?thesis using div_day [OF t, of day] ba unfolding defs by (auto simp: algebra_simps)
  qed
  have low: "day * day_ms \<le> c + b" if "day * day_ms - a < c" for day
    using in_gap [of 0 day] that gap(1) by (fastforce simp: in_day_def day_ms_def)
  from low [of day] show "in_day t \<Longrightarrow> at_time ?z day 0 \<le> at_time ?z day t"
    using ba by (auto simp: defs in_day_def)
  show "at_time ?z (wall_day ?z i) 0 \<le> i"
    using ba low [of "(i + a) div day_ms"] floor_le [of day_ms "i + a"] floor_le [of day_ms "i + b"]
    unfolding defs by (auto simp: day_ms_def)
  show "zone_resolve ?z (wall ?z (at_time ?z day 0)) = at_time ?z day 0"
    using ba unfolding defs by auto
  show "i < j" if "wall_day ?z i < wall_day ?z j"
    using div_less_imp [OF that [unfolded wall_day_def]] that ba gap unfolding defs
    by (auto split: if_splits simp: day_ms_def)
  show "at_time ?z day 0 + 3600000 < at_time ?z (day + 1) 0"
    using ba gap unfolding defs day_ms_def by auto
  show "day < first \<Longrightarrow> at_time ?z day 0 < at_time ?z first 0"
    using ba gap unfolding defs day_ms_def by auto
qed

text \<open>
  America/New\_York around 10 March 2024, 07:00 UTC, and Africa/Cairo around 25 April 2024,
  22:00 UTC, the midnight of 26 April, which does not occur.
\<close>

definition new_york :: zone where
  "new_york = advancing_zone 1710054000000 (- 18000000) (- 14400000)"

definition cairo :: zone where
  "cairo = advancing_zone 1714082400000 7200000 10800000"

interpretation new_york: civil_zone new_york first for first
  unfolding new_york_def by (rule advancing_civil [where gap_day = 19792]) (simp_all add: day_ms_def)

interpretation cairo: civil_zone cairo first for first
  unfolding cairo_def by (rule advancing_civil [where gap_day = 19839]) (simp_all add: day_ms_def)

lemma cairo_midnight: "has_midnight cairo day \<longleftrightarrow> day \<noteq> 19839"
  by (auto simp: has_midnight_def day_clock_def wall_def at_time_def cairo_def advancing_zone_def day_ms_def)

lemma new_york_midnight: "has_midnight new_york day"
  by (auto simp: has_midnight_def day_clock_def wall_def at_time_def new_york_def advancing_zone_def day_ms_def)

lemma fixed_midnight: "has_midnight (fixed_zone off) day"
  by (simp add: has_midnight_def day_clock_def wall_def at_time_def fixed_zone_def)

end
