(* ===== verification/Canonical_Json.thy ===== *)
theory Canonical_Json
  imports Prelude Complex_Main "HOL-Library.Char_ord" "HOL-Library.List_Lexorder"
begin

text \<open>
  Canonical JSON (packages/audit-trail/src/canonical-json.ts; workflow-policy has the same
  function in canonicalization.ts): the text of a value with the keys of every object
  sorted. Digests and the hash chain of the audit trail are computed from these texts, so
  what matters is that different values have different texts. The decimal text of a finite
  number is the language's, the parameter \<open>num\<close>.
\<close>

section \<open>Values and their text\<close>

text \<open>
  A JavaScript value as the serialiser sees it: \<open>JNonFinite\<close> is NaN or an infinity, and
  \<open>JOther\<close> anything else that is not JSON (a function, an object with a prototype of its
  own). Objects list their own keys in insertion order. A value here is a tree, so the
  cycle check never fires.
\<close>

datatype json =
    JNull
  | JBool bool
  | JNumber rat
  | JNonFinite
  | JString string
  | JArray "json list"
  | JObject "(string \<times> json) list"
  | JUndefined
  | JOther

definition hex_digit :: "nat \<Rightarrow> char" where
  "hex_digit n = (if n < 10 then char_of (48 + n) else char_of (87 + n))"

text \<open>\<open>JSON.stringify\<close> of one code unit below 256 inside a string.\<close>

definition escape :: "char \<Rightarrow> string" where
  "escape c =
     (let n = of_char c :: nat
      in if n = 8 then [CHR 0x5C, CHR ''b'']
         else if n = 9 then [CHR 0x5C, CHR ''t'']
         else if n = 10 then [CHR 0x5C, CHR ''n'']
         else if n = 12 then [CHR 0x5C, CHR ''f'']
         else if n = 13 then [CHR 0x5C, CHR ''r'']
         else if n = 34 then [CHR 0x5C, CHR 0x22]
         else if n = 92 then [CHR 0x5C, CHR 0x5C]
         else if n < 32 then [CHR 0x5C, CHR ''u'', CHR ''0'', CHR ''0'', hex_digit (n div 16), hex_digit (n mod 16)]
         else [c])"

text \<open>For evaluation: a printable character other than the quote and the backslash is its own escape.\<close>

fun plain_char :: "char \<Rightarrow> bool" where
  "plain_char (Char b0 b1 b2 b3 b4 b5 b6 b7) =
     (if b7 then True
      else if b6 then b5 \<or> \<not> b4 \<or> \<not> b3 \<or> \<not> b2 \<or> b1 \<or> b0
      else b5 \<and> (b4 \<or> b3 \<or> b2 \<or> \<not> b1 \<or> b0))"

definition escape_rare :: "char \<Rightarrow> string" where
  "escape_rare c = escape c"

lemma escape_plain: "plain_char c \<Longrightarrow> escape c = [c]"
  by (cases c) (auto simp: escape_def Let_def of_char_Char split: if_splits)

lemma escape_code [code]: "escape c = (if plain_char c then [c] else escape_rare c)"
  by (simp add: escape_plain escape_rare_def)

lemma escape_rare_code [code]:
  "escape_rare c =
     (let n = of_char c :: nat
      in if n = 8 then [CHR 0x5C, CHR ''b'']
         else if n = 9 then [CHR 0x5C, CHR ''t'']
         else if n = 10 then [CHR 0x5C, CHR ''n'']
         else if n = 12 then [CHR 0x5C, CHR ''f'']
         else if n = 13 then [CHR 0x5C, CHR ''r'']
         else if n = 34 then [CHR 0x5C, CHR 0x22]
         else if n = 92 then [CHR 0x5C, CHR 0x5C]
         else if n < 32 then [CHR 0x5C, CHR ''u'', CHR ''0'', CHR ''0'', hex_digit (n div 16), hex_digit (n mod 16)]
         else [c])"
  unfolding escape_rare_def escape_def ..

definition quote :: "string \<Rightarrow> string" where
  "quote s = [CHR 0x22] @ concat (map escape s) @ [CHR 0x22]"

fun join_with :: "string \<Rightarrow> string list \<Rightarrow> string" where
  "join_with sep [] = []"
| "join_with sep [x] = x"
| "join_with sep (x # y # xs) = x @ sep @ join_with sep (y # xs)"

text \<open>Where the serialiser does not throw.\<close>

fun plain_json :: "json \<Rightarrow> bool" where
  "plain_json (JArray vs) = list_all plain_json vs"
| "plain_json (JObject kvs) = list_all (\<lambda>kv. plain_json (snd kv)) kvs"
| "plain_json JNonFinite = False"
| "plain_json JUndefined = False"
| "plain_json JOther = False"
| "plain_json _ = True"

lemma member_size: "kv \<in> set kvs \<Longrightarrow> size (snd kv) < Suc (size_list (size_prod (\<lambda>_. 0) size) kvs)"
  by (induction kvs) auto

function json_text :: "(rat \<Rightarrow> string) \<Rightarrow> json \<Rightarrow> string" where
  "json_text num JNull = ''null''"
| "json_text num (JBool b) = (if b then ''true'' else ''false'')"
| "json_text num (JNumber n) = num n"
| "json_text num (JString s) = quote s"
| "json_text num (JArray vs) = ''['' @ join_with '','' (map (json_text num) vs) @ '']''"
| "json_text num (JObject kvs) =
     ''{'' @ join_with '','' (map (\<lambda>kv. quote (fst kv) @ '':'' @ json_text num (snd kv)) (sort_key fst kvs)) @ ''}''"
| "json_text num JNonFinite = []"
| "json_text num JUndefined = []"
| "json_text num JOther = []"
  by pat_completeness auto
termination
  by (relation "measure (\<lambda>(num, v). size v)")
    (auto simp: less_Suc_eq_le dest: member_size intro: size_list_estimation')

definition serialize_canonical_json :: "(rat \<Rightarrow> string) \<Rightarrow> json \<Rightarrow> string option" where
  "serialize_canonical_json num v = (if plain_json v then Some (json_text num v) else None)"

section \<open>Reading a text back\<close>

text \<open>The escape of a code unit is read back by its first characters.\<close>

definition hex_value :: "char \<Rightarrow> nat" where
  "hex_value c = (let n = of_char c :: nat in if n < 58 then n - 48 else n - 87)"

fun unescape :: "string \<Rightarrow> (char \<times> string) option" where
  "unescape [] = None"
| "unescape (c # cs) =
     (if c \<noteq> CHR 0x5C then Some (c, cs)
      else case cs of
        [] \<Rightarrow> None
      | d # ds \<Rightarrow>
          if d = CHR ''b'' then Some (char_of (8 :: nat), ds)
          else if d = CHR ''t'' then Some (char_of (9 :: nat), ds)
          else if d = CHR ''n'' then Some (char_of (10 :: nat), ds)
          else if d = CHR ''f'' then Some (char_of (12 :: nat), ds)
          else if d = CHR ''r'' then Some (char_of (13 :: nat), ds)
          else if d = CHR ''u''
          then Some (char_of (16 * hex_value (ds ! 2) + hex_value (ds ! 3)), drop 4 ds)
          else Some (d, ds))"

lemma hex_value_digit: "n < 16 \<Longrightarrow> hex_value (hex_digit n) = n"
  by (simp add: hex_value_def hex_digit_def Let_def)

lemma hex_round: "n < 32 \<Longrightarrow> 16 * hex_value (hex_digit (n div 16)) + hex_value (hex_digit (n mod 16)) = n"
  by (simp add: hex_value_digit)

lemma char_of_special [simp]: "char_of (34 :: nat) = CHR 0x22" "char_of (92 :: nat) = CHR 0x5C"
  by code_simp+

lemma char_eqI: "of_char c = (n :: nat) \<Longrightarrow> c = char_of n"
  by auto

lemma unescape_escape: "unescape (escape c @ r) = Some (c, r)"
proof (cases "(of_char c :: nat) < 32 \<and> (of_char c :: nat) \<notin> {8, 9, 10, 12, 13}")
  case True
  then have "of_char c \<noteq> (34 :: nat)" "of_char c \<noteq> (92 :: nat)" by auto
  with True have "escape c = [CHR 0x5C, CHR ''u'', CHR ''0'', CHR ''0'', hex_digit (of_char c div 16), hex_digit (of_char c mod 16)]"
    by (auto simp: escape_def Let_def)
  with True hex_round [of "of_char c"] show ?thesis by simp
next
  case False
  then show ?thesis
    by (auto simp: escape_def Let_def dest!: char_eqI)
qed

lemma escape_unique:
  assumes "escape c @ r = escape d @ r'"
  shows "c = d \<and> r = r'"
proof -
  from assms have "unescape (escape c @ r) = unescape (escape d @ r')" by simp
  then show ?thesis by (simp add: unescape_escape)
qed

lemma escape_head: "escape c \<noteq> [] \<and> hd (escape c) \<noteq> CHR 0x22"
proof (cases "of_char c = (34 :: nat)")
  case False
  then have "c \<noteq> CHR 0x22" by auto
  then show ?thesis by (auto simp: escape_def Let_def)
qed (simp add: escape_def)

lemma quote_unique:
  assumes "quote s @ r = quote t @ r'"
  shows "s = t \<and> r = r'"
proof -
  have "concat (map escape s) @ CHR 0x22 # r = concat (map escape t) @ CHR 0x22 # r' \<Longrightarrow> s = t \<and> r = r'"
  proof (induction s arbitrary: t)
    case Nil
    show ?case
    proof (cases t)
      case (Cons d ds)
      with Nil escape_head [of d] show ?thesis by (cases "escape d") auto
    qed (use Nil in simp)
  next
    case (Cons c cs)
    show ?case
    proof (cases t)
      case Nil
      with Cons.prems escape_head [of c] show ?thesis by (cases "escape c") auto
    next
      case (Cons d ds)
      with Cons.prems have "escape c @ (concat (map escape cs) @ CHR 0x22 # r) =
          escape d @ (concat (map escape ds) @ CHR 0x22 # r')" by simp
      from escape_unique [OF this] Cons.IH Cons show ?thesis by blast
    qed
  qed
  with assms show ?thesis by (simp add: quote_def)
qed

section \<open>Different values have different texts\<close>

text \<open>The canonical form: the keys of every object sorted. It is what the text determines.\<close>

function canonical :: "json \<Rightarrow> json" where
  "canonical (JArray vs) = JArray (map canonical vs)"
| "canonical (JObject kvs) = JObject (map (\<lambda>kv. (fst kv, canonical (snd kv))) (sort_key fst kvs))"
| "canonical JNull = JNull"
| "canonical (JBool b) = JBool b"
| "canonical (JNumber n) = JNumber n"
| "canonical (JString s) = JString s"
| "canonical JNonFinite = JNonFinite"
| "canonical JUndefined = JUndefined"
| "canonical JOther = JOther"
  by pat_completeness auto
termination
  by (relation "measure size")
    (auto simp: less_Suc_eq_le dest: member_size intro: size_list_estimation')

text \<open>The text depends on the canonical form alone.\<close>

lemma sort_key_canonical:
  "sort_key fst (map (\<lambda>kv. (fst kv, f (snd kv))) (sort_key fst kvs)) =
   map (\<lambda>kv. (fst kv, f (snd kv))) (sort_key fst (kvs :: (string \<times> 'a) list))"
proof -
  have "map fst (map (\<lambda>kv. (fst kv, f (snd kv))) (sort_key fst kvs)) = map fst (sort_key fst kvs)" by simp
  then have "sorted (map fst (map (\<lambda>kv. (fst kv, f (snd kv))) (sort_key fst kvs)))"
    by (metis sorted_sort_key)
  then show ?thesis by (rule sort_key_id_if_sorted)
qed

lemma json_text_canonical: "json_text num (canonical v) = json_text num v"
  by (induction v rule: canonical.induct) (auto simp: sort_key_canonical intro!: arg_cong [of _ _ "join_with _"])

lemma plain_json_canonical: "plain_json (canonical v) = plain_json v"
  by (induction v rule: canonical.induct) (auto simp: list_all_iff)

lemma serialize_canonical:
  "canonical v = canonical w \<Longrightarrow> serialize_canonical_json num v = serialize_canonical_json num w"
  by (metis serialize_canonical_json_def json_text_canonical plain_json_canonical)

fun numbers_of :: "json \<Rightarrow> rat set" where
  "numbers_of (JNumber n) = {n}"
| "numbers_of (JArray vs) = (\<Union>v \<in> set vs. numbers_of v)"
| "numbers_of (JObject kvs) = (\<Union>kv \<in> set kvs. numbers_of (snd kv))"
| "numbers_of _ = {}"

definition numeric_char :: "char \<Rightarrow> bool" where
  "numeric_char c \<longleftrightarrow> c \<in> set ''0123456789+-.e''"

text \<open>
  What the text of numbers must be: a non-empty string of digits, signs, points and
  exponents, and different for different numbers.
\<close>

definition numeric_texts :: "(rat \<Rightarrow> string) \<Rightarrow> rat set \<Rightarrow> bool" where
  "numeric_texts num A \<longleftrightarrow> inj_on num A \<and> (\<forall>n \<in> A. num n \<noteq> [] \<and> list_all numeric_char (num n))"

lemma numeric_texts_mono: "numeric_texts num B \<Longrightarrow> A \<subseteq> B \<Longrightarrow> numeric_texts num A"
  by (auto simp: numeric_texts_def intro: inj_on_subset)

definition delimited :: "string \<Rightarrow> bool" where
  "delimited r \<longleftrightarrow> r = [] \<or> hd r \<in> set '',]}''"

text \<open>The first character of a text tells the kind of its value.\<close>

datatype json_kind = KNull | KBool | KNumber | KString | KArray | KObject | KNone

fun kind_of_json :: "json \<Rightarrow> json_kind" where
  "kind_of_json JNull = KNull"
| "kind_of_json (JBool b) = KBool"
| "kind_of_json (JNumber n) = KNumber"
| "kind_of_json (JString s) = KString"
| "kind_of_json (JArray vs) = KArray"
| "kind_of_json (JObject kvs) = KObject"
| "kind_of_json _ = KNone"

definition kind_of_char :: "char \<Rightarrow> json_kind" where
  "kind_of_char c =
     (if numeric_char c then KNumber
      else if c = CHR ''n'' then KNull
      else if c = CHR ''t'' \<or> c = CHR ''f'' then KBool
      else if c = CHR 0x22 then KString
      else if c = CHR ''['' then KArray
      else if c = CHR ''{'' then KObject
      else KNone)"

lemma kind_of_char_simps [simp]:
  "kind_of_char CHR ''n'' = KNull" "kind_of_char CHR ''t'' = KBool" "kind_of_char CHR ''f'' = KBool"
  "kind_of_char CHR 0x22 = KString" "kind_of_char CHR ''['' = KArray" "kind_of_char CHR ''{'' = KObject"
  "kind_of_char CHR '','' = KNone" "kind_of_char CHR '']'' = KNone" "kind_of_char CHR ''}'' = KNone"
  by code_simp+

lemma json_text_head:
  assumes "plain_json v" and "numeric_texts num (numbers_of v)"
  shows "json_text num v \<noteq> [] \<and> kind_of_char (hd (json_text num v)) = kind_of_json v"
proof (cases v)
  case (JNumber n)
  with assms show ?thesis
    by (cases "num n") (auto simp: numeric_texts_def kind_of_char_def)
qed (use assms in \<open>auto simp: quote_def\<close>)

lemma kind_none_delimiter: "c \<in> set '',]}'' \<Longrightarrow> kind_of_char c = KNone"
  by auto

lemma numeric_span:
  assumes "list_all numeric_char a" and "list_all numeric_char b" and "delimited r" and "delimited r'"
    and "a @ r = b @ r'"
  shows "a = b \<and> r = r'"
proof -
  have "takeWhile numeric_char (x @ y) = x" if "list_all numeric_char x" "delimited y" for x y
    using that
    by (cases y) (auto simp: takeWhile_append list_all_iff delimited_def numeric_char_def)
  with assms have "a = b" by metis
  with assms(5) show ?thesis by simp
qed

text \<open>Items between commas, up to a closing bracket.\<close>

lemma join_unique:
  assumes items: "\<And>x y r r'. x \<in> set xs \<Longrightarrow> y \<in> set ys \<Longrightarrow> delimited r \<Longrightarrow> delimited r' \<Longrightarrow>
      f x @ r = f y @ r' \<Longrightarrow> g x = g y \<and> r = r'"
    and start: "\<And>x. x \<in> set xs \<union> set ys \<Longrightarrow> f x \<noteq> [] \<and> hd (f x) \<notin> set '',]}''"
    and close: "c \<in> set '']}''"
    and eq: "join_with '','' (map f xs) @ c # r = join_with '','' (map f ys) @ c # r'"
  shows "map g xs = map g ys \<and> r = r'"
  using items start eq
proof (induction xs arbitrary: ys)
  case Nil
  show ?case
  proof (cases ys)
    case (Cons y ys')
    with Nil have "f y \<noteq> []" "hd (f y) \<notin> set '',]}''" by auto
    with Nil.prems(3) Cons close show ?thesis by (cases "f y"; cases ys') auto
  qed (use Nil in simp)
next
  case (Cons x xs)
  let ?tail = "\<lambda>zs s. (case zs of [] \<Rightarrow> c # s | _ \<Rightarrow> CHR '','' # join_with '','' (map f zs) @ c # s)"
  have split: "join_with '','' (map f (z # zs)) @ c # s = f z @ ?tail zs s" for z zs s
    by (cases zs) auto
  have d: "delimited (?tail zs s)" for zs s
    using close by (cases zs) (auto simp: delimited_def)
  show ?case
  proof (cases ys)
    case Nil
    with Cons.prems(2) have "f x \<noteq> []" "hd (f x) \<notin> set '',]}''" by auto
    with Cons.prems(3) Nil close show ?thesis by (cases "f x"; cases xs) auto
  next
    case ys: (Cons y ys')
    with Cons.prems(3) have "f x @ ?tail xs r = f y @ ?tail ys' r'"
      by (simp only: ys split)
    with Cons.prems(1) [of x y] d ys have gx: "g x = g y" and t: "?tail xs r = ?tail ys' r'"
      by auto
    have "map g xs = map g ys' \<and> r = r'"
    proof (cases "xs = [] \<or> ys' = []")
      case True
      with t close show ?thesis by (auto split: list.splits)
    next
      case False
      with t have "join_with '','' (map f xs) @ c # r = join_with '','' (map f ys') @ c # r'"
        by (auto split: list.splits)
      with Cons.prems ys show ?thesis by (intro Cons.IH) auto
    qed
    with gx ys show ?thesis by simp
  qed
qed

lemma same_kind:
  assumes "plain_json v" and "plain_json w" and n: "numeric_texts num (numbers_of v \<union> numbers_of w)"
    and "json_text num v @ r = json_text num w @ r'"
  shows "kind_of_json v = kind_of_json w"
proof -
  have "numeric_texts num (numbers_of v)" "numeric_texts num (numbers_of w)"
    by (rule numeric_texts_mono [OF n], simp)+
  with assms(1,2) have "json_text num v \<noteq> [] \<and> kind_of_char (hd (json_text num v)) = kind_of_json v"
    and "json_text num w \<noteq> [] \<and> kind_of_char (hd (json_text num w)) = kind_of_json w"
    by (simp_all add: json_text_head)
  with assms(4) show ?thesis by (metis hd_append2)
qed

lemma json_text_unique:
  "plain_json v \<Longrightarrow> plain_json w \<Longrightarrow> numeric_texts num (numbers_of v \<union> numbers_of w) \<Longrightarrow>
   delimited r \<Longrightarrow> delimited r' \<Longrightarrow> json_text num v @ r = json_text num w @ r' \<Longrightarrow>
     canonical v = canonical w \<and> r = r'"
proof (induction v arbitrary: w r r' rule: canonical.induct)
  case (1 vs)
  note prems = "1.prems"
  have start: "json_text num x \<noteq> [] \<and> kind_of_char (hd (json_text num x)) = kind_of_json x"
    if "plain_json x" "numbers_of x \<subseteq> numbers_of (JArray vs) \<union> numbers_of w" for x
    by (rule json_text_head [OF that(1) numeric_texts_mono [OF prems(3) that(2)]])
  from same_kind [OF prems(1-3,6)] have "kind_of_json w = KArray" by simp
  then obtain ws where w: "w = JArray ws" by (cases w) auto
  from prems(6) w have eq: "join_with '','' (map (json_text num) vs) @ CHR '']'' # r =
      join_with '','' (map (json_text num) ws) @ CHR '']'' # r'" by simp
  have "map canonical vs = map canonical ws \<and> r = r'"
  proof (rule join_unique [OF _ _ _ eq])
    fix x y s s'
    assume m: "x \<in> set vs" "y \<in> set ws" and d: "delimited s" "delimited s'"
      and e: "json_text num x @ s = json_text num y @ s'"
    from m prems(1,2) w have "plain_json x" "plain_json y" by (auto simp: list_all_iff)
    moreover have "numeric_texts num (numbers_of x \<union> numbers_of y)"
      using m w by (intro numeric_texts_mono [OF prems(3)]) auto
    ultimately show "canonical x = canonical y \<and> s = s'"
      using "1.IH" [OF m(1) _ _ _ d e] by blast
  next
    fix x assume "x \<in> set vs \<union> set ws"
    with prems(1,2) w have "plain_json x" "numbers_of x \<subseteq> numbers_of (JArray vs) \<union> numbers_of w"
      by (auto simp: list_all_iff)
    from start [OF this] this(1) show "json_text num x \<noteq> [] \<and> hd (json_text num x) \<notin> set '',]}''"
      using kind_none_delimiter by (cases x) fastforce+
  qed simp
  with w show ?case by simp
next
  case (2 kvs)
  note prems = "2.prems"
  from same_kind [OF prems(1-3,6)] have "kind_of_json w = KObject" by simp
  then obtain kws where w: "w = JObject kws" by (cases w) auto
  let ?f = "\<lambda>kv. quote (fst kv) @ '':'' @ json_text num (snd kv)"
  let ?g = "\<lambda>kv. (fst kv, canonical (snd kv))"
  from prems(6) w have eq: "join_with '','' (map ?f (sort_key fst kvs)) @ CHR ''}'' # r =
      join_with '','' (map ?f (sort_key fst kws)) @ CHR ''}'' # r'" by simp
  have "map ?g (sort_key fst kvs) = map ?g (sort_key fst kws) \<and> r = r'"
  proof (rule join_unique [OF _ _ _ eq])
    fix x y s s'
    assume m: "x \<in> set (sort_key fst kvs)" "y \<in> set (sort_key fst kws)"
      and d: "delimited s" "delimited s'" and e: "?f x @ s = ?f y @ s'"
    from e have "quote (fst x) @ ('':'' @ json_text num (snd x) @ s) =
        quote (fst y) @ ('':'' @ json_text num (snd y) @ s')" by simp
    from quote_unique [OF this] have k: "fst x = fst y"
      and e': "json_text num (snd x) @ s = json_text num (snd y) @ s'" by auto
    from m prems(1,2) w have "plain_json (snd x)" "plain_json (snd y)" by (auto simp: list_all_iff)
    moreover have "numeric_texts num (numbers_of (snd x) \<union> numbers_of (snd y))"
      using m w by (intro numeric_texts_mono [OF prems(3)]) auto
    ultimately have "canonical (snd x) = canonical (snd y) \<and> s = s'"
      using "2.IH" [OF m(1) _ _ _ d e'] by blast
    with k show "?g x = ?g y \<and> s = s'" by simp
  qed (auto simp: quote_def)
  with w show ?case by simp
next
  case 3
  from same_kind [OF "3.prems"(1-3,6)] 3 show ?case by (cases w) auto
next
  case (4 b)
  from same_kind [OF "4.prems"(1-3,6)] 4 show ?case by (cases w) (auto split: if_splits)
next
  case (5 n)
  from same_kind [OF "5.prems"(1-3,6)] obtain m where w: "w = JNumber m" by (cases w) auto
  with "5.prems" have "num n = num m \<and> r = r'"
    by (intro numeric_span) (auto simp: numeric_texts_def)
  with "5.prems"(3) w show ?case by (auto simp: numeric_texts_def)
next
  case (6 t)
  from same_kind [OF "6.prems"(1-3,6)] obtain u where w: "w = JString u" by (cases w) auto
  with "6.prems"(6) quote_unique [of t r u r'] show ?case by simp
qed auto

section \<open>Properties\<close>

text \<open>
  C36: the canonical JSON text determines its value: two JSON values with the same text differ
  at most in the order of the keys of their objects, so a digest of the text commits to every
  field of the value.
\<close>

theorem canonical_text_determines_value:
  "serialize_canonical_json num v = Some t \<Longrightarrow> serialize_canonical_json num w = Some t \<Longrightarrow>
   numeric_texts num (numbers_of v \<union> numbers_of w) \<Longrightarrow> canonical v = canonical w"
  using json_text_unique [of v w num "[]" "[]"]
  by (auto simp: serialize_canonical_json_def delimited_def split: if_splits)

theorem canonical_text_determines_value_witness:
  "canonical (JObject [(''b'', JNumber 2), (''a'', JArray [JString [CHR 0x22], JNull])]) =
   canonical (JObject [(''a'', JArray [JString [CHR 0x22], JNull]), (''b'', JNumber 2)])"
proof (rule canonical_text_determines_value)
  show "numeric_texts (\<lambda>n. ''2'') (numbers_of (JObject [(''b'', JNumber 2), (''a'', JArray [JString [CHR 0x22], JNull])]) \<union>
      numbers_of (JObject [(''a'', JArray [JString [CHR 0x22], JNull]), (''b'', JNumber 2)]))"
    by (auto simp: numeric_texts_def numeric_char_def)
qed code_simp+

end
