(* ===== verification/Audit_Payloads.thy ===== *)
theory Audit_Payloads
  imports Iso_Time Canonical_Json Workflow_Schema
begin

text \<open>
  The payloads of audit events (packages/audit-trail/src/payload-schemas.ts): one strict object
  schema per event type, made of a dozen kinds of fields. The schemas are data, and
  \<open>parse_payload\<close> is what \<open>z.object(...).strict().parse\<close> does with them: it refuses unknown
  keys, drops nothing, writes the accepted fields in the order of the schema and normalises
  timestamps.
\<close>

section \<open>What the platform provides\<close>

text \<open>
  SHA-256 in hexadecimal (node:crypto), the UUID and date-time formats of zod, and the decimal
  text of a number (\<open>JSON.stringify\<close>).
\<close>

record audit_host =
  sha256_hex :: "string \<Rightarrow> string"
  uuid_ok :: "string \<Rightarrow> bool"
  datetime_ok :: "string \<Rightarrow> bool"
  number_text :: "rat \<Rightarrow> string"

section \<open>Kinds of fields\<close>

definition MAX_SAFE_INTEGER :: int where "MAX_SAFE_INTEGER = 9007199254740991"

text \<open>
  \<open>FStableId\<close>, \<open>FUuid\<close>, \<open>FDigest\<close>, \<open>FSafeCode\<close>, \<open>FKind\<close> and \<open>FTimestamp\<close> are the schemas the source
  names; \<open>FText\<close> is a string with bounds on its length, \<open>FTrimmed\<close> one that is trimmed first.
\<close>

datatype field_kind =
    FStableId
  | FUuid
  | FInt int int
  | FDigest
  | FSafeCode
  | FKind
  | FTimestamp
  | FEnum "string list"
  | FBool
  | FText nat nat
  | FTrimmed nat nat

datatype presence = Required | Optional | Nullable

type_synonym payload_schema = "(string \<times> presence \<times> field_kind) list"

definition id_char :: "char \<Rightarrow> bool" where
  "id_char c \<longleftrightarrow> is_alnum c \<or> c \<in> set ''_.:-''"

definition stable_id_ok :: "nat \<Rightarrow> string \<Rightarrow> bool" where
  "stable_id_ok n s \<longleftrightarrow>
     1 \<le> length s \<and> length s \<le> n \<and> rx_matches (Cat (Class is_alnum) (Many (Class id_char))) s"

definition hex_char :: "char \<Rightarrow> bool" where
  "hex_char c \<longleftrightarrow> is_digit c \<or> in_range CHR ''a'' CHR ''f'' c"

text \<open>The same on the bits of the character, for evaluation.\<close>

lemma hex_char_code [code]:
  "hex_char (Char b0 b1 b2 b3 b4 b5 b6 b7) =
     (\<not> b7 \<and> b5 \<and>
      (if b6 then \<not> b4 \<and> \<not> b3 \<and> (b0 \<or> b1 \<or> b2) \<and> \<not> (b0 \<and> b1 \<and> b2) else b4 \<and> \<not> (b3 \<and> (b1 \<or> b2))))"
  by (cases b0; cases b1; cases b2; cases b3; cases b4; cases b5; cases b6; cases b7)
    (simp_all add: hex_char_def is_digit_def in_range_def of_char_Char)

definition digest_ok :: "string \<Rightarrow> bool" where
  "digest_ok s \<longleftrightarrow> rx_matches (rx_times 64 (Class hex_char)) s"

definition safe_code_ok :: "string \<Rightarrow> bool" where
  "safe_code_ok s \<longleftrightarrow>
     2 \<le> length s \<and> length s \<le> 80 \<and>
     rx_matches (Cat (Class is_upper) (Many (Class (\<lambda>c. is_upper c \<or> is_digit c \<or> c = CHR ''_'')))) s"

definition kind_ok :: "string \<Rightarrow> bool" where
  "kind_ok s \<longleftrightarrow>
     1 \<le> length s \<and> length s \<le> 64 \<and>
     rx_matches (Cat (Class is_lower) (Many (Class (\<lambda>c. is_lower c \<or> is_digit c \<or> c = CHR ''_'')))) s"

definition check_string :: "(string \<Rightarrow> bool) \<Rightarrow> json \<Rightarrow> json option" where
  "check_string p v = (case v of JString s \<Rightarrow> if p s then Some v else None | _ \<Rightarrow> None)"

definition parse_timestamp :: "audit_host \<Rightarrow> json \<Rightarrow> json option" where
  "parse_timestamp h v =
     (case v of
        JString s \<Rightarrow> if datetime_ok h s then map_option JString (normalize_audit_timestamp s) else None
      | _ \<Rightarrow> None)"

fun parse_field :: "audit_host \<Rightarrow> field_kind \<Rightarrow> json \<Rightarrow> json option" where
  "parse_field h FStableId v = check_string (stable_id_ok 256) v"
| "parse_field h FUuid v = check_string (uuid_ok h) v"
| "parse_field h (FInt lo hi) v =
     (case v of
        JNumber r \<Rightarrow> if of_int \<lfloor>r\<rfloor> = r \<and> of_int lo \<le> r \<and> r \<le> of_int hi then Some v else None
      | _ \<Rightarrow> None)"
| "parse_field h FDigest v = check_string digest_ok v"
| "parse_field h FSafeCode v = check_string safe_code_ok v"
| "parse_field h FKind v = check_string kind_ok v"
| "parse_field h FTimestamp v = parse_timestamp h v"
| "parse_field h (FEnum vs) v = check_string (\<lambda>s. s \<in> set vs) v"
| "parse_field h FBool v = (case v of JBool b \<Rightarrow> Some v | _ \<Rightarrow> None)"
| "parse_field h (FText lo hi) v = check_string (\<lambda>s. lo \<le> length s \<and> length s \<le> hi) v"
| "parse_field h (FTrimmed lo hi) v =
     (case v of
        JString s \<Rightarrow>
          if lo \<le> length (trim s) \<and> length (trim s) \<le> hi then Some (JString (trim s)) else None
      | _ \<Rightarrow> None)"

text \<open>
  One field of a strict object: a key that is missing or whose value is undefined is accepted
  when the field is optional, and stays as it was.
\<close>

definition parse_member ::
  "audit_host \<Rightarrow> (string \<times> json) list \<Rightarrow> string \<times> presence \<times> field_kind \<Rightarrow> (string \<times> json) list option" where
  "parse_member h kvs f =
     (case f of (name, pres, kind) \<Rightarrow>
        case map_of kvs name of
          None \<Rightarrow> if pres = Optional then Some [] else None
        | Some JUndefined \<Rightarrow> if pres = Optional then Some [(name, JUndefined)] else None
        | Some v \<Rightarrow>
            if v = JNull \<and> pres = Nullable then Some [(name, JNull)]
            else map_option (\<lambda>w. [(name, w)]) (parse_field h kind v))"

definition parse_members :: "audit_host \<Rightarrow> payload_schema \<Rightarrow> (string \<times> json) list \<Rightarrow> (string \<times> json) list option" where
  "parse_members h sch kvs = map_option concat (parse_list (parse_member h kvs) sch)"

definition parse_payload :: "audit_host \<Rightarrow> payload_schema \<Rightarrow> json \<Rightarrow> json option" where
  "parse_payload h sch v =
     (case v of
        JObject kvs \<Rightarrow>
          if list_all (\<lambda>kv. fst kv \<in> set (map fst sch)) kvs then map_option JObject (parse_members h sch kvs)
          else None
      | _ \<Rightarrow> None)"

section \<open>The schemas\<close>

definition effect_certainty_values :: "string list" where
  "effect_certainty_values = [''not_started'', ''read_only'', ''side_effect_possible'',
       ''completed'', ''unknown'']"

definition attempt_trigger_values :: "string list" where
  "attempt_trigger_values = [''initial'', ''automatic_retry'', ''manual_retry'']"

definition attempt_terminal_status_values :: "string list" where
  "attempt_terminal_status_values = [''succeeded'', ''failed'', ''cancelled'', ''timed_out'',
       ''interrupted'']"

definition run_terminal_status_values :: "string list" where
  "run_terminal_status_values = [''succeeded'', ''failed'', ''cancelled'', ''timed_out'',
       ''interrupted'']"

definition risk_level_values :: "string list" where
  "risk_level_values = [''low'', ''medium'', ''high'', ''critical'']"

definition workflow_created_payload :: payload_schema where
  "workflow_created_payload =
    [(''workflowId'', Required, FStableId)]"

definition workflow_version_created_payload :: payload_schema where
  "workflow_version_created_payload =
    [(''workflowId'', Required, FStableId),
     (''workflowVersionId'', Required, FUuid),
     (''version'', Required, FInt 1 MAX_SAFE_INTEGER),
     (''revision'', Required, FInt 1 MAX_SAFE_INTEGER),
     (''sourceVersionId'', Optional, FUuid),
     (''schemaVersion'', Required, FInt 1 MAX_SAFE_INTEGER)]"

definition workflow_draft_updated_payload :: payload_schema where
  "workflow_draft_updated_payload =
    [(''workflowId'', Required, FStableId),
     (''workflowVersionId'', Required, FUuid),
     (''version'', Required, FInt 1 MAX_SAFE_INTEGER),
     (''revision'', Required, FInt 1 MAX_SAFE_INTEGER),
     (''stepCount'', Required, FInt 0 1000000)]"

definition workflow_version_transition_payload :: payload_schema where
  "workflow_version_transition_payload =
    [(''workflowId'', Required, FStableId),
     (''workflowVersionId'', Required, FUuid),
     (''version'', Required, FInt 1 MAX_SAFE_INTEGER),
     (''revision'', Required, FInt 1 MAX_SAFE_INTEGER)]"

definition workflow_version_published_payload :: payload_schema where
  "workflow_version_published_payload =
    [(''workflowId'', Required, FStableId),
     (''workflowVersionId'', Required, FUuid),
     (''version'', Required, FInt 1 MAX_SAFE_INTEGER),
     (''revision'', Required, FInt 1 MAX_SAFE_INTEGER),
     (''workflowDigest'', Required, FDigest),
     (''replacedVersionId'', Optional, FUuid)]"

definition workflow_version_archived_payload :: payload_schema where
  "workflow_version_archived_payload =
    [(''workflowId'', Required, FStableId),
     (''workflowVersionId'', Required, FUuid),
     (''version'', Required, FInt 1 MAX_SAFE_INTEGER),
     (''revision'', Required, FInt 1 MAX_SAFE_INTEGER),
     (''reason'', Required, FEnum [''manual'', ''replaced_by_publish''])]"

definition policy_version_archived_payload :: payload_schema where
  "policy_version_archived_payload =
    [(''policyVersionId'', Required, FUuid),
     (''revision'', Required, FInt 1 MAX_SAFE_INTEGER),
     (''policyDigest'', Required, FDigest),
     (''reason'', Required, FEnum [''superseded''])]"

definition policy_version_activated_payload :: payload_schema where
  "policy_version_activated_payload =
    [(''policyVersionId'', Required, FUuid),
     (''revision'', Required, FInt 1 MAX_SAFE_INTEGER),
     (''policyDigest'', Required, FDigest),
     (''previousPolicyVersionId'', Optional, FUuid)]"

definition workflow_run_created_payload :: payload_schema where
  "workflow_run_created_payload =
    [(''workflowRunId'', Required, FUuid),
     (''workflowId'', Required, FStableId),
     (''workflowVersionId'', Required, FUuid),
     (''runnerDeviceId'', Required, FUuid),
     (''workflowDigest'', Required, FDigest),
     (''policyVersionId'', Required, FUuid),
     (''policyDigest'', Required, FDigest)]"

definition workflow_run_claimed_payload :: payload_schema where
  "workflow_run_claimed_payload =
    [(''workflowRunId'', Required, FUuid),
     (''runnerDeviceId'', Required, FUuid),
     (''claimAttemptId'', Required, FUuid),
     (''leaseExpiresAt'', Required, FTimestamp)]"

definition workflow_run_started_payload :: payload_schema where
  "workflow_run_started_payload =
    [(''workflowRunId'', Required, FUuid),
     (''startedAt'', Required, FTimestamp)]"

definition workflow_run_waiting_payload :: payload_schema where
  "workflow_run_waiting_payload =
    [(''workflowRunId'', Required, FUuid),
     (''stepId'', Required, FStableId),
     (''stepIndex'', Required, FInt 0 1000000),
     (''attemptNumber'', Optional, FInt 1 MAX_SAFE_INTEGER)]"

definition workflow_run_cancel_requested_payload :: payload_schema where
  "workflow_run_cancel_requested_payload =
    [(''workflowRunId'', Required, FUuid),
     (''requestedAt'', Required, FTimestamp)]"

definition workflow_run_terminal_payload :: payload_schema where
  "workflow_run_terminal_payload =
    [(''workflowRunId'', Required, FUuid),
     (''terminalStatus'', Required, FEnum run_terminal_status_values),
     (''terminationCause'', Optional, FSafeCode),
     (''finishedAt'', Required, FTimestamp),
     (''engineResultDigest'', Optional, FDigest),
     (''durationMs'', Optional, FInt 0 86400000),
     (''stepCount'', Required, FInt 0 1000000),
     (''producedOutputCount'', Required, FInt 0 1000000)]"

definition execution_attempt_started_payload :: payload_schema where
  "execution_attempt_started_payload =
    [(''workflowRunId'', Required, FUuid),
     (''runStepAttemptId'', Required, FUuid),
     (''stepId'', Required, FStableId),
     (''stepIndex'', Required, FInt 0 1000000),
     (''stepType'', Required, FKind),
     (''attemptNumber'', Required, FInt 1 MAX_SAFE_INTEGER),
     (''trigger'', Required, FEnum attempt_trigger_values),
     (''effectCertainty'', Required, FEnum effect_certainty_values),
     (''authorizedByRepairRequestId'', Optional, FUuid)]"

definition execution_attempt_terminal_payload :: payload_schema where
  "execution_attempt_terminal_payload =
    [(''workflowRunId'', Required, FUuid),
     (''runStepAttemptId'', Required, FUuid),
     (''stepId'', Required, FStableId),
     (''stepIndex'', Required, FInt 0 1000000),
     (''stepType'', Required, FKind),
     (''attemptNumber'', Required, FInt 1 MAX_SAFE_INTEGER),
     (''trigger'', Required, FEnum attempt_trigger_values),
     (''attemptStatus'', Required, FEnum attempt_terminal_status_values),
     (''effectCertainty'', Required, FEnum effect_certainty_values),
     (''safeErrorCode'', Optional, FSafeCode),
     (''durationMs'', Optional, FInt 0 86400000)]"

definition execution_verification_completed_payload :: payload_schema where
  "execution_verification_completed_payload =
    [(''workflowRunId'', Required, FUuid),
     (''stepId'', Required, FStableId),
     (''stepIndex'', Required, FInt 0 1000000),
     (''verificationSequence'', Required, FInt 1 MAX_SAFE_INTEGER),
     (''verificationKind'', Required, FKind),
     (''outcome'', Required, FEnum [''passed'', ''failed'']),
     (''attemptCount'', Required, FInt 1 MAX_SAFE_INTEGER)]"

definition execution_output_produced_payload :: payload_schema where
  "execution_output_produced_payload =
    [(''workflowRunId'', Required, FUuid),
     (''outputName'', Required, FStableId),
     (''outputType'', Required, FEnum [''string'', ''boolean'']),
     (''producerStepId'', Required, FStableId),
     (''producerStepIndex'', Required, FInt 0 1000000)]"

definition approval_requested_payload :: payload_schema where
  "approval_requested_payload =
    [(''approvalRequestId'', Required, FUuid),
     (''workflowRunId'', Required, FUuid),
     (''approvalStepId'', Required, FStableId),
     (''gatedStepId'', Required, FStableId),
     (''riskLevel'', Required, FEnum risk_level_values),
     (''requestedAt'', Required, FTimestamp),
     (''expiresAt'', Required, FTimestamp)]"

definition approval_decided_payload :: payload_schema where
  "approval_decided_payload =
    [(''approvalRequestId'', Required, FUuid),
     (''workflowRunId'', Required, FUuid),
     (''decision'', Required, FEnum [''approved'', ''rejected'']),
     (''decidedByUserId'', Required, FUuid),
     (''resolvedAt'', Required, FTimestamp)]"

definition approval_lifecycle_payload :: payload_schema where
  "approval_lifecycle_payload =
    [(''approvalRequestId'', Required, FUuid),
     (''workflowRunId'', Required, FUuid),
     (''reason'', Required, FEnum [''expired'', ''cancelled'', ''invalidated'']),
     (''resolvedAt'', Required, FTimestamp)]"

definition repair_requested_payload :: payload_schema where
  "repair_requested_payload =
    [(''repairRequestId'', Required, FUuid),
     (''workflowRunId'', Required, FUuid),
     (''stepId'', Required, FStableId),
     (''stepIndex'', Required, FInt 0 1000000),
     (''attemptNumber'', Required, FInt 1 MAX_SAFE_INTEGER),
     (''safeErrorCode'', Required, FSafeCode),
     (''effectCertainty'', Required, FEnum effect_certainty_values),
     (''retryAllowed'', Required, FBool),
     (''requestedAt'', Required, FTimestamp),
     (''expiresAt'', Required, FTimestamp)]"

definition repair_decided_payload :: payload_schema where
  "repair_decided_payload =
    [(''repairRequestId'', Required, FUuid),
     (''workflowRunId'', Required, FUuid),
     (''decision'', Required, FEnum [''retry_approved'', ''aborted'']),
     (''decidedByUserId'', Required, FUuid),
     (''resolvedAt'', Required, FTimestamp)]"

definition repair_lifecycle_payload :: payload_schema where
  "repair_lifecycle_payload =
    [(''repairRequestId'', Required, FUuid),
     (''workflowRunId'', Required, FUuid),
     (''reason'', Required, FEnum [''expired'', ''cancelled'', ''invalidated'']),
     (''resolvedAt'', Required, FTimestamp)]"

definition locator_repair_proposal_created_payload :: payload_schema where
  "locator_repair_proposal_created_payload =
    [(''proposalId'', Required, FUuid),
     (''workflowRunId'', Required, FUuid),
     (''stepId'', Required, FStableId),
     (''stepIndex'', Required, FInt 0 1000000),
     (''failedAttemptNumber'', Required, FInt 1 MAX_SAFE_INTEGER),
     (''candidateCount'', Required, FInt 0 1000000)]"

definition locator_repair_candidate_tested_payload :: payload_schema where
  "locator_repair_candidate_tested_payload =
    [(''proposalId'', Required, FUuid),
     (''candidateId'', Required, FUuid),
     (''candidateRank'', Required, FInt 1 MAX_SAFE_INTEGER),
     (''candidateStrategy'', Required, FKind),
     (''candidateConfidence'', Required, FEnum [''low'', ''medium'', ''high'']),
     (''testStatus'', Required, FEnum [''pending'', ''passed'', ''not_found'', ''not_unique'',
       ''not_actionable'', ''incompatible_element'', ''stale_page_context'', ''cancelled'',
       ''error'']),
     (''evidenceCodeCount'', Required, FInt 0 1000000),
     (''testedAt'', Optional, FTimestamp)]"

definition locator_repair_applied_payload :: payload_schema where
  "locator_repair_applied_payload =
    [(''proposalId'', Required, FUuid),
     (''candidateId'', Required, FUuid),
     (''workflowRunId'', Required, FUuid),
     (''stepId'', Required, FStableId),
     (''stepIndex'', Required, FInt 0 1000000),
     (''targetDraftVersionId'', Required, FUuid),
     (''previousRevision'', Required, FInt 1 MAX_SAFE_INTEGER),
     (''newRevision'', Required, FInt 1 MAX_SAFE_INTEGER),
     (''appliedAt'', Required, FTimestamp)]"

definition locator_repair_dismissed_payload :: payload_schema where
  "locator_repair_dismissed_payload =
    [(''proposalId'', Required, FUuid),
     (''workflowRunId'', Required, FUuid),
     (''reason'', Required, FEnum [''expired'', ''invalidated'']),
     (''dismissedAt'', Required, FTimestamp)]"

definition schedule_created_payload :: payload_schema where
  "schedule_created_payload =
    [(''scheduleId'', Required, FUuid),
     (''workflowId'', Required, FStableId),
     (''workflowVersionId'', Required, FUuid),
     (''runnerDeviceId'', Required, FUuid),
     (''scheduleName'', Required, FText 1 120),
     (''scheduleType'', Required, FEnum [''one_time'', ''daily'', ''weekly'']),
     (''timezone'', Required, FText 1 64),
     (''scheduleDigest'', Required, FDigest),
     (''workflowDigest'', Required, FDigest),
     (''policyVersionId'', Required, FUuid),
     (''policyDigest'', Required, FDigest),
     (''nextOccurrenceAt'', Nullable, FTimestamp),
     (''maxStartDelaySeconds'', Required, FInt 30 3600)]"

definition schedule_paused_payload :: payload_schema where
  "schedule_paused_payload =
    [(''scheduleId'', Required, FUuid),
     (''pausedAt'', Required, FTimestamp)]"

definition schedule_resumed_payload :: payload_schema where
  "schedule_resumed_payload =
    [(''scheduleId'', Required, FUuid),
     (''resumedAt'', Required, FTimestamp),
     (''nextOccurrenceAt'', Required, FTimestamp)]"

definition schedule_completed_payload :: payload_schema where
  "schedule_completed_payload =
    [(''scheduleId'', Required, FUuid),
     (''completedAt'', Required, FTimestamp)]"

definition schedule_archived_payload :: payload_schema where
  "schedule_archived_payload =
    [(''scheduleId'', Required, FUuid),
     (''archivedAt'', Required, FTimestamp)]"

definition schedule_auto_paused_payload :: payload_schema where
  "schedule_auto_paused_payload =
    [(''scheduleId'', Required, FUuid),
     (''reason'', Required, FEnum [''policy_review_required'', ''source_version_unavailable'',
       ''ambiguous_outcome'', ''secret_readiness_failed'', ''runner_update_required'']),
     (''autoPausedAt'', Required, FTimestamp),
     (''triggeringOccurrenceId'', Optional, FUuid)]"

definition schedule_occurrence_dispatched_payload :: payload_schema where
  "schedule_occurrence_dispatched_payload =
    [(''scheduleId'', Required, FUuid),
     (''occurrenceId'', Required, FUuid),
     (''workflowRunId'', Required, FUuid),
     (''scheduledFor'', Required, FTimestamp),
     (''startDeadlineAt'', Required, FTimestamp)]"

definition schedule_occurrence_skipped_payload :: payload_schema where
  "schedule_occurrence_skipped_payload =
    [(''scheduleId'', Required, FUuid),
     (''occurrenceId'', Required, FUuid),
     (''scheduledFor'', Required, FTimestamp),
     (''skipReason'', Required, FEnum [''schedule_overlap'', ''runner_busy'',
       ''runner_unavailable'', ''runner_update_required'', ''runner_maintenance'',
       ''policy_denied'', ''source_version_unavailable'', ''missed_start_window'',
       ''nonexistent_local_time'', ''repeated_local_time'', ''secret_readiness_failed'',
       ''secret_inventory_changed_before_execution'']),
     (''skippedAt'', Required, FTimestamp)]"

definition schedule_occurrence_start_window_expired_payload :: payload_schema where
  "schedule_occurrence_start_window_expired_payload =
    [(''scheduleId'', Required, FUuid),
     (''occurrenceId'', Required, FUuid),
     (''workflowRunId'', Required, FUuid),
     (''scheduledFor'', Required, FTimestamp),
     (''startDeadlineAt'', Required, FTimestamp),
     (''expiredAt'', Required, FTimestamp)]"

definition schedule_occurrence_succeeded_payload :: payload_schema where
  "schedule_occurrence_succeeded_payload =
    [(''scheduleId'', Required, FUuid),
     (''occurrenceId'', Required, FUuid),
     (''workflowRunId'', Required, FUuid)]"

definition alert_type_values :: "string list" where
  "alert_type_values = [''approval_required'', ''repair_required'', ''run_failed'',
       ''run_timed_out'', ''run_interrupted'', ''schedule_auto_paused'',
       ''audit_integrity_failed'', ''runner_rollout_requires_review'']"

definition alert_severity_values :: "string list" where
  "alert_severity_values = [''info'', ''warning'', ''error'', ''critical'']"

definition alert_source_type_values :: "string list" where
  "alert_source_type_values = [''approval_request'', ''repair_request'', ''workflow_run'',
       ''workflow_schedule'', ''workflow_schedule_occurrence'', ''audit_verification_failure'',
       ''runner_release_rollout'', ''runner_release_rollout_assignment'']"

definition notification_alert_created_payload :: payload_schema where
  "notification_alert_created_payload =
    [(''alertId'', Required, FUuid),
     (''alertType'', Required, FEnum alert_type_values),
     (''severity'', Required, FEnum alert_severity_values),
     (''sourceType'', Required, FEnum alert_source_type_values),
     (''sourceId'', Required, FStableId),
     (''recipientCount'', Required, FInt 0 1000000)]"

definition notification_alert_resolved_payload :: payload_schema where
  "notification_alert_resolved_payload =
    [(''alertId'', Required, FUuid),
     (''alertType'', Required, FEnum alert_type_values),
     (''severity'', Required, FEnum alert_severity_values),
     (''sourceType'', Required, FEnum alert_source_type_values),
     (''sourceId'', Required, FStableId),
     (''recipientCount'', Required, FInt 0 1000000)]"

definition notification_delivery_dead_lettered_payload :: payload_schema where
  "notification_delivery_dead_lettered_payload =
    [(''alertId'', Required, FUuid),
     (''alertType'', Required, FEnum alert_type_values),
     (''severity'', Required, FEnum alert_severity_values),
     (''sourceType'', Required, FEnum alert_source_type_values),
     (''sourceId'', Required, FStableId),
     (''recipientCount'', Required, FInt 0 1000000)]"

definition runner_secret_inventory_updated_payload :: payload_schema where
  "runner_secret_inventory_updated_payload =
    [(''runnerDeviceId'', Required, FUuid),
     (''previousRevision'', Required, FInt 0 MAX_SAFE_INTEGER),
     (''newRevision'', Required, FInt 1 MAX_SAFE_INTEGER),
     (''configuredSecretCount'', Required, FInt 0 1000000),
     (''inventoryDigest'', Required, FDigest)]"

definition runner_software_version_changed_payload :: payload_schema where
  "runner_software_version_changed_payload =
    [(''runnerDeviceId'', Required, FUuid),
     (''previousVersion'', Required, FTrimmed 1 32),
     (''newVersion'', Required, FTrimmed 1 32),
     (''runnerProtocolVersion'', Nullable, FInt 1 MAX_SAFE_INTEGER),
     (''localStateSchemaVersion'', Nullable, FInt 1 MAX_SAFE_INTEGER)]"

definition runner_runtime_mode_value_values :: "string list" where
  "runner_runtime_mode_value_values = [''interactive'', ''unattended_process'', ''service'']"

definition runner_autonomy_value_values :: "string list" where
  "runner_autonomy_value_values = [''interactive'', ''process_unattended'', ''boot_resilient'']"

definition runner_service_status_value_values :: "string list" where
  "runner_service_status_value_values = [''not_applicable'', ''starting'', ''running'',
       ''degraded'', ''draining'', ''stopped'']"

definition runner_secret_unlock_mode_value_values :: "string list" where
  "runner_secret_unlock_mode_value_values = [''none'', ''manual'', ''os_native'']"

definition runner_runtime_mode_changed_payload :: payload_schema where
  "runner_runtime_mode_changed_payload =
    [(''runnerDeviceId'', Required, FUuid),
     (''previousRuntimeMode'', Nullable, FEnum runner_runtime_mode_value_values),
     (''runtimeMode'', Required, FEnum runner_runtime_mode_value_values),
     (''previousAutonomyLevel'', Nullable, FEnum runner_autonomy_value_values),
     (''autonomyLevel'', Required, FEnum runner_autonomy_value_values),
     (''serviceStatus'', Required, FEnum runner_service_status_value_values)]"

definition runner_secret_protector_changed_payload :: payload_schema where
  "runner_secret_protector_changed_payload =
    [(''runnerDeviceId'', Required, FUuid),
     (''previousUnlockMode'', Nullable, FEnum runner_secret_unlock_mode_value_values),
     (''unlockMode'', Required, FEnum runner_secret_unlock_mode_value_values)]"

definition rollout_status_values :: "string list" where
  "rollout_status_values = [''draft'', ''active'', ''paused'', ''completed'', ''cancelled'']"

definition runner_rollout_created_payload :: payload_schema where
  "runner_rollout_created_payload =
    [(''rolloutId'', Required, FUuid),
     (''targetReleaseId'', Required, FUuid),
     (''stageCount'', Required, FInt 0 1000000),
     (''assignmentCount'', Required, FInt 0 1000000)]"

definition runner_rollout_status_payload :: payload_schema where
  "runner_rollout_status_payload =
    [(''rolloutId'', Required, FUuid),
     (''status'', Required, FEnum rollout_status_values),
     (''reason'', Optional, FEnum [''manual'', ''target_release_blocked'',
       ''assignment_rolled_back'']),
     (''changedAt'', Required, FTimestamp)]"

definition runner_rollout_stage_activated_payload :: payload_schema where
  "runner_rollout_stage_activated_payload =
    [(''rolloutId'', Required, FUuid),
     (''stageId'', Required, FUuid),
     (''stageNumber'', Required, FInt 1 MAX_SAFE_INTEGER),
     (''targetReleaseId'', Required, FUuid),
     (''assignmentCount'', Required, FInt 0 1000000)]"

definition runner_rollout_assignment_observed_payload :: payload_schema where
  "runner_rollout_assignment_observed_payload =
    [(''rolloutId'', Required, FUuid),
     (''stageId'', Required, FUuid),
     (''assignmentId'', Required, FUuid),
     (''runnerDeviceId'', Required, FUuid),
     (''stageNumber'', Required, FInt 1 MAX_SAFE_INTEGER),
     (''observedAt'', Required, FTimestamp)]"

definition AUDIT_PAYLOAD_SCHEMAS :: "(string \<times> payload_schema) list" where
  "AUDIT_PAYLOAD_SCHEMAS =
    [(''workflow.created'', workflow_created_payload),
     (''workflow_version.created'', workflow_version_created_payload),
     (''workflow_draft.updated'', workflow_draft_updated_payload),
     (''workflow_version.submitted_for_testing'', workflow_version_transition_payload),
     (''workflow_version.returned_to_draft'', workflow_version_transition_payload),
     (''workflow_version.published'', workflow_version_published_payload),
     (''workflow_version.archived'', workflow_version_archived_payload),
     (''policy_version.archived'', policy_version_archived_payload),
     (''policy_version.activated'', policy_version_activated_payload),
     (''workflow_run.created'', workflow_run_created_payload),
     (''workflow_run.claimed'', workflow_run_claimed_payload),
     (''workflow_run.started'', workflow_run_started_payload),
     (''workflow_run.waiting_for_approval'', workflow_run_waiting_payload),
     (''workflow_run.waiting_for_repair'', workflow_run_waiting_payload),
     (''workflow_run.cancel_requested'', workflow_run_cancel_requested_payload),
     (''workflow_run.succeeded'', workflow_run_terminal_payload),
     (''workflow_run.failed'', workflow_run_terminal_payload),
     (''workflow_run.cancelled'', workflow_run_terminal_payload),
     (''workflow_run.timed_out'', workflow_run_terminal_payload),
     (''workflow_run.interrupted'', workflow_run_terminal_payload),
     (''execution.attempt_started'', execution_attempt_started_payload),
     (''execution.attempt_terminal'', execution_attempt_terminal_payload),
     (''execution.verification_completed'', execution_verification_completed_payload),
     (''execution.output_produced'', execution_output_produced_payload),
     (''approval.requested'', approval_requested_payload),
     (''approval.decided'', approval_decided_payload),
     (''approval.lifecycle'', approval_lifecycle_payload),
     (''repair.requested'', repair_requested_payload),
     (''repair.decided'', repair_decided_payload),
     (''repair.lifecycle'', repair_lifecycle_payload),
     (''locator_repair.proposal_created'', locator_repair_proposal_created_payload),
     (''locator_repair.candidate_tested'', locator_repair_candidate_tested_payload),
     (''locator_repair.applied_to_draft'', locator_repair_applied_payload),
     (''locator_repair.dismissed'', locator_repair_dismissed_payload),
     (''schedule.created'', schedule_created_payload),
     (''schedule.paused'', schedule_paused_payload),
     (''schedule.resumed'', schedule_resumed_payload),
     (''schedule.completed'', schedule_completed_payload),
     (''schedule.archived'', schedule_archived_payload),
     (''schedule.auto_paused'', schedule_auto_paused_payload),
     (''schedule.occurrence.dispatched'', schedule_occurrence_dispatched_payload),
     (''schedule.occurrence.skipped'', schedule_occurrence_skipped_payload),
     (''schedule.occurrence.start_window_expired'',
       schedule_occurrence_start_window_expired_payload),
     (''schedule.occurrence.succeeded'', schedule_occurrence_succeeded_payload),
     (''notification.alert.created'', notification_alert_created_payload),
     (''notification.alert.resolved'', notification_alert_resolved_payload),
     (''notification.delivery.dead_lettered'', notification_delivery_dead_lettered_payload),
     (''runner.secret_inventory.updated'', runner_secret_inventory_updated_payload),
     (''runner.software_version.changed'', runner_software_version_changed_payload),
     (''runner.runtime_mode.changed'', runner_runtime_mode_changed_payload),
     (''runner.secret_protector.changed'', runner_secret_protector_changed_payload),
     (''runner.rollout.created'', runner_rollout_created_payload),
     (''runner.rollout.activated'', runner_rollout_status_payload),
     (''runner.rollout.paused'', runner_rollout_status_payload),
     (''runner.rollout.cancelled'', runner_rollout_status_payload),
     (''runner.rollout.stage.activated'', runner_rollout_stage_activated_payload),
     (''runner.rollout.assignment.converged'', runner_rollout_assignment_observed_payload),
     (''runner.rollout.assignment.rolled_back'', runner_rollout_assignment_observed_payload)]"

definition parse_audit_payload :: "audit_host \<Rightarrow> string \<Rightarrow> json \<Rightarrow> json option" where
  "parse_audit_payload h event_type v =
     (case map_of AUDIT_PAYLOAD_SCHEMAS event_type of
        None \<Rightarrow> None
      | Some sch \<Rightarrow> parse_payload h sch v)"

section \<open>Well-typed payloads\<close>

text \<open>
  What a payload of a schema is, independently of how it is parsed: an object that has exactly
  the keys the schema allows, in its order, each with a value of the kind of its field.
\<close>

definition is_text :: "(string \<Rightarrow> bool) \<Rightarrow> json \<Rightarrow> bool" where
  "is_text p v \<longleftrightarrow> (case v of JString s \<Rightarrow> p s | _ \<Rightarrow> False)"

fun has_kind :: "audit_host \<Rightarrow> field_kind \<Rightarrow> json \<Rightarrow> bool" where
  "has_kind h FStableId v = is_text (stable_id_ok 256) v"
| "has_kind h FUuid v = is_text (uuid_ok h) v"
| "has_kind h (FInt lo hi) v = (\<exists>n. v = JNumber (of_int n) \<and> lo \<le> n \<and> n \<le> hi)"
| "has_kind h FDigest v = is_text (\<lambda>s. length s = 64 \<and> list_all hex_char s) v"
| "has_kind h FSafeCode v = is_text safe_code_ok v"
| "has_kind h FKind v = is_text kind_ok v"
| "has_kind h FTimestamp v = is_text (\<lambda>s. \<exists>ms. \<bar>ms\<bar> \<le> MAX_TIME \<and> s = to_iso_string ms) v"
| "has_kind h (FEnum vs) v = is_text (\<lambda>s. s \<in> set vs) v"
| "has_kind h FBool v = (\<exists>b. v = JBool b)"
| "has_kind h (FText lo hi) v = is_text (\<lambda>s. lo \<le> length s \<and> length s \<le> hi) v"
| "has_kind h (FTrimmed lo hi) v = is_text (\<lambda>s. lo \<le> length s \<and> length s \<le> hi \<and> trim s = s) v"

fun has_members :: "audit_host \<Rightarrow> payload_schema \<Rightarrow> (string \<times> json) list \<Rightarrow> bool" where
  "has_members h [] kvs = (kvs = [])"
| "has_members h ((name, pres, kind) # sch) kvs =
     ((pres = Optional \<and> has_members h sch kvs) \<or>
      (case kvs of
         [] \<Rightarrow> False
       | (k, v) # rest \<Rightarrow>
           k = name \<and> has_members h sch rest \<and>
           (has_kind h kind v \<or> (pres = Optional \<and> v = JUndefined) \<or> (pres = Nullable \<and> v = JNull))))"

definition typed_payload :: "audit_host \<Rightarrow> string \<Rightarrow> json \<Rightarrow> bool" where
  "typed_payload h event_type v \<longleftrightarrow>
     (\<exists>sch kvs. map_of AUDIT_PAYLOAD_SCHEMAS event_type = Some sch \<and> v = JObject kvs \<and> has_members h sch kvs)"

lemma matches_times_class:
  "rx_matches (rx_times n (Class p)) s \<longleftrightarrow> length s = n \<and> list_all p s"
proof -
  have "s \<in> lang (rx_times n (Class p)) \<longleftrightarrow> length s = n \<and> list_all p s"
  proof (induction n arbitrary: s)
    case (Suc n)
    have "s \<in> lang (rx_times (Suc n) (Class p)) \<longleftrightarrow>
        (\<exists>c cs. s = [c] @ cs \<and> p c \<and> cs \<in> lang (rx_times n (Class p)))"
      unfolding rx_times.simps lang.simps by blast
    then show ?case unfolding Suc.IH by (cases s) auto
  qed auto
  then show ?thesis by (simp add: rx_matches_iff)
qed

lemma digest_ok_iff [code]: "digest_ok s \<longleftrightarrow> length s = 64 \<and> list_all hex_char s"
  unfolding digest_ok_def matches_times_class ..

lemma check_string_Some: "check_string p v = Some w \<longleftrightarrow> w = v \<and> (\<exists>s. v = JString s \<and> p s)"
  by (cases v) (auto simp: check_string_def)

lemma int_in_range:
  "of_int \<lfloor>r\<rfloor> = r \<Longrightarrow> of_int lo \<le> r \<Longrightarrow> r \<le> of_int hi \<Longrightarrow> \<exists>n. r = of_int n \<and> lo \<le> n \<and> n \<le> hi" for r :: rat
  by (intro exI [of _ "\<lfloor>r\<rfloor>"]) (auto simp: le_floor_iff floor_le_iff)

lemma parse_field_kind: "parse_field h k v = Some w \<Longrightarrow> has_kind h k w"
proof (cases k)
  case (FInt lo hi)
  assume "parse_field h k v = Some w"
  with FInt show ?thesis
    by (cases v) (auto split: if_splits dest: int_in_range)
next
  case FTimestamp
  assume "parse_field h k v = Some w"
  with FTimestamp show ?thesis
    by (cases v) (auto simp: is_text_def parse_timestamp_def normalize_audit_timestamp_def split: if_splits
        intro!: exI dest: parse_date_time_bound)
next
  case FBool
  assume "parse_field h k v = Some w"
  with FBool show ?thesis by (cases v) auto
next
  case (FTrimmed lo hi)
  assume "parse_field h k v = Some w"
  with FTrimmed show ?thesis by (cases v) (auto simp: is_text_def split: if_splits)
qed (auto simp: check_string_Some digest_ok_iff is_text_def)

lemma parse_member_cases:
  assumes "parse_member h kvs (name, pres, kind) = Some out"
  obtains (absent) "out = []" "pres = Optional"
  | (present) w where "out = [(name, w)]"
      "has_kind h kind w \<or> (pres = Optional \<and> w = JUndefined) \<or> (pres = Nullable \<and> w = JNull)"
proof (cases "map_of kvs name")
  case None
  with assms absent show ?thesis by (auto simp: parse_member_def split: if_splits)
next
  case (Some v)
  show ?thesis
  proof (cases "v = JUndefined")
    case True
    with Some assms present show ?thesis by (auto simp: parse_member_def split: if_splits)
  next
    case False
    with assms have "(if v = JNull \<and> pres = Nullable then Some [(name, JNull)]
        else map_option (\<lambda>w. [(name, w)]) (parse_field h kind v)) = Some out"
      unfolding parse_member_def prod.case Some option.case by (cases v) (auto split: if_splits)
    with present parse_field_kind show ?thesis by (auto split: if_splits)
  qed
qed

lemma parse_members_typed: "parse_members h sch kvs = Some out \<Longrightarrow> has_members h sch out"
proof (induction sch arbitrary: out)
  case Nil
  then show ?case by (simp add: parse_members_def)
next
  case (Cons f sch)
  obtain name pres kind where f: "f = (name, pres, kind)" by (metis prod_cases3)
  from Cons.prems obtain a as where a: "parse_member h kvs f = Some a"
    and as: "parse_members h sch kvs = Some as" and out: "out = a @ as"
    by (auto simp: parse_members_def split: bind_splits)
  from a [unfolded f] show ?case
    by (cases rule: parse_member_cases) (use Cons.IH [OF as] f out in auto)
qed

lemma parse_audit_payload_typed: "parse_audit_payload h t v = Some w \<Longrightarrow> typed_payload h t w"
  by (auto simp: parse_audit_payload_def parse_payload_def typed_payload_def
      split: option.splits json.splits if_splits dest: parse_members_typed)

end
