(* ===== verification/Schedule_Definitions.thy ===== *)
theory Schedule_Definitions
  imports Schedule_Zone Audit_Payloads
begin

text \<open>
  Schedules (packages/workflow-scheduling/src/definitions.ts, recurrence.ts, occurrence-key.ts):
  the three kinds of schedule, the schemas that accept them, the strings of local dates and times
  and what reads them, the checks of weekdays and intervals, and the key of an occurrence. The
  names of the time zones the platform knows and SHA-256 are parameters.
\<close>

section \<open>Schedules\<close>

record one_time_schedule =
  ot_timezone :: string
  ot_date :: string
  ot_time :: string

record daily_schedule =
  dy_timezone :: string
  dy_start :: string
  dy_end :: "string option"
  dy_time :: string
  dy_interval :: int

record weekly_schedule =
  wk_timezone :: string
  wk_start :: string
  wk_end :: "string option"
  wk_time :: string
  wk_weekdays :: "int list"
  wk_interval :: int

datatype schedule =
    OneTime one_time_schedule
  | Daily daily_schedule
  | Weekly weekly_schedule

section \<open>The patterns of dates and times\<close>

definition digit_class :: rx where "digit_class = Class is_digit"
definition digit_between :: "char \<Rightarrow> char \<Rightarrow> rx" where "digit_between lo hi = Class (in_range lo hi)"
definition rx_char :: "char \<Rightarrow> rx" where "rx_char c = Class (\<lambda>d. d = c)"

definition local_date_ok :: "string \<Rightarrow> bool" where
  "local_date_ok s \<longleftrightarrow> rx_matches
     (Cat (rx_times 4 digit_class)
     (Cat (rx_char CHR ''-'')
     (Cat (Either (Cat (rx_char CHR ''0'') (digit_between CHR ''1'' CHR ''9''))
                  (Cat (rx_char CHR ''1'') (digit_between CHR ''0'' CHR ''2'')))
     (Cat (rx_char CHR ''-'')
          (Either (Cat (rx_char CHR ''0'') (digit_between CHR ''1'' CHR ''9''))
          (Either (Cat (digit_between CHR ''1'' CHR ''2'') digit_class)
                  (Cat (rx_char CHR ''3'') (digit_between CHR ''0'' CHR ''1''))))))))  s"

definition local_time_ok :: "string \<Rightarrow> bool" where
  "local_time_ok s \<longleftrightarrow> rx_matches
     (Cat (Either (Cat (digit_between CHR ''0'' CHR ''1'') digit_class)
                  (Cat (rx_char CHR ''2'') (digit_between CHR ''0'' CHR ''3'')))
     (Cat (rx_char CHR '':'')
     (Cat (digit_between CHR ''0'' CHR ''5'') digit_class))) s"

section \<open>Schemas\<close>

definition member :: "string \<Rightarrow> (string \<times> json) list \<Rightarrow> json" where
  "member k kvs = (case map_of kvs k of None \<Rightarrow> JUndefined | Some v \<Rightarrow> v)"

definition keys_within :: "string list \<Rightarrow> (string \<times> json) list \<Rightarrow> bool" where
  "keys_within ks kvs \<longleftrightarrow> list_all (\<lambda>kv. fst kv \<in> set ks) kvs"

fun string_where :: "(string \<Rightarrow> bool) \<Rightarrow> json \<Rightarrow> string option" where
  "string_where p (JString s) = (if p s then Some s else None)"
| "string_where p v = None"

fun int_between :: "int \<Rightarrow> int \<Rightarrow> json \<Rightarrow> int option" where
  "int_between lo hi (JNumber r) =
     (if of_int \<lfloor>r\<rfloor> = r \<and> lo \<le> \<lfloor>r\<rfloor> \<and> \<lfloor>r\<rfloor> \<le> hi then Some \<lfloor>r\<rfloor> else None)"
| "int_between lo hi v = None"

text \<open>\<open>.optional()\<close> and \<open>.default(x)\<close>.\<close>

definition optional_member :: "(json \<Rightarrow> 'a option) \<Rightarrow> json \<Rightarrow> 'a option option" where
  "optional_member p v = (if v = JUndefined then Some None else map_option Some (p v))"

definition default_member :: "'a \<Rightarrow> (json \<Rightarrow> 'a option) \<Rightarrow> json \<Rightarrow> 'a option" where
  "default_member x p v = (if v = JUndefined then Some x else p v)"

fun array_of :: "(json \<Rightarrow> 'a option) \<Rightarrow> json \<Rightarrow> 'a list option" where
  "array_of p (JArray vs) = parse_list p vs"
| "array_of p v = None"

definition timezone_member :: "(string \<Rightarrow> bool) \<Rightarrow> json \<Rightarrow> string option" where
  "timezone_member known = string_where (\<lambda>s. 1 \<le> length s \<and> length s \<le> 64 \<and> known s)"

text \<open>The comparison of strings \<open>endDate >= startDate\<close>, by code units.\<close>

definition end_not_before :: "string \<Rightarrow> string option \<Rightarrow> bool" where
  "end_not_before s e = (case e of None \<Rightarrow> True | Some x \<Rightarrow> s \<le> x)"

definition parse_one_time :: "(string \<Rightarrow> bool) \<Rightarrow> (string \<times> json) list \<Rightarrow> one_time_schedule option" where
  "parse_one_time known kvs = do {
     guard_ok (keys_within [''schemaVersion'', ''type'', ''timezone'', ''date'', ''time''] kvs);
     guard_ok (member ''schemaVersion'' kvs = JNumber 1);
     tz \<leftarrow> timezone_member known (member ''timezone'' kvs);
     d \<leftarrow> string_where local_date_ok (member ''date'' kvs);
     t \<leftarrow> string_where local_time_ok (member ''time'' kvs);
     Some \<lparr>ot_timezone = tz, ot_date = d, ot_time = t\<rparr>
   }"

definition parse_daily :: "(string \<Rightarrow> bool) \<Rightarrow> (string \<times> json) list \<Rightarrow> daily_schedule option" where
  "parse_daily known kvs = do {
     guard_ok (keys_within
       [''schemaVersion'', ''type'', ''timezone'', ''startDate'', ''endDate'', ''time'', ''intervalDays''] kvs);
     guard_ok (member ''schemaVersion'' kvs = JNumber 1);
     tz \<leftarrow> timezone_member known (member ''timezone'' kvs);
     s \<leftarrow> string_where local_date_ok (member ''startDate'' kvs);
     e \<leftarrow> optional_member (string_where local_date_ok) (member ''endDate'' kvs);
     t \<leftarrow> string_where local_time_ok (member ''time'' kvs);
     n \<leftarrow> default_member 1 (int_between 1 365) (member ''intervalDays'' kvs);
     guard_ok (end_not_before s e);
     Some \<lparr>dy_timezone = tz, dy_start = s, dy_end = e, dy_time = t, dy_interval = n\<rparr>
   }"

text \<open>The transform sorts the weekdays and drops duplicates before the last refinements.\<close>

definition normal_weekdays :: "int list \<Rightarrow> int list" where
  "normal_weekdays ws = sort (js_unique ws)"

definition parse_weekly :: "(string \<Rightarrow> bool) \<Rightarrow> (string \<times> json) list \<Rightarrow> weekly_schedule option" where
  "parse_weekly known kvs = do {
     guard_ok (keys_within
       [''schemaVersion'', ''type'', ''timezone'', ''startDate'', ''endDate'', ''time'', ''weekdays'',
        ''intervalWeeks''] kvs);
     guard_ok (member ''schemaVersion'' kvs = JNumber 1);
     tz \<leftarrow> timezone_member known (member ''timezone'' kvs);
     s \<leftarrow> string_where local_date_ok (member ''startDate'' kvs);
     e \<leftarrow> optional_member (string_where local_date_ok) (member ''endDate'' kvs);
     t \<leftarrow> string_where local_time_ok (member ''time'' kvs);
     ws \<leftarrow> default_member [1] (array_of (int_between 1 7)) (member ''weekdays'' kvs);
     guard_ok (1 \<le> length ws \<and> length ws \<le> 7);
     n \<leftarrow> default_member 1 (int_between 1 52) (member ''intervalWeeks'' kvs);
     guard_ok (end_not_before s e);
     guard_ok (normal_weekdays ws \<noteq> []);
     guard_ok (length (js_unique (normal_weekdays ws)) = length (normal_weekdays ws));
     Some \<lparr>wk_timezone = tz, wk_start = s, wk_end = e, wk_time = t,
           wk_weekdays = normal_weekdays ws, wk_interval = n\<rparr>
   }"

definition parse_schedule :: "(string \<Rightarrow> bool) \<Rightarrow> json \<Rightarrow> schedule option" where
  "parse_schedule known v =
     (case v of
        JObject kvs \<Rightarrow>
          if member ''type'' kvs = JString ''one_time'' then map_option OneTime (parse_one_time known kvs)
          else if member ''type'' kvs = JString ''daily'' then map_option Daily (parse_daily known kvs)
          else if member ''type'' kvs = JString ''weekly'' then map_option Weekly (parse_weekly known kvs)
          else None
      | _ \<Rightarrow> None)"

section \<open>Weekdays and intervals\<close>

text \<open>\<open>validateWeekdays\<close> of a value of any type.\<close>

fun collect_weekdays :: "int list \<Rightarrow> json list \<Rightarrow> int list option" where
  "collect_weekdays seen [] = Some seen"
| "collect_weekdays seen (v # vs) =
     (case int_between 1 7 v of
        None \<Rightarrow> None
      | Some n \<Rightarrow> collect_weekdays (if n \<in> set seen then seen else seen @ [n]) vs)"

fun validate_weekdays :: "json \<Rightarrow> int list option" where
  "validate_weekdays (JArray vs) =
     (case collect_weekdays [] vs of
        None \<Rightarrow> None
      | Some ws \<Rightarrow> if ws = [] then None else Some (sort ws))"
| "validate_weekdays v = None"

definition are_weekdays_valid :: "int list \<Rightarrow> bool" where
  "are_weekdays_valid ws \<longleftrightarrow>
     ws \<noteq> [] \<and> list_all (\<lambda>w. \<not> (w < 1 \<or> w > 7)) ws \<and> sort ws = ws \<and>
     length (js_unique (sort ws)) = length (sort ws)"

definition is_valid_interval_days :: "json \<Rightarrow> bool" where
  "is_valid_interval_days v \<longleftrightarrow> int_between 1 365 v \<noteq> None"

definition is_valid_interval_weeks :: "json \<Rightarrow> bool" where
  "is_valid_interval_weeks v \<longleftrightarrow> int_between 1 52 v \<noteq> None"

section \<open>Reading dates and times\<close>

text \<open>\<open>parseLocalDate\<close> checks the shape and the ranges, not that the month has the day.\<close>

definition parse_local_date :: "string \<Rightarrow> local_date option" where
  "parse_local_date s =
     (if date_only_shape s
      then case date_fields s of (y, m, d) \<Rightarrow>
             if m < 1 \<or> m > 12 then None else if d < 1 \<or> d > 31 then None else Some (y, m, d)
      else None)"

definition parse_local_time :: "string \<Rightarrow> (int \<times> int) option" where
  "parse_local_time s =
     (if length s = 5 \<and> list_all is_digit (take 2 s) \<and> s ! 2 = CHR '':'' \<and> list_all is_digit (drop 3 s)
      then let hour = digits_value (take 2 s); minute = digits_value (drop 3 s)
           in if hour > 23 \<or> minute > 59 then None else Some (hour, minute)
      else None)"

text \<open>Both ends are days of UTC, so the quotient is whole and rounding leaves it.\<close>

definition days_between_dates :: "string \<Rightarrow> string \<Rightarrow> int option" where
  "days_between_dates s e =
     (case (parse_local_date s, parse_local_date e) of
        (Some (y, m, d), Some (y', m', d')) \<Rightarrow> Some (utc_day y' (m' - 1) d' - utc_day y (m - 1) d)
      | _ \<Rightarrow> None)"

text \<open>\<open>weekdayOfUtc\<close>: the weekday of the UTC day, whatever the zone. \<open>getUTCDay\<close> counts from Sunday.\<close>

definition utc_weekday :: "int \<Rightarrow> int" where
  "utc_weekday day = (day + 4) mod 7"

definition weekday_of_utc :: "int \<Rightarrow> string \<Rightarrow> int" where
  "weekday_of_utc ms timezone =
     (case civil_of_day (ms div day_ms) of (y, m, d) \<Rightarrow> (utc_weekday (utc_day y m d) + 6) mod 7 + 1)"

text \<open>\<open>split\<close> at a character and \<open>Number.parseInt(s, 10)\<close>, with None for NaN.\<close>

fun split_char :: "char \<Rightarrow> string \<Rightarrow> string list" where
  "split_char c [] = [[]]"
| "split_char c (x # xs) =
     (if x = c then [] # split_char c xs
      else (x # hd (split_char c xs)) # tl (split_char c xs))"

definition parse_digits :: "string \<Rightarrow> int option" where
  "parse_digits s =
     (let ds = takeWhile is_digit s in if ds = [] then None else Some (digits_value ds))"

definition parse_int :: "string \<Rightarrow> int option" where
  "parse_int s =
     (case dropWhile js_space s of
        [] \<Rightarrow> None
      | c # cs \<Rightarrow>
          if c = CHR ''-'' then map_option uminus (parse_digits cs)
          else if c = CHR ''+'' then parse_digits cs
          else parse_digits (c # cs))"

datatype schedule_error = InvalidDateString | InvalidTimeString | InvalidUnitValue

definition parse_date_string :: "string \<Rightarrow> schedule_error + local_date" where
  "parse_date_string s =
     (case map parse_int (split_char CHR ''-'' s) of
        [Some y, Some m, Some d] \<Rightarrow> Inr (y, m, d)
      | _ \<Rightarrow> Inl InvalidDateString)"

text \<open>Hours and minutes, as the milliseconds since midnight that the zone arithmetic takes.\<close>

definition parse_time_string :: "string \<Rightarrow> schedule_error + int" where
  "parse_time_string s =
     (case map parse_int (split_char CHR '':'' s) of
        [Some hour, Some minute] \<Rightarrow> Inr (hour * 3600000 + minute * 60000)
      | _ \<Rightarrow> Inl InvalidTimeString)"

text \<open>\<open>formatLocalDate\<close>; the fields of an invalid \<open>DateTime\<close> are NaN.\<close>

function decimal :: "int \<Rightarrow> string" where
  "decimal n = (if n < 10 then [digit_char n] else decimal (n div 10) @ [digit_char (n mod 10)])"
  by auto
termination by (relation "measure nat") auto

declare decimal.simps [simp del]

definition int_text :: "int \<Rightarrow> string" where
  "int_text n = (if n < 0 then CHR ''-'' # decimal (- n) else decimal n)"

definition pad_start :: "nat \<Rightarrow> string \<Rightarrow> string" where
  "pad_start n s = replicate (n - length s) CHR ''0'' @ s"

fun format_local_date :: "local_date option \<Rightarrow> string" where
  "format_local_date (Some (y, m, d)) =
     pad_start 4 (int_text y) @ CHR ''-'' # pad_start 2 (int_text m) @ CHR ''-'' # pad_start 2 (int_text d)"
| "format_local_date None = pad_start 4 ''NaN'' @ CHR ''-'' # pad_start 2 ''NaN'' @ CHR ''-'' # pad_start 2 ''NaN''"

section \<open>What the schemas accept can be read\<close>

lemma is_digit_iff: "is_digit c \<longleftrightarrow> 48 \<le> (of_char c :: nat) \<and> (of_char c :: nat) \<le> 57"
  by (simp add: is_digit_def in_range_def)

lemma digit_not: "is_digit c \<Longrightarrow> \<not> js_space c \<and> c \<noteq> CHR ''-'' \<and> c \<noteq> CHR ''+'' \<and> c \<noteq> CHR '':''"
  by (auto simp: is_digit_iff js_space_def)

lemma digits_value_snoc: "digits_value (s @ [c]) = 10 * digits_value s + digit_value c"
  by (simp add: digits_value_def)

lemma digits_value_nonneg: "list_all is_digit s \<Longrightarrow> 0 \<le> digits_value s"
  by (induction s rule: rev_induct)
    (auto simp: digits_value_snoc digits_value_def digit_value_def is_digit_iff)

lemma split_char_part:
  "list_all is_digit a \<Longrightarrow> \<not> is_digit c \<Longrightarrow> split_char c (a @ c # r) = a # split_char c r"
  by (induction a) auto

lemma split_char_last: "list_all is_digit a \<Longrightarrow> \<not> is_digit c \<Longrightarrow> split_char c a = [a]"
  by (induction a) auto

lemma parse_int_digits: "list_all is_digit a \<Longrightarrow> a \<noteq> [] \<Longrightarrow> parse_int a = Some (digits_value a)"
  by (cases a) (auto simp: parse_int_def parse_digits_def digit_not list_all_iff takeWhile_eq_all_conv [THEN iffD2])

lemma separators_not_digits [simp]: "\<not> is_digit CHR ''-''" "\<not> is_digit CHR '':''"
  by (simp_all add: is_digit_iff)

lemma parse_date_parts:
  assumes "list_all is_digit a" "list_all is_digit b" "list_all is_digit c" "a \<noteq> []" "b \<noteq> []" "c \<noteq> []"
  shows "parse_date_string (a @ CHR ''-'' # b @ CHR ''-'' # c) =
           Inr (digits_value a, digits_value b, digits_value c)"
  using assms by (simp add: parse_date_string_def split_char_part split_char_last parse_int_digits)

lemma parse_time_parts:
  assumes "list_all is_digit a" "list_all is_digit b" "a \<noteq> []" "b \<noteq> []"
  shows "parse_time_string (a @ CHR '':'' # b) = Inr (digits_value a * 3600000 + digits_value b * 60000)"
  using assms by (simp add: parse_time_string_def split_char_part split_char_last parse_int_digits)

lemma lang_class: "u \<in> lang (Class p) \<longleftrightarrow> (\<exists>c. u = [c] \<and> p c)"
  by auto

lemma rx_times_class: "u \<in> lang (rx_times n (Class p)) \<longleftrightarrow> length u = n \<and> list_all p u"
  using matches_times_class [of n p u] by (simp add: rx_matches_iff)

lemma in_range_digit: "in_range lo hi c \<Longrightarrow> 48 \<le> (of_char lo :: nat) \<Longrightarrow> (of_char hi :: nat) \<le> 57 \<Longrightarrow> is_digit c"
  by (simp add: in_range_def is_digit_iff)

lemma local_time_read:
  assumes "local_time_ok s" shows "\<exists>t. parse_time_string s = Inr t \<and> in_day t"
proof -
  from assms obtain p q x y where s: "s = [p, q] @ CHR '':'' # [x, y]"
    and pq: "in_range CHR ''0'' CHR ''1'' p \<and> is_digit q \<or> p = CHR ''2'' \<and> in_range CHR ''0'' CHR ''3'' q"
    and xy: "in_range CHR ''0'' CHR ''5'' x" "is_digit y"
    by (auto simp: local_time_ok_def rx_matches_iff digit_between_def digit_class_def rx_char_def)
  have d: "is_digit p" "is_digit q" "is_digit x"
    using pq xy in_range_digit [of "CHR ''0''" "CHR ''1''" p] in_range_digit [of "CHR ''0''" "CHR ''3''" q]
      in_range_digit [of "CHR ''0''" "CHR ''5''" x] by (auto simp: is_digit_iff)
  have v: "0 \<le> digits_value [p, q]" "digits_value [p, q] \<le> 23" "0 \<le> digits_value [x, y]"
    "digits_value [x, y] \<le> 59"
    using pq xy d
    by (auto simp: digits_value_def digit_value_def in_range_def is_digit_iff)
  have "parse_time_string s = Inr (digits_value [p, q] * 3600000 + digits_value [x, y] * 60000)"
    unfolding s by (rule parse_time_parts) (simp_all add: d xy)
  with v show ?thesis by (auto simp: in_day_def day_ms_def)
qed

lemma local_date_read:
  assumes "local_date_ok s"
  shows "\<exists>y m d. parse_date_string s = Inr (y, m, d) \<and> 0 \<le> y"
proof -
  from assms obtain a p q x y where s: "s = a @ CHR ''-'' # [p, q] @ CHR ''-'' # [x, y]"
    and a: "length a = 4" "list_all is_digit a"
    and p: "p = CHR ''0'' \<and> in_range CHR ''1'' CHR ''9'' q \<or> p = CHR ''1'' \<and> in_range CHR ''0'' CHR ''2'' q"
    and x: "x = CHR ''0'' \<and> in_range CHR ''1'' CHR ''9'' y \<or> in_range CHR ''1'' CHR ''2'' x \<and> is_digit y
             \<or> x = CHR ''3'' \<and> in_range CHR ''0'' CHR ''1'' y"
    by (auto simp: local_date_ok_def rx_matches_iff digit_between_def digit_class_def rx_char_def rx_times_class)
  from p x have d: "is_digit p" "is_digit q" "is_digit x" "is_digit y"
    by (auto simp: in_range_def is_digit_iff)
  have "parse_date_string s = Inr (digits_value a, digits_value [p, q], digits_value [x, y])"
    unfolding s by (rule parse_date_parts) (use a d in auto)
  with digits_value_nonneg [OF a(2)] show ?thesis by blast
qed

text \<open>Writing a date and reading it again.\<close>

lemma decimal_digits: "0 \<le> n \<Longrightarrow> list_all is_digit (decimal n) \<and> decimal n \<noteq> [] \<and> digits_value (decimal n) = n"
proof (induction n rule: decimal.induct)
  case (1 n)
  then show ?case
    by (subst (1 2 3) decimal.simps)
      (auto simp: is_digit_char digits_value_snoc digit_value_char digits_value_def)
qed

lemma digits_value_zeros: "digits_value (replicate k CHR ''0'' @ s) = digits_value s"
  by (induction k) (simp_all add: digits_value_def digit_value_def)

lemma padded_digits:
  assumes "0 \<le> n"
  shows "list_all is_digit (pad_start k (int_text n))" "pad_start k (int_text n) \<noteq> []"
    "digits_value (pad_start k (int_text n)) = n"
  using decimal_digits [OF assms] assms
  by (auto simp: pad_start_def int_text_def digits_value_zeros list_all_iff is_digit_iff)

lemma parse_formatted_date:
  "\<lbrakk>0 \<le> y; 0 \<le> m; 0 \<le> d\<rbrakk> \<Longrightarrow> parse_date_string (format_local_date (Some (y, m, d))) = Inr (y, m, d)"
  by (simp add: parse_date_parts padded_digits)

section \<open>Occurrence keys\<close>

definition occurrence_payload :: "string \<Rightarrow> int \<Rightarrow> string" where
  "occurrence_payload schedule_id instant =
     schedule_id @ CHR '':'' # to_iso_string (instant div 1000 * 1000)"

definition build_occurrence_key :: "audit_host \<Rightarrow> string \<Rightarrow> int \<Rightarrow> string" where
  "build_occurrence_key h schedule_id instant = sha256_hex h (occurrence_payload schedule_id instant)"

definition occurrence_keys_match :: "string \<Rightarrow> string \<Rightarrow> bool" where
  "occurrence_keys_match a b \<longleftrightarrow> a = b"

end
