(* ===== verification/Schedule_Occurrences.thy ===== *)
theory Schedule_Occurrences
  imports Schedule_Definitions
begin

text \<open>
  When schedules fire (packages/workflow-scheduling/src/occurrence-calculation.ts). The zone of a
  name is a parameter. The parameter \<open>after\<close> of the source is \<open>now\<close> here. A result is an occurrence, a reason for none, or the exception that a date
  outside the calendar provokes; the daily search calls itself, so it runs on fuel and None means
  that the fuel was not enough.
\<close>

section \<open>Results\<close>

datatype skip_reason = NonexistentLocalTime | RepeatedLocalTime | PastStartDate | PastEndDate

datatype occurrence =
    Occurs (scheduled_instant: int) (start_deadline: int)
  | Skipped skip_reason

definition occurs :: "int \<Rightarrow> int \<Rightarrow> occurrence" where
  "occurs delay i = Occurs i (i + delay * 1000)"

text \<open>
  \<open>parseEndDate\<close>: midnight of UTC. A date outside the calendar gives an invalid \<open>DateTime\<close>,
  which every comparison answers with false, as no limit does.
\<close>

definition end_limit :: "string option \<Rightarrow> schedule_error + int option" where
  "end_limit e =
     (case e of
        None \<Rightarrow> Inr None
      | Some s \<Rightarrow>
          if s = [] then Inr None
          else ebind (parse_date_string s) (\<lambda>date. Inr (map_option (\<lambda>day. day * day_ms) (date_day date))))"

definition past_limit :: "int option \<Rightarrow> int \<Rightarrow> bool" where
  "past_limit limit i = (case limit of None \<Rightarrow> False | Some e \<Rightarrow> e < i)"

section \<open>One-time schedules\<close>

definition next_one_time ::
  "(string \<Rightarrow> zone) \<Rightarrow> one_time_schedule \<Rightarrow> int \<Rightarrow> int \<Rightarrow> schedule_error + occurrence" where
  "next_one_time zones d now delay =
     ebind (parse_date_string (ot_date d)) (\<lambda>date.
     ebind (parse_time_string (ot_time d)) (\<lambda>t.
       case outcome_instant (local_date_time_to_utc (zones (ot_timezone d)) date t) of
         None \<Rightarrow> Inr (Skipped NonexistentLocalTime)
       | Some i \<Rightarrow> if i \<le> now then Inr (Skipped PastStartDate) else Inr (occurs delay i)))"

section \<open>Daily schedules\<close>

text \<open>\<open>advanceLocalDate\<close>; None is the invalid \<open>DateTime\<close> of a date outside the calendar.\<close>

definition advance_local_date :: "zone \<Rightarrow> local_date \<Rightarrow> int \<Rightarrow> local_date option" where
  "advance_local_date z date n =
     map_option (\<lambda>day. day_date (wall_day z (plus_days z n (at_time z day 0)))) (date_day date)"

text \<open>The midnight of the first aligned day that begins at \<open>now\<close> or later.\<close>

definition daily_candidate :: "zone \<Rightarrow> int \<Rightarrow> int \<Rightarrow> int \<Rightarrow> int" where
  "daily_candidate z anchor k now =
     (let anchor_local = start_of_day z anchor
      in if start_of_day z now < anchor_local then anchor_local
         else let since = days_between z anchor_local (start_of_day z now);
                  candidate = plus_days z (since - since mod k) anchor_local
              in if candidate < now then plus_days z k candidate else candidate)"

fun next_daily ::
  "(string \<Rightarrow> zone) \<Rightarrow> nat \<Rightarrow> daily_schedule \<Rightarrow> int \<Rightarrow> int \<Rightarrow> (schedule_error + occurrence) option" where
  "next_daily zones 0 d now delay = None"
| "next_daily zones (Suc fuel) d now delay =
     (let z = zones (dy_timezone d)
      in case ebind (parse_date_string (dy_start d)) (\<lambda>date.
              ebind (parse_time_string (dy_time d)) (\<lambda>t.
              ebind (end_limit (dy_end d)) (\<lambda>limit. Inr (date, t, limit)))) of
           Inl e \<Rightarrow> Some (Inl e)
         | Inr (date, t, limit) \<Rightarrow>
             (case outcome_instant (local_date_time_to_utc z date t) of
                None \<Rightarrow>
                  next_daily zones fuel (d\<lparr>dy_start := format_local_date (advance_local_date z date 1)\<rparr>)
                    now delay
              | Some anchor \<Rightarrow>
                  let candidate = daily_candidate z anchor (dy_interval d) now;
                      local = set_time z t candidate
                  in if past_limit limit candidate then Some (Inr (Skipped PastEndDate))
                     else if local \<le> now then next_daily zones fuel d (local + 1) delay
                     else case outcome_instant (local_date_time_to_utc z (day_date (wall_day z local)) t) of
                            None \<Rightarrow> next_daily zones fuel d (local + 3600000) delay
                          | Some i \<Rightarrow> Some (Inr (occurs delay i))))"

section \<open>Weekly schedules\<close>

text \<open>The weekdays of one week: None when none of them is an occurrence.\<close>

fun scan_weekdays ::
  "zone \<Rightarrow> int \<Rightarrow> int \<Rightarrow> int option \<Rightarrow> int \<Rightarrow> int \<Rightarrow> int \<Rightarrow> int list \<Rightarrow> occurrence option" where
  "scan_weekdays z t start limit now delay week [] = None"
| "scan_weekdays z t start limit now delay week (wd # wds) =
     (let candidate = set_weekday_time z wd t week
      in if candidate < start then scan_weekdays z t start limit now delay week wds
         else if past_limit limit candidate then Some (Skipped PastEndDate)
         else if candidate \<le> now then scan_weekdays z t start limit now delay week wds
         else case outcome_instant (local_date_time_to_utc z (day_date (wall_day z candidate)) t) of
                None \<Rightarrow> scan_weekdays z t start limit now delay week wds
              | Some i \<Rightarrow> Some (occurs delay i))"

fun scan_weeks ::
  "zone \<Rightarrow> int \<Rightarrow> int \<Rightarrow> int option \<Rightarrow> int \<Rightarrow> int \<Rightarrow> int list \<Rightarrow> int \<Rightarrow> nat \<Rightarrow> int \<Rightarrow> occurrence" where
  "scan_weeks z t start limit now delay wds k 0 week = Skipped PastEndDate"
| "scan_weeks z t start limit now delay wds k (Suc n) week =
     (case scan_weekdays z t start limit now delay week wds of
        Some r \<Rightarrow> r
      | None \<Rightarrow> scan_weeks z t start limit now delay wds k n (plus_days z (7 * k) week))"

definition MAX_SEARCH_WEEKS :: nat where "MAX_SEARCH_WEEKS = 52 * 3"

text \<open>The start of the aligned week the search begins with.\<close>

definition first_week :: "zone \<Rightarrow> int \<Rightarrow> int \<Rightarrow> int \<Rightarrow> int" where
  "first_week z start k now =
     (let search = if start_of_day z now < start then start_of_day z start else start_of_day z now;
          anchor_week = start_of_week z start;
          since = weeks_between z anchor_week (start_of_week z search)
      in plus_days z (7 * (since - since mod k)) anchor_week)"

text \<open>
  With a start date outside the calendar every comparison is false and the first weekday hands
  NaN to \<open>DateTime.fromObject\<close>, which throws.
\<close>

definition next_weekly ::
  "(string \<Rightarrow> zone) \<Rightarrow> weekly_schedule \<Rightarrow> int \<Rightarrow> int \<Rightarrow> schedule_error + occurrence" where
  "next_weekly zones d now delay =
     (let z = zones (wk_timezone d); wds = sort (wk_weekdays d); k = wk_interval d
      in ebind (end_limit (wk_end d)) (\<lambda>limit.
         ebind (parse_date_string (wk_start d)) (\<lambda>date.
         ebind (parse_time_string (wk_time d)) (\<lambda>t.
           case date_day date of
             None \<Rightarrow> if wds = [] then Inr (Skipped PastEndDate) else Inl InvalidUnitValue
           | Some day \<Rightarrow>
               let start = at_time z day 0
               in Inr (scan_weeks z t start limit now delay wds k MAX_SEARCH_WEEKS (first_week z start k now))))))"

section \<open>Any schedule\<close>

fun next_occurrence ::
  "(string \<Rightarrow> zone) \<Rightarrow> nat \<Rightarrow> schedule \<Rightarrow> int \<Rightarrow> int \<Rightarrow> (schedule_error + occurrence) option" where
  "next_occurrence zones fuel (OneTime d) now delay = Some (next_one_time zones d now delay)"
| "next_occurrence zones fuel (Daily d) now delay = next_daily zones fuel d now delay"
| "next_occurrence zones fuel (Weekly d) now delay = Some (next_weekly zones d now delay)"

fun next_n_occurrences ::
  "(string \<Rightarrow> zone) \<Rightarrow> nat \<Rightarrow> schedule \<Rightarrow> int \<Rightarrow> int \<Rightarrow> nat \<Rightarrow> (schedule_error + occurrence list) option" where
  "next_n_occurrences zones fuel d current delay 0 = Some (Inr [])"
| "next_n_occurrences zones fuel d current delay (Suc n) =
     (case next_occurrence zones fuel d current delay of
        None \<Rightarrow> None
      | Some (Inl e) \<Rightarrow> Some (Inl e)
      | Some (Inr (Skipped r)) \<Rightarrow> Some (Inr [Skipped r])
      | Some (Inr (Occurs i deadline)) \<Rightarrow>
          map_option (map_sum id (\<lambda>rs. Occurs i deadline # rs)) (next_n_occurrences zones fuel d (i + 1) delay n))"

end
