(* ===== verification/Schedule_Correctness.thy ===== *)
theory Schedule_Correctness
  imports Schedule_Occurrences
begin

text \<open>
  Daily schedules (nextDailyOccurrence of packages/workflow-scheduling): in any zone with the laws
  of \<open>civil_zone\<close> from the start day on, a daily schedule the schema accepted fires next on the
  first aligned day that begins when the search does or later. The search takes four calls at most:
  a first one when the start day lacks the time, one when it starts exactly at an occurrence at
  midnight, one after a day that lacks the time, and the one that finds the day. That holds of
  schedules whose first day has a midnight; without one the search can go on for ever.
\<close>

section \<open>What a schedule promises\<close>

definition start_day :: "string \<Rightarrow> int option" where
  "start_day s = (case parse_date_string s of Inl e \<Rightarrow> None | Inr date \<Rightarrow> date_day date)"

definition daily_due :: "zone \<Rightarrow> int \<Rightarrow> int \<Rightarrow> int \<Rightarrow> int \<Rightarrow> int \<Rightarrow> bool" where
  "daily_due z s k t now day \<longleftrightarrow>
     s \<le> day \<and> k dvd day - s \<and> now \<le> at_time z day 0 \<and> now < at_time z day t \<and> time_exists z day t"

text \<open>A schedule whose time does not exist on its first day starts on the next one.\<close>

definition first_start :: "zone \<Rightarrow> int \<Rightarrow> int \<Rightarrow> int" where
  "first_start z t s = (if time_exists z s t then s else s + 1)"

text \<open>
  From the start on, the time is missing on no two days that are a day or an interval apart, and
  where it is missing an hour later is still the same day.
\<close>

definition isolated_gaps :: "zone \<Rightarrow> int \<Rightarrow> int \<Rightarrow> int \<Rightarrow> bool" where
  "isolated_gaps z s t k \<longleftrightarrow>
     (\<forall>day. s \<le> day \<and> \<not> time_exists z day t \<longrightarrow>
        time_exists z (day + 1) t \<and> time_exists z (day + k) t \<and> wall_day z (at_time z day t + 3600000) = day)"

text \<open>
  A right answer of the daily search: the first day that is due, where it begins within the limit;
  otherwise no day is due before one that is past the limit at the clock with which a day begins,
  which is midnight but where midnight is missing.
\<close>

definition daily_answer :: "zone \<Rightarrow> int \<Rightarrow> int \<Rightarrow> int \<Rightarrow> int option \<Rightarrow> int \<Rightarrow> int \<Rightarrow> schedule_error + occurrence \<Rightarrow> bool" where
  "daily_answer z s k t limit delay now r \<longleftrightarrow>
     (\<exists>day. r = Inr (occurs delay (at_time z day t)) \<and> daily_due z s k t now day \<and>
        (\<forall>e. daily_due z s k t now e \<longrightarrow> day \<le> e) \<and> \<not> past_limit limit (at_time z day 0)) \<or>
     r = Inr (Skipped PastEndDate) \<and>
       (\<exists>day b. s \<le> b \<and> past_limit limit (at_time z day (day_clock z b)) \<and>
          (\<forall>e. daily_due z s k t now e \<longrightarrow> day \<le> e))"

section \<open>The daily search\<close>

declare next_daily.simps(2) [simp del]

lemma mod_before_multiple: "\<lbrakk>1 \<le> k; k dvd n\<rbrakk> \<Longrightarrow> (n - 1) mod k = k - 1" for n k :: int
proof -
  assume k: "1 \<le> k" "k dvd n"
  then obtain q where "n = k * q" by (auto simp: dvd_def)
  then have "n - 1 = (k - 1) + (q - 1) * k" by (simp add: algebra_simps)
  then show ?thesis using k(1) by (simp only: mod_mult_self1) (rule mod_pos_pos_trivial, simp_all)
qed

context civil_zone
begin

text \<open>The candidate of a schedule whose first day has a midnight.\<close>

lemma candidate_day:
  assumes s: "first \<le> s" "has_midnight z s" and t: "in_day t" and k: "1 \<le> k"
  obtains c b where "daily_candidate z (at_time z s t) k now = at_time z c (day_clock z b)" "s \<le> c" "s \<le> b"
    "k dvd c - s" "now \<le> at_time z c 0" "\<And>e. \<lbrakk>s \<le> e; k dvd e - s; now \<le> at_time z e 0\<rbrakk> \<Longrightarrow> c \<le> e"
proof -
  define a where "a = wall_day z now"
  have anchor: "start_of_day z (at_time z s t) = at_time z s 0"
    by (simp add: start_of_day_def within s t)
  have sod: "start_of_day z now = at_time z a 0" by (simp add: start_of_day_def a_def)
  have clock: "day_clock z s = 0" using s(2) by (simp add: has_midnight_def)
  show thesis
  proof (cases "a < s")
    case True
    then have "daily_candidate z (at_time z s t) k now = at_time z s 0"
      using starts_less [OF s(1), of a] by (simp add: daily_candidate_def Let_def anchor sod)
    moreover have "now \<le> at_time z s 0" using start_less [of now s 0] True s by (simp add: a_def)
    ultimately show thesis using that [of s s] by (simp add: clock)
  next
    case False
    define c0 where "c0 = s + ((a - s) - (a - s) mod k)"
    have r: "0 \<le> (a - s) mod k" "(a - s) mod k < k" using k by simp_all
    have c0: "s \<le> c0" "c0 \<le> a" "a < c0 + k"
      using False r zmod_le_nonneg_dividend [of "a - s" k] by (simp_all add: c0_def)
    have aligned: "k dvd c0 - s" by (simp add: c0_def minus_mod_eq_mult_div)
    have cand: "daily_candidate z (at_time z s t) k now =
        (if at_time z c0 0 < now then at_time z (c0 + k) (day_clock z c0) else at_time z c0 0)"
      using False starts_less [OF s(1), of a]
      by (simp add: daily_candidate_def Let_def anchor sod between_midnights [OF s] plus_midnight [OF s(2)]
          plus_start [of k] c0_def)
    have later: "c0 + k \<le> e" if "c0 < e" "k dvd e - s" for e
    proof -
      have "k dvd e - c0" using dvd_diff [OF that(2) aligned] by simp
      then show ?thesis using zdvd_imp_le [of k "e - c0"] that(1) by simp
    qed
    show thesis
    proof (cases "at_time z c0 0 < now")
      case True
      have "now \<le> at_time z (c0 + k) 0" using start_less [of now "c0 + k" 0] c0 s k by (simp add: a_def)
      moreover have "k dvd c0 + k - s" using aligned dvd_add [of k "c0 - s" k] by (simp add: algebra_simps)
      moreover have "c0 + k \<le> e" if "s \<le> e" "k dvd e - s" "now \<le> at_time z e 0" for e
      proof -
        have "\<not> at_time z e 0 \<le> at_time z c0 0" using that(3) True by simp
        then have "c0 < e" using s c0 that(1) by (simp add: starts_le)
        then show ?thesis using later that(2) by blast
      qed
      ultimately show thesis using that [of "c0 + k" c0] cand True c0(1) k by simp
    next
      case F: False
      have "c0 \<le> e" if "s \<le> e" "now \<le> at_time z e 0" for e
      proof -
        have "at_time z a 0 \<le> at_time z e 0" using begins [of now] that(2) False s by (simp add: a_def)
        then show ?thesis using c0(2) that(1) False s by (simp add: starts_le)
      qed
      then show thesis using that [of c0 s] cand F c0 aligned by (simp add: clock)
    qed
  qed
qed

lemma outcome_of_local:
  "\<lbrakk>first \<le> day; in_day t\<rbrakk> \<Longrightarrow>
   outcome_instant (local_date_time_to_utc z (day_date (wall_day z (at_time z day t))) t) =
     (if time_exists z day t then Some (at_time z day t) else None)"
  by (simp add: outcome_of_date within)

lemma set_time_start: "\<lbrakk>first \<le> day; in_day q\<rbrakk> \<Longrightarrow> set_time z t (at_time z day q) = at_time z day t"
  by (simp add: set_time_def within)

text \<open>One call of the search, for a schedule whose fields can be read.\<close>

lemma daily_call:
  assumes z: "zones (dy_timezone d) = z"
    and fields: "parse_date_string (dy_start d) = Inr date" "date_day date = Some s"
      "parse_time_string (dy_time d) = Inr t" "end_limit (dy_end d) = Inr limit"
    and t: "in_day t" and exists: "time_exists z s t"
    and c: "daily_candidate z (at_time z s t) (dy_interval d) now = i" "wall_day z i = c" "first \<le> c"
  shows "next_daily zones (Suc fuel) d now delay =
     (if past_limit limit i then Some (Inr (Skipped PastEndDate))
      else if at_time z c t \<le> now then next_daily zones fuel d (at_time z c t + 1) delay
      else if time_exists z c t then Some (Inr (occurs delay (at_time z c t)))
      else next_daily zones fuel d (at_time z c t + 3600000) delay)"
  using t exists c(2,3)
  by (simp add: next_daily.simps(2) z fields ebind_def outcome_of_date [of z date] c(1) set_time_def outcome_of_local)

text \<open>The days that are due do not change when the search goes on after a day that is not.\<close>

lemma due_after_passed:
  assumes s: "first \<le> s" "s \<le> c" and t: "in_day t" and c: "now \<le> at_time z c 0" "at_time z c t \<le> now"
  shows "daily_due z s k t (at_time z c t + 1) e \<longleftrightarrow> daily_due z s k t now e"
proof -
  have n: "at_time z c t = now" "at_time z c 0 = now"
    using not_before [OF _ t, of c] s c by simp_all
  have "now + 1 \<le> at_time z e 0 \<and> now + 1 < at_time z e t"
    if "s \<le> e" "now \<le> at_time z e 0" "now < at_time z e t"
  proof -
    have "e \<noteq> c" using that n by auto
    moreover have "c \<le> e" using that(1,2) n(2) starts_le [of c e] s by simp
    ultimately have "c + 1 \<le> e" by simp
    then have "now + 3600000 < at_time z e 0"
      using long_day [of c] starts_le [of "c + 1" e] n(2) s by simp
    then show ?thesis using not_before [OF _ t, of e] s that(1) by simp
  qed
  then show ?thesis by (auto simp: daily_due_def n)
qed

lemma due_after_gap:
  assumes s: "first \<le> s" "s \<le> c" and t: "in_day t" and k: "1 \<le> k" and c: "k dvd c - s" "now \<le> at_time z c 0"
    and least: "\<And>e. \<lbrakk>s \<le> e; k dvd e - s; now \<le> at_time z e 0\<rbrakk> \<Longrightarrow> c \<le> e"
    and gap: "\<not> time_exists z c t" "wall_day z (at_time z c t + 3600000) = c"
  shows "daily_due z s k t (at_time z c t + 3600000) e \<longleftrightarrow> daily_due z s k t now e"
proof
  assume "daily_due z s k t (at_time z c t + 3600000) e"
  then show "daily_due z s k t now e"
    using c(2) not_before [OF _ t, of c] s by (auto simp: daily_due_def)
next
  assume e: "daily_due z s k t now e"
  then have "s \<le> e" "c \<le> e" "c \<noteq> e" using least gap(1) by (auto simp: daily_due_def)
  then have "at_time z c t + 3600000 < at_time z e 0"
    using start_less [of "at_time z c t + 3600000" e 0] gap(2) s by simp
  then show "daily_due z s k t (at_time z c t + 3600000) e"
    using e not_before [OF _ t, of e] s \<open>s \<le> e\<close> by (auto simp: daily_due_def)
qed

lemma daily_sound:
  assumes z: "zones (dy_timezone d) = z" and first: "first \<le> s" "has_midnight z s"
    and fields: "parse_date_string (dy_start d) = Inr date" "date_day date = Some s"
      "parse_time_string (dy_time d) = Inr t" "end_limit (dy_end d) = Inr limit"
    and t: "in_day t" and exists: "time_exists z s t" and k: "1 \<le> dy_interval d"
    and gaps: "isolated_gaps z s t (dy_interval d)"
  shows "next_daily zones fuel d now delay = Some r \<Longrightarrow> daily_answer z s (dy_interval d) t limit delay now r"
proof (induction fuel arbitrary: now)
  case (Suc fuel)
  let ?k = "dy_interval d"
  obtain c b where c: "daily_candidate z (at_time z s t) ?k now = at_time z c (day_clock z b)" "s \<le> c" "s \<le> b"
    "?k dvd c - s" "now \<le> at_time z c 0" "\<And>e. \<lbrakk>s \<le> e; ?k dvd e - s; now \<le> at_time z e 0\<rbrakk> \<Longrightarrow> c \<le> e"
    using candidate_day [OF first t k] by blast
  have clock: "in_day (day_clock z b)" "first \<le> c" using clock_in_day c first by simp_all
  note call = daily_call [where zones = zones and d = d, OF z fields t exists c(1) within [OF clock(2,1)] clock(2), of fuel delay]
  have due: "c \<le> e" if "daily_due z s ?k t now e" for e
    using that c(6) by (simp add: daily_due_def)
  consider "past_limit limit (at_time z c (day_clock z b))"
    | "\<not> past_limit limit (at_time z c (day_clock z b))" "at_time z c t \<le> now"
    | "\<not> past_limit limit (at_time z c (day_clock z b))" "now < at_time z c t" "time_exists z c t"
    | "\<not> past_limit limit (at_time z c (day_clock z b))" "now < at_time z c t" "\<not> time_exists z c t"
    by linarith
  then show ?case
  proof cases
    case 1
    then show ?thesis using Suc.prems call due c(3) by (auto simp: daily_answer_def)
  next
    case 2
    then show ?thesis
      using Suc.IH [of "at_time z c t + 1"] Suc.prems call due_after_passed [OF first(1) c(2) t c(5) 2(2)]
      by (simp add: daily_answer_def)
  next
    case 3
    then have "daily_due z s ?k t now c" using c by (simp add: daily_due_def)
    moreover have "\<not> past_limit limit (at_time z c 0)"
      using 3(1) not_before [OF clock(2,1)] by (auto simp: past_limit_def split: option.splits)
    ultimately show ?thesis using 3 Suc.prems call due by (auto simp: daily_answer_def)
  next
    case 4
    then have "wall_day z (at_time z c t + 3600000) = c" using gaps c(2) by (simp add: isolated_gaps_def)
    then show ?thesis
      using 4 Suc.IH [of "at_time z c t + 3600000"] Suc.prems call due_after_gap [OF first(1) c(2) t k c(4-6) 4(3)]
      by (simp add: daily_answer_def)
  qed
qed simp

text \<open>How many calls the search takes: one when the time exists, one more after a gap, one more at midnight.\<close>

lemma daily_returns:
  assumes z: "zones (dy_timezone d) = z" and first: "first \<le> s" "has_midnight z s"
    and fields: "parse_date_string (dy_start d) = Inr date" "date_day date = Some s"
      "parse_time_string (dy_time d) = Inr t" "end_limit (dy_end d) = Inr limit"
    and t: "in_day t" and exists: "time_exists z s t" and k: "1 \<le> dy_interval d"
    and gaps: "isolated_gaps z s t (dy_interval d)"
  shows "\<exists>r. next_daily zones (Suc (Suc (Suc fuel))) d now delay = Some r"
proof -
  let ?k = "dy_interval d"
  let ?least = "\<lambda>now c. (\<exists>i. daily_candidate z (at_time z s t) ?k now = i \<and> wall_day z i = c) \<and> s \<le> c \<and> ?k dvd c - s \<and>
    now \<le> at_time z c 0 \<and> (\<forall>e. s \<le> e \<longrightarrow> ?k dvd e - s \<longrightarrow> now \<le> at_time z e 0 \<longrightarrow> c \<le> e)"
  have cand: "\<exists>c. ?least now c" for now
  proof -
    obtain c b where c: "daily_candidate z (at_time z s t) ?k now = at_time z c (day_clock z b)" "s \<le> c" "s \<le> b"
      "?k dvd c - s" "now \<le> at_time z c 0" "\<And>e. \<lbrakk>s \<le> e; ?k dvd e - s; now \<le> at_time z e 0\<rbrakk> \<Longrightarrow> c \<le> e"
      using candidate_day [OF first t k] by blast
    then have "wall_day z (at_time z c (day_clock z b)) = c" using within clock_in_day first(1) by simp
    with c show ?thesis by blast
  qed
  have call: "\<exists>i. next_daily zones (Suc fuel) d now delay =
     (if past_limit limit i then Some (Inr (Skipped PastEndDate))
      else if at_time z c t \<le> now then next_daily zones fuel d (at_time z c t + 1) delay
      else if time_exists z c t then Some (Inr (occurs delay (at_time z c t)))
      else next_daily zones fuel d (at_time z c t + 3600000) delay)" if "?least now c" for now c fuel
    using daily_call [where zones = zones and d = d, OF z fields t exists, of now _ c fuel delay] that first(1)
    by auto
  have after_gap: "\<exists>r. next_daily zones (Suc fuel) d (at_time z c t + 3600000) delay = Some r"
    if c: "?least now c" and gap: "\<not> time_exists z c t" for now c fuel
  proof -
    let ?now = "at_time z c t + 3600000"
    have s: "s \<le> c" "first \<le> c" using c first(1) by simp_all
    have w: "wall_day z ?now = c" and e: "time_exists z (c + ?k) t"
      using gaps gap s(1) by (simp_all add: isolated_gaps_def)
    obtain c' where c': "?least ?now c'" using cand by blast
    have "?now \<le> at_time z (c + ?k) 0" using start_less [of ?now "c + ?k" 0] w k s by simp
    moreover have "s \<le> c + ?k" "?k dvd c + ?k - s"
      using c k dvd_add [of ?k "c - s" ?k] by (auto simp: algebra_simps)
    ultimately have le: "c' \<le> c + ?k" using c' by blast
    have "at_time z c 0 \<le> at_time z c t" by (rule not_before [OF s(2) t])
    then have "\<not> at_time z c' 0 \<le> at_time z c 0" using c' by simp
    then have less: "c < c'" using s(2) c' first(1) by (simp add: starts_le)
    have "?k dvd c' - c" using dvd_diff [of ?k "c' - s" "c - s"] c c' by simp
    then have "c' = c + ?k" using zdvd_imp_le [of ?k "c' - c"] less le by simp
    moreover have "?now < at_time z c' t" using start_less [of ?now c' t] w less t s by simp
    ultimately show ?thesis using call [OF c', of fuel] e by auto
  qed
  have later: "\<exists>r. next_daily zones (Suc (Suc fuel)) d now delay = Some r"
    if c: "?least now c" and "now < at_time z c t" for now c fuel
    using call [OF c, of "Suc fuel"] after_gap [OF c] that(2) by auto
  obtain c where c: "?least now c" using cand by blast
  then have s: "first \<le> c" using first(1) by simp
  show ?thesis
  proof (cases "at_time z c t \<le> now")
    case True
    then have n: "at_time z c t = now" "at_time z c 0 = now"
      using c not_before [OF s t] by simp_all
    obtain c' where c': "?least (now + 1) c'" using cand by blast
    then have "\<not> at_time z c' 0 \<le> at_time z c 0" and s': "first \<le> c'" using n first(1) by simp_all
    then have "c + 1 \<le> c'" using s by (simp add: starts_le)
    then have "now + 3600000 < at_time z c' 0"
      using long_day [OF s] starts_le [of "c + 1" c'] n(2) s s' by simp
    then have "now + 1 < at_time z c' t" using not_before [OF s' t] by simp
    from later [OF c' this] obtain r where "next_daily zones (Suc (Suc fuel)) d (now + 1) delay = Some r" by blast
    then show ?thesis using call [OF c, of "Suc (Suc fuel)"] True n by auto
  next
    case False
    then show ?thesis
      using call [OF c, of "Suc (Suc fuel)"] after_gap [OF c] by auto
  qed
qed

lemma daily_call_gap:
  assumes z: "zones (dy_timezone d) = z" and first: "first \<le> s"
    and fields: "parse_date_string (dy_start d) = Inr date" "date_day date = Some s"
      "parse_time_string (dy_time d) = Inr t" "end_limit (dy_end d) = Inr limit"
    and gap: "\<not> time_exists z s t"
  shows "next_daily zones (Suc fuel) d now delay =
    next_daily zones fuel (d\<lparr>dy_start := format_local_date (Some (day_date (s + 1)))\<rparr>) now delay"
  using gap first
  by (simp add: next_daily.simps(2) z fields outcome_of_date [of z date] advance_local_date_def plus_day within)

text \<open>
  The candidate of a schedule whose first day has no midnight: on a later aligned day that begins
  before the clock of the first day, the whole days that fit are one too few, and the candidate
  is that very day whatever the time.
\<close>

lemma candidate_without_midnight:
  assumes s: "first \<le> s" and t: "in_day t" and k: "1 \<le> k"
    and day: "wall_day z now = day" "s < day" "k dvd day - s" "at_time z day 0 < at_time z day (day_clock z s)"
  shows "wall_day z (daily_candidate z (at_time z s t) k now) = day"
proof -
  let ?c = "plus_days z (day - s - k) (at_time z s 0)"
  have le: "k \<le> day - s" using zdvd_imp_le [OF day(3)] day(2) by simp
  have anchor: "start_of_day z (at_time z s t) = at_time z s 0"
    by (simp add: start_of_day_def within s t)
  have sod: "start_of_day z now = at_time z day 0" by (simp add: start_of_day_def day(1))
  have since: "day - s - 1 - (day - s - 1) mod k = day - s - k"
    using mod_before_multiple [OF k day(3)] by simp
  have c: "wall_day z ?c = day - k" using plus_day [of "at_time z s 0" "day - s - k"] s le by (simp add: within)
  then have "?c < now" using ordered [of now ?c] day(1) s le k by simp
  then have "daily_candidate z (at_time z s t) k now = plus_days z k ?c"
    using day s starts_less [of s day] sod by (simp add: daily_candidate_def Let_def anchor between_starts since)
  then show ?thesis using plus_day [of ?c k] c s day(2) by simp
qed

end

lemma next_day_fields:
  assumes "date_day (y, m, d) = Some s" "0 \<le> y"
  obtains y' m' d' where "day_date (s + 1) = (y', m', d')" "0 \<le> y'" "0 \<le> m'" "0 \<le> d'"
proof -
  obtain y' m' d' where c: "civil_of_day (s + 1) = (y', m', d')" by (metis prod_cases3)
  from assms have "valid_civil y (m - 1) d" "s = make_day y (m - 1) d"
    by (auto simp: date_day_def split: if_splits)
  then have "year_of_day s = y" using civil_of_make_day [of y "m - 1" d]
    by (auto simp: civil_of_day_def Let_def split: prod.splits)
  then have "day_from_year y \<le> s" using year_of_day_spec [of s] by simp
  moreover have "year_of_day (s + 1) = y'" using c by (simp add: civil_of_day_def Let_def split: prod.splits)
  then have "s + 1 < day_from_year (y' + 1)" using year_of_day_spec [of "s + 1"] by simp
  ultimately have "\<not> y' + 1 \<le> y" using day_from_year_mono [of "y' + 1" y] by fastforce
  with assms(2) have "0 \<le> y'" by simp
  moreover have "0 \<le> m'" "0 \<le> d'"
    using civil_of_day_valid [of "s + 1"] c by (auto simp: valid_civil_def)
  ultimately show thesis using that [of y' "m' + 1" d'] c by (simp add: day_date_def)
qed

section \<open>What the schema guarantees\<close>

lemma string_where_Some: "string_where p v = Some s \<longleftrightarrow> v = JString s \<and> p s"
  by (cases v) auto

lemma int_between_Some: "int_between lo hi v = Some n \<Longrightarrow> lo \<le> n \<and> n \<le> hi"
  by (cases v) (auto split: if_splits)

lemmas schema_simps = string_where_Some bind_eq_Some_conv optional_member_def default_member_def

definition end_read :: "string option \<Rightarrow> bool" where
  "end_read e \<longleftrightarrow> (\<exists>limit. end_limit e = Inr limit)"

lemma end_limit_read: "(\<And>s. e = Some s \<Longrightarrow> local_date_ok s) \<Longrightarrow> end_read e"
  using local_date_read by (fastforce simp: end_read_def end_limit_def split: option.splits)

lemma parsed_daily:
  assumes "parse_schedule known v = Some (Daily d)"
  shows "local_date_ok (dy_start d)" "local_time_ok (dy_time d)" "1 \<le> dy_interval d" "end_read (dy_end d)"
proof -
  from assms obtain kvs where "parse_daily known kvs = Some d"
    by (auto simp: parse_schedule_def split: json.splits if_splits)
  then have "local_date_ok (dy_start d) \<and> local_time_ok (dy_time d) \<and> 1 \<le> dy_interval d \<and>
      (\<forall>s. dy_end d = Some s \<longrightarrow> local_date_ok s)"
    by (auto simp: parse_daily_def schema_simps dest: int_between_Some split: if_splits)
  then show "local_date_ok (dy_start d)" "local_time_ok (dy_time d)" "1 \<le> dy_interval d" "end_read (dy_end d)"
    using end_limit_read [of "dy_end d"] by auto
qed

lemma parse_list_all: "parse_list p xs = Some ys \<Longrightarrow> (\<And>x y. p x = Some y \<Longrightarrow> Q y) \<Longrightarrow> list_all Q ys"
  by (induction xs arbitrary: ys) (auto simp: bind_eq_Some_conv)

lemma parsed_weekly:
  assumes "parse_schedule known v = Some (Weekly d)"
  shows "local_date_ok (wk_start d)" "local_time_ok (wk_time d)" "1 \<le> wk_interval d" "end_read (wk_end d)"
    "wk_weekdays d \<noteq> []" "set (wk_weekdays d) \<subseteq> {1..7}" "sorted (wk_weekdays d)"
proof -
  from assms obtain kvs where p: "parse_weekly known kvs = Some d"
    by (auto simp: parse_schedule_def split: json.splits if_splits)
  then show a: "local_date_ok (wk_start d)" "local_time_ok (wk_time d)" "1 \<le> wk_interval d" "wk_weekdays d \<noteq> []"
    by (auto simp: parse_weekly_def schema_simps dest: int_between_Some split: if_splits)
  from p have "\<forall>s. wk_end d = Some s \<longrightarrow> local_date_ok s"
    by (auto simp: parse_weekly_def schema_simps split: if_splits)
  then show "end_read (wk_end d)" using end_limit_read [of "wk_end d"] by blast
  from p obtain ws where w: "wk_weekdays d = normal_weekdays ws"
    "default_member [1] (array_of (int_between 1 7)) (member ''weekdays'' kvs) = Some ws"
    by (auto simp: parse_weekly_def bind_eq_Some_conv split: if_splits)
  have "list_all (\<lambda>n. 1 \<le> n \<and> n \<le> 7) ws"
  proof (cases "member ''weekdays'' kvs")
    case (JArray vs)
    with w(2) have "parse_list (int_between 1 7) vs = Some ws" by (simp add: default_member_def)
    then show ?thesis by (rule parse_list_all) (rule int_between_Some)
  qed (use w(2) in \<open>auto simp: default_member_def\<close>)
  then show "set (wk_weekdays d) \<subseteq> {1..7}" "sorted (wk_weekdays d)"
    by (auto simp: w(1) normal_weekdays_def list_all_iff)
qed

lemma parsed_day: "parse_date_string s = Inr date \<Longrightarrow> start_day s = Some day \<longleftrightarrow> date_day date = Some day"
  by (simp add: start_day_def)

section \<open>Daily schedules\<close>

lemma civil_zones [simp]:
  "civil_zone (fixed_zone off) first" "civil_zone new_york first" "civil_zone cairo first"
  by (rule fixed.civil_zone_axioms new_york.civil_zone_axioms cairo.civil_zone_axioms)+

lemma daily_search:
  assumes z: "civil_zone (zones (dy_timezone d)) s" and parsed: "parse_schedule known v = Some (Daily d)"
    and s: "start_day (dy_start d) = Some s" and t: "parse_time_string (dy_time d) = Inr t"
    and limit: "end_limit (dy_end d) = Inr limit"
    and midnight: "has_midnight (zones (dy_timezone d)) (first_start (zones (dy_timezone d)) t s)"
    and gaps: "isolated_gaps (zones (dy_timezone d)) s t (dy_interval d)"
  shows "\<exists>r. next_daily zones 4 d now delay = Some r \<and>
    daily_answer (zones (dy_timezone d)) (first_start (zones (dy_timezone d)) t s) (dy_interval d) t limit delay now r"
proof -
  let ?z = "zones (dy_timezone d)"
  from local_date_read [OF parsed_daily(1) [OF parsed]] obtain y m k
    where date: "parse_date_string (dy_start d) = Inr (y, m, k)" "0 \<le> y" by blast
  with s have day: "date_day (y, m, k) = Some s" by (simp add: start_day_def)
  from local_time_read [OF parsed_daily(2) [OF parsed]] t have in_day: "in_day t" by auto
  note interval = parsed_daily(3) [OF parsed]
  have found: "\<exists>r. next_daily zones (Suc (Suc (Suc fuel))) x now delay = Some r \<and>
      daily_answer ?z s' (dy_interval d) t limit delay now r"
    if "dy_timezone x = dy_timezone d" "parse_date_string (dy_start x) = Inr date" "date_day date = Some s'"
      "dy_time x = dy_time d" "dy_end x = dy_end d" "dy_interval x = dy_interval d" "time_exists ?z s' t"
      "s \<le> s'" "has_midnight ?z s'"
    for x date s' fuel
  proof -
    have x: "zones (dy_timezone x) = ?z" "parse_time_string (dy_time x) = Inr t" "end_limit (dy_end x) = Inr limit"
      "1 \<le> dy_interval x" "isolated_gaps ?z s' t (dy_interval x)"
      using that t limit interval gaps by (simp_all add: isolated_gaps_def)
    from civil_zone.daily_returns [where zones = zones and d = x, OF z x(1) that(8,9,2,3) x(2,3) in_day that(7) x(4,5)]
    obtain r where r: "next_daily zones (Suc (Suc (Suc fuel))) x now delay = Some r" by blast
    with civil_zone.daily_sound [where zones = zones and d = x, OF z x(1) that(8,9,2,3) x(2,3) in_day that(7) x(4,5) r]
    show ?thesis using that(6) by simp
  qed
  have four: "4 = Suc (Suc (Suc (Suc 0)))" by simp
  show ?thesis
  proof (cases "time_exists ?z s t")
    case True
    then show ?thesis unfolding four using found [of d "(y, m, k)" s "Suc 0"] date day midnight by (simp add: first_start_def)
  next
    case False
    then have exists: "time_exists ?z (s + 1) t" using gaps by (simp add: isolated_gaps_def)
    obtain y' m' k' where n: "day_date (s + 1) = (y', m', k')" "0 \<le> y'" "0 \<le> m'" "0 \<le> k'"
      using next_day_fields [OF day date(2)] .
    let ?x = "d\<lparr>dy_start := format_local_date (Some (day_date (s + 1)))\<rparr>"
    have "parse_date_string (dy_start ?x) = Inr (day_date (s + 1))"
      using n by (simp add: parse_formatted_date del: format_local_date.simps)
    then have "\<exists>r. next_daily zones (Suc (Suc (Suc 0))) ?x now delay = Some r \<and>
        daily_answer ?z (s + 1) (dy_interval d) t limit delay now r"
      using found [of ?x "day_date (s + 1)" "s + 1" 0] exists midnight False by (simp add: first_start_def)
    moreover have "next_daily zones 4 d now delay = next_daily zones (Suc (Suc (Suc 0))) ?x now delay"
      unfolding four using civil_zone.daily_call_gap [where zones = zones and d = d, OF z refl order_refl date(1) day t limit False] .
    ultimately show ?thesis using False by (simp add: first_start_def)
  qed
qed

text \<open>
  C26: a daily schedule the schema accepted gets an answer from the search, within four
  calls: the occurrence is the first aligned day from the start that begins when the search does or
  later and has the time, or there is none because the limit is passed on every such day. The zone
  keeps the laws of \<open>civil_zone\<close> from the start day on, which is a day of the calendar; the day
  the alignment starts with has a midnight, which later days need not have; and the time may be
  missing on some days (the clocks go forward), no two of them a day or an interval apart. Where it
  is missing on the start day the alignment starts the day after.
\<close>

theorem daily_occurrence_is_next:
  "\<lbrakk>civil_zone (zones (dy_timezone d)) s; parse_schedule known v = Some (Daily d);
    start_day (dy_start d) = Some s; parse_time_string (dy_time d) = Inr t; end_limit (dy_end d) = Inr limit;
    has_midnight (zones (dy_timezone d)) (first_start (zones (dy_timezone d)) t s);
    isolated_gaps (zones (dy_timezone d)) s t (dy_interval d)\<rbrakk> \<Longrightarrow>
   \<exists>r. next_daily zones 4 d now delay = Some r \<and>
     daily_answer (zones (dy_timezone d)) (first_start (zones (dy_timezone d)) t s) (dy_interval d) t limit delay now r"
  by (rule daily_search)

text \<open>A day in New York: 02:30 every day from 10 March 2024, the day that has no such time.\<close>

definition early_submission :: json where
  "early_submission = JObject
     [(''schemaVersion'', JNumber 1), (''type'', JString ''daily''), (''timezone'', JString ''America/New_York''),
      (''startDate'', JString ''2024-03-10''), (''time'', JString ''02:30'')]"

definition early_schedule :: daily_schedule where
  "early_schedule =
     \<lparr>dy_timezone = ''America/New_York'', dy_start = ''2024-03-10'', dy_end = None, dy_time = ''02:30'', dy_interval = 1\<rparr>"

lemma early_facts:
  "parse_schedule (\<lambda>s. s = ''America/New_York'') early_submission = Some (Daily early_schedule)"
  "start_day (dy_start early_schedule) = Some 19792"
  "parse_time_string (dy_time early_schedule) = Inr 9000000"
  "end_limit (dy_end early_schedule) = Inr None"
  by code_simp+

lemma early_gap: "time_exists new_york day 9000000 \<longleftrightarrow> day \<noteq> 19792"
  by (auto simp: time_exists_def same_minute_def wall_def at_time_def new_york_def advancing_zone_def day_ms_def)

lemma early_gaps: "isolated_gaps new_york s 9000000 1"
  by (simp add: isolated_gaps_def early_gap)
    (simp add: wall_day_def wall_def at_time_def new_york_def advancing_zone_def day_ms_def)

theorem daily_occurrence_is_next_witness:
  "\<exists>r. next_daily (\<lambda>_. new_york) 4 early_schedule 1700000000000 300 = Some r \<and>
     daily_answer new_york 19793 1 9000000 None 300 1700000000000 r"
  using daily_occurrence_is_next [of "\<lambda>_. new_york" early_schedule, OF _ early_facts, of 1700000000000 300] early_gaps
  by (simp add: early_gap first_start_def early_schedule_def new_york_midnight)

text \<open>
  C27: a daily schedule without an end date has a next occurrence, later than the instant the
  search starts from, and the search finds it within four calls: where its start day is a day of the
  calendar and the zone keeps the laws of \<open>civil_zone\<close> from it on, the day the alignment starts
  with has a midnight (later days need not), and the time is missing on no two days a day or an
  interval apart.
\<close>

theorem endless_daily_schedule_fires:
  "\<lbrakk>civil_zone (zones (dy_timezone d)) s; parse_schedule known v = Some (Daily d); dy_end d = None;
    start_day (dy_start d) = Some s; parse_time_string (dy_time d) = Inr t;
    has_midnight (zones (dy_timezone d)) (first_start (zones (dy_timezone d)) t s);
    isolated_gaps (zones (dy_timezone d)) s t (dy_interval d)\<rbrakk> \<Longrightarrow>
   \<exists>i. now < i \<and> next_daily zones 4 d now delay = Some (Inr (Occurs i (i + delay * 1000)))"
  using daily_search [of zones d s known v t None now delay]
  by (auto simp: end_limit_def daily_answer_def past_limit_def occurs_def daily_due_def)

theorem endless_daily_schedule_fires_witness:
  "\<exists>i. 1700000000000 < i \<and>
     next_daily (\<lambda>_. new_york) 4 early_schedule 1700000000000 300 = Some (Inr (Occurs i (i + 300 * 1000)))"
  using endless_daily_schedule_fires [of "\<lambda>_. new_york" early_schedule, OF _ early_facts(1) _ early_facts(2,3), of 1700000000000 300]
    early_gaps new_york_midnight
  by (simp add: early_schedule_def)

text \<open>
  C28: the search of a schedule whose alignment starts with a midnight never answers with a day
  that has begun. A day whose time is still ahead but whose first instant has passed is not an
  occurrence, although the schedule fires on that day. The zone keeps the laws of
  \<open>civil_zone\<close> from the start day on, and the time is missing on no two days a day or an interval
  apart; without the midnight the search does answer with such a day.
\<close>

theorem firing_later_today_is_skipped:
  "\<lbrakk>civil_zone (zones (dy_timezone d)) s; parse_schedule known v = Some (Daily d);
    start_day (dy_start d) = Some s; parse_time_string (dy_time d) = Inr t; end_limit (dy_end d) = Inr limit;
    has_midnight (zones (dy_timezone d)) (first_start (zones (dy_timezone d)) t s);
    isolated_gaps (zones (dy_timezone d)) s t (dy_interval d);
    s \<le> today; at_time (zones (dy_timezone d)) today 0 < now\<rbrakk> \<Longrightarrow>
   next_daily zones 4 d now delay \<noteq> Some (Inr (occurs delay (at_time (zones (dy_timezone d)) today t)))"
proof
  let ?z = "zones (dy_timezone d)"
  assume z: "civil_zone ?z s" and parsed: "parse_schedule known v = Some (Daily d)"
    and facts: "start_day (dy_start d) = Some s" "parse_time_string (dy_time d) = Inr t"
      "end_limit (dy_end d) = Inr limit" "has_midnight ?z (first_start ?z t s)" "isolated_gaps ?z s t (dy_interval d)"
      "s \<le> today" "at_time ?z today 0 < now"
    and r: "next_daily zones 4 d now delay = Some (Inr (occurs delay (at_time ?z today t)))"
  from local_time_read [OF parsed_daily(2) [OF parsed]] facts(2) have t: "in_day t" by auto
  from daily_search [where zones = zones and d = d and now = now and delay = delay, OF z parsed facts(1-5)] r obtain day
    where day: "at_time ?z day t = at_time ?z today t" "now \<le> at_time ?z day 0" "s \<le> day"
    by (auto simp: daily_answer_def occurs_def daily_due_def first_start_def split: if_splits)
  then have "day = today" using civil_zone.within [OF z _ t] facts(6) by metis
  with day(2) facts(7) show False by simp
qed

text \<open>09:00 UTC every day, seen from 08:00.\<close>

definition office_submission :: json where
  "office_submission = JObject
     [(''schemaVersion'', JNumber 1), (''type'', JString ''daily''), (''timezone'', JString ''UTC''),
      (''startDate'', JString ''2024-01-01''), (''time'', JString ''09:00''), (''intervalDays'', JNumber 1)]"

definition office_schedule :: daily_schedule where
  "office_schedule =
     \<lparr>dy_timezone = ''UTC'', dy_start = ''2024-01-01'', dy_end = None, dy_time = ''09:00'', dy_interval = 1\<rparr>"

lemma office_facts:
  "parse_schedule (\<lambda>s. s = ''UTC'') office_submission = Some (Daily office_schedule)"
  "start_day (dy_start office_schedule) = Some 19723"
  "parse_time_string (dy_time office_schedule) = Inr 32400000"
  "end_limit (dy_end office_schedule) = Inr None"
  by code_simp+

lemma fixed_time_exists: "time_exists (fixed_zone off) day t"
  by (simp add: time_exists_def same_minute_def wall_def at_time_def fixed_zone_def)

lemma fixed_no_gaps: "isolated_gaps (fixed_zone off) s t k"
  by (simp add: isolated_gaps_def fixed_time_exists)

theorem firing_later_today_is_skipped_witness:
  "next_daily (\<lambda>_. utc) 4 office_schedule 1718438400000 300 \<noteq> Some (Inr (occurs 300 1718442000000)) \<and>
   next_daily (\<lambda>_. utc) 4 office_schedule 1718438400000 300 = Some (Inr (occurs 300 1718528400000))"
proof
  show "next_daily (\<lambda>_. utc) 4 office_schedule 1718438400000 300 = Some (Inr (occurs 300 1718528400000))"
    by code_simp
  have "at_time utc 19889 0 < 1718438400000" "at_time utc 19889 32400000 = 1718442000000"
    by (simp_all add: at_time_def fixed_zone_def day_ms_def)
  then show "next_daily (\<lambda>_. utc) 4 office_schedule 1718438400000 300 \<noteq> Some (Inr (occurs 300 1718442000000))"
    using firing_later_today_is_skipped [of "\<lambda>_. utc" office_schedule, OF _ office_facts, of 19889 1718438400000 300]
      fixed_no_gaps fixed_midnight by simp
qed







end
