(* ===== verification/Schedule_Weekly.thy ===== *)
theory Schedule_Weekly
  imports Schedule_Correctness
begin

text \<open>
  Weekly schedules (nextWeeklyOccurrence of packages/workflow-scheduling) and any sequence of
  occurrences: in a zone with the laws of \<open>civil_zone\<close> from the Monday of the start's week on, a
  weekly schedule fires next at the first later instant of a selected weekday in an aligned week, as
  far as its 156 weeks of search reach, on days with a midnight and without; the occurrences of a
  schedule follow each other in time; and nothing fires after the midnight of UTC that begins the
  end date.
\<close>

section \<open>What a weekly schedule promises\<close>

definition weekly_due :: "zone \<Rightarrow> int \<Rightarrow> int \<Rightarrow> int set \<Rightarrow> int \<Rightarrow> int \<Rightarrow> int \<Rightarrow> bool" where
  "weekly_due z s k wds t now day \<longleftrightarrow>
     s \<le> day \<and> iso_weekday day \<in> wds \<and> 7 * k dvd monday_of day - monday_of s \<and>
     now < at_time z day t \<and> time_exists z day t"

text \<open>
  A right answer: the first day that is due, when its occurrence is within the limit; otherwise
  every day that is due is past the limit or beyond the horizon.
\<close>

definition weekly_answer :: "zone \<Rightarrow> int \<Rightarrow> int \<Rightarrow> int set \<Rightarrow> int \<Rightarrow> int option \<Rightarrow> int \<Rightarrow> int \<Rightarrow> int \<Rightarrow> occurrence \<Rightarrow> bool" where
  "weekly_answer z s k wds t limit delay now horizon r \<longleftrightarrow>
     (\<exists>day. r = occurs delay (at_time z day t) \<and> weekly_due z s k wds t now day \<and>
        (\<forall>e. weekly_due z s k wds t now e \<longrightarrow> day \<le> e) \<and> \<not> past_limit limit (at_time z day t)) \<or>
     r = Skipped PastEndDate \<and>
       ((\<exists>day. past_limit limit (at_time z day t) \<and> (\<forall>e. weekly_due z s k wds t now e \<longrightarrow> day \<le> e)) \<or>
        (\<forall>e. weekly_due z s k wds t now e \<longrightarrow> horizon \<le> e))"

text \<open>
  The day up to which the search is known to have looked: 155 intervals on, and one fewer where the
  Monday of the start's week has no midnight.
\<close>

definition search_horizon :: "zone \<Rightarrow> int \<Rightarrow> int \<Rightarrow> int \<Rightarrow> int" where
  "search_horizon z s k now =
     max s (wall_day z now) + 7 * k * (if has_midnight z (monday_of s) then 155 else 154)"

section \<open>Weeks\<close>

lemma monday_props:
  "monday_of d \<le> d" "d < monday_of d + 7" "monday_of (monday_of d) = monday_of d"
  "1 \<le> iso_weekday d" "iso_weekday d \<le> 7" "d = monday_of d + iso_weekday d - 1" "7 dvd monday_of d - monday_of e"
  unfolding monday_of_def iso_weekday_def by presburger+

lemma in_week:
  assumes "monday_of m = m" "1 \<le> w" "w \<le> 7"
  shows "iso_weekday (m + w - 1) = w" "monday_of (m + w - 1) = m"
  using assms unfolding monday_of_def iso_weekday_def by presburger+

lemma monday_shift: "monday_of m = m \<Longrightarrow> monday_of (m + 7 * k) = m + 7 * k"
  unfolding monday_of_def iso_weekday_def by presburger

context civil_zone
begin

lemma before_start_iff:
  assumes f: "first \<le> s" "first \<le> day" and t: "in_day t"
  shows "at_time z day t < at_time z s 0 \<longleftrightarrow> day < s"
proof
  assume l: "at_time z day t < at_time z s 0"
  from not_before [OF f(2) t] l have "\<not> at_time z s 0 \<le> at_time z day 0" by simp
  then show "day < s" using f by (simp add: starts_le)
next
  assume "day < s"
  then show "at_time z day t < at_time z s 0" using start_less [of "at_time z day t" s 0] f t by (simp add: within)
qed

lemma weekday_candidate:
  "\<lbrakk>wall_day z week = m; monday_of m = m\<rbrakk> \<Longrightarrow> set_weekday_time z wd t week = at_time z (m + wd - 1) t"
  by (simp add: set_weekday_time_def)

text \<open>The days one week holds: those before the start, those not later than \<open>now\<close> and those without the time are passed.\<close>

abbreviation open_day :: "int \<Rightarrow> int \<Rightarrow> int \<Rightarrow> int \<Rightarrow> bool" where
  "open_day s t now e \<equiv> s \<le> e \<and> now < at_time z e t \<and> time_exists z e t"

lemma scan_weekdays_sound:
  assumes t: "in_day t" and m: "wall_day z week = m" "monday_of m = m" "first \<le> m" and s: "first \<le> s"
  shows "\<lbrakk>sorted wds; set wds \<subseteq> {1..7}\<rbrakk> \<Longrightarrow>
    (case scan_weekdays z t (at_time z s 0) limit now delay week wds of
       None \<Rightarrow> \<forall>w\<in>set wds. \<not> open_day s t now (m + w - 1)
     | Some r \<Rightarrow>
         \<exists>w\<in>set wds. (\<forall>w'\<in>set wds. open_day s t now (m + w' - 1) \<longrightarrow> w \<le> w') \<and>
           (r = occurs delay (at_time z (m + w - 1) t) \<and> open_day s t now (m + w - 1) \<and>
              \<not> past_limit limit (at_time z (m + w - 1) t) \<or>
            r = Skipped PastEndDate \<and> past_limit limit (at_time z (m + w - 1) t)))"
proof (induction wds)
  case (Cons w wds)
  have f: "first \<le> m + w - 1" using Cons.prems(2) m(3) by simp
  note step = weekday_candidate [OF m(1,2), of w t] before_start_iff [OF s f t] outcome_of_local [OF f t]
  have tail: "w \<le> w'" if "w' \<in> set wds" for w' using Cons.prems that by simp
  have rest: ?case if "scan_weekdays z t (at_time z s 0) limit now delay week (w # wds) =
      scan_weekdays z t (at_time z s 0) limit now delay week wds" "\<not> open_day s t now (m + w - 1)"
    unfolding that(1) using Cons.IH Cons.prems that(2)
    by (auto split: option.splits)
  consider "m + w - 1 < s" | "s \<le> m + w - 1" "past_limit limit (at_time z (m + w - 1) t)"
    | "s \<le> m + w - 1" "\<not> past_limit limit (at_time z (m + w - 1) t)" "at_time z (m + w - 1) t \<le> now"
    | "s \<le> m + w - 1" "\<not> past_limit limit (at_time z (m + w - 1) t)" "now < at_time z (m + w - 1) t"
      "\<not> time_exists z (m + w - 1) t"
    | "s \<le> m + w - 1" "\<not> past_limit limit (at_time z (m + w - 1) t)" "now < at_time z (m + w - 1) t"
      "time_exists z (m + w - 1) t"
    by linarith
  then show ?case
  proof cases
    case 1
    then show ?thesis by (intro rest) (simp_all add: step Let_def)
  next
    case 2
    then show ?thesis using tail by (auto simp: step Let_def)
  next
    case 3
    then show ?thesis by (intro rest) (simp_all add: step Let_def)
  next
    case 4
    then show ?thesis by (intro rest) (simp_all add: step Let_def)
  next
    case 5
    then show ?thesis using tail by (auto simp: step Let_def)
  qed
qed simp

lemma due_week:
  assumes due: "weekly_due z s k wds t now e" and k: "1 \<le> k" and m: "monday_of m = m" "7 * k dvd m - monday_of s" "m \<le> e"
  shows "e = m + iso_weekday e - 1 \<or> m + 7 * k \<le> e"
proof -
  have le: "m \<le> monday_of e" using m(1,3) unfolding monday_of_def iso_weekday_def by presburger
  from due have "7 * k dvd monday_of e - monday_of s" by (simp add: weekly_due_def)
  from dvd_diff [OF this m(2)] have "7 * k dvd monday_of e - m" by simp
  then have "monday_of e = m \<or> 7 * k \<le> monday_of e - m"
    using le zdvd_imp_le [of "7 * k" "monday_of e - m"] by fastforce
  then show ?thesis using monday_props [of e] by auto
qed

lemma scan_weeks_sound:
  assumes t: "in_day t" and k: "1 \<le> k" and wds: "sorted wds" "set wds \<subseteq> {1..7}" and s: "first \<le> s"
  shows "\<lbrakk>wall_day z week = m; monday_of m = m; first \<le> m; 7 * k dvd m - monday_of s;
      \<And>e. weekly_due z s k (set wds) t now e \<Longrightarrow> m \<le> e\<rbrakk> \<Longrightarrow>
    weekly_answer z s k (set wds) t limit delay now (m + 7 * k * int n)
      (scan_weeks z t (at_time z s 0) limit now delay wds k n week)"
proof (induction n arbitrary: m week)
  case 0
  then show ?case by (simp add: weekly_answer_def)
next
  case (Suc n)
  let ?due = "weekly_due z s k (set wds) t now"
  let ?scan = "scan_weekdays z t (at_time z s 0) limit now delay week wds"
  note week = scan_weekdays_sound [where limit = limit and now = now and delay = delay, OF t Suc.prems(1-3) s wds]
  have here: "?due e \<longleftrightarrow> open_day s t now e" if "e = m + w - 1" "w \<in> set wds" for e w
    using in_week [OF Suc.prems(2), of w] that wds(2) Suc.prems(4) by (auto simp: weekly_due_def)
  have cases: "(\<exists>w\<in>set wds. e = m + w - 1) \<or> m + 7 * k \<le> e" if "?due e" for e
    using due_week [OF that k Suc.prems(2,4) Suc.prems(5) [OF that]] that by (auto simp: weekly_due_def)
  show ?case
  proof (cases ?scan)
    case None
    have later: "m + 7 * k \<le> e" if "?due e" for e
      using cases [OF that] week here that by (auto simp: None)
    have "7 * k dvd m + 7 * k - monday_of s"
      using dvd_add [OF Suc.prems(4) dvd_refl [of "7 * k"]] by (simp add: algebra_simps)
    moreover have "wall_day z (plus_days z (7 * k) week) = m + 7 * k" "first \<le> m + 7 * k"
      using plus_day [of week "7 * k"] Suc.prems(1,3) k by simp_all
    ultimately show ?thesis
      using Suc.IH [of "plus_days z (7 * k) week" "m + 7 * k"] monday_shift [OF Suc.prems(2)] later
      by (simp add: None algebra_simps)
  next
    case (Some r)
    with week obtain w where w: "w \<in> set wds" "\<forall>w'\<in>set wds. open_day s t now (m + w' - 1) \<longrightarrow> w \<le> w'"
      "r = occurs delay (at_time z (m + w - 1) t) \<and> open_day s t now (m + w - 1) \<and>
         \<not> past_limit limit (at_time z (m + w - 1) t) \<or>
       r = Skipped PastEndDate \<and> past_limit limit (at_time z (m + w - 1) t)"
      by auto
    have "w \<le> 7 * k" using w(1) wds(2) k by fastforce
    then have least: "m + w - 1 \<le> e" if "?due e" for e
      using cases [OF that] w(2) here that by fastforce
    show ?thesis using w(3) here [OF refl w(1)] least by (auto simp: Some weekly_answer_def)
  qed
qed

text \<open>
  The week the search begins with: aligned, and no due day lies before it. Where the Monday of the
  start's week has no midnight, it may be one interval earlier than it needs to be.
\<close>

abbreviation lag :: "int \<Rightarrow> int" where
  "lag s \<equiv> if has_midnight z (monday_of s) then 1 else 2"

lemma first_week_monday:
  assumes t: "in_day t" and k: "1 \<le> k" and s: "first \<le> monday_of s"
  obtains m where "wall_day z (first_week z (at_time z s 0) k now) = m" "monday_of m = m" "first \<le> m"
    "7 * k dvd m - monday_of s" "\<And>wds e. weekly_due z s k wds t now e \<Longrightarrow> m \<le> e"
    "max s (wall_day z now) < m + 7 * k * lag s" "m \<le> max s (wall_day z now)"
proof -
  define q where "q = max s (wall_day z now)"
  define n where "n = (monday_of q - monday_of s) div 7"
  define v where "v = weeks_between z (at_time z (monday_of s) 0) (at_time z (monday_of q) 0)"
  define m where "m = monday_of s + 7 * (v - v mod k)"
  have first: "first \<le> s" using s monday_props(1) [of s] by simp
  have q: "first \<le> q" "s \<le> q" using first by (simp_all add: q_def)
  have sod: "start_of_day z now = at_time z (wall_day z now) 0" "start_of_day z (at_time z s 0) = at_time z s 0"
    by (simp_all add: start_of_day_def within first)
  have search: "(if start_of_day z now < at_time z s 0 then start_of_day z (at_time z s 0) else start_of_day z now) = at_time z q 0"
    using starts_less [OF first, of "wall_day z now"] by (auto simp: sod q_def max_def)
  have mono: "monday_of s \<le> monday_of q"
    unfolding q_def monday_of_def iso_weekday_def by (simp add: max_def) presburger
  have n: "7 * n = monday_of q - monday_of s" "0 \<le> n"
    using monday_props(7) [of q s] mono by (auto simp: n_def)
  have v: "v = n \<or> \<not> has_midnight z (monday_of s) \<and> v = n - 1 \<and> 1 \<le> n"
  proof (cases "n = 0")
    case True
    then have "monday_of q = monday_of s" using n by simp
    then show ?thesis using weeks_between_starts [OF s, of "monday_of s"] clock_start [OF s] True by (simp add: v_def)
  next
    case False
    then show ?thesis
      using weeks_between_starts [OF s mono monday_props(7)] n by (auto simp: v_def n_def has_midnight_def)
  qed
  then have r: "0 \<le> v" "0 \<le> v mod k" "v mod k < k" "v mod k \<le> v"
    using k n(2) zmod_le_nonneg_dividend [of v k] by auto
  have "wall_day z (at_time z (monday_of s) 0) = monday_of s" by (simp add: within s)
  then have "wall_day z (first_week z (at_time z s 0) k now) = m"
    unfolding first_week_def Let_def search
    using r plus_day [of "at_time z (monday_of s) 0" "7 * (v - v mod k)"] s first q(1)
    by (simp add: start_of_week_def within m_def v_def)
  moreover have mm: "monday_of m = m" unfolding m_def by (rule monday_shift) (rule monday_props)
  moreover have "7 * k dvd m - monday_of s" by (simp add: m_def minus_mod_eq_mult_div)
  moreover have "first \<le> m" using s r by (simp add: m_def)
  moreover have "m \<le> monday_of q" using n(1) v r by (auto simp: m_def)
  then have qm: "m \<le> q" using monday_props(1) [of q] by simp
  moreover have "m \<le> e" if due: "weekly_due z s k wds t now e" for wds e
  proof -
    have e: "s \<le> e" "now < at_time z e t" using due by (simp_all add: weekly_due_def)
    moreover have "\<not> e < wall_day z now"
    proof
      assume l: "e < wall_day z now"
      from ordered [of now "at_time z e t"] l e first t show False by (simp add: within)
    qed
    ultimately show ?thesis using qm by (simp add: q_def)
  qed
  moreover have "q < m + 7 * k * lag s"
  proof -
    have "7 * (v + 1) \<le> 7 * (v - v mod k) + 7 * k" using r by simp
    then have "7 * (n + 1) \<le> 7 * (v - v mod k) + 7 * k * lag s" using v k by auto
    then show ?thesis using n(1) monday_props(2) [of q] by (simp add: m_def)
  qed
  ultimately show thesis using that by (simp add: q_def)
qed

lemma weekly_scan:
  assumes t: "in_day t" and k: "1 \<le> k" and wds: "sorted wds" "set wds \<subseteq> {1..7}" and s: "first \<le> monday_of s"
  shows "weekly_answer z s k (set wds) t limit delay now (search_horizon z s k now)
    (scan_weeks z t (at_time z s 0) limit now delay wds k MAX_SEARCH_WEEKS (first_week z (at_time z s 0) k now))"
proof -
  obtain m where m: "wall_day z (first_week z (at_time z s 0) k now) = m" "monday_of m = m" "first \<le> m"
    "7 * k dvd m - monday_of s" "\<And>wds e. weekly_due z s k wds t now e \<Longrightarrow> m \<le> e"
    "max s (wall_day z now) < m + 7 * k * lag s"
    using first_week_monday [OF t k s] by metis
  have first: "first \<le> s" using s monday_props(1) [of s] by simp
  have "search_horizon z s k now \<le> m + 7 * k * int MAX_SEARCH_WEEKS"
    using m(6)
    by (cases "has_midnight z (monday_of s)") (simp_all add: MAX_SEARCH_WEEKS_def search_horizon_def algebra_simps)
  then have wider: "weekly_answer z s k (set wds) t limit delay now (m + 7 * k * int MAX_SEARCH_WEEKS) r \<Longrightarrow>
      weekly_answer z s k (set wds) t limit delay now (search_horizon z s k now) r" for r
    unfolding weekly_answer_def by (meson order_trans)
  show ?thesis by (rule wider) (rule scan_weeks_sound [OF t k wds first m(1-5)])
qed

lemma due_within_search:
  assumes t: "in_day t" and k: "1 \<le> k" and w: "w \<in> wds" "wds \<subseteq> {1..7}" and s: "first \<le> monday_of s"
    and gaps: "\<forall>day\<ge>s. time_exists z day t \<or> time_exists z (day + 7 * k) t"
  shows "\<exists>e. weekly_due z s k wds t now e \<and> e < search_horizon z s k now"
proof -
  obtain m where m: "monday_of m = m" "7 * k dvd m - monday_of s" "max s (wall_day z now) < m + 7 * k * lag s"
    "m \<le> max s (wall_day z now)"
    using first_week_monday [OF t k s, of now] by metis
  have first: "first \<le> s" using s monday_props(1) [of s] by simp
  have lag: "1 \<le> lag s" "lag s \<le> 2" by simp_all
  have soon: "weekly_due z s k wds t now (m + 7 * k * j + w - 1)"
    if "lag s \<le> j" "time_exists z (m + 7 * k * j + w - 1) t" for j
  proof -
    let ?m = "m + 7 * k * j"
    have mon: "monday_of ?m = ?m" using monday_shift [OF m(1), of "k * j"] by (simp add: mult.assoc)
    have w': "1 \<le> w" "w \<le> 7" using w by auto
    then have week: "iso_weekday (?m + w - 1) = w" "monday_of (?m + w - 1) = ?m"
      using in_week [OF mon] by simp_all
    have "7 * k dvd ?m - monday_of s"
      using dvd_add [OF m(2) dvd_triv_left [of "7 * k" j]] by (simp add: algebra_simps)
    moreover have "7 * k * lag s \<le> 7 * k * j" using that(1) k by simp
    then have after: "max s (wall_day z now) < ?m + w - 1" using m(3) w'(1) by linarith
    then have "s \<le> ?m + w - 1" "now < at_time z (?m + w - 1) t"
      using start_less [of now "?m + w - 1" t] t first by simp_all
    ultimately show ?thesis using week w(1) that(2) by (simp add: weekly_due_def)
  qed
  let ?e = "\<lambda>j. m + 7 * k * j + w - 1"
  have bound: "?e (lag s + 1) < search_horizon z s k now"
    using m(4) w k by (auto simp: search_horizon_def algebra_simps)
  have "s \<le> ?e (lag s)" using m(3) w by (fastforce simp: subset_iff)
  then have "time_exists z (?e (lag s)) t \<or> time_exists z (?e (lag s + 1)) t"
    using gaps [rule_format, of "?e (lag s)"] by (simp add: algebra_simps)
  then show ?thesis
  proof
    assume "time_exists z (?e (lag s)) t"
    moreover have "?e (lag s) < ?e (lag s + 1)" using k by (simp add: algebra_simps)
    ultimately show ?thesis using soon [of "lag s"] bound by fastforce
  qed (use soon [of "lag s + 1"] bound in fastforce)
qed

end

section \<open>Weekly schedules\<close>

lemma weekly_search:
  assumes z: "civil_zone (zones (wk_timezone d)) (monday_of s)" and parsed: "parse_schedule known v = Some (Weekly d)"
    and s: "start_day (wk_start d) = Some s" and t: "parse_time_string (wk_time d) = Inr t"
    and limit: "end_limit (wk_end d) = Inr limit"
  shows "\<exists>r. next_weekly zones d now delay = Inr r \<and>
    weekly_answer (zones (wk_timezone d)) s (wk_interval d) (set (wk_weekdays d)) t limit delay now
      (search_horizon (zones (wk_timezone d)) s (wk_interval d) now) r"
proof -
  note p = parsed_weekly [OF parsed]
  from local_time_read [OF p(2)] t have in_day: "in_day t" by auto
  from local_date_read [OF p(1)] obtain date where date: "parse_date_string (wk_start d) = Inr date" by blast
  with s have "date_day date = Some s" by (simp add: start_day_def)
  with date t limit p(7) show ?thesis
    using civil_zone.weekly_scan [OF z in_day p(3) p(7,6) order_refl]
    by (simp add: next_weekly_def Let_def sorted_sort_id)
qed

text \<open>
  C30: the next occurrence of a weekly schedule the schema accepted is the first day on or after
  the start whose weekday is selected, whose week is aligned with the start's, whose time exists and
  lies after the instant the search starts from; without one within the limit there is none, or
  none in the next 155 intervals. The zone keeps the laws of \<open>civil_zone\<close> from the Monday of
  the start's week on; days without a midnight are allowed, and when that Monday is one the
  search reaches one interval less.
\<close>

theorem weekly_occurrence_is_next:
  "\<lbrakk>civil_zone (zones (wk_timezone d)) (monday_of s); parse_schedule known v = Some (Weekly d);
    start_day (wk_start d) = Some s; parse_time_string (wk_time d) = Inr t; end_limit (wk_end d) = Inr limit\<rbrakk> \<Longrightarrow>
   \<exists>r. next_weekly zones d now delay = Inr r \<and>
     weekly_answer (zones (wk_timezone d)) s (wk_interval d) (set (wk_weekdays d)) t limit delay now
       (search_horizon (zones (wk_timezone d)) s (wk_interval d) now) r"
  by (rule weekly_search)

text \<open>09:00 UTC on Sundays and Wednesdays from Monday 26 February 2024, to Wednesday 27 March.\<close>

definition team_submission :: json where
  "team_submission = JObject
     [(''schemaVersion'', JNumber 1), (''type'', JString ''weekly''), (''timezone'', JString ''UTC''),
      (''startDate'', JString ''2024-02-26''), (''endDate'', JString ''2024-03-27''), (''time'', JString ''09:00''),
      (''weekdays'', JArray [JNumber 7, JNumber 3, JNumber 7])]"

definition team_schedule :: weekly_schedule where
  "team_schedule =
     \<lparr>wk_timezone = ''UTC'', wk_start = ''2024-02-26'', wk_end = Some ''2024-03-27'', wk_time = ''09:00'',
      wk_weekdays = [3, 7], wk_interval = 1\<rparr>"

lemma team_facts:
  "parse_schedule (\<lambda>s. s = ''UTC'') team_submission = Some (Weekly team_schedule)"
  "start_day (wk_start team_schedule) = Some 19779"
  "parse_time_string (wk_time team_schedule) = Inr 32400000"
  "end_limit (wk_end team_schedule) = Inr (Some 1711497600000)"
  by code_simp+

theorem weekly_occurrence_is_next_witness:
  "\<exists>r. next_weekly (\<lambda>_. utc) team_schedule 1709197200000 300 = Inr r \<and>
     weekly_answer utc 19779 1 {3, 7} 32400000 (Some 1711497600000) 300 1709197200000 (19782 + 7 * 1 * 155) r"
proof -
  have "wall_day utc 1709197200000 = 19782" by (simp add: wall_day_def wall_def fixed_zone_def day_ms_def)
  with weekly_occurrence_is_next [of "\<lambda>_. utc" team_schedule, OF _ team_facts, of 1709197200000 300]
  show ?thesis by (simp add: team_schedule_def search_horizon_def fixed_midnight)
qed

text \<open>
  A weekly schedule without an end date always has a next occurrence, when its time is
  missing in no two weeks in a row.
\<close>

lemma endless_weekly_schedule_fires:
  assumes z: "civil_zone (zones (wk_timezone d)) (monday_of s)" and parsed: "parse_schedule known v = Some (Weekly d)"
    and e: "wk_end d = None" and s: "start_day (wk_start d) = Some s" and t: "parse_time_string (wk_time d) = Inr t"
    and gaps: "\<forall>day\<ge>s. time_exists (zones (wk_timezone d)) day t \<or> time_exists (zones (wk_timezone d)) (day + 7 * wk_interval d) t"
  shows "\<exists>i. now < i \<and> next_weekly zones d now delay = Inr (Occurs i (i + delay * 1000))"
proof -
  note p = parsed_weekly [OF parsed]
  from local_time_read [OF p(2)] t have in_day: "in_day t" by auto
  from p(5) have "hd (wk_weekdays d) \<in> set (wk_weekdays d)" by simp
  note due = civil_zone.due_within_search [OF z in_day p(3) this p(6) order_refl gaps, of now]
  have "end_limit (wk_end d) = Inr None" by (simp add: e end_limit_def)
  from weekly_search [where zones = zones and d = d and now = now and delay = delay, OF z parsed s t this] due
  show ?thesis by (force simp: weekly_answer_def past_limit_def occurs_def weekly_due_def)
qed

lemma endless_weekly_schedule_fires_witness:
  "\<exists>i. 1709197200000 < i \<and>
     next_weekly (\<lambda>_. utc) (team_schedule\<lparr>wk_end := None\<rparr>) 1709197200000 300 = Inr (Occurs i (i + 300 * 1000))"
proof -
  have "parse_schedule (\<lambda>s. s = ''UTC'')
      (JObject (filter (\<lambda>kv. fst kv \<noteq> ''endDate'') (case team_submission of JObject kvs \<Rightarrow> kvs)))
    = Some (Weekly (team_schedule\<lparr>wk_end := None\<rparr>))" by code_simp
  from endless_weekly_schedule_fires [of "\<lambda>_. utc" "team_schedule\<lparr>wk_end := None\<rparr>", OF _ this,
      where s = 19779 and t = 32400000 and now = 1709197200000 and delay = 300] team_facts(2,3)
  show ?thesis by (simp add: fixed_time_exists)
qed



section \<open>Dates outside the calendar\<close>

lemma unreadable_start:
  "parse_date_string (dy_start d) = Inl e \<Longrightarrow> next_daily zones (Suc fuel) d now delay = Some (Inl e)"
  by (simp add: next_daily.simps(2))

lemma weekly_unknown_start:
  assumes parsed: "parse_schedule known v = Some (Weekly w)" and none: "start_day (wk_start w) = None"
  shows "next_weekly zones w now delay = Inl InvalidUnitValue"
proof -
  note p = parsed_weekly [OF parsed]
  obtain date t limit where "parse_date_string (wk_start w) = Inr date" "parse_time_string (wk_time w) = Inr t"
    "end_limit (wk_end w) = Inr limit"
    using local_date_read [OF p(1)] local_time_read [OF p(2)] p(4) by (auto simp: end_read_def)
  moreover from this none have "date_day date = None" by (simp add: start_day_def)
  ultimately show "next_weekly zones w now delay = Inl InvalidUnitValue"
    using p(5,7) by (simp add: next_weekly_def Let_def sorted_sort_id)
qed

text \<open>
  C33: the schema accepts a start date that its month does not have (30 February), and then the
  search for the next occurrence throws, of a daily as of a weekly schedule.
\<close>

theorem start_outside_calendar_throws:
  "(parse_schedule known v = Some (Daily d) \<longrightarrow> start_day (dy_start d) = None \<longrightarrow>
      next_daily zones (Suc (Suc fuel)) d now delay = Some (Inl InvalidDateString)) \<and>
   (parse_schedule known v = Some (Weekly w) \<longrightarrow> start_day (wk_start w) = None \<longrightarrow>
      next_weekly zones w now delay = Inl InvalidUnitValue)"
proof (intro conjI impI)
  assume parsed: "parse_schedule known v = Some (Daily d)" and none: "start_day (dy_start d) = None"
  note p = parsed_daily [OF parsed]
  obtain date t limit where "parse_date_string (dy_start d) = Inr date" "parse_time_string (dy_time d) = Inr t"
    "end_limit (dy_end d) = Inr limit"
    using local_date_read [OF p(1)] local_time_read [OF p(2)] p(4) by (auto simp: end_read_def)
  moreover from this none have "date_day date = None" by (simp add: start_day_def)
  moreover have "parse_date_string (format_local_date None) = Inl InvalidDateString" by code_simp
  ultimately show "next_daily zones (Suc (Suc fuel)) d now delay = Some (Inl InvalidDateString)"
    by (simp add: next_daily.simps(2) [of zones "Suc fuel"] outcome_of_date advance_local_date_def unreadable_start
        del: format_local_date.simps)
qed (rule weekly_unknown_start)

definition leap_submission :: json where
  "leap_submission = JObject
     [(''schemaVersion'', JNumber 1), (''type'', JString ''daily''), (''timezone'', JString ''UTC''),
      (''startDate'', JString ''2026-02-30''), (''time'', JString ''09:00''), (''intervalDays'', JNumber 1)]"

theorem start_outside_calendar_throws_witness:
  "next_daily (\<lambda>_. utc) 2 (office_schedule\<lparr>dy_start := ''2026-02-30''\<rparr>) 0 300 = Some (Inl InvalidDateString)"
proof -
  let ?d = "office_schedule\<lparr>dy_start := ''2026-02-30''\<rparr>"
  have "parse_schedule (\<lambda>s. s = ''UTC'') leap_submission = Some (Daily ?d)" "start_day (dy_start ?d) = None"
    by code_simp+
  with start_outside_calendar_throws [of "\<lambda>s. s = ''UTC''" leap_submission ?d "\<lambda>_. utc" 0 0 300 team_schedule]
  show ?thesis by (simp add: numeral_2_eq_2)
qed

section \<open>Sequences of occurrences\<close>

text \<open>
  The schedules whose searches are known to return: a daily schedule as in the search of the daily
  occurrence, a weekly schedule in a zone that keeps its laws, and every one-time schedule.
\<close>

fun regular_schedule :: "(string \<Rightarrow> zone) \<Rightarrow> schedule \<Rightarrow> bool" where
  "regular_schedule zones (OneTime d) = True"
| "regular_schedule zones (Daily d) =
     (\<exists>s t. start_day (dy_start d) = Some s \<and> parse_time_string (dy_time d) = Inr t \<and>
        civil_zone (zones (dy_timezone d)) s \<and>
        has_midnight (zones (dy_timezone d)) (first_start (zones (dy_timezone d)) t s) \<and>
        isolated_gaps (zones (dy_timezone d)) s t (dy_interval d))"
| "regular_schedule zones (Weekly d) =
     (\<exists>s. start_day (wk_start d) = Some s \<and> civil_zone (zones (wk_timezone d)) (monday_of s))"

lemma parsed_one_time:
  assumes "parse_schedule known v = Some (OneTime d)"
  shows "local_date_ok (ot_date d)" "local_time_ok (ot_time d)"
proof -
  from assms obtain kvs where "parse_one_time known kvs = Some d"
    by (auto simp: parse_schedule_def split: json.splits if_splits)
  then show "local_date_ok (ot_date d)" "local_time_ok (ot_time d)"
    by (auto simp: parse_one_time_def schema_simps split: if_splits)
qed

lemma search_returns:
  assumes parsed: "parse_schedule known v = Some sch" and regular: "regular_schedule zones sch"
  shows "\<exists>r. next_occurrence zones 4 sch now delay = Some (Inr r) \<and> (\<forall>i deadline. r = Occurs i deadline \<longrightarrow> now < i)"
proof (cases sch)
  case (OneTime d)
  note p = parsed_one_time [OF parsed [unfolded OneTime]]
  obtain date t where "parse_date_string (ot_date d) = Inr date" "parse_time_string (ot_time d) = Inr t"
    using local_date_read [OF p(1)] local_time_read [OF p(2)] by auto
  with OneTime show ?thesis by (auto simp: next_one_time_def occurs_def split: option.splits)
next
  case (Daily d)
  note p = parsed_daily [OF parsed [unfolded Daily]]
  from p(4) obtain limit where limit: "end_limit (dy_end d) = Inr limit" by (auto simp: end_read_def)
  from regular [unfolded Daily regular_schedule.simps] obtain s t where
    "start_day (dy_start d) = Some s" "parse_time_string (dy_time d) = Inr t" "civil_zone (zones (dy_timezone d)) s"
    "has_midnight (zones (dy_timezone d)) (first_start (zones (dy_timezone d)) t s)"
    "isolated_gaps (zones (dy_timezone d)) s t (dy_interval d)" by blast
  from daily_search [where zones = zones and d = d and now = now and delay = delay,
      OF this(3) parsed [unfolded Daily] this(1,2) limit this(4,5)] Daily
  show ?thesis by (auto simp: daily_answer_def occurs_def daily_due_def)
next
  case (Weekly d)
  note p = parsed_weekly [OF parsed [unfolded Weekly]]
  from regular [unfolded Weekly regular_schedule.simps] obtain s where
    s: "start_day (wk_start d) = Some s" "civil_zone (zones (wk_timezone d)) (monday_of s)" by blast
  obtain t limit where "parse_time_string (wk_time d) = Inr t" "end_limit (wk_end d) = Inr limit"
    using local_time_read [OF p(2)] p(4) by (auto simp: end_read_def)
  from weekly_search [where zones = zones and d = d and now = now and delay = delay,
      OF s(2) parsed [unfolded Weekly] s(1) this] Weekly
  show ?thesis by (auto simp: weekly_answer_def occurs_def weekly_due_def)
qed

fun instants :: "occurrence list \<Rightarrow> int list" where
  "instants [] = []"
| "instants (Occurs i deadline # rs) = i # instants rs"
| "instants (Skipped r # rs) = instants rs"

text \<open>
  C31: the first occurrences of a schedule the schema accepted follow each other: each is later
  than the one before it and than the instant the search starts from, and there are as many
  as were asked for, or the last entry says why there are no more. The searches return, within four
  calls each: the start of a daily or weekly schedule is a day of the calendar, the zone keeps
  the laws of \<open>civil_zone\<close> from then on, and a daily schedule starts on a day with a midnight and has
  its time missing on no two days a day or an interval apart.
\<close>

theorem occurrences_follow_each_other:
  "\<lbrakk>parse_schedule known v = Some sch; regular_schedule zones sch\<rbrakk> \<Longrightarrow>
   \<exists>rs. next_n_occurrences zones 4 sch now delay n = Some (Inr rs) \<and> sorted_wrt (<) (now # instants rs) \<and>
     (length (instants rs) = n \<or> (\<exists>r rs'. rs = rs' @ [Skipped r]))"
proof (induction n arbitrary: now)
  case (Suc n)
  obtain r where r: "next_occurrence zones 4 sch now delay = Some (Inr r)"
    "\<And>i deadline. r = Occurs i deadline \<Longrightarrow> now < i"
    using search_returns [OF Suc.prems, of now delay] by blast
  show ?case
  proof (cases r)
    case (Occurs i deadline)
    obtain rs where rs: "next_n_occurrences zones 4 sch (i + 1) delay n = Some (Inr rs)"
      "sorted_wrt (<) ((i + 1) # instants rs)" "length (instants rs) = n \<or> (\<exists>r rs'. rs = rs' @ [Skipped r])"
      using Suc.IH [OF Suc.prems, of "i + 1"] by blast
    have "next_n_occurrences zones 4 sch now delay (Suc n) = Some (Inr (Occurs i deadline # rs))"
      using r(1) rs(1) Occurs by simp
    moreover have "sorted_wrt (<) (now # instants (Occurs i deadline # rs))"
      using rs(2) r(2) [OF Occurs] by auto
    moreover have "length (instants (Occurs i deadline # rs)) = Suc n \<or> (\<exists>x rs'. Occurs i deadline # rs = rs' @ [Skipped x])"
      using rs(3) by (metis append_Cons instants.simps(2) length_Cons)
    ultimately show ?thesis by blast
  next
    case (Skipped x)
    then show ?thesis using r by simp
  qed
qed simp

theorem occurrences_follow_each_other_witness:
  "\<exists>rs. next_n_occurrences (\<lambda>_. utc) 4 (Weekly team_schedule) 1711011600000 300 3 = Some (Inr rs) \<and>
     instants rs = [1711270800000] \<and> sorted_wrt (<) (1711011600000 # instants rs)"
proof -
  have r: "next_n_occurrences (\<lambda>_. utc) 4 (Weekly team_schedule) 1711011600000 300 3 =
      Some (Inr [Occurs 1711270800000 1711271100000, Skipped PastEndDate])" by code_simp
  have "regular_schedule (\<lambda>_. utc) (Weekly team_schedule)" using team_facts(2) by simp
  from occurrences_follow_each_other [OF team_facts(1) this, of 1711011600000 300 3] r show ?thesis by simp
qed

end
