(* ===== verification/Schedule_Readiness.thy ===== *)
theory Schedule_Readiness
  imports Workflow_Policy Workflow_Inputs Workflow_Recovery Canonical_Json
begin

text \<open>
  Whether a workflow can run unattended (packages/workflow-scheduling/src/unattended-readiness.ts):
  the report made when a schedule is created and the one for an occurrence. They combine the
  analysis of the inputs, the approval steps, the policy and the state of the runner. A status
  or mode of unknown type is a JSON value; None is the exception that the evaluation of the
  policy throws when a digest or its own report breaks a schema.
\<close>

section \<open>Issues\<close>

datatype schedule_issue_code =
    VersionNotPublished
  | DefinitionInvalid
  | RuntimeInputRequired
  | LocalSecretStoreNotReady
  | LocalSecretAliasMissing
  | ApprovalStepForbidden
  | ManualRepairForbidden
  | LocatorRepairForbidden
  | RecoveryModeUnsupported
  | RunnerCapabilityUnavailable
  | RunnerNotInWorkspace
  | RunnerRevoked
  | PolicyDenied
  | PolicyRequiresApproval
  | VersionUnavailable

record schedule_issue =
  si_code :: schedule_issue_code
  si_step_id :: "string option"
  si_step_index :: "nat option"

definition plain_issue :: "schedule_issue_code \<Rightarrow> schedule_issue" where
  "plain_issue c = \<lparr>si_code = c, si_step_id = None, si_step_index = None\<rparr>"

section \<open>The checks\<close>

definition lifecycle_of :: "json \<Rightarrow> lifecycle_status option" where
  "lifecycle_of v =
     (if v = JString ''draft'' then Some Draft
      else if v = JString ''testing'' then Some Testing
      else if v = JString ''published'' then Some Published
      else if v = JString ''archived'' then Some Archived
      else None)"

definition recovery_mode_of :: "json \<Rightarrow> recovery_mode option" where
  "recovery_mode_of v =
     (if v = JString ''automatic_safe_only'' then Some AutomaticSafeOnly
      else if v = JString ''automatic_safe_and_manual'' then Some AutomaticSafeAndManual
      else if v = JString ''automatic_safe_and_locator_proposals'' then Some AutomaticSafeAndLocatorProposals
      else None)"

definition check_version_status :: "json \<Rightarrow> schedule_issue option" where
  "check_version_status v =
     (case lifecycle_of v of
        None \<Rightarrow> Some (plain_issue DefinitionInvalid)
      | Some st \<Rightarrow> if st \<noteq> Published then Some (plain_issue VersionNotPublished) else None)"

definition check_definition :: "workflow \<Rightarrow> schedule_issue option" where
  "check_definition w = (case parse_workflow w of None \<Rightarrow> Some (plain_issue DefinitionInvalid) | Some _ \<Rightarrow> None)"

datatype store_status = StoreReady | StoreLocked | StoreUnavailable | StoreCorrupted

record local_secrets =
  ls_capability :: bool
  ls_status :: store_status
  ls_synchronized :: bool
  ls_aliases :: "string list"

text \<open>The loop over the issues of the analysis: the first blocking one it knows decides.\<close>

fun first_input_issue :: "input_issue list \<Rightarrow> schedule_issue option" where
  "first_input_issue [] = None"
| "first_input_issue (x # xs) =
     (if ii_severity x \<noteq> Blocking then first_input_issue xs
      else if ii_code x = UNKNOWN_VARIABLE_REFERENCE \<or> ii_code x = INCOMPATIBLE_VARIABLE_TYPE
      then Some \<lparr>si_code = RuntimeInputRequired, si_step_id = ii_step_id x, si_step_index = ii_step_index x\<rparr>
      else if ii_code x = INCOMPATIBLE_LITERAL
      then Some \<lparr>si_code = RuntimeInputRequired, si_step_id = ii_step_id x, si_step_index = ii_step_index x\<rparr>
      else first_input_issue xs)"

definition check_no_inputs_required :: "workflow \<Rightarrow> local_secrets option \<Rightarrow> schedule_issue option" where
  "check_no_inputs_required w ls =
     (let analysis = analyze_workflow_inputs w
      in case first_input_issue (ia_issues analysis) of
           Some x \<Rightarrow> Some x
         | None \<Rightarrow>
             if ia_secrets analysis = [] then None
             else (case ls of
                     None \<Rightarrow> Some (plain_issue LocalSecretStoreNotReady)
                   | Some s \<Rightarrow>
                       if \<not> ls_capability s \<or> ls_status s \<noteq> StoreReady \<or> \<not> ls_synchronized s
                       then Some (plain_issue LocalSecretStoreNotReady)
                       else if list_ex (\<lambda>r. secret_name r \<notin> set (ls_aliases s)) (ia_secrets analysis)
                       then Some (plain_issue LocalSecretAliasMissing)
                       else None))"

fun first_approval :: "nat \<Rightarrow> workflow_step list \<Rightarrow> schedule_issue option" where
  "first_approval i [] = None"
| "first_approval i (st # sts) =
     (if is_approval st
      then Some \<lparr>si_code = ApprovalStepForbidden, si_step_id = Some (step_id st), si_step_index = Some i\<rparr>
      else first_approval (Suc i) sts)"

definition check_no_forbidden_steps :: "workflow \<Rightarrow> schedule_issue option" where
  "check_no_forbidden_steps w = first_approval 0 (steps w)"

definition check_recovery_mode :: "json \<Rightarrow> schedule_issue option" where
  "check_recovery_mode v =
     (case recovery_mode_of v of
        None \<Rightarrow> Some (plain_issue RecoveryModeUnsupported)
      | Some AutomaticSafeAndManual \<Rightarrow> Some (plain_issue ManualRepairForbidden)
      | Some AutomaticSafeAndLocatorProposals \<Rightarrow> Some (plain_issue LocatorRepairForbidden)
      | Some AutomaticSafeOnly \<Rightarrow> None)"

text \<open>The capabilities are only checked for being an array; None is a value that is not one.\<close>

definition check_runner_capabilities :: "string list option \<Rightarrow> schedule_issue option" where
  "check_runner_capabilities cs = (if cs = None then Some (plain_issue RunnerCapabilityUnavailable) else None)"

definition check_runner_workspace :: "string option \<Rightarrow> string \<Rightarrow> schedule_issue option" where
  "check_runner_workspace runner target =
     (case runner of
        None \<Rightarrow> Some (plain_issue VersionUnavailable)
      | Some r \<Rightarrow> if r \<noteq> target then Some (plain_issue RunnerNotInWorkspace) else None)"

definition check_runner_revoked :: "int option \<Rightarrow> schedule_issue option" where
  "check_runner_revoked revoked_at = (if revoked_at \<noteq> None then Some (plain_issue RunnerRevoked) else None)"

section \<open>The policy\<close>

definition schedule_policy_issue :: "policy_issue \<Rightarrow> schedule_issue" where
  "schedule_policy_issue x =
     \<lparr>si_code =
        (if pi_code x \<in> {POLICY_ACTION_DENIED, POLICY_ORIGIN_BLOCKED, POLICY_HTTP_ORIGIN_DENIED}
         then PolicyDenied else PolicyRequiresApproval),
      si_step_id = pi_step_id x, si_step_index = pi_index x\<rparr>"

record schedule_policy =
  sp_decision :: policy_decision
  sp_issues :: "schedule_issue list"
  sp_allowed_origins :: "string list"

definition evaluate_schedule_policy ::
  "url_parser \<Rightarrow> (string \<Rightarrow> string \<Rightarrow> int) \<Rightarrow> execution_policy \<Rightarrow> workflow \<Rightarrow> string \<Rightarrow> string \<Rightarrow> schedule_policy option" where
  "evaluate_schedule_policy url_of cmp policy w pd wd =
     (case parse_policy url_of policy of
        None \<Rightarrow> Some \<lparr>sp_decision = Deny, sp_issues = [plain_issue PolicyDenied], sp_allowed_origins = []\<rparr>
      | Some p \<Rightarrow>
          map_option (\<lambda>r. \<lparr>sp_decision = pe_decision r,
                           sp_issues = map schedule_policy_issue (filter (\<lambda>x. pi_severity x = Blocking) (pe_issues r)),
                           sp_allowed_origins = []\<rparr>)
            (evaluate_workflow_policy url_of cmp p w pd wd))"

section \<open>The reports\<close>

record readiness_input =
  ri_status :: json
  ri_definition :: workflow
  ri_workflow_digest :: string
  ri_workspace :: string
  ri_capabilities :: "string list option"
  ri_runner_workspace :: "string option"
  ri_revoked_at :: "int option"
  ri_policy :: execution_policy
  ri_policy_digest :: string
  ri_recovery_mode :: json

record schedule_readiness =
  sr_ready :: bool
  sr_issues :: "schedule_issue list"
  sr_definition :: workflow
  sr_allowed_origins :: "string list"

fun present :: "'a option list \<Rightarrow> 'a list" where
  "present [] = []"
| "present (None # xs) = present xs"
| "present (Some x # xs) = x # present xs"

definition analyze_unattended_readiness ::
  "url_parser \<Rightarrow> (string \<Rightarrow> string \<Rightarrow> int) \<Rightarrow> readiness_input \<Rightarrow> schedule_readiness option" where
  "analyze_unattended_readiness url_of cmp i =
     (let first = [check_version_status (ri_status i), check_definition (ri_definition i)]
      in case parse_workflow (ri_definition i) of
           None \<Rightarrow> Some \<lparr>sr_ready = False, sr_issues = present first, sr_definition = ri_definition i, sr_allowed_origins = []\<rparr>
         | Some w \<Rightarrow>
             map_option (\<lambda>pol.
                 let issues = present (first @
                       [check_no_inputs_required w None, check_no_forbidden_steps w,
                        check_recovery_mode (ri_recovery_mode i), check_runner_capabilities (ri_capabilities i),
                        check_runner_workspace (ri_runner_workspace i) (ri_workspace i),
                        check_runner_revoked (ri_revoked_at i)]) @ sp_issues pol
                 in \<lparr>sr_ready = (issues = []), sr_issues = issues, sr_definition = w,
                     sr_allowed_origins = sp_allowed_origins pol\<rparr>)
               (evaluate_schedule_policy url_of cmp (ri_policy i) w (ri_policy_digest i) (ri_workflow_digest i)))"

record creation_input =
  ci_status :: json
  ci_definition :: workflow
  ci_runner_workspace :: "string option"
  ci_workspace :: string
  ci_revoked_at :: "int option"
  ci_policy :: execution_policy
  ci_policy_digest :: string
  ci_workflow_digest :: string
  ci_secrets :: "local_secrets option"

definition analyze_schedule_creation_readiness ::
  "url_parser \<Rightarrow> (string \<Rightarrow> string \<Rightarrow> int) \<Rightarrow> creation_input \<Rightarrow> (bool \<times> schedule_issue list) option" where
  "analyze_schedule_creation_readiness url_of cmp i =
     (let first = [check_version_status (ci_status i), check_definition (ci_definition i)]
      in case parse_workflow (ci_definition i) of
           None \<Rightarrow> Some (False, present first)
         | Some w \<Rightarrow>
             map_option (\<lambda>pol.
                 let issues = present (first @
                       [check_no_inputs_required w (ci_secrets i), check_no_forbidden_steps w,
                        check_runner_workspace (ci_runner_workspace i) (ci_workspace i),
                        check_runner_revoked (ci_revoked_at i)]) @ sp_issues pol
                 in (issues = [], issues))
               (evaluate_schedule_policy url_of cmp (ci_policy i) w (ci_policy_digest i) (ci_workflow_digest i)))"

section \<open>What a ready report means\<close>

lemma present_Nil: "present xs = [] \<longleftrightarrow> list_all (\<lambda>x. x = None) xs"
  by (induction xs rule: present.induct) auto

lemma first_approval_None: "first_approval i sts = None \<longleftrightarrow> list_all (\<lambda>st. \<not> is_approval st) sts"
  by (induction sts arbitrary: i) auto

lemma all_allowed: "(\<forall>e\<in>set es. se_decision e = Allow) \<Longrightarrow>
    fold (\<lambda>s d. stronger_decision d (se_decision s)) es Allow = Allow"
  by (induction es) (auto simp: stronger_decision_def)

lemma clean_without_approvals:
  assumes ev: "evaluate_workflow_policy url_of cmp pol w0 pd wd = Some ev" and w: "parse_workflow w0 = Some w"
    and clean: "\<not> pe_blocking ev" and none: "list_all (\<lambda>st. \<not> is_approval st) (steps w)"
  shows "pe_decision ev = Allow \<and> (\<forall>e\<in>set (pe_steps ev). se_decision e = Allow)"
proof -
  from ev obtain p0 where p0: "parse_policy url_of pol = Some p0"
    by (auto simp: evaluate_workflow_policy_def split: bind_splits)
  from ev p0 have "canonicalize_policy url_of cmp p0 \<noteq> None"
    by (auto simp: evaluate_workflow_policy_def split: bind_splits)
  with canonicalize_parsed [OF p0, of cmp] obtain p where p: "canonicalize_policy url_of cmp pol = Some p" by auto
  have "se_decision (pe_steps ev ! i) = Allow" if i: "i < length (steps w)" for i
  proof -
    have "\<not> (0 < i \<and> is_approval (steps w ! (i - 1)))"
      using none i by (auto simp: list_all_length)
    with not_blocking_steps [OF ev p w clean i] show ?thesis
      by (cases "se_decision (pe_steps ev ! i)") auto
  qed
  with evaluation_steps(1) [OF ev p w] have all: "\<forall>e\<in>set (pe_steps ev). se_decision e = Allow"
    by (metis in_set_conv_nth)
  obtain gates :: approval_analysis where r: "ev = policy_report cmp w (workflow_declared_origins url_of cmp w) (aa_issues gates) pd wd (pe_steps ev)"
    by (rule evaluate_workflow_policy_Some [OF ev p w])
  have "pe_decision ev = Allow"
    by (subst r) (simp add: policy_report_def Let_def all_allowed [OF all])
  with all show ?thesis by blast
qed

lemma report_blocking: "pe_blocking (policy_report cmp w declared gates pd wd es) \<longleftrightarrow>
    (\<exists>x\<in>set (pe_issues (policy_report cmp w declared gates pd wd es)). pi_severity x = Blocking)"
  by (simp add: policy_report_def Let_def)

lemma evaluation_blocking: "evaluate_workflow_policy url_of cmp pol w pd wd = Some ev \<Longrightarrow>
    pe_blocking ev \<longleftrightarrow> (\<exists>x\<in>set (pe_issues ev). pi_severity x = Blocking)"
  by (auto simp: evaluate_workflow_policy_def Let_def report_blocking split: bind_splits if_splits)

text \<open>
  C34: a schedule whose creation is reported ready pins a published, valid workflow without approval
  steps in which the policy allows every step outright; every secret it requires is in the
  synchronised inventory of a ready store; and the runner is in the workspace and not revoked.
\<close>

theorem ready_schedule_runs_unattended:
  "analyze_schedule_creation_readiness url_of cmp i = Some (True, issues) \<Longrightarrow>
   \<exists>w p ev. lifecycle_of (ci_status i) = Some Published \<and> parse_workflow (ci_definition i) = Some w \<and>
     list_all (\<lambda>st. \<not> is_approval st) (steps w) \<and>
     parse_policy url_of (ci_policy i) = Some p \<and>
     evaluate_workflow_policy url_of cmp p w (ci_policy_digest i) (ci_workflow_digest i) = Some ev \<and>
     pe_decision ev = Allow \<and> (\<forall>e\<in>set (pe_steps ev). se_decision e = Allow) \<and>
     (ia_secrets (analyze_workflow_inputs w) = [] \<or>
        (\<exists>s. ci_secrets i = Some s \<and> ls_capability s \<and> ls_status s = StoreReady \<and> ls_synchronized s \<and>
           secret_name ` set (ia_secrets (analyze_workflow_inputs w)) \<subseteq> set (ls_aliases s))) \<and>
     ci_runner_workspace i = Some (ci_workspace i) \<and> ci_revoked_at i = None"
proof -
  assume r: "analyze_schedule_creation_readiness url_of cmp i = Some (True, issues)"
  then obtain w pol where w: "parse_workflow (ci_definition i) = Some w"
    and pol: "evaluate_schedule_policy url_of cmp (ci_policy i) w (ci_policy_digest i) (ci_workflow_digest i) = Some pol"
      "sp_issues pol = []"
    and checks: "check_version_status (ci_status i) = None" "check_no_inputs_required w (ci_secrets i) = None"
      "check_no_forbidden_steps w = None" "check_runner_workspace (ci_runner_workspace i) (ci_workspace i) = None"
      "check_runner_revoked (ci_revoked_at i) = None"
    by (auto simp: analyze_schedule_creation_readiness_def Let_def present_Nil split: option.splits)
  from pol obtain p ev where p: "parse_policy url_of (ci_policy i) = Some p"
    "evaluate_workflow_policy url_of cmp p w (ci_policy_digest i) (ci_workflow_digest i) = Some ev"
    and issues: "filter (\<lambda>x. pi_severity x = Blocking) (pe_issues ev) = []"
    by (auto simp: evaluate_schedule_policy_def split: option.splits)
  from issues evaluation_blocking [OF p(2)] have clean: "\<not> pe_blocking ev"
    by (auto simp: filter_empty_conv)
  from checks(3) have none: "list_all (\<lambda>st. \<not> is_approval st) (steps w)"
    by (simp add: check_no_forbidden_steps_def first_approval_None)
  have "parse_workflow w = Some w" using definition_schema.reparse [OF w] .
  note allowed = clean_without_approvals [OF p(2) this clean none]
  have "ia_secrets (analyze_workflow_inputs w) = [] \<or>
      (\<exists>s. ci_secrets i = Some s \<and> ls_capability s \<and> ls_status s = StoreReady \<and> ls_synchronized s \<and>
         secret_name ` set (ia_secrets (analyze_workflow_inputs w)) \<subseteq> set (ls_aliases s))"
    using checks(2) by (auto simp: check_no_inputs_required_def Let_def list_ex_iff split: option.splits if_splits)
  with w p allowed none checks show ?thesis
    by (auto simp: check_version_status_def check_runner_workspace_def check_runner_revoked_def
        split: option.splits if_splits)
qed

text \<open>
  A greeting: fill in a name that every run has to supply. Its readiness is judged with a policy
  that allows what the workflow declares, on a runner whose store holds no secret.
\<close>

definition greeting_step :: "value_source \<Rightarrow> workflow_step" where
  "greeting_step v = \<lparr>step_id = ''greet'', step_name = ''Greet'', body = Fill (Css ''input'') v\<rparr>"

definition greeting_workflow :: workflow where
  "greeting_workflow =
     \<lparr>workflow_id = ''w'', wf_version = 1, wf_name = ''Greeting'', wf_description = None, wf_status = Published,
      variables = [\<lparr>var_name = ''name'', var_label = None, var_type = VString, var_required = True,
                    var_description = None\<rparr>],
      steps = [greeting_step (Variable ''name'')]\<rparr>"

definition open_policy :: execution_policy where
  "open_policy =
     \<lparr>net_mode = WorkflowDeclaredOrigins, net_allowed = [], net_blocked = [], net_loopback_http = False,
      unknown_action_risk = RiskHigh, ap_threshold = HighOrAbove, ap_critical = CriticalRequireApproval,
      policy_rules = []\<rparr>"

definition greeting_input :: "workflow \<Rightarrow> creation_input" where
  "greeting_input w =
     \<lparr>ci_status = JString ''published'', ci_definition = w, ci_runner_workspace = Some ''s'', ci_workspace = ''s'',
      ci_revoked_at = None, ci_policy = open_policy, ci_policy_digest = shop_digest, ci_workflow_digest = shop_digest,
      ci_secrets = Some \<lparr>ls_capability = True, ls_status = StoreReady, ls_synchronized = True, ls_aliases = []\<rparr>\<rparr>"

lemma greeting_ready:
  "analyze_schedule_creation_readiness shop_url_parser (\<lambda>a b. 0) (greeting_input greeting_workflow) = Some (True, [])"
  by code_simp

theorem ready_schedule_runs_unattended_witness:
  "\<exists>w. parse_workflow greeting_workflow = Some w \<and> list_all (\<lambda>st. \<not> is_approval st) (steps w)"
  using ready_schedule_runs_unattended [OF greeting_ready] by (auto simp: greeting_input_def)

text \<open>A secret in a select step, where no run may use one.\<close>

definition exposing_workflow :: workflow where
  "exposing_workflow = greeting_workflow\<lparr>variables := [],
     steps := [(greeting_step (Secret ''pin''))\<lparr>body := Select (Css ''input'') (Secret ''pin'')\<rparr>]\<rparr>"

lemma exposing_is_ready:
  "analyze_schedule_creation_readiness shop_url_parser (\<lambda>a b. 0) (greeting_input exposing_workflow) = Some (True, [])"
  "ia_blocking (analyze_workflow_inputs exposing_workflow)"
  by code_simp+

section \<open>What the report does not look at\<close>

text \<open>The definition with every variable required, or none.\<close>

definition with_required :: "bool \<Rightarrow> workflow \<Rightarrow> workflow" where
  "with_required b w = w\<lparr>variables := map (\<lambda>v. v\<lparr>var_required := b\<rparr>) (variables w)\<rparr>"

lemma with_required_simps [simp]:
  "steps (with_required b w) = steps w" "variables (with_required b w) = map (\<lambda>v. v\<lparr>var_required := b\<rparr>) (variables w)"
  by (simp_all add: with_required_def)

lemma parse_variables_required:
  "parse_list parse_variable (map (\<lambda>v. v\<lparr>var_required := b\<rparr>) vs) =
     map_option (map (\<lambda>v. v\<lparr>var_required := b\<rparr>)) (parse_list parse_variable vs)"
proof (induction vs)
  case (Cons v vs)
  have "parse_variable (v\<lparr>var_required := b\<rparr>) = map_option (\<lambda>v. v\<lparr>var_required := b\<rparr>) (parse_variable v)"
    by (cases v) (auto simp: parse_variable_def split: bind_splits)
  with Cons show ?case by (cases "parse_variable v"; cases "parse_list parse_variable vs") simp_all
qed simp

lemma parse_required: "parse_workflow (with_required b w) = map_option (with_required b) (parse_workflow w)"
  unfolding parse_workflow_def with_required_def
  by (cases "parse_list parse_variable (variables w)")
    (auto simp: parse_variables_required Let_def duplicate_step_ids_def duplicate_variable_names_def comp_def
      split: bind_splits)

lemma variable_required: "variable_by_name (map (\<lambda>v. v\<lparr>var_required := b\<rparr>) vs) n =
    map_option (\<lambda>v. v\<lparr>var_required := b\<rparr>) (variable_by_name vs n)"
proof -
  have "map_of (map (\<lambda>v. (var_name v, f v)) xs) n = map_option f (map_of (map (\<lambda>v. (var_name v, v)) xs) n)" for f xs
    by (induction xs) auto
  from this [of "\<lambda>v. v\<lparr>var_required := b\<rparr>" "rev vs"] show ?thesis
    by (simp add: variable_by_name_def rev_map comp_def)
qed

lemma scan_required: "scan_sources (with_required b w) = scan_sources w"
proof -
  have "scan_source (map (\<lambda>v. v\<lparr>var_required := b\<rparr>) (variables w)) = scan_source (variables w)"
  proof (intro ext)
    fix l s
    show "scan_source (map (\<lambda>v. v\<lparr>var_required := b\<rparr>) (variables w)) l s = scan_source (variables w) l s"
      by (cases "(variables w, l, s)" rule: scan_source.cases)
        (auto simp: variable_required Let_def split: option.splits)
  qed
  then show ?thesis by (simp add: scan_sources_def find_value_sources_def)
qed

lemma enumerate_mapped: "List.enumerate n (map f xs) = map (\<lambda>(i, x). (i, f x)) (List.enumerate n xs)"
  by (induction xs arbitrary: n) auto

lemma inputs_required:
  "ia_issues (analyze_workflow_inputs (with_required b w)) = ia_issues (analyze_workflow_inputs w)"
  "ia_secrets (analyze_workflow_inputs (with_required b w)) = ia_secrets (analyze_workflow_inputs w)"
  by (simp_all add: analyze_workflow_inputs_def Let_def scan_required enumerate_mapped comp_def unused_issue_def
      case_prod_unfold cong: if_cong)

lemma policy_required:
  "evaluate_schedule_policy url_of cmp policy (with_required b w) pd wd = evaluate_schedule_policy url_of cmp policy w pd wd"
proof -
  have "workflow_declared_origins url_of cmp (with_required b x) = workflow_declared_origins url_of cmp x"
    "analyze_workflow_approvals (with_required b x) = analyze_workflow_approvals x"
    "policy_report cmp (with_required b x) = policy_report cmp x" for x
    by (simp_all add: workflow_declared_origins_def analyze_workflow_approvals_def approval_report_def policy_report_def
        fun_eq_iff)
  then have "evaluate_workflow_policy url_of cmp p (with_required b w) pd wd = evaluate_workflow_policy url_of cmp p w pd wd" for p
    by (cases "parse_workflow w") (simp_all add: evaluate_workflow_policy_def parse_required cong: if_cong)
  then show ?thesis by (simp add: evaluate_schedule_policy_def split: option.split)
qed

lemma missing_required:
  assumes "variables w \<noteq> []" shows "\<not> inputs_valid (snd (validate_workflow_run_inputs (with_required True w) (Some [])))"
proof -
  let ?w = "with_required True w"
  have vs: "plan_variables (prepare_run_input_plan ?w) = variables ?w"
    by (simp add: prepare_run_input_plan_def analyze_workflow_inputs_def Let_def comp_def)
  have "variable_issue [] v \<noteq> []" if "var_required v" for v
    using that by (auto simp: variable_issue_def js_get_def)
  then have "concat (map (variable_issue []) (variables ?w)) \<noteq> []"
    using assms by (cases "variables w") (simp_all del: concat_eq_Nil_conv)
  then show ?thesis by (simp add: validate_workflow_run_inputs_def Let_def vs del: with_required_simps)
qed

text \<open>
  C35: the report that decides whether a schedule may be created does not look at the inputs the
  runs need: it is the same whichever variables of the workflow are required, all or none. With all of
  them required no submission without inputs is valid, and the runs of a schedule have none.
\<close>

theorem readiness_ignores_required_variables:
  "\<lbrakk>parse_workflow (ci_definition i) = Some w; variables w \<noteq> []\<rbrakk> \<Longrightarrow>
   analyze_schedule_creation_readiness url_of cmp (i\<lparr>ci_definition := with_required True (ci_definition i)\<rparr>) =
     analyze_schedule_creation_readiness url_of cmp i \<and>
   analyze_schedule_creation_readiness url_of cmp (i\<lparr>ci_definition := with_required False (ci_definition i)\<rparr>) =
     analyze_schedule_creation_readiness url_of cmp i \<and>
   parse_workflow (with_required True (ci_definition i)) = Some (with_required True w) \<and>
   \<not> inputs_valid (snd (validate_workflow_run_inputs (with_required True w) (Some [])))"
proof (intro conjI)
  assume w: "parse_workflow (ci_definition i) = Some w" and v: "variables w \<noteq> []"
  have same: "analyze_schedule_creation_readiness url_of cmp (i\<lparr>ci_definition := with_required b (ci_definition i)\<rparr>) =
      analyze_schedule_creation_readiness url_of cmp i" for b
    using w by (simp add: analyze_schedule_creation_readiness_def Let_def parse_required check_definition_def
        check_no_inputs_required_def inputs_required check_no_forbidden_steps_def policy_required cong: if_cong option.case_cong)
  show "analyze_schedule_creation_readiness url_of cmp (i\<lparr>ci_definition := with_required True (ci_definition i)\<rparr>) =
      analyze_schedule_creation_readiness url_of cmp i"
    "analyze_schedule_creation_readiness url_of cmp (i\<lparr>ci_definition := with_required False (ci_definition i)\<rparr>) =
      analyze_schedule_creation_readiness url_of cmp i" by (rule same)+
  show "parse_workflow (with_required True (ci_definition i)) = Some (with_required True w)"
    using w by (simp add: parse_required)
  show "\<not> inputs_valid (snd (validate_workflow_run_inputs (with_required True w) (Some [])))"
    by (rule missing_required [OF v])
qed

theorem readiness_ignores_required_variables_witness:
  "\<exists>w. parse_workflow greeting_workflow = Some w \<and>
     analyze_schedule_creation_readiness shop_url_parser (\<lambda>a b. 0)
       ((greeting_input greeting_workflow)\<lparr>ci_definition := with_required True greeting_workflow\<rparr>) = Some (True, []) \<and>
     \<not> inputs_valid (snd (validate_workflow_run_inputs (with_required True w) (Some [])))"
proof -
  have "case parse_workflow greeting_workflow of None \<Rightarrow> False | Some w \<Rightarrow> variables w \<noteq> []" by code_simp
  then obtain w where w: "parse_workflow greeting_workflow = Some w" "variables w \<noteq> []"
    by (auto split: option.splits)
  then have "parse_workflow (ci_definition (greeting_input greeting_workflow)) = Some w" by (simp add: greeting_input_def)
  from readiness_ignores_required_variables [OF this w(2), of shop_url_parser "\<lambda>a b. 0"] w greeting_ready
  show ?thesis by (simp add: greeting_input_def)
qed

end
