(* ===== verification/Workflow_Lifecycle.thy ===== *)
theory Workflow_Lifecycle
  imports Workflow_Policy Workflow_Verification Workflow_Extraction Workflow_Approval Iso_Time
begin

text \<open>
  The life of a workflow version (packages/workflow-lifecycle): the transitions between its
  statuses, the readiness report that publishing requires, and the draft made from a published
  version. The issues of the schema library for a definition it refuses, and its date-time format,
  are parameters. None is the exception of a schema that refuses a report.
\<close>

section \<open>Statuses (transitions.ts)\<close>

fun status_text :: "lifecycle_status \<Rightarrow> string" where
  "status_text Draft = ''draft''"
| "status_text Testing = ''testing''"
| "status_text Published = ''published''"
| "status_text Archived = ''archived''"

definition VALID_TRANSITIONS :: "string list" where
  "VALID_TRANSITIONS = [''draft:testing'', ''testing:draft'', ''testing:published'', ''published:archived'']"

definition can_transition_workflow_lifecycle :: "lifecycle_status \<Rightarrow> lifecycle_status \<Rightarrow> bool" where
  "can_transition_workflow_lifecycle a b \<longleftrightarrow> status_text a @ '':'' @ status_text b \<in> set VALID_TRANSITIONS"

datatype lifecycle_error = InvalidLifecycleTransition | InvalidCloneInput | SourceVersionNotCloneable | InvalidNextVersion

definition validate_workflow_lifecycle_transition ::
  "lifecycle_status \<Rightarrow> lifecycle_status \<Rightarrow> lifecycle_error + (lifecycle_status \<times> lifecycle_status)" where
  "validate_workflow_lifecycle_transition a b =
     (if \<not> can_transition_workflow_lifecycle a b then Inl InvalidLifecycleTransition else Inr (a, b))"

fun lifecycle_table :: "lifecycle_status \<Rightarrow> lifecycle_status list" where
  "lifecycle_table Draft = [Testing]"
| "lifecycle_table Testing = [Draft, Published]"
| "lifecycle_table Published = [Archived]"
| "lifecycle_table Archived = []"

lemma can_transition_table: "can_transition_workflow_lifecycle a b \<longleftrightarrow> can_move lifecycle_table a b"
  by (cases a; cases b) (simp_all add: can_transition_workflow_lifecycle_def VALID_TRANSITIONS_def can_move_def)

interpretation lifecycle: transition_table lifecycle_table "\<lambda>s. s = Archived"
proof unfold_locales
  fix s show "s = Archived \<longleftrightarrow> lifecycle_table s = []" by (cases s) simp_all
qed

section \<open>Issues (publish-readiness.ts)\<close>

datatype structural_code =
    UnsupportedSchemaVersion | InvalidDefinition | StepsRequired | DuplicateStepId | DuplicateVariableName

datatype publish_code =
    PubStructural structural_code
  | PubInput input_issue_code
  | PubInvalidVerification
  | PubVerificationMissing
  | PubExtraction extraction_issue_code
  | PubApproval approval_issue_code
  | PubPolicy policy_issue_code

text \<open>\<open>ISSUE_DETAILS\<close>.\<close>

fun publish_severity :: "publish_code \<Rightarrow> severity" where
  "publish_severity (PubStructural c) = Blocking"
| "publish_severity (PubInput c) = (if c = UNUSED_VARIABLE then Warning else Blocking)"
| "publish_severity PubInvalidVerification = Blocking"
| "publish_severity PubVerificationMissing = Warning"
| "publish_severity (PubExtraction c) = (if c = UNUSED_OUTPUT then Warning else Blocking)"
| "publish_severity (PubApproval c) = Blocking"
| "publish_severity (PubPolicy c) =
     (if c \<in> {POLICY_UNKNOWN_ACTION_INTENT, POLICY_HIGH_RISK_ACTION, POLICY_MULTIPLE_WORKFLOW_ORIGINS}
      then Warning else Blocking)"

record publish_issue =
  pb_code :: publish_code
  pb_severity :: severity
  pb_path :: "path_segment list"
  pb_step_id :: "string option"
  pb_step_index :: "nat option"
  pb_variable :: "string option"

text \<open>An issue of the schema library: its code, message and path (symbols and negative numbers left out).\<close>

record zod_issue =
  zi_code :: string
  zi_message :: string
  zi_path :: "path_segment list"

definition structural_code_of :: "zod_issue \<Rightarrow> structural_code" where
  "structural_code_of x =
     (let path = zi_path x
      in if path \<noteq> [] \<and> path ! 0 = PKey ''schemaVersion'' then UnsupportedSchemaVersion
         else if length path = 1 \<and> path ! 0 = PKey ''steps'' \<and> zi_code x = ''too_small'' then StepsRequired
         else if path \<noteq> [] \<and> path ! 0 = PKey ''steps'' \<and> last path = PKey ''id'' \<and>
                 take (length ''Duplicate step ID:'') (zi_message x) = ''Duplicate step ID:'' then DuplicateStepId
         else if path \<noteq> [] \<and> path ! 0 = PKey ''variables'' \<and> last path = PKey ''name'' \<and>
                 take (length ''Duplicate variable name:'') (zi_message x) = ''Duplicate variable name:''
              then DuplicateVariableName
         else InvalidDefinition)"

definition structural_issue :: "zod_issue \<Rightarrow> publish_issue" where
  "structural_issue x =
     \<lparr>pb_code = PubStructural (structural_code_of x), pb_severity = publish_severity (PubStructural (structural_code_of x)),
      pb_path = zi_path x, pb_step_id = None, pb_step_index = None, pb_variable = None\<rparr>"

definition publish_input_issue :: "input_issue \<Rightarrow> publish_issue" where
  "publish_input_issue x =
     \<lparr>pb_code = PubInput (ii_code x), pb_severity = publish_severity (PubInput (ii_code x)), pb_path = ii_path x,
      pb_step_id = ii_step_id x, pb_step_index = ii_step_index x, pb_variable = ii_variable x\<rparr>"

definition publish_verification_issue :: "verification_issue \<Rightarrow> publish_issue" where
  "publish_verification_issue x =
     \<lparr>pb_code = PubInvalidVerification, pb_severity = Blocking, pb_path = vi_path x,
      pb_step_id = Some (vi_step_id x), pb_step_index = Some (vi_step_index x), pb_variable = None\<rparr>"

definition missing_verification :: publish_issue where
  "missing_verification =
     \<lparr>pb_code = PubVerificationMissing, pb_severity = Warning, pb_path = [PKey ''steps''],
      pb_step_id = None, pb_step_index = None, pb_variable = None\<rparr>"

definition publish_extraction_issue :: "extraction_issue \<Rightarrow> publish_issue" where
  "publish_extraction_issue x =
     \<lparr>pb_code = PubExtraction (xi_code x), pb_severity = xi_severity x, pb_path = xi_path x,
      pb_step_id = xi_step_id x, pb_step_index = xi_step_index x, pb_variable = None\<rparr>"

definition publish_approval_issue :: "approval_issue \<Rightarrow> publish_issue" where
  "publish_approval_issue x =
     \<lparr>pb_code = PubApproval (ai_code x), pb_severity = Blocking, pb_path = [PKey ''steps'', PIndex (ai_index x)],
      pb_step_id = Some (ai_step_id x), pb_step_index = Some (ai_index x), pb_variable = None\<rparr>"

definition publish_policy_issue :: "policy_issue \<Rightarrow> publish_issue" where
  "publish_policy_issue x =
     \<lparr>pb_code = PubPolicy (pi_code x), pb_severity = pi_severity x,
      pb_path = (case pi_index x of None \<Rightarrow> [PKey ''steps''] | Some i \<Rightarrow> [PKey ''steps'', PIndex i]),
      pb_step_id = pi_step_id x, pb_step_index = pi_index x, pb_variable = None\<rparr>"

section \<open>The report\<close>

record publish_report =
  pb_workflow_id :: string
  pb_version :: int
  pb_ready :: bool
  pb_issues :: "publish_issue list"
  pb_blocking_count :: nat
  pb_warning_count :: nat
  pb_issue_count :: nat
  pb_step_count :: nat
  pb_variable_count :: nat
  pb_secret_count :: nat

definition MAX_LIFECYCLE_ISSUES :: nat where "MAX_LIFECYCLE_ISSUES = 2000"

definition PLACEHOLDER_DIGEST :: string where "PLACEHOLDER_DIGEST = replicate 64 CHR ''0''"

definition refused_report :: "zod_issue list \<Rightarrow> workflow \<Rightarrow> publish_report" where
  "refused_report xs w =
     (let issues = map structural_issue (take MAX_LIFECYCLE_ISSUES xs)
      in \<lparr>pb_workflow_id = workflow_id w, pb_version = (if 0 \<le> wf_version w then wf_version w else 0),
          pb_ready = False, pb_issues = issues, pb_blocking_count = length issues, pb_warning_count = 0,
          pb_issue_count = length issues, pb_step_count = length (steps w),
          pb_variable_count = length (variables w), pb_secret_count = 0\<rparr>)"

definition policy_publish_issues ::
  "url_parser \<Rightarrow> (string \<Rightarrow> string \<Rightarrow> int) \<Rightarrow> execution_policy option \<Rightarrow> workflow \<Rightarrow> publish_issue list option" where
  "policy_publish_issues url_of cmp policy w =
     (case policy of
        None \<Rightarrow> Some []
      | Some p \<Rightarrow>
          map_option (\<lambda>ev. map publish_policy_issue (pe_issues ev))
            (evaluate_workflow_policy url_of cmp p w PLACEHOLDER_DIGEST PLACEHOLDER_DIGEST))"

definition analyze_publish_readiness ::
  "url_parser \<Rightarrow> (string \<Rightarrow> string \<Rightarrow> int) \<Rightarrow> (workflow \<Rightarrow> zod_issue list) \<Rightarrow> workflow \<Rightarrow> execution_policy option
     \<Rightarrow> publish_report option" where
  "analyze_publish_readiness url_of cmp zod input policy =
     (case parse_workflow input of
        None \<Rightarrow> Some (refused_report (zod input) input)
      | Some w \<Rightarrow> do {
          let analysis = analyze_workflow_inputs w;
          let verification = analyze_workflow_verifications url_of w;
          extraction \<leftarrow> analyze_workflow_extraction cmp w;
          approvals \<leftarrow> analyze_workflow_approvals w;
          policy_issues \<leftarrow> policy_publish_issues url_of cmp policy w;
          let issues =
            map publish_input_issue (ia_issues analysis) @
            map publish_verification_issue (v_issues verification) @
            (if has_valid_verification verification then [] else [missing_verification]) @
            map publish_extraction_issue (xa_issues extraction) @
            map publish_approval_issue (aa_issues approvals) @
            policy_issues;
          let blocking = length (filter (\<lambda>x. pb_severity x = Blocking) issues);
          guard_ok (length issues \<le> MAX_LIFECYCLE_ISSUES);
          Some \<lparr>pb_workflow_id = workflow_id w, pb_version = wf_version w, pb_ready = (blocking = 0),
                pb_issues = issues, pb_blocking_count = blocking, pb_warning_count = length issues - blocking,
                pb_issue_count = length issues, pb_step_count = length (steps w),
                pb_variable_count = length (variables w), pb_secret_count = length (ia_secrets analysis)\<rparr> })"

section \<open>Drafts of published versions (draft-clone.ts)\<close>

record clone_input =
  cl_definition :: workflow
  cl_status :: lifecycle_status
  cl_next_version :: int
  cl_created_at :: string

record draft_metadata =
  dm_version :: int
  dm_revision :: nat
  dm_status :: lifecycle_status
  dm_created_at :: string

text \<open>The outer option is the exception of the final schemas, the sum the result.\<close>

definition create_draft_version_clone ::
  "(string \<Rightarrow> bool) \<Rightarrow> clone_input \<Rightarrow> (lifecycle_error + workflow \<times> draft_metadata) option" where
  "create_draft_version_clone datetime i =
     (case parse_workflow (cl_definition i) of
        None \<Rightarrow> Some (Inl InvalidCloneInput)
      | Some src \<Rightarrow>
          if \<not> (0 < cl_next_version i \<and> datetime (cl_created_at i)) then Some (Inl InvalidCloneInput)
          else if cl_status i \<noteq> Published \<and> cl_status i \<noteq> Archived then Some (Inl SourceVersionNotCloneable)
          else if cl_next_version i \<le> wf_version src then Some (Inl InvalidNextVersion)
          else map_option (\<lambda>w. Inr (w, \<lparr>dm_version = cl_next_version i, dm_revision = 1, dm_status = Draft,
                                          dm_created_at = cl_created_at i\<rparr>))
                 (parse_workflow (src\<lparr>wf_version := cl_next_version i, wf_status := Draft\<rparr>)))"

section \<open>Lemmas\<close>

lemma scan_source_severity:
  "\<forall>x\<in>set (scan_issues s). ii_severity x = publish_severity (PubInput (ii_code x)) \<Longrightarrow>
   \<forall>x\<in>set (scan_issues (scan_source vs a s)). ii_severity x = publish_severity (PubInput (ii_code x))"
  by (cases "(vs, a, s)" rule: scan_source.cases)
    (auto simp: Let_def issue_for_usage_def split: option.splits)

lemma fold_scan_severity:
  "\<forall>x\<in>set (scan_issues s). ii_severity x = publish_severity (PubInput (ii_code x)) \<Longrightarrow>
   \<forall>x\<in>set (scan_issues (fold (scan_source vs) xs s)). ii_severity x = publish_severity (PubInput (ii_code x))"
proof (induction xs arbitrary: s)
  case (Cons a xs)
  from Cons.IH [OF scan_source_severity [OF Cons.prems]] show ?case by (simp only: fold.simps comp_apply)
next
  case Nil
  then show ?case by (simp only: fold.simps id_apply)
qed

lemma unused_code:
  "x \<in> set (concat (map (\<lambda>(i, v). if P v then [unused_issue i v] else []) xs)) \<Longrightarrow>
     ii_severity x = publish_severity (PubInput (ii_code x))"
  by (auto simp: unused_issue_def split: if_splits)

lemma input_severity:
  assumes "x \<in> set (ia_issues (analyze_workflow_inputs w))"
  shows "pb_severity (publish_input_issue x) = ii_severity x"
proof -
  have "\<forall>y\<in>set (scan_issues (scan_sources w)). ii_severity y = publish_severity (PubInput (ii_code y))"
    unfolding scan_sources_def by (rule fold_scan_severity) (simp add: initial_scan_def)
  moreover from assms have "x \<in> set (scan_issues (scan_sources w)) \<or>
      x \<in> set (concat (map (\<lambda>(i, v). if usages_by (scan_sources w) (var_name v) = [] then [unused_issue i v] else [])
        (List.enumerate 0 (variables w))))"
    unfolding analyze_workflow_inputs_def Let_def by (simp only: input_analysis.simps set_append Un_iff)
  ultimately have "ii_severity x = publish_severity (PubInput (ii_code x))"
    using unused_code [of x "\<lambda>v. usages_by (scan_sources w) (var_name v) = []"] by metis
  then show ?thesis by (simp add: publish_input_issue_def)
qed

lemma input_report_blocking:
  "ia_blocking (analyze_workflow_inputs w) \<longleftrightarrow> (\<exists>x\<in>set (ia_issues (analyze_workflow_inputs w)). ii_severity x = Blocking)"
  by (simp add: analyze_workflow_inputs_def Let_def)

lemma extraction_blocking:
  "xa_blocking (extraction_report cmp w) \<longleftrightarrow> (\<exists>x\<in>set (xa_issues (extraction_report cmp w)). xi_severity x = Blocking)"
  by (simp add: extraction_report_def Let_def)

lemma extraction_report_blocking:
  "analyze_workflow_extraction cmp w = Some a \<Longrightarrow> xa_blocking a \<longleftrightarrow> (\<exists>x\<in>set (xa_issues a). xi_severity x = Blocking)"
  unfolding analyze_workflow_extraction_def Let_def using extraction_blocking [of cmp w] by (auto split: if_splits)

lemma approval_report_blocking:
  "analyze_workflow_approvals w = Some a \<Longrightarrow> aa_blocking a \<longleftrightarrow> aa_issues a \<noteq> []"
  by (auto simp: analyze_workflow_approvals_def approval_report_def Let_def split: if_splits prod.splits)

lemma reclone:
  "parse_workflow w = Some w \<Longrightarrow> 0 < v \<Longrightarrow>
     parse_workflow (w\<lparr>wf_version := v, wf_status := Draft\<rparr>) = Some (w\<lparr>wf_version := v, wf_status := Draft\<rparr>)"
  by (cases w)
    (auto simp: parse_workflow_def Let_def duplicate_step_ids_def duplicate_variable_names_def split: bind_splits if_splits)

text \<open>
  The draft made from a version has its steps and variables, a greater version number and the
  status draft, and parses to itself; and it is only made from a published or archived version. A
  valid source never makes the final schemas throw.
\<close>

lemma clone_is_a_new_draft:
  "create_draft_version_clone datetime i \<noteq> None \<and>
   (create_draft_version_clone datetime i = Some (Inr (w, m)) \<longrightarrow>
     (\<exists>src. parse_workflow (cl_definition i) = Some src \<and> cl_status i \<in> {Published, Archived} \<and>
        w = src\<lparr>wf_version := cl_next_version i, wf_status := Draft\<rparr> \<and> wf_version src < wf_version w \<and>
        parse_workflow w = Some w \<and> dm_version m = wf_version w \<and> dm_status m = Draft))"
proof (cases "parse_workflow (cl_definition i)")
  case None
  then show ?thesis by (simp add: create_draft_version_clone_def)
next
  case (Some src)
  have "parse_workflow src = Some src" using definition_schema.reparse [OF Some] .
  note again = reclone [OF this, of "cl_next_version i"]
  from Some again show ?thesis
    by (cases "0 < cl_next_version i") (auto simp: create_draft_version_clone_def)
qed

section \<open>Properties\<close>

text \<open>
  C24: a version that is reported ready to publish under a policy is a valid definition that none of
  the analyses blocks, the inputs, the verifications, the outputs and the approvals, and that the
  policy does not block either.
\<close>

theorem publishable_version_is_unblocked:
  "analyze_publish_readiness url_of cmp zod input (Some policy) = Some r \<Longrightarrow> pb_ready r \<Longrightarrow>
   \<exists>w ev a g. parse_workflow input = Some w \<and> wf_workflow w \<and>
     \<not> ia_blocking (analyze_workflow_inputs w) \<and>
     v_issues (analyze_workflow_verifications url_of w) = [] \<and>
     analyze_workflow_extraction cmp w = Some a \<and> \<not> xa_blocking a \<and>
     analyze_workflow_approvals w = Some g \<and> \<not> aa_blocking g \<and>
     evaluate_workflow_policy url_of cmp policy w PLACEHOLDER_DIGEST PLACEHOLDER_DIGEST = Some ev \<and>
     \<not> (\<exists>x\<in>set (pe_issues ev). pi_severity x = Blocking)"
proof -
  assume r: "analyze_publish_readiness url_of cmp zod input (Some policy) = Some r" and ready: "pb_ready r"
  then obtain w where w: "parse_workflow input = Some w"
    by (auto simp: analyze_publish_readiness_def refused_report_def Let_def split: option.splits)
  with r obtain a g ev where
    parts: "analyze_workflow_extraction cmp w = Some a" "analyze_workflow_approvals w = Some g"
      "evaluate_workflow_policy url_of cmp policy w PLACEHOLDER_DIGEST PLACEHOLDER_DIGEST = Some ev"
    by (auto simp: analyze_publish_readiness_def policy_publish_issues_def Let_def split: bind_splits)
  from r ready w parts have none:
    "\<forall>x\<in>set (ia_issues (analyze_workflow_inputs w)). pb_severity (publish_input_issue x) \<noteq> Blocking"
    "\<forall>x\<in>set (v_issues (analyze_workflow_verifications url_of w)). pb_severity (publish_verification_issue x) \<noteq> Blocking"
    "\<forall>x\<in>set (xa_issues a). pb_severity (publish_extraction_issue x) \<noteq> Blocking"
    "\<forall>x\<in>set (aa_issues g). pb_severity (publish_approval_issue x) \<noteq> Blocking"
    "\<forall>x\<in>set (pe_issues ev). pb_severity (publish_policy_issue x) \<noteq> Blocking"
    by (auto simp: analyze_publish_readiness_def policy_publish_issues_def Let_def filter_empty_conv split: if_splits)
  have "\<not> ia_blocking (analyze_workflow_inputs w)"
    using none(1) input_severity by (auto simp: input_report_blocking)
  moreover have "v_issues (analyze_workflow_verifications url_of w) = []"
    using none(2) by (cases "v_issues (analyze_workflow_verifications url_of w)") (auto simp: publish_verification_issue_def)
  moreover have "\<not> xa_blocking a"
    using none(3) by (auto simp: extraction_report_blocking [OF parts(1)] publish_extraction_issue_def)
  moreover have "aa_issues g = []"
    using none(4) by (cases "aa_issues g") (auto simp: publish_approval_issue_def)
  then have "\<not> aa_blocking g" by (simp add: approval_report_blocking [OF parts(2)])
  ultimately show ?thesis
    using w parts parse_workflow_wf [OF w] none(5) by (auto simp: publish_policy_issue_def)
qed

text \<open>The shop's workflow with a check at its end.\<close>

definition checked_workflow :: workflow where
  "checked_workflow = shop_workflow\<lparr>steps := steps shop_workflow @
     [\<lparr>step_id = ''check'', step_name = ''Check'', body = Verify (Visible (Css ''.done'')) None\<rparr>]\<rparr>"

theorem publishable_version_is_unblocked_witness:
  "\<exists>r w. analyze_publish_readiness shop_url_parser (\<lambda>a b. 0) (\<lambda>w. []) checked_workflow (Some shop_policy) = Some r \<and>
     pb_ready r \<and> parse_workflow checked_workflow = Some w \<and> \<not> ia_blocking (analyze_workflow_inputs w)"
proof -
  have "map_option pb_ready
      (analyze_publish_readiness shop_url_parser (\<lambda>a b. 0) (\<lambda>w. []) checked_workflow (Some shop_policy)) = Some True"
    by code_simp
  then obtain r where r: "analyze_publish_readiness shop_url_parser (\<lambda>a b. 0) (\<lambda>w. []) checked_workflow (Some shop_policy) = Some r"
    "pb_ready r" by auto
  with publishable_version_is_unblocked [OF r] show ?thesis by blast
qed

end
