(* ===== verification/Workflow_Editor.thy ===== *)
theory Workflow_Editor
  imports Workflow_Lifecycle
begin

text \<open>
  The check of a draft before it is saved (packages/workflow-editor-core: validation.ts and
  navigate-url-policy.ts). The keys of a URL's query (\<open>URLSearchParams\<close>) are a parameter, as the
  URL parser is.
\<close>

section \<open>URLs of navigations (navigate-url-policy.ts)\<close>

datatype navigate_code =
  NAVIGATE_URL_INVALID | NAVIGATE_URL_PROTOCOL_UNSUPPORTED | NAVIGATE_URL_CREDENTIALS_FORBIDDEN |
  NAVIGATE_URL_SENSITIVE_QUERY

text \<open>
  \<open>/(?:^|[_-])(auth|...)(?:$|[_-])/i\<close>: one of the words between separators or the ends of the key.
\<close>

definition SENSITIVE_WORDS :: "string list" where
  "SENSITIVE_WORDS =
     [''auth'', ''authorization'', ''token'', ''access'', ''refresh'', ''password'', ''passcode'', ''pin'',
      ''otp'', ''code'', ''secret'', ''session'', ''cookie'', ''card'', ''cvv'', ''cvc'', ''ssn'', ''identity'',
      ''health'']"

definition any_text :: rx where "any_text = Many (Class (\<lambda>_. True))"

definition separator :: rx where "separator = Class (\<lambda>c. c = CHR ''_'' \<or> c = CHR ''-'')"

definition SENSITIVE_QUERY_PARAMETER :: rx where
  "SENSITIVE_QUERY_PARAMETER =
     Cat (Either Empty (Cat any_text separator))
       (Cat (rx_alts (map rx_lit_i SENSITIVE_WORDS)) (Either Empty (Cat separator any_text)))"

definition validate_navigate_url :: "url_parser \<Rightarrow> (url \<Rightarrow> string list) \<Rightarrow> string \<Rightarrow> navigate_code option" where
  "validate_navigate_url url_of query_keys s =
     (case url_of s of
        None \<Rightarrow> Some NAVIGATE_URL_INVALID
      | Some u \<Rightarrow>
          if url_protocol u \<noteq> ''http:'' \<and> url_protocol u \<noteq> ''https:'' then Some NAVIGATE_URL_PROTOCOL_UNSUPPORTED
          else if url_username u \<noteq> [] \<or> url_password u \<noteq> [] then Some NAVIGATE_URL_CREDENTIALS_FORBIDDEN
          else if list_ex (rx_matches SENSITIVE_QUERY_PARAMETER) (query_keys u) then Some NAVIGATE_URL_SENSITIVE_QUERY
          else None)"

section \<open>Validation (validation.ts)\<close>

datatype editor_code =
    EdSchema string
  | EdNavigate navigate_code
  | EdInput input_issue_code
  | EdVerification verification_issue_code
  | EdExtraction extraction_issue_code
  | EdApproval approval_issue_code

record editor_issue =
  ed_code :: editor_code
  ed_path :: "path_segment list"
  ed_step_id :: "string option"
  ed_step_index :: "nat option"

definition with_step_context :: "zod_issue \<Rightarrow> workflow \<Rightarrow> editor_issue" where
  "with_step_context x w =
     (let index = (case zi_path x of PKey k # PIndex i # _ \<Rightarrow> if k = ''steps'' then Some i else None | _ \<Rightarrow> None)
      in \<lparr>ed_code = EdSchema (zi_code x), ed_path = zi_path x,
          ed_step_id = (case index of None \<Rightarrow> None
            | Some i \<Rightarrow> if i < length (steps w) then Some (step_id (steps w ! i)) else None),
          ed_step_index = index\<rparr>)"

fun navigate_issue :: "url_parser \<Rightarrow> (url \<Rightarrow> string list) \<Rightarrow> nat \<times> workflow_step \<Rightarrow> editor_issue list" where
  "navigate_issue url_of query_keys (i, s) =
     (case body s of
        Navigate (Literal (LitString u)) \<Rightarrow>
          (case validate_navigate_url url_of query_keys u of
             None \<Rightarrow> []
           | Some c \<Rightarrow> [\<lparr>ed_code = EdNavigate c, ed_path = [PKey ''steps'', PIndex i, PKey ''url''],
                         ed_step_id = Some (step_id s), ed_step_index = Some i\<rparr>])
      | _ \<Rightarrow> [])"

text \<open>None is the exception of an analysis whose own report its schema refuses.\<close>

definition validate_editor_workflow ::
  "url_parser \<Rightarrow> (url \<Rightarrow> string list) \<Rightarrow> (string \<Rightarrow> string \<Rightarrow> int) \<Rightarrow> (workflow \<Rightarrow> zod_issue list) \<Rightarrow> workflow
     \<Rightarrow> editor_issue list option" where
  "validate_editor_workflow url_of query_keys cmp zod input =
     (case parse_workflow input of
        None \<Rightarrow> Some (map (\<lambda>x. with_step_context x input) (zod input))
      | Some w \<Rightarrow> do {
          extraction \<leftarrow> analyze_workflow_extraction cmp w;
          approvals \<leftarrow> analyze_workflow_approvals w;
          Some (concat (map (navigate_issue url_of query_keys) (List.enumerate 0 (steps w))) @
            map (\<lambda>x. \<lparr>ed_code = EdInput (ii_code x), ed_path = ii_path x, ed_step_id = ii_step_id x,
                      ed_step_index = ii_step_index x\<rparr>)
              (filter (\<lambda>x. ii_severity x = Blocking) (ia_issues (analyze_workflow_inputs w))) @
            map (\<lambda>x. \<lparr>ed_code = EdVerification (vi_code x), ed_path = vi_path x, ed_step_id = Some (vi_step_id x),
                      ed_step_index = Some (vi_step_index x)\<rparr>)
              (v_issues (analyze_workflow_verifications url_of w)) @
            map (\<lambda>x. \<lparr>ed_code = EdExtraction (xi_code x), ed_path = xi_path x, ed_step_id = xi_step_id x,
                      ed_step_index = xi_step_index x\<rparr>)
              (filter (\<lambda>x. xi_severity x = Blocking) (xa_issues extraction)) @
            map (\<lambda>x. \<lparr>ed_code = EdApproval (ai_code x), ed_path = [PKey ''steps'', PIndex (ai_index x)],
                      ed_step_id = Some (ai_step_id x), ed_step_index = Some (ai_index x)\<rparr>)
              (aa_issues approvals)) })"

end
