(* ===== verification/Audit_Chain.thy ===== *)
theory Audit_Chain
  imports Audit_Payloads
begin

text \<open>
  The hash chain of a workspace's audit trail (packages/audit-trail: hash-chain.ts, hasher.ts,
  verification.ts): the content of an event as canonical JSON, its digest and hash, and the
  verification of a stored range. \<open>linked\<close> says what a chain is; the verifier decides it, and
  the hash of the last event determines the whole chain.
\<close>

section \<open>Events\<close>

datatype audit_actor = UserActor string | RunnerActor string | SystemActor string

record entity_ref =
  entity_kind :: string
  entity_id :: string

text \<open>What the caller says of an event; what the chain adds to it; what is stored.\<close>

record audit_facts =
  ev_schema_version :: int
  ev_workspace :: string
  ev_type :: string
  ev_actor :: audit_actor
  ev_primary :: entity_ref
  ev_related :: "entity_ref list"
  ev_occurred_at :: string
  ev_source :: string
  ev_correlation :: "string option"

record audit_content = audit_facts +
  ev_sequence :: int
  ev_payload_digest :: string
  ev_previous_hash :: string

record pending_event = audit_content +
  ev_payload :: json
  ev_hash :: string

record stored_event = pending_event +
  ev_id :: string
  ev_created_at :: string

text \<open>Error codes of the package, the errors of its storage, and a JavaScript \<open>TypeError\<close>.\<close>

datatype audit_exn =
    AuditEventInvalid
  | AuditHashInvalid
  | AuditPayloadTooLarge
  | AuditSourceConflict
  | AuditTypeError
  | ChainHeadMissing
  | HeadMetadataMissing
  | UniqueViolation
  | RecordNotFound

definition GENESIS_PREVIOUS_HASH :: string where
  "GENESIS_PREVIOUS_HASH = replicate 64 CHR ''0''"

section \<open>Hashing\<close>

definition require_sha256_hex :: "string \<Rightarrow> audit_exn + string" where
  "require_sha256_hex s = (if digest_ok s then Inr s else Inl AuditHashInvalid)"

definition hash_audit_content :: "audit_host \<Rightarrow> string \<Rightarrow> audit_exn + string" where
  "hash_audit_content h t = require_sha256_hex (sha256_hex h t)"

definition canonical_text :: "audit_host \<Rightarrow> json \<Rightarrow> audit_exn + string" where
  "canonical_text h v =
     (case serialize_canonical_json (number_text h) v of
        None \<Rightarrow> Inl AuditTypeError
      | Some t \<Rightarrow> Inr t)"

definition create_audit_payload_digest :: "audit_host \<Rightarrow> json \<Rightarrow> audit_exn + string" where
  "create_audit_payload_digest h v = ebind (canonical_text h v) (hash_audit_content h)"

fun actor_json :: "audit_actor \<Rightarrow> json" where
  "actor_json (UserActor u) = JObject [(''type'', JString ''user''), (''userId'', JString u)]"
| "actor_json (RunnerActor r) = JObject [(''type'', JString ''runner''), (''runnerDeviceId'', JString r)]"
| "actor_json (SystemActor r) = JObject [(''type'', JString ''system''), (''reason'', JString r)]"

definition entity_json :: "entity_ref \<Rightarrow> json" where
  "entity_json e = JObject [(''kind'', JString (entity_kind e)), (''id'', JString (entity_id e))]"

definition content_json :: "'a audit_content_scheme \<Rightarrow> json" where
  "content_json c = JObject (
     [(''actor'', actor_json (ev_actor c))] @
     (case ev_correlation c of None \<Rightarrow> [] | Some k \<Rightarrow> [(''correlationId'', JString k)]) @
     [(''eventType'', JString (ev_type c)),
      (''occurredAt'', JString (ev_occurred_at c)),
      (''payloadDigest'', JString (ev_payload_digest c)),
      (''previousHash'', JString (ev_previous_hash c)),
      (''primaryEntity'', entity_json (ev_primary c)),
      (''relatedEntities'', JArray (map entity_json (ev_related c))),
      (''schemaVersion'', JNumber (of_int (ev_schema_version c))),
      (''sequence'', JNumber (of_int (ev_sequence c))),
      (''sourceId'', JString (ev_source c)),
      (''workspaceId'', JString (ev_workspace c))])"

definition serialize_audit_hash_content :: "audit_host \<Rightarrow> 'a audit_content_scheme \<Rightarrow> audit_exn + string" where
  "serialize_audit_hash_content h c =
     (case normalize_audit_timestamp (ev_occurred_at c) of
        None \<Rightarrow> Inl AuditTypeError
      | Some occurred \<Rightarrow>
          ebind (require_sha256_hex (ev_payload_digest c)) (\<lambda>payload_digest.
          ebind (require_sha256_hex (ev_previous_hash c)) (\<lambda>previous_hash.
            if \<not> (1 \<le> ev_sequence c \<and> ev_sequence c \<le> MAX_SAFE_INTEGER) then Inl AuditTypeError
            else canonical_text h (content_json
              (c\<lparr>ev_occurred_at := occurred, ev_payload_digest := payload_digest, ev_previous_hash := previous_hash\<rparr>)))))"

definition create_audit_event_hash :: "audit_host \<Rightarrow> 'a audit_content_scheme \<Rightarrow> audit_exn + string" where
  "create_audit_event_hash h c = ebind (serialize_audit_hash_content h c) (hash_audit_content h)"

section \<open>Verification\<close>

datatype failure_code =
  SequenceGap | PreviousHashMismatch | PayloadDigestMismatch | EventHashMismatch | HeadHashMismatch

record verification =
  vr_valid :: bool
  vr_checked_count :: nat
  vr_first_sequence :: "int option"
  vr_last_sequence :: "int option"
  vr_computed_head :: string
  vr_stored_head :: string
  vr_failure :: "(failure_code \<times> int) option"

record verification_options =
  vo_first_sequence :: "int option"
  vo_previous_hash :: "string option"
  vo_stored_head :: string
  vo_require_head :: "bool option"

definition failure :: "verification \<Rightarrow> failure_code \<Rightarrow> int \<Rightarrow> verification" where
  "failure base code n = base\<lparr>vr_valid := False, vr_failure := Some (code, n)\<rparr>"

text \<open>
  The loop over the events: a failure ends it with a result (\<open>Inl\<close>), otherwise it leaves the
  number of events checked and the hash of the last one. A hash that cannot be computed throws.
\<close>

fun verify_events ::
  "audit_host \<Rightarrow> string \<Rightarrow> int option \<Rightarrow> nat \<Rightarrow> int \<Rightarrow> string \<Rightarrow> stored_event list \<Rightarrow>
     audit_exn + (verification + nat \<times> string)" where
  "verify_events h stored first checked expected previous [] = Inr (Inr (checked, previous))"
| "verify_events h stored first checked expected previous (e # es) =
     (let base = \<lparr>vr_valid = True, vr_checked_count = checked, vr_first_sequence = first,
         vr_last_sequence = (if checked = 0 then None else Some (expected - 1)),
         vr_computed_head = previous, vr_stored_head = stored, vr_failure = None\<rparr>
      in if ev_sequence e \<noteq> expected then Inr (Inl (failure base SequenceGap (ev_sequence e)))
         else if ev_previous_hash e \<noteq> previous
         then Inr (Inl (failure base PreviousHashMismatch (ev_sequence e)))
         else ebind (create_audit_payload_digest h (ev_payload e)) (\<lambda>d.
           if d \<noteq> ev_payload_digest e
           then Inr (Inl (failure base PayloadDigestMismatch (ev_sequence e)))
           else ebind (create_audit_event_hash h e) (\<lambda>x.
             if x \<noteq> ev_hash e then Inr (Inl (failure base EventHashMismatch (ev_sequence e)))
             else verify_events h stored first (Suc checked) (expected + 1) (ev_hash e) es)))"

definition last_sequence :: "stored_event list \<Rightarrow> int option" where
  "last_sequence es = (if es = [] then None else Some (ev_sequence (last es)))"

definition first_sequence :: "stored_event list \<Rightarrow> int option" where
  "first_sequence es = (case es of [] \<Rightarrow> None | e # _ \<Rightarrow> Some (ev_sequence e))"

definition or_else :: "'a option \<Rightarrow> 'a \<Rightarrow> 'a" where
  "or_else x d = (case x of None \<Rightarrow> d | Some a \<Rightarrow> a)"

lemma or_else_simps [simp]: "or_else None d = d" "or_else (Some a) d = a"
  by (simp_all add: or_else_def)

definition verify_audit_event_chain ::
  "audit_host \<Rightarrow> stored_event list \<Rightarrow> verification_options \<Rightarrow> audit_exn + verification" where
  "verify_audit_event_chain h es opts =
     (let expected_first = or_else (vo_first_sequence opts) 1
      in ebind (verify_events h (vo_stored_head opts) (first_sequence es) 0 expected_first
             (or_else (vo_previous_hash opts) GENESIS_PREVIOUS_HASH) es)
           (\<lambda>r. case r of
              Inl v \<Rightarrow> Inr v
            | Inr (checked, previous) \<Rightarrow>
                let base = \<lparr>vr_valid = True, vr_checked_count = checked,
                  vr_first_sequence = first_sequence es, vr_last_sequence = last_sequence es,
                  vr_computed_head = previous, vr_stored_head = vo_stored_head opts, vr_failure = None\<rparr>
                in if or_else (vo_require_head opts) True \<and> previous \<noteq> vo_stored_head opts
                   then Inr (failure base HeadHashMismatch (or_else (last_sequence es) expected_first))
                   else Inr base))"

section \<open>What a chain is\<close>

definition event_ok :: "audit_host \<Rightarrow> int \<Rightarrow> string \<Rightarrow> 'a pending_event_scheme \<Rightarrow> bool" where
  "event_ok h n previous e \<longleftrightarrow>
     ev_sequence e = n \<and> ev_previous_hash e = previous \<and>
     create_audit_payload_digest h (ev_payload e) = Inr (ev_payload_digest e) \<and>
     create_audit_event_hash h e = Inr (ev_hash e)"

text \<open>Events \<open>n, n + 1, \<dots>\<close> after the hash \<open>p\<close>, the last of them with hash \<open>q\<close>.\<close>

fun linked :: "audit_host \<Rightarrow> int \<Rightarrow> string \<Rightarrow> 'a pending_event_scheme list \<Rightarrow> string \<Rightarrow> bool" where
  "linked h n p [] q = (p = q)"
| "linked h n p (e # es) q = (event_ok h n p e \<and> linked h (n + 1) (ev_hash e) es q)"

lemma linked_append:
  "linked h n p (es @ fs) q \<longleftrightarrow> (\<exists>m. linked h n p es m \<and> linked h (n + int (length es)) m fs q)"
  by (induction es arbitrary: n p) (auto simp: algebra_simps)

lemma linked_head: "linked h n p es q \<Longrightarrow> q = (if es = [] then p else ev_hash (last es))"
  by (induction es arbitrary: n p) auto

lemma linked_sequences:
  "linked h n p es q \<Longrightarrow> i < length es \<Longrightarrow> ev_sequence (es ! i) = n + int i"
proof (induction es arbitrary: n p i)
  case (Cons e es)
  then show ?case by (cases i) (auto simp: event_ok_def)
qed simp

lemma linked_last: "linked h n p es q \<Longrightarrow> es \<noteq> [] \<Longrightarrow> ev_sequence (last es) = n + int (length es) - 1"
  using linked_sequences [of h n p es q "length es - 1"] by (cases es) (auto simp: last_conv_nth)

lemma linked_map_sequence: "linked h n p es q \<Longrightarrow> map ev_sequence es = map (\<lambda>i. n + int i) [0..<length es]"
  by (rule nth_equalityI) (auto simp: linked_sequences)

lemma verify_events_linked:
  "verify_events h stored first c n p es = Inr (Inr (k, q)) \<longleftrightarrow> linked h n p es q \<and> k = c + length es"
proof (induction h stored first c n p es rule: verify_events.induct)
  case (2 h stored first c n p e es)
  show ?case
  proof (cases "event_ok h n p e")
    case True
    with 2 show ?thesis by (auto simp: event_ok_def)
  next
    case False
    then show ?thesis
      by (cases "create_audit_payload_digest h (ev_payload e)"; cases "create_audit_event_hash h e")
        (auto simp: event_ok_def Let_def)
  qed
qed auto

lemma verify_events_failure_invalid:
  "verify_events h stored first c n p es = Inr (Inl v) \<Longrightarrow> \<not> vr_valid v"
  by (induction h stored first c n p es rule: verify_events.induct)
    (auto simp: failure_def Let_def ebind_Inr split: if_splits)

text \<open>The verifier accepts exactly the chains.\<close>

definition chain_of :: "audit_host \<Rightarrow> verification_options \<Rightarrow> stored_event list \<Rightarrow> string \<Rightarrow> bool" where
  "chain_of h opts es q \<longleftrightarrow>
     linked h (or_else (vo_first_sequence opts) 1) (or_else (vo_previous_hash opts) GENESIS_PREVIOUS_HASH) es q"

lemma verify_accepts:
  "(\<exists>v. verify_audit_event_chain h es opts = Inr v \<and> vr_valid v) \<longleftrightarrow>
   (\<exists>q. chain_of h opts es q \<and> (or_else (vo_require_head opts) True \<longrightarrow> q = vo_stored_head opts))"
  (is "?l \<longleftrightarrow> ?r")
proof -
  let ?v = "verify_events h (vo_stored_head opts) (first_sequence es) 0 (or_else (vo_first_sequence opts) 1)
    (or_else (vo_previous_hash opts) GENESIS_PREVIOUS_HASH) es"
  have none: "linked h (or_else (vo_first_sequence opts) 1) (or_else (vo_previous_hash opts) GENESIS_PREVIOUS_HASH) es q \<Longrightarrow>
      ?v = Inr (Inr (length es, q))" for q
    using verify_events_linked [where c = 0] by fastforce
  consider (ended) k q where "?v = Inr (Inr (k, q))" | (failed) v where "?v = Inr (Inl v)"
    | (threw) x where "?v = Inl x"
    by (metis sum.exhaust surj_pair)
  then show ?thesis
  proof cases
    case ended
    with verify_events_linked have "chain_of h opts es q" by (auto simp: chain_of_def)
    moreover from this have "chain_of h opts es q' \<longleftrightarrow> q' = q" for q'
      unfolding chain_of_def using linked_head by metis
    ultimately show ?thesis
      using ended by (auto simp: verify_audit_event_chain_def failure_def Let_def)
  next
    case failed
    moreover from this have "\<not> chain_of h opts es q" for q
      unfolding chain_of_def using none by fastforce
    ultimately show ?thesis
      using verify_events_failure_invalid [OF failed] by (auto simp: verify_audit_event_chain_def Let_def)
  next
    case threw
    moreover from this have "\<not> chain_of h opts es q" for q
      unfolding chain_of_def using none by fastforce
    ultimately show ?thesis by (auto simp: verify_audit_event_chain_def Let_def)
  qed
qed

section \<open>The last hash determines the chain\<close>

text \<open>Equal canonical objects have the same members.\<close>

lemma map_of_sort_key: "distinct (map fst kvs) \<Longrightarrow> map_of (sort_key fst kvs) = map_of (kvs :: (string \<times> 'a) list)"
  by (subst map_of_inject_set) (auto simp: distinct_map)

lemma canonical_members:
  assumes "canonical (JObject kvs) = canonical (JObject kws)"
    and "distinct (map fst kvs)" and "distinct (map fst kws)"
  shows "map_option canonical (map_of kvs k) = map_option canonical (map_of kws k)"
proof -
  have "map_of (map (\<lambda>kv. (fst kv, canonical (snd kv))) xs) = (\<lambda>k. map_option canonical (map_of xs k))" for xs
    by (induction xs) auto
  then have "map_option canonical (map_of (sort_key fst xs) k) =
      map_of (map (\<lambda>kv. (fst kv, canonical (snd kv))) (sort_key fst xs)) k" for xs by metis
  with assms(1) have "map_option canonical (map_of (sort_key fst kvs) k) = map_option canonical (map_of (sort_key fst kws) k)"
    by simp
  with assms(2,3) show ?thesis by (simp add: map_of_sort_key)
qed

lemma entity_json_inj: "canonical (entity_json e) = canonical (entity_json f) \<Longrightarrow> e = f"
  using canonical_members [of "[(''kind'', JString (entity_kind e)), (''id'', JString (entity_id e))]"
      "[(''kind'', JString (entity_kind f)), (''id'', JString (entity_id f))]" "''kind''"]
    canonical_members [of "[(''kind'', JString (entity_kind e)), (''id'', JString (entity_id e))]"
      "[(''kind'', JString (entity_kind f)), (''id'', JString (entity_id f))]" "''id''"]
  by (simp add: entity_json_def)

lemma entities_json_inj:
  "map (canonical \<circ> entity_json) es = map (canonical \<circ> entity_json) fs \<Longrightarrow> es = fs"
proof (induction es arbitrary: fs)
  case (Cons e es)
  then show ?case by (cases fs) (auto dest: entity_json_inj)
qed simp

fun actor_fields :: "audit_actor \<Rightarrow> (string \<times> json) list" where
  "actor_fields (UserActor u) = [(''type'', JString ''user''), (''userId'', JString u)]"
| "actor_fields (RunnerActor r) = [(''type'', JString ''runner''), (''runnerDeviceId'', JString r)]"
| "actor_fields (SystemActor r) = [(''type'', JString ''system''), (''reason'', JString r)]"

lemma actor_json_inj: "canonical (actor_json a) = canonical (actor_json b) \<Longrightarrow> a = b"
proof -
  assume e: "canonical (actor_json a) = canonical (actor_json b)"
  have f: "actor_json c = JObject (actor_fields c)" "distinct (map fst (actor_fields c))" for c
    by (cases c; simp)+
  from canonical_members [OF e [unfolded f(1)] f(2) f(2)]
  have "map_option canonical (map_of (actor_fields a) k) = map_option canonical (map_of (actor_fields b) k)" for k .
  from this [of "''type''"] this [of "''userId''"] this [of "''runnerDeviceId''"] this [of "''reason''"]
  show ?thesis by (cases a; cases b) auto
qed

definition content_fields :: "'a audit_content_scheme \<Rightarrow> (string \<times> json) list" where
  "content_fields c = (case content_json c of JObject kvs \<Rightarrow> kvs | _ \<Rightarrow> [])"

lemma content_fields: "content_json c = JObject (content_fields c)" "distinct (map fst (content_fields c))"
  by (cases "ev_correlation c"; simp add: content_fields_def content_json_def)+

lemma content_field:
  "map_of (content_fields c) ''actor'' = Some (actor_json (ev_actor c))"
  "map_of (content_fields c) ''correlationId'' = map_option JString (ev_correlation c)"
  "map_of (content_fields c) ''eventType'' = Some (JString (ev_type c))"
  "map_of (content_fields c) ''occurredAt'' = Some (JString (ev_occurred_at c))"
  "map_of (content_fields c) ''payloadDigest'' = Some (JString (ev_payload_digest c))"
  "map_of (content_fields c) ''previousHash'' = Some (JString (ev_previous_hash c))"
  "map_of (content_fields c) ''primaryEntity'' = Some (entity_json (ev_primary c))"
  "map_of (content_fields c) ''relatedEntities'' = Some (JArray (map entity_json (ev_related c)))"
  "map_of (content_fields c) ''schemaVersion'' = Some (JNumber (of_int (ev_schema_version c)))"
  "map_of (content_fields c) ''sequence'' = Some (JNumber (of_int (ev_sequence c)))"
  "map_of (content_fields c) ''sourceId'' = Some (JString (ev_source c))"
  "map_of (content_fields c) ''workspaceId'' = Some (JString (ev_workspace c))"
  by (cases "ev_correlation c"; simp add: content_fields_def content_json_def)+

lemma content_json_inj:
  assumes "canonical (content_json c) = canonical (content_json d)"
  shows "audit_content.truncate c = audit_content.truncate d"
proof -
  from canonical_members [OF assms [unfolded content_fields(1)] content_fields(2) content_fields(2)]
  have m: "map_option canonical (map_of (content_fields c) k) = map_option canonical (map_of (content_fields d) k)" for k .
  note e = m [of "''actor''"] m [of "''correlationId''"] m [of "''eventType''"] m [of "''occurredAt''"]
    m [of "''payloadDigest''"] m [of "''previousHash''"] m [of "''primaryEntity''"] m [of "''relatedEntities''"]
    m [of "''schemaVersion''"] m [of "''sequence''"] m [of "''sourceId''"] m [of "''workspaceId''"]
  have corr: "ev_correlation c = ev_correlation d"
    using e(2) by (cases "ev_correlation c"; cases "ev_correlation d") (simp_all add: content_field)
  from e(1) e(3-) show ?thesis
    by (simp add: content_field corr audit_content.defs actor_json_inj entity_json_inj entities_json_inj)
qed

lemma plain_content: "plain_json (content_json c)"
proof -
  have "plain_json (actor_json a)" "plain_json (entity_json e)" for a e
    by (cases a; simp) (simp add: entity_json_def)
  then show ?thesis
    by (cases "ev_correlation c") (simp_all add: content_json_def list_all_iff)
qed

lemma content_numbers:
  "numbers_of (content_json c) = {of_int (ev_schema_version c), of_int (ev_sequence c)}"
proof -
  have "numbers_of (actor_json a) = {}" "numbers_of (entity_json e) = {}" for a e
    by (cases a; simp) (simp add: entity_json_def)
  then show ?thesis by (cases "ev_correlation c") (auto simp: content_json_def)
qed

text \<open>The content of an event that its hash covers, and everything that is hashed for it.\<close>

definition hashed_content :: "'a audit_content_scheme \<Rightarrow> audit_content" where
  "hashed_content e = (audit_content.truncate e)
     \<lparr>ev_occurred_at := or_else (normalize_audit_timestamp (ev_occurred_at e)) []\<rparr>"

definition hashed_texts :: "audit_host \<Rightarrow> 'a pending_event_scheme list \<Rightarrow> string set" where
  "hashed_texts h es =
     (\<Union>e \<in> set es. {t. canonical_text h (ev_payload e) = Inr t \<or> serialize_audit_hash_content h e = Inr t})"

definition hashed_numbers :: "'a pending_event_scheme list \<Rightarrow> rat set" where
  "hashed_numbers es =
     (\<Union>e \<in> set es. numbers_of (ev_payload e) \<union> {of_int (ev_schema_version e), of_int (ev_sequence e)})"

definition same_event :: "'a pending_event_scheme \<Rightarrow> 'a pending_event_scheme \<Rightarrow> bool" where
  "same_event e f \<longleftrightarrow>
     hashed_content e = hashed_content f \<and> canonical (ev_payload e) = canonical (ev_payload f) \<and> ev_hash e = ev_hash f"

lemma hashed_mono:
  assumes "set es \<subseteq> set fs"
  shows "inj_on f (hashed_texts h fs) \<Longrightarrow> inj_on f (hashed_texts h es)"
    and "numeric_texts num (hashed_numbers fs) \<Longrightarrow> numeric_texts num (hashed_numbers es)"
  using assms unfolding hashed_texts_def hashed_numbers_def
  by (blast intro: inj_on_subset UN_mono numeric_texts_mono)+

lemma hash_audit_content_Inr: "hash_audit_content h t = Inr d \<longleftrightarrow> d = sha256_hex h t \<and> digest_ok d"
  by (auto simp: hash_audit_content_def require_sha256_hex_def)

lemma content_json_cong:
  "audit_content.truncate c = audit_content.truncate d \<Longrightarrow> content_json c = content_json d"
  by (simp add: audit_content.defs content_json_def)

lemma serialize_content_Inr:
  "serialize_audit_hash_content h e = Inr t \<Longrightarrow>
     serialize_canonical_json (number_text h) (content_json (hashed_content e)) = Some t"
proof -
  assume s: "serialize_audit_hash_content h e = Inr t"
  then obtain u where u: "normalize_audit_timestamp (ev_occurred_at e) = Some u"
    by (auto simp: serialize_audit_hash_content_def split: option.splits)
  from u have "content_json (hashed_content e) = content_json (e\<lparr>ev_occurred_at := u\<rparr>)"
    by (intro content_json_cong) (simp add: hashed_content_def audit_content.defs)
  with s u show ?thesis
    by (auto simp: serialize_audit_hash_content_def ebind_Inr require_sha256_hex_def canonical_text_def
        split: option.splits if_splits)
qed

lemma canonical_text_inj:
  assumes "canonical_text h v = Inr t" and "canonical_text h w = Inr t"
    and "numeric_texts (number_text h) (numbers_of v \<union> numbers_of w)"
  shows "canonical v = canonical w"
  using assms json_text_unique [of v w "number_text h" "[]" "[]"]
  by (auto simp: canonical_text_def serialize_canonical_json_def delimited_def split: option.splits if_splits)

lemma event_ok_texts:
  assumes "event_ok h n p e"
  obtains t u where "canonical_text h (ev_payload e) = Inr t" "sha256_hex h t = ev_payload_digest e"
    "serialize_audit_hash_content h e = Inr u" "sha256_hex h u = ev_hash e"
  using assms
  by (auto simp: event_ok_def create_audit_payload_digest_def create_audit_event_hash_def ebind_Inr hash_audit_content_Inr)

text \<open>Two valid events with the same hash are the same event.\<close>

lemma same_hash_same_event:
  assumes "event_ok h n p e" and "event_ok h m q f" and eq: "ev_hash e = ev_hash f"
    and inj: "inj_on (sha256_hex h) (hashed_texts h [e, f])"
    and num: "numeric_texts (number_text h) (hashed_numbers [e, f])"
  shows "same_event e f"
proof -
  from event_ok_texts [OF assms(1)] obtain t u where e: "canonical_text h (ev_payload e) = Inr t"
    "sha256_hex h t = ev_payload_digest e" "serialize_audit_hash_content h e = Inr u" "sha256_hex h u = ev_hash e" .
  from event_ok_texts [OF assms(2)] obtain t' u' where f: "canonical_text h (ev_payload f) = Inr t'"
    "sha256_hex h t' = ev_payload_digest f" "serialize_audit_hash_content h f = Inr u'" "sha256_hex h u' = ev_hash f" .
  have mem: "{t, u, t', u'} \<subseteq> hashed_texts h [e, f]" using e f by (auto simp: hashed_texts_def)
  from inj_onD [OF inj, of u u'] mem e f eq have "u' = u" by simp
  with serialize_content_Inr [OF e(3)] serialize_content_Inr [OF f(3)]
  have "canonical_text h (content_json (hashed_content e)) = Inr u"
    "canonical_text h (content_json (hashed_content f)) = Inr u" by (simp_all add: canonical_text_def)
  moreover have "numbers_of (content_json (hashed_content e)) \<union> numbers_of (content_json (hashed_content f))
      \<subseteq> hashed_numbers [e, f]"
    by (auto simp: content_numbers hashed_content_def hashed_numbers_def audit_content.defs)
  ultimately have "canonical (content_json (hashed_content e)) = canonical (content_json (hashed_content f))"
    using canonical_text_inj numeric_texts_mono [OF num] by blast
  from content_json_inj [OF this] have c: "hashed_content e = hashed_content f"
    by (simp add: audit_content.defs)
  then have "ev_payload_digest e = ev_payload_digest f"
    by (simp add: hashed_content_def audit_content.defs)
  with inj_onD [OF inj, of t t'] mem e f have "t' = t" by simp
  moreover have "numbers_of (ev_payload e) \<union> numbers_of (ev_payload f) \<subseteq> hashed_numbers [e, f]"
    by (auto simp: hashed_numbers_def)
  ultimately have "canonical (ev_payload e) = canonical (ev_payload f)"
    using canonical_text_inj [of h "ev_payload e" t "ev_payload f"] e(1) f(1) numeric_texts_mono [OF num] by blast
  with c eq show ?thesis by (simp add: same_event_def)
qed

lemma linked_same:
  assumes "linked h n p es q" and "linked h n p' fs q" and "length es = length fs"
    and inj: "inj_on (sha256_hex h) (hashed_texts h (es @ fs))"
    and num: "numeric_texts (number_text h) (hashed_numbers (es @ fs))"
  shows "list_all2 same_event es fs"
  using assms
proof (induction es arbitrary: fs q rule: rev_induct)
  case (snoc e es)
  then obtain f fs' where fs: "fs = fs' @ [f]" by (cases fs rule: rev_cases) auto
  with snoc.prems have len: "length es = length fs'" by simp
  from snoc.prems(1) obtain m where e: "linked h n p es m" "event_ok h (n + int (length es)) m e" "q = ev_hash e"
    by (auto simp: linked_append)
  from snoc.prems(2) fs obtain m' where f: "linked h n p' fs' m'" "event_ok h (n + int (length fs')) m' f" "q = ev_hash f"
    by (auto simp: linked_append)
  have "same_event e f"
    by (rule same_hash_same_event [OF e(2) f(2)])
      (use e(3) f(3) fs in \<open>auto intro: hashed_mono(1) [OF _ snoc.prems(4)] hashed_mono(2) [OF _ snoc.prems(5)]\<close>)
  moreover from this have "m = m'"
    using e(2) f(2) by (auto simp: same_event_def hashed_content_def audit_content.defs event_ok_def)
  then have "list_all2 same_event es fs'"
    by (intro snoc.IH [OF e(1) _ len]) 
      (use f(1) fs in \<open>auto intro: hashed_mono(1) [OF _ snoc.prems(4)] hashed_mono(2) [OF _ snoc.prems(5)]\<close>)
  ultimately show ?case using fs by (simp add: list_all2_appendI)
qed simp

lemma linked_same_length:
  assumes "linked h 1 p es q" and "linked h 1 p' fs q" and "es \<noteq> []" and "fs \<noteq> []"
    and inj: "inj_on (sha256_hex h) (hashed_texts h (es @ fs))"
    and num: "numeric_texts (number_text h) (hashed_numbers (es @ fs))"
  shows "length es = length fs"
proof -
  have last_ok: "\<exists>m. event_ok h (int (length gs)) m (last gs) \<and> ev_hash (last gs) = q"
    if "linked h 1 r gs q" "gs \<noteq> []" for r and gs :: "'a pending_event_scheme list"
    using that by (cases gs rule: rev_cases) (auto simp: linked_append)
  from last_ok [OF assms(1,3)] last_ok [OF assms(2,4)] obtain m m' where
    e: "event_ok h (int (length es)) m (last es)" "ev_hash (last es) = q"
    and f: "event_ok h (int (length fs)) m' (last fs)" "ev_hash (last fs) = q" by blast
  have "same_event (last es) (last fs)"
    by (rule same_hash_same_event [OF e(1) f(1)])
      (use e(2) f(2) last_in_set [OF assms(3)] last_in_set [OF assms(4)] in
        \<open>auto intro: hashed_mono(1) [OF _ inj] hashed_mono(2) [OF _ num]\<close>)
  with e(1) f(1) show ?thesis
    by (simp add: same_event_def hashed_content_def audit_content.defs event_ok_def)
qed

section \<open>Properties\<close>

text \<open>A range that is verified from the first event.\<close>

definition whole_chain :: "string \<Rightarrow> verification_options" where
  "whole_chain q = \<lparr>vo_first_sequence = None, vo_previous_hash = None, vo_stored_head = q, vo_require_head = None\<rparr>"

lemma verified_linked:
  "verify_audit_event_chain h es (whole_chain q) = Inr v \<Longrightarrow> vr_valid v \<Longrightarrow> linked h 1 GENESIS_PREVIOUS_HASH es q"
  using verify_accepts [of h es "whole_chain q"] by (auto simp: whole_chain_def chain_of_def)

text \<open>
  C14: the head hash of an audit trail commits to the whole trail: if SHA-256 has no collision
  among the texts that were hashed, two non-empty sequences of events that both verify against
  the same head hash have the same length and, position by position, the same workspace, type,
  actor, entities, time, source, payload and hash. Rewriting, reordering, truncating or extending
  the trail therefore changes its head.
\<close>

theorem head_hash_commits_to_trail:
  "verify_audit_event_chain h es (whole_chain q) = Inr v \<Longrightarrow> vr_valid v \<Longrightarrow>
   verify_audit_event_chain h fs (whole_chain q) = Inr w \<Longrightarrow> vr_valid w \<Longrightarrow>
   es \<noteq> [] \<Longrightarrow> fs \<noteq> [] \<Longrightarrow>
   inj_on (sha256_hex h) (hashed_texts h (es @ fs)) \<Longrightarrow>
   numeric_texts (number_text h) (hashed_numbers (es @ fs)) \<Longrightarrow>
     list_all2 same_event es fs"
  by (meson verified_linked linked_same linked_same_length)

text \<open>An event of a small trail, and the same event as another writer might spell it.\<close>

definition shop_audit_host :: audit_host where
  "shop_audit_host = \<lparr>sha256_hex = (\<lambda>t. replicate 63 CHR ''0'' @ [hex_digit (length t mod 16)]),
     uuid_ok = (\<lambda>s. s \<noteq> []), datetime_ok = (\<lambda>s. s \<noteq> []),
     number_text = (\<lambda>n. if n = 1 then ''1'' else ''2'')\<rparr>"

definition shop_event :: "string \<Rightarrow> json \<Rightarrow> stored_event" where
  "shop_event occurred v =
     \<lparr>ev_schema_version = 1, ev_workspace = ''w'', ev_type = ''workflow_draft.updated'',
      ev_actor = UserActor ''u'', ev_primary = \<lparr>entity_kind = ''workflow'', entity_id = ''f''\<rparr>,
      ev_related = [], ev_occurred_at = occurred, ev_source = ''source'', ev_correlation = None,
      ev_sequence = 1, ev_payload_digest = replicate 63 CHR ''0'' @ ''e'',
      ev_previous_hash = GENESIS_PREVIOUS_HASH, ev_payload = v,
      ev_hash = replicate 63 CHR ''0'' @ ''f'', ev_id = ''e'', ev_created_at = occurred\<rparr>"

definition shop_payload :: json where
  "shop_payload = JObject [(''workflowId'', JString ''f''), (''version'', JNumber 1)]"

definition shop_payload_reordered :: json where
  "shop_payload_reordered = JObject [(''version'', JNumber 1), (''workflowId'', JString ''f'')]"

definition shop_trail :: "stored_event list" where
  "shop_trail = [shop_event ''2026-08-05T12:00:00.000Z'' shop_payload]"

definition shop_trail_respelled :: "stored_event list" where
  "shop_trail_respelled = [shop_event ''2026-08-05T14:00:00+02:00'' shop_payload_reordered]"

definition shop_head :: string where "shop_head = replicate 63 CHR ''0'' @ ''f''"

lemma verified_Inr: "map_sum id vr_valid r = Inr True \<Longrightarrow> \<exists>v. r = Inr v \<and> vr_valid v"
  by (cases r) auto

lemma shop_trail_verifies:
  "map_sum id vr_valid (verify_audit_event_chain shop_audit_host shop_trail (whole_chain shop_head)) = Inr True"
  "map_sum id vr_valid (verify_audit_event_chain shop_audit_host shop_trail_respelled (whole_chain shop_head)) = Inr True"
  by code_simp+

lemma shop_texts:
  "canonical_text shop_audit_host shop_payload = canonical_text shop_audit_host shop_payload_reordered"
  "serialize_audit_hash_content shop_audit_host (hd shop_trail_respelled) =
     serialize_audit_hash_content shop_audit_host (hd shop_trail)"
  "map_sum id (sha256_hex shop_audit_host) (canonical_text shop_audit_host shop_payload) \<noteq>
     map_sum id (sha256_hex shop_audit_host) (serialize_audit_hash_content shop_audit_host (hd shop_trail))"
  by code_simp+

lemma shop_collision_free:
  "inj_on (sha256_hex shop_audit_host) (hashed_texts shop_audit_host (shop_trail @ shop_trail_respelled))"
proof -
  have p: "ev_payload (hd shop_trail) = shop_payload" "ev_payload (hd shop_trail_respelled) = shop_payload_reordered"
    by (simp_all add: shop_trail_def shop_trail_respelled_def shop_event_def)
  have "hashed_texts shop_audit_host (shop_trail @ shop_trail_respelled) =
      {t. canonical_text shop_audit_host shop_payload = Inr t \<or>
          serialize_audit_hash_content shop_audit_host (hd shop_trail) = Inr t}"
    using p shop_texts(1,2) by (auto simp: hashed_texts_def shop_trail_def shop_trail_respelled_def)
  with shop_texts(3) show ?thesis by (auto simp: inj_on_def)
qed

theorem head_hash_commits_to_trail_witness:
  "list_all2 same_event shop_trail shop_trail_respelled"
proof -
  from verified_Inr [OF shop_trail_verifies(1)] verified_Inr [OF shop_trail_verifies(2)] obtain v w where
    v: "verify_audit_event_chain shop_audit_host shop_trail (whole_chain shop_head) = Inr v" "vr_valid v"
    and w: "verify_audit_event_chain shop_audit_host shop_trail_respelled (whole_chain shop_head) = Inr w" "vr_valid w"
    by blast
  have "hashed_numbers (shop_trail @ shop_trail_respelled) = {1}"
    by (simp add: hashed_numbers_def shop_trail_def shop_trail_respelled_def shop_event_def
        shop_payload_def shop_payload_reordered_def)
  then have "numeric_texts (number_text shop_audit_host) (hashed_numbers (shop_trail @ shop_trail_respelled))"
    by (simp add: numeric_texts_def numeric_char_def shop_audit_host_def)
  from head_hash_commits_to_trail [OF v w _ _ shop_collision_free this] show ?thesis
    by (simp add: shop_trail_def shop_trail_respelled_def)
qed

end
