(* ===== verification/Workflow_Json.thy ===== *)
theory Workflow_Json
  imports Workflow_Lifecycle Audit_Chain
begin

text \<open>
  The JSON of a workflow definition, the value a \<open>definition\<close> column holds, with the keys of
  packages/workflow-schema, and the digest of a value (packages/database/src/recording/
  canonical-json.ts). The two literal members \<open>retention\<close> and \<open>scope\<close> have one value each.
\<close>

section \<open>Parts\<close>

definition optional_member :: "string \<Rightarrow> ('a \<Rightarrow> json) \<Rightarrow> 'a option \<Rightarrow> (string \<times> json) list" where
  "optional_member k f x = (case x of None \<Rightarrow> [] | Some v \<Rightarrow> [(k, f v)])"

definition int_json :: "int \<Rightarrow> json" where "int_json n = JNumber (of_int n)"

fun click_intent_text :: "click_intent \<Rightarrow> string" where
  "click_intent_text ChangeState = ''change_state''"
| "click_intent_text Submit = ''submit''"
| "click_intent_text Send = ''send''"
| "click_intent_text Delete = ''delete''"
| "click_intent_text Purchase = ''purchase''"
| "click_intent_text PermissionChange = ''permission_change''"
| "click_intent_text UnknownIntent = ''unknown''"

fun variable_type_text :: "variable_type \<Rightarrow> string" where
  "variable_type_text VString = ''string''"
| "variable_type_text VNumber = ''number''"
| "variable_type_text VBoolean = ''boolean''"
| "variable_type_text VDate = ''date''"
| "variable_type_text VFile = ''file''"

fun attribute_text :: "test_id_attribute \<Rightarrow> string" where
  "attribute_text DataTestid = ''data-testid''"
| "attribute_text DataTest = ''data-test''"
| "attribute_text DataCy = ''data-cy''"
| "attribute_text DataQa = ''data-qa''"

fun operator_text :: "assertion_operator \<Rightarrow> string" where
  "operator_text OpEquals = ''equals''"
| "operator_text OpContains = ''contains''"

fun text_mode_text :: "text_match_mode \<Rightarrow> string" where
  "text_mode_text MatchExact = ''exact''"
| "text_mode_text MatchContains = ''contains''"

fun url_mode_text :: "url_match_mode \<Rightarrow> string" where
  "url_mode_text MatchOrigin = ''origin''"
| "url_mode_text MatchOriginAndPath = ''origin_and_path''"

fun risk_level_text :: "risk_level \<Rightarrow> string" where
  "risk_level_text RiskLow = ''low''"
| "risk_level_text RiskMedium = ''medium''"
| "risk_level_text RiskHigh = ''high''"
| "risk_level_text RiskCritical = ''critical''"

fun literal_json :: "literal \<Rightarrow> json" where
  "literal_json (LitString s) = JString s"
| "literal_json (LitNumber n) = JNumber n"
| "literal_json (LitBool b) = JBool b"

fun source_json :: "value_source \<Rightarrow> json" where
  "source_json (Literal l) = JObject [(''kind'', JString ''literal''), (''value'', literal_json l)]"
| "source_json (Variable n) = JObject [(''kind'', JString ''variable''), (''variableName'', JString n)]"
| "source_json (Secret n) = JObject [(''kind'', JString ''secret''), (''secretName'', JString n)]"
| "source_json (Output n) = JObject [(''kind'', JString ''output''), (''outputName'', JString n)]"

fun locator_json :: "element_locator \<Rightarrow> json" where
  "locator_json (TestId v a) =
     JObject ([(''kind'', JString ''testId''), (''value'', JString v)] @
       optional_member ''attribute'' (\<lambda>a. JString (attribute_text a)) a)"
| "locator_json (Role r n e) =
     JObject ([(''kind'', JString ''role''), (''role'', JString r)] @
       optional_member ''name'' JString n @ optional_member ''exact'' JBool e)"
| "locator_json (Label v e) =
     JObject ([(''kind'', JString ''label''), (''value'', JString v)] @ optional_member ''exact'' JBool e)"
| "locator_json (TextLoc v e) =
     JObject ([(''kind'', JString ''text''), (''value'', JString v)] @ optional_member ''exact'' JBool e)"
| "locator_json (Placeholder v e) =
     JObject ([(''kind'', JString ''placeholder''), (''value'', JString v)] @ optional_member ''exact'' JBool e)"
| "locator_json (Css s) = JObject [(''kind'', JString ''css''), (''selector'', JString s)]"

fun assertion_json :: "workflow_assertion \<Rightarrow> json" where
  "assertion_json (Visible l) = JObject [(''kind'', JString ''visible''), (''locator'', locator_json l)]"
| "assertion_json (Hidden l) = JObject [(''kind'', JString ''hidden''), (''locator'', locator_json l)]"
| "assertion_json (TextIs l m oper e) =
     JObject ([(''kind'', JString ''text''), (''locator'', locator_json l)] @
       optional_member ''matchMode'' (\<lambda>m. JString (text_mode_text m)) m @
       optional_member ''operator'' (\<lambda>p. JString (operator_text p)) oper @ [(''expected'', source_json e)])"
| "assertion_json (ValueIs l oper e) =
     JObject ([(''kind'', JString ''value''), (''locator'', locator_json l)] @
       optional_member ''operator'' (\<lambda>p. JString (operator_text p)) oper @ [(''expected'', source_json e)])"
| "assertion_json (UrlIs m oper e) =
     JObject ([(''kind'', JString ''url'')] @
       optional_member ''matchMode'' (\<lambda>m. JString (url_mode_text m)) m @
       optional_member ''operator'' (\<lambda>p. JString (operator_text p)) oper @ [(''expected'', source_json e)])"
| "assertion_json (CheckedIs l b) =
     JObject [(''kind'', JString ''checked''), (''locator'', locator_json l), (''expected'', JBool b)]"

fun extract_source_json :: "extract_source \<Rightarrow> json" where
  "extract_source_json FromText = JObject [(''kind'', JString ''text'')]"
| "extract_source_json FromValue = JObject [(''kind'', JString ''value'')]"
| "extract_source_json (FromAttribute n) = JObject [(''kind'', JString ''attribute''), (''name'', JString n)]"
| "extract_source_json FromChecked = JObject [(''kind'', JString ''checked'')]"
| "extract_source_json (FromUrl m) =
     JObject [(''kind'', JString ''url''), (''mode'', JString (url_mode_text m))]"

section \<open>Definitions\<close>

fun body_members :: "step_body \<Rightarrow> (string \<times> json) list" where
  "body_members (Navigate u) = [(''type'', JString ''navigate''), (''url'', source_json u)]"
| "body_members (Click l i) =
     [(''type'', JString ''click''), (''locator'', locator_json l)] @
     optional_member ''actionIntent'' (\<lambda>i. JString (click_intent_text i)) i"
| "body_members (Fill l v) =
     [(''type'', JString ''fill''), (''locator'', locator_json l), (''value'', source_json v)]"
| "body_members (Select l v) =
     [(''type'', JString ''select''), (''locator'', locator_json l), (''value'', source_json v)]"
| "body_members (SetChecked l b) =
     [(''type'', JString ''setChecked''), (''locator'', locator_json l), (''checked'', JBool b)]"
| "body_members (Wait d) = [(''type'', JString ''wait''), (''durationMs'', int_json d)]"
| "body_members (Extract l s n lb t) =
     [(''type'', JString ''extract'')] @ optional_member ''locator'' locator_json l @
     [(''source'', extract_source_json s), (''outputName'', JString n)] @
     optional_member ''outputLabel'' JString lb @ [(''retention'', JString ''ephemeral'')] @
     optional_member ''timeoutMs'' int_json t"
| "body_members (Verify a t) =
     [(''type'', JString ''verify''), (''assertion'', assertion_json a)] @ optional_member ''timeoutMs'' int_json t"
| "body_members (Approval m r t) =
     [(''type'', JString ''approval''), (''message'', JString m), (''riskLevel'', JString (risk_level_text r)),
      (''scope'', JString ''next_step''), (''timeoutMs'', int_json t)]"

definition step_json :: "workflow_step \<Rightarrow> json" where
  "step_json s = JObject ([(''id'', JString (step_id s)), (''name'', JString (step_name s))] @ body_members (body s))"

definition variable_json :: "workflow_variable \<Rightarrow> json" where
  "variable_json v =
     JObject ([(''name'', JString (var_name v))] @ optional_member ''label'' JString (var_label v) @
       [(''valueType'', JString (variable_type_text (var_type v))), (''required'', JBool (var_required v))] @
       optional_member ''description'' JString (var_description v))"

definition WORKFLOW_SCHEMA_VERSION :: int where "WORKFLOW_SCHEMA_VERSION = 1"

definition definition_json :: "workflow \<Rightarrow> json" where
  "definition_json w =
     JObject ([(''schemaVersion'', int_json WORKFLOW_SCHEMA_VERSION), (''workflowId'', JString (workflow_id w)),
        (''version'', int_json (wf_version w)), (''name'', JString (wf_name w))] @
       optional_member ''description'' JString (wf_description w) @
       [(''status'', JString (status_text (wf_status w))), (''variables'', JArray (map variable_json (variables w))),
        (''steps'', JArray (map step_json (steps w)))])"

text \<open>\<open>createCanonicalJsonDigest\<close>; None is its TypeError.\<close>

definition create_canonical_json_digest :: "audit_host \<Rightarrow> json \<Rightarrow> string option" where
  "create_canonical_json_digest h v = map_option (sha256_hex h) (serialize_canonical_json (number_text h) v)"

end
