(* ===== verification/Locator_Patch.thy ===== *)
theory Locator_Patch
  imports Workflow_Schema
begin

text \<open>
  The edit that a locator repair makes to a workflow
  (packages/workflow-locator-repair/src/locator-patch.ts): the element locator of one step is
  replaced. None is the exception of a schema.
\<close>

section \<open>The locator of a step\<close>

fun assertion_element_locator :: "workflow_assertion \<Rightarrow> element_locator option" where
  "assertion_element_locator (Visible l) = Some l"
| "assertion_element_locator (Hidden l) = Some l"
| "assertion_element_locator (TextIs l m oper e) = Some l"
| "assertion_element_locator (ValueIs l oper e) = Some l"
| "assertion_element_locator (UrlIs m oper e) = None"
| "assertion_element_locator (CheckedIs l b) = Some l"

fun step_body_locator :: "step_body \<Rightarrow> element_locator option" where
  "step_body_locator (Verify a t) = assertion_element_locator a"
| "step_body_locator (Click l i) = Some l"
| "step_body_locator (Fill l v) = Some l"
| "step_body_locator (Select l v) = Some l"
| "step_body_locator (SetChecked l b) = Some l"
| "step_body_locator (Extract l s n lb t) = l"
| "step_body_locator b = None"

definition locator_for_workflow_step :: "workflow_step \<Rightarrow> element_locator option" where
  "locator_for_workflow_step st = step_body_locator (body st)"

section \<open>Replacing it\<close>

fun assertion_with_locator :: "element_locator \<Rightarrow> workflow_assertion \<Rightarrow> workflow_assertion" where
  "assertion_with_locator l (Visible k) = Visible l"
| "assertion_with_locator l (Hidden k) = Hidden l"
| "assertion_with_locator l (TextIs k m oper e) = TextIs l m oper e"
| "assertion_with_locator l (ValueIs k oper e) = ValueIs l oper e"
| "assertion_with_locator l (CheckedIs k b) = CheckedIs l b"
| "assertion_with_locator l a = a"

fun body_with_locator :: "element_locator \<Rightarrow> step_body \<Rightarrow> step_body" where
  "body_with_locator l (Verify a t) = Verify (assertion_with_locator l a) t"
| "body_with_locator l (Click k i) = Click l i"
| "body_with_locator l (Fill k v) = Fill l v"
| "body_with_locator l (Select k v) = Select l v"
| "body_with_locator l (SetChecked k b) = SetChecked l b"
| "body_with_locator l (Extract k s n lb t) = Extract (Some l) s n lb t"
| "body_with_locator l b = b"

datatype patch_failure = PatchStepNotFound | PatchLocatorRequired

definition replace_workflow_step_locator ::
  "workflow \<Rightarrow> string \<Rightarrow> element_locator \<Rightarrow> (patch_failure + workflow) option" where
  "replace_workflow_step_locator input sid locator = do {
     w \<leftarrow> parse_workflow input;
     l \<leftarrow> parse_locator locator;
     case find_index (\<lambda>st. step_id st = sid) (steps w) of
       None \<Rightarrow> Some (Inl PatchStepNotFound)
     | Some i \<Rightarrow>
         let st = steps w ! i
         in if locator_for_workflow_step st = None then Some (Inl PatchLocatorRequired)
            else map_option Inr
              (parse_workflow (w\<lparr>steps := (steps w)[i := st\<lparr>body := body_with_locator l (body st)\<rparr>]\<rparr>)) }"

section \<open>What the edit changes\<close>

lemma body_locator_replaced: "step_body_locator b \<noteq> None \<Longrightarrow> step_body_locator (body_with_locator l b) = Some l"
proof (cases b)
  case (Verify a t)
  then show "step_body_locator b \<noteq> None \<Longrightarrow> ?thesis" by (cases a) auto
qed auto

lemma assertion_replaced_parses:
  "\<lbrakk>parse_assertion a = Some a; parse_locator l = Some l\<rbrakk> \<Longrightarrow>
     parse_assertion (assertion_with_locator l a) = Some (assertion_with_locator l a)"
  by (cases a) (auto split: bind_splits)

lemma body_replaced_parses:
  "\<lbrakk>parse_body b = Some b; parse_locator l = Some l; step_body_locator b \<noteq> None\<rbrakk> \<Longrightarrow>
     parse_body (body_with_locator l b) = Some (body_with_locator l b)"
proof (cases b)
  case (Verify a t)
  then show "parse_body b = Some b \<Longrightarrow> parse_locator l = Some l \<Longrightarrow> ?thesis"
    using assertion_replaced_parses [of a l] by (auto split: bind_splits)
next
  case (Extract k s n lb t)
  then show "parse_body b = Some b \<Longrightarrow> parse_locator l = Some l \<Longrightarrow> step_body_locator b \<noteq> None \<Longrightarrow> ?thesis"
    by (cases k) (auto simp: bind_eq_Some_conv parse_opt_def [of parse_locator])
qed (auto split: bind_splits)

lemma parse_list_nth: "parse_list p xs = Some ys \<Longrightarrow> i < length xs \<Longrightarrow> p (xs ! i) = Some (ys ! i)"
proof (induction xs arbitrary: ys i)
  case (Cons x xs)
  then show ?case by (cases i) (auto split: bind_splits)
qed simp

lemma parse_list_update:
  "parse_list p xs = Some xs \<Longrightarrow> p y = Some y \<Longrightarrow> parse_list p (xs[i := y]) = Some (xs[i := y])"
proof (induction xs arbitrary: i)
  case (Cons x xs)
  then show ?case by (cases i) (auto split: bind_splits)
qed simp

lemma find_distinct:
  "distinct (map step_id sts) \<Longrightarrow> i < length sts \<Longrightarrow>
     find_index (\<lambda>st. step_id st = step_id (sts ! i)) sts = Some i"
proof (induction sts arbitrary: i)
  case (Cons st sts)
  then show ?case by (cases i) auto
qed simp

lemma same_step_ids:
  "i < length sts \<Longrightarrow> step_id st = step_id (sts ! i) \<Longrightarrow> map step_id (sts[i := st]) = map step_id sts"
  by (metis list_update_id map_update nth_map)

lemma patched_parses:
  assumes w: "parse_workflow w = Some w" and i: "i < length (steps w)" and l: "parse_locator l = Some l"
    and some: "locator_for_workflow_step (steps w ! i) \<noteq> None"
  shows "parse_workflow (w\<lparr>steps := (steps w)[i := (steps w ! i)\<lparr>body := body_with_locator l (body (steps w ! i))\<rparr>]\<rparr>) =
    Some (w\<lparr>steps := (steps w)[i := (steps w ! i)\<lparr>body := body_with_locator l (body (steps w ! i))\<rparr>]\<rparr>)"
proof -
  let ?st = "(steps w ! i)\<lparr>body := body_with_locator l (body (steps w ! i))\<rparr>"
  obtain n vs ss d where p: "parse_list parse_step (steps w) = Some (steps w)"
    "parse_non_empty (workflow_id w) = Some (workflow_id w)" "0 < wf_version w"
    "parse_non_empty (wf_name w) = Some (wf_name w)" "parse_opt parse_non_empty (wf_description w) = Some (wf_description w)"
    "parse_list parse_variable (variables w) = Some (variables w)"
    "duplicate_step_ids w = []" "duplicate_variable_names w = []"
    using w by (cases w) (auto simp: parse_workflow_def Let_def split: bind_splits if_splits)
  from parse_list_nth [OF p(1) i] have "parse_step (steps w ! i) = Some (steps w ! i)" .
  then have "parse_step ?st = Some ?st"
    using body_replaced_parses [of "body (steps w ! i)" l] l some
    by (cases "steps w ! i") (auto simp: parse_step_def locator_for_workflow_step_def split: bind_splits)
  from parse_list_update [OF p(1) this, of i] have s: "parse_list parse_step ((steps w)[i := ?st]) = Some ((steps w)[i := ?st])" .
  have "map step_id ((steps w)[i := ?st]) = map step_id (steps w)" using same_step_ids [OF i, of ?st] by simp
  then show ?thesis
    using p s i by (simp add: parse_workflow_def Let_def duplicate_step_ids_def duplicate_variable_names_def)
qed

text \<open>
  A locator repair changes one locator and nothing else: on a step of a valid workflow that has
  an element locator the edit always succeeds, the result is a workflow the schema accepts as it
  is, it differs from the workflow in the locator of that step only, and that locator is the
  new one; a step without a locator is refused.
\<close>

lemma locator_patch_changes_one_locator:
  assumes "parse_workflow input = Some w" and "parse_locator locator = Some l" and "i < length (steps w)"
  defines "st \<equiv> steps w ! i"
  defines "patched \<equiv> w\<lparr>steps := (steps w)[i := st\<lparr>body := body_with_locator l (body st)\<rparr>]\<rparr>"
  shows "replace_workflow_step_locator input (step_id st) locator =
      Some (if locator_for_workflow_step st = None then Inl PatchLocatorRequired else Inr patched) \<and>
    (locator_for_workflow_step st \<noteq> None \<longrightarrow>
       parse_workflow patched = Some patched \<and> locator_for_workflow_step (steps patched ! i) = Some l)"
proof -
  have w: "parse_workflow w = Some w" and l: "parse_locator l = Some l"
    using assms(1,2) definition_schema.reparse locator.reparse by blast+
  have "distinct (map step_id (steps w))" using parse_workflow_wf [OF assms(1)] by (simp add: wf_workflow_def)
  from find_distinct [OF this assms(3)] have at: "find_index (\<lambda>x. step_id x = step_id st) (steps w) = Some i"
    by (simp add: st_def)
  have new: "parse_workflow patched = Some patched" if "locator_for_workflow_step st \<noteq> None"
    using patched_parses [OF w assms(3) l] that by (simp add: st_def patched_def)
  then have "replace_workflow_step_locator input (step_id st) locator =
      Some (if locator_for_workflow_step st = None then Inl PatchLocatorRequired else Inr patched)"
    using assms(1,2) at by (simp add: replace_workflow_step_locator_def Let_def st_def patched_def)
  moreover have "locator_for_workflow_step (steps patched ! i) = Some l" if "locator_for_workflow_step st \<noteq> None"
    using that assms(3) body_locator_replaced [of "body st" l] by (simp add: patched_def locator_for_workflow_step_def)
  ultimately show ?thesis using new by blast
qed

text \<open>What the edit keeps of a workflow, wherever it succeeds.\<close>

lemma patch_keeps:
  assumes "replace_workflow_step_locator input sid locator = Some (Inr w')"
  shows "parse_workflow w' = Some w' \<and>
    (\<exists>w. parse_workflow input = Some w \<and> workflow_id w' = workflow_id w \<and> wf_version w' = wf_version w \<and>
       wf_status w' = wf_status w)"
proof -
  from assms obtain w l i where w: "parse_workflow input = Some w" and l: "parse_locator locator = Some l"
    and i: "find_index (\<lambda>st. step_id st = sid) (steps w) = Some i"
    by (auto simp: replace_workflow_step_locator_def split: bind_splits option.splits)
  have "parse_workflow w = Some w" "parse_locator l = Some l"
    using w l definition_schema.reparse locator.reparse by blast+
  with patched_parses [of w i l] find_index_Some [OF i] assms w l i show ?thesis
    by (auto simp: replace_workflow_step_locator_def Let_def split: if_splits)
qed

text \<open>The field of the sample workflow's second step is found by a label.\<close>

lemma locator_patch_changes_one_locator_witness:
  "\<exists>w'. replace_workflow_step_locator sample_workflow ''fill'' (Label '' Title '' None) = Some (Inr w') \<and>
     parse_workflow w' = Some w' \<and> locator_for_workflow_step (steps w' ! 1) = Some (Label ''Title'' None)"
proof -
  have "parse_workflow sample_workflow \<noteq> None" by code_simp
  then obtain w where w: "parse_workflow sample_workflow = Some w" by blast
  have "case parse_workflow sample_workflow of None \<Rightarrow> False
    | Some w \<Rightarrow> 1 < length (steps w) \<and> step_id (steps w ! 1) = ''fill'' \<and> locator_for_workflow_step (steps w ! 1) \<noteq> None"
    by code_simp
  with w have i: "1 < length (steps w)" "step_id (steps w ! 1) = ''fill''" "locator_for_workflow_step (steps w ! 1) \<noteq> None"
    by simp_all
  have l: "parse_locator (Label '' Title '' None) = Some (Label ''Title'' None)" by code_simp
  from locator_patch_changes_one_locator [OF w l i(1)] i(2,3) show ?thesis by auto
qed

end
