(* ===== verification/Audit_Appender.thy ===== *)
theory Audit_Appender
  imports Audit_Chain
begin

text \<open>
  Appending to the audit trail: the boundary schema of an event (packages/audit-trail:
  actor.ts, entity-ref.ts, event-type.ts, payload-union.ts, source-id.ts), \<open>appendAuditEvent\<close>
  over the driver interface (appender.ts). The interface is the locale \<open>audit_store\<close>, in which
  an append is shown to keep the chain in order; Audit_Store interprets it on the database.
\<close>

section \<open>The boundary schema\<close>

definition AUDIT_EVENT_TYPES :: "string list" where
  "AUDIT_EVENT_TYPES =
    [''workflow.created'', ''workflow_version.created'', ''workflow_draft.updated'',
     ''workflow_version.submitted_for_testing'', ''workflow_version.returned_to_draft'',
     ''workflow_version.published'', ''workflow_version.archived'', ''policy_version.archived'',
     ''policy_version.activated'', ''workflow_run.created'', ''workflow_run.claimed'',
     ''workflow_run.started'', ''workflow_run.waiting_for_approval'',
     ''workflow_run.waiting_for_repair'', ''workflow_run.cancel_requested'',
     ''workflow_run.succeeded'', ''workflow_run.failed'', ''workflow_run.cancelled'',
     ''workflow_run.timed_out'', ''workflow_run.interrupted'', ''execution.attempt_started'',
     ''execution.attempt_terminal'', ''execution.verification_completed'',
     ''execution.output_produced'', ''approval.requested'', ''approval.decided'',
     ''approval.lifecycle'', ''repair.requested'', ''repair.decided'', ''repair.lifecycle'',
     ''locator_repair.proposal_created'', ''locator_repair.candidate_tested'',
     ''locator_repair.applied_to_draft'', ''locator_repair.dismissed'', ''schedule.created'',
     ''schedule.paused'', ''schedule.resumed'', ''schedule.completed'', ''schedule.archived'',
     ''schedule.auto_paused'', ''schedule.occurrence.dispatched'',
     ''schedule.occurrence.skipped'', ''schedule.occurrence.start_window_expired'',
     ''schedule.occurrence.succeeded'', ''notification.alert.created'',
     ''notification.alert.resolved'', ''notification.delivery.dead_lettered'',
     ''runner.secret_inventory.updated'', ''runner.software_version.changed'',
     ''runner.runtime_mode.changed'', ''runner.secret_protector.changed'',
     ''runner.rollout.created'', ''runner.rollout.activated'', ''runner.rollout.paused'',
     ''runner.rollout.cancelled'', ''runner.rollout.stage.activated'',
     ''runner.rollout.assignment.converged'', ''runner.rollout.assignment.rolled_back'']"

definition AUDIT_ENTITY_KINDS :: "string list" where
  "AUDIT_ENTITY_KINDS =
    [''workflow'', ''workflow_version'', ''policy_version'', ''workflow_run'',
     ''workflow_run_step'', ''workflow_run_step_attempt'', ''workflow_run_output'',
     ''approval_request'', ''repair_request'', ''locator_repair_proposal'',
     ''locator_repair_candidate'', ''workflow_schedule'', ''workflow_schedule_occurrence'',
     ''operational_alert'', ''notification_outbox_message'', ''runner_device'',
     ''runner_release'', ''runner_release_rollout'', ''runner_release_rollout_stage'',
     ''runner_release_rollout_assignment'']"

definition AUDIT_SYSTEM_REASONS :: "string list" where
  "AUDIT_SYSTEM_REASONS =
    [''automatic_expiry'', ''completion_reconciliation'', ''lease_expired'',
     ''policy_supersede'', ''run_cancelled'', ''scheduler'', ''automatic'',
     ''notification_worker'', ''secret_inventory_sync'']"

text \<open>A time is given as a \<open>Date\<close> (\<open>None\<close> is Invalid Date) or as text.\<close>

datatype audit_time = AtDate "int option" | AtText string

record audit_input =
  in_schema_version :: "int option"
  in_workspace :: string
  in_type :: string
  in_actor :: audit_actor
  in_primary :: entity_ref
  in_related :: "entity_ref list option"
  in_occurred_at :: audit_time
  in_source :: string
  in_correlation :: "string option"
  in_payload :: json

record parsed_event = audit_facts +
  pe_payload :: json

fun actor_ok :: "audit_host \<Rightarrow> audit_actor \<Rightarrow> bool" where
  "actor_ok h (UserActor u) = uuid_ok h u"
| "actor_ok h (RunnerActor r) = uuid_ok h r"
| "actor_ok h (SystemActor r) = (r \<in> set AUDIT_SYSTEM_REASONS)"

definition entity_ok :: "entity_ref \<Rightarrow> bool" where
  "entity_ok e \<longleftrightarrow> entity_kind e \<in> set AUDIT_ENTITY_KINDS \<and> stable_id_ok 256 (entity_id e)"

definition related_ok :: "entity_ref list \<Rightarrow> bool" where
  "related_ok es \<longleftrightarrow> length es \<le> 8 \<and> list_all entity_ok es"

fun time_ok :: "audit_host \<Rightarrow> audit_time \<Rightarrow> bool" where
  "time_ok h (AtDate t) = (case t of None \<Rightarrow> False | Some ms \<Rightarrow> \<bar>ms\<bar> \<le> MAX_TIME)"
| "time_ok h (AtText s) = datetime_ok h s"

fun normalize_time :: "audit_time \<Rightarrow> string option" where
  "normalize_time (AtDate t) = map_option to_iso_string t"
| "normalize_time (AtText s) = normalize_audit_timestamp s"

definition boundary_ok :: "audit_host \<Rightarrow> audit_input \<Rightarrow> bool" where
  "boundary_ok h i \<longleftrightarrow>
     in_schema_version i \<in> {None, Some 1} \<and> uuid_ok h (in_workspace i) \<and>
     in_type i \<in> set AUDIT_EVENT_TYPES \<and> actor_ok h (in_actor i) \<and> entity_ok (in_primary i) \<and>
     (case in_related i of None \<Rightarrow> True | Some es \<Rightarrow> related_ok es) \<and>
     time_ok h (in_occurred_at i) \<and> stable_id_ok 160 (in_source i) \<and>
     (case in_correlation i of None \<Rightarrow> True | Some c \<Rightarrow> stable_id_ok 80 c)"

definition parse_audit_event_input :: "audit_host \<Rightarrow> audit_input \<Rightarrow> parsed_event option" where
  "parse_audit_event_input h i =
     (if \<not> boundary_ok h i then None
      else do {
        v \<leftarrow> parse_audit_payload h (in_type i) (in_payload i);
        occurred \<leftarrow> normalize_time (in_occurred_at i);
        Some \<lparr>ev_schema_version = 1, ev_workspace = in_workspace i, ev_type = in_type i,
          ev_actor = in_actor i, ev_primary = in_primary i, ev_related = or_else (in_related i) [],
          ev_occurred_at = occurred, ev_source = in_source i, ev_correlation = in_correlation i,
          pe_payload = v\<rparr> })"

text \<open>Source ids (source-id.ts): a namespace and the hash of up to eight parts.\<close>

datatype source_part = PartText string | PartNumber rat

definition namespace_ok :: "string \<Rightarrow> bool" where
  "namespace_ok s \<longleftrightarrow>
     length s \<le> 48 \<and>
     rx_matches (Cat (Class is_lower) (Many (Class (\<lambda>c. is_lower c \<or> is_digit c \<or> c \<in> set ''_.-'')))) s"

fun part_ok :: "source_part \<Rightarrow> bool" where
  "part_ok (PartText s) = (s \<noteq> [] \<and> length s \<le> 256)"
| "part_ok (PartNumber r) = (of_int \<lfloor>r\<rfloor> = r \<and> 0 \<le> r \<and> r \<le> of_int MAX_SAFE_INTEGER)"

fun part_json :: "source_part \<Rightarrow> json" where
  "part_json (PartText s) = JString s"
| "part_json (PartNumber r) = JNumber r"

definition create_audit_source_id :: "audit_host \<Rightarrow> string \<Rightarrow> source_part list \<Rightarrow> audit_exn + string" where
  "create_audit_source_id h namespace parts =
     (if \<not> namespace_ok namespace \<or> parts = [] \<or> 8 < length parts then Inl AuditTypeError
      else if \<not> list_all part_ok parts then Inl AuditTypeError
      else ebind (canonical_text h (JArray (map part_json parts))) (\<lambda>t.
        ebind (hash_audit_content h t) (\<lambda>d. Inr (namespace @ '':'' @ d))))"

section \<open>Appending\<close>

record chain_head =
  head_workspace :: string
  head_sequence :: int
  head_hash :: string

record 's audit_driver =
  lock_chain_head :: "string \<Rightarrow> ('s, audit_exn, chain_head) comp"
  find_event_by_source_id :: "string \<Rightarrow> string \<Rightarrow> ('s, audit_exn, stored_event option) comp"
  insert_event :: "pending_event \<Rightarrow> ('s, audit_exn, stored_event) comp"
  update_chain_head :: "chain_head \<Rightarrow> ('s, audit_exn, unit) comp"

definition MAX_PAYLOAD_LENGTH :: nat where "MAX_PAYLOAD_LENGTH = 4096"

definition source_matches :: "stored_event \<Rightarrow> parsed_event \<Rightarrow> string \<Rightarrow> bool" where
  "source_matches stored parsed payload_digest \<longleftrightarrow>
     ev_type stored = ev_type parsed \<and>
     entity_kind (ev_primary stored) = entity_kind (ev_primary parsed) \<and>
     entity_id (ev_primary stored) = entity_id (ev_primary parsed) \<and>
     ev_payload_digest stored = payload_digest"

text \<open>The content of the next event after the head.\<close>

definition next_content :: "parsed_event \<Rightarrow> string \<Rightarrow> chain_head \<Rightarrow> audit_content" where
  "next_content p payload_digest tip = audit_facts.extend (audit_facts.truncate p)
     \<lparr>ev_sequence = head_sequence tip + 1, ev_payload_digest = payload_digest,
      ev_previous_hash = (if head_sequence tip = 0 then GENESIS_PREVIOUS_HASH else head_hash tip)\<rparr>"

definition pending_of :: "audit_content \<Rightarrow> json \<Rightarrow> string \<Rightarrow> pending_event" where
  "pending_of c v event_hash = audit_content.extend c \<lparr>ev_payload = v, ev_hash = event_hash\<rparr>"

definition append_new :: "audit_host \<Rightarrow> 's audit_driver \<Rightarrow> parsed_event \<Rightarrow> string \<Rightarrow> chain_head \<Rightarrow>
     ('s, audit_exn, stored_event \<times> bool) comp" where
  "append_new h drv p payload_digest tip =
     (let c = next_content p payload_digest tip
      in bnd (of_sum (create_audit_event_hash h c)) (\<lambda>event_hash.
         bnd (insert_event drv (pending_of c (pe_payload p) event_hash)) (\<lambda>e.
         seqc (update_chain_head drv
             \<lparr>head_workspace = ev_workspace p, head_sequence = ev_sequence c, head_hash = event_hash\<rparr>)
           (ret (e, False)))))"

text \<open>The stored event and whether it had been stored before.\<close>

definition append_audit_event ::
  "audit_host \<Rightarrow> 's audit_driver \<Rightarrow> audit_input \<Rightarrow> ('s, audit_exn, stored_event \<times> bool) comp" where
  "append_audit_event h drv i =
     (case parse_audit_event_input h i of
        None \<Rightarrow> throw AuditEventInvalid
      | Some p \<Rightarrow>
          bnd (of_sum (canonical_text h (pe_payload p))) (\<lambda>t.
          if MAX_PAYLOAD_LENGTH < length t then throw AuditPayloadTooLarge
          else bnd (of_sum (create_audit_payload_digest h (pe_payload p))) (\<lambda>payload_digest.
          bnd (lock_chain_head drv (ev_workspace p)) (\<lambda>tip.
          bnd (find_event_by_source_id drv (ev_workspace p) (ev_source p)) (\<lambda>existing.
          case existing of
            Some e \<Rightarrow> if source_matches e p payload_digest then ret (e, True) else throw AuditSourceConflict
          | None \<Rightarrow> append_new h drv p payload_digest tip)))))"

section \<open>The contract of a store\<close>

text \<open>
  What the appender needs of its driver: reading changes nothing, an event with a fresh
  sequence is stored after the events of its workspace with the content it was given, a head
  is replaced, and every other workspace is left alone. The payload comes back as the store
  keeps it, \<open>stored_json\<close>. An operation may throw instead; the transaction around the append
  then rolls everything back.
\<close>

definition as_pending :: "(json \<Rightarrow> json) \<Rightarrow> pending_event \<Rightarrow> stored_event \<Rightarrow> bool" where
  "as_pending stored_json p e \<longleftrightarrow>
     audit_content.truncate e = audit_content.truncate p \<and> ev_hash e = ev_hash p \<and>
     ev_payload e = stored_json (ev_payload p)"

definition storable :: "pending_event \<Rightarrow> bool" where
  "storable p \<longleftrightarrow>
     ev_schema_version p = 1 \<and>
     (\<forall>r. ev_actor p = SystemActor r \<longrightarrow> r \<in> set AUDIT_SYSTEM_REASONS) \<and>
     entity_kind (ev_primary p) \<in> set AUDIT_ENTITY_KINDS \<and>
     list_all (\<lambda>e. entity_kind e \<in> set AUDIT_ENTITY_KINDS) (ev_related p) \<and>
     normalize_audit_timestamp (ev_occurred_at p) = Some (ev_occurred_at p)"

lemma event_hash_cong:
  assumes "audit_content.truncate c = audit_content.truncate d"
  shows "create_audit_event_hash h c = create_audit_event_hash h d"
proof -
  from assms have e: "ev_occurred_at c = ev_occurred_at d" "ev_payload_digest c = ev_payload_digest d"
    "ev_previous_hash c = ev_previous_hash d" "ev_sequence c = ev_sequence d"
    by (simp_all add: audit_content.defs)
  have j: "content_json (c\<lparr>ev_occurred_at := x, ev_payload_digest := y, ev_previous_hash := z\<rparr>) =
      content_json (d\<lparr>ev_occurred_at := x, ev_payload_digest := y, ev_previous_hash := z\<rparr>)" for x y z
    using assms by (intro content_json_cong) (simp add: audit_content.defs)
  show ?thesis
    unfolding create_audit_event_hash_def serialize_audit_hash_content_def e j ..
qed

lemma payload_digest_cong:
  "canonical v = canonical w \<Longrightarrow> create_audit_payload_digest h v = create_audit_payload_digest h w"
  by (simp add: create_audit_payload_digest_def canonical_text_def serialize_canonical [of v w])

lemma parsed_facts:
  assumes "parse_audit_event_input h i = Some p"
  shows "ev_workspace p = in_workspace i" "ev_source p = in_source i" "ev_type p = in_type i"
    "ev_primary p = in_primary i" "ev_actor p = in_actor i" "parse_audit_payload h (in_type i) (in_payload i) = Some (pe_payload p)"
  using assms by (auto simp: parse_audit_event_input_def split: if_splits bind_splits)

lemma parsed_storable:
  assumes "parse_audit_event_input h i = Some p"
  shows "storable (pending_of (next_content p d tip) v x)"
proof -
  from assms have b: "boundary_ok h i" by (simp add: parse_audit_event_input_def split: if_splits)
  have "normalize_audit_timestamp s = Some s" if "time_ok h t" "normalize_time t = Some s" for t s
    using that
    by (cases t) (auto simp: normalize_audit_timestamp_def parse_to_iso_string normalize_idem
        dest: parse_date_time_bound split: option.splits)
  with assms b show ?thesis
    by (auto simp: storable_def parse_audit_event_input_def boundary_ok_def pending_of_def next_content_def
        entity_ok_def related_ok_def list_all_iff audit_content.defs audit_facts.defs
        split: bind_splits option.splits)
qed

lemma wp_bndI:
  "wp m Q' E' s \<Longrightarrow> (\<And>a t. Q' a t \<Longrightarrow> wp (f a) Q E t) \<Longrightarrow> (\<And>x t. E' x t \<Longrightarrow> E x t) \<Longrightarrow> wp (bnd m f) Q E s"
  by (simp add: wp_bnd) (rule wp_mono)

locale audit_store =
  fixes drv :: "'s audit_driver"
    and head_of :: "'s \<Rightarrow> string \<Rightarrow> chain_head option"
    and events_of :: "'s \<Rightarrow> string \<Rightarrow> stored_event list"
    and stored_json :: "json \<Rightarrow> json"
  assumes own: "e \<in> set (events_of s w) \<Longrightarrow> ev_workspace e = w"
    and lock: "wp (lock_chain_head drv w)
      (\<lambda>tip t. head_of s w = Some tip \<and> head_of t = head_of s \<and> events_of t = events_of s) (\<lambda>_ _. True) s"
    and find: "wp (find_event_by_source_id drv w src)
      (\<lambda>r t. head_of t = head_of s \<and> events_of t = events_of s \<and>
         (case r of None \<Rightarrow> \<forall>e \<in> set (events_of s w). ev_source e \<noteq> src
          | Some e \<Rightarrow> e \<in> set (events_of s w) \<and> ev_source e = src)) (\<lambda>_ _. True) s"
    and insert: "storable p \<Longrightarrow> \<forall>e \<in> set (events_of s (ev_workspace p)). ev_sequence e < ev_sequence p \<Longrightarrow>
      wp (insert_event drv p)
        (\<lambda>e t. as_pending stored_json p e \<and> head_of t = head_of s \<and>
           events_of t = (events_of s)(ev_workspace p := events_of s (ev_workspace p) @ [e])) (\<lambda>_ _. True) s"
    and update: "wp (update_chain_head drv tip)
      (\<lambda>_ t. events_of t = events_of s \<and> head_of t = (head_of s)(head_workspace tip := Some tip)) (\<lambda>_ _. True) s"
begin

text \<open>The head of every workspace is the end of its chain.\<close>

definition chained :: "audit_host \<Rightarrow> 's \<Rightarrow> string \<Rightarrow> bool" where
  "chained h s w \<longleftrightarrow>
     (case head_of s w of
        None \<Rightarrow> True
      | Some tip \<Rightarrow>
          head_sequence tip = int (length (events_of s w)) \<and>
          linked h 1 GENESIS_PREVIOUS_HASH (events_of s w) (head_hash tip) \<and>
          distinct (map ev_source (events_of s w)))"

lemma chained_cong:
  "head_of t w = head_of s w \<Longrightarrow> events_of t w = events_of s w \<Longrightarrow> chained h t w = chained h s w"
  by (simp add: chained_def cong: option.case_cong)

text \<open>What an append returns and leaves, given that the chains were in order.\<close>

definition appended :: "audit_host \<Rightarrow> audit_input \<Rightarrow> 's \<Rightarrow> stored_event \<times> bool \<Rightarrow> 's \<Rightarrow> bool" where
  "appended h i s r t \<longleftrightarrow>
     (case r of (e, idempotent) \<Rightarrow>
        ev_workspace e = in_workspace i \<and> ev_source e = in_source i \<and> ev_type e = in_type i \<and>
        ev_primary e = in_primary i \<and>
        (\<exists>v. parse_audit_payload h (in_type i) (in_payload i) = Some v \<and>
             create_audit_payload_digest h v = Inr (ev_payload_digest e) \<and>
             (\<exists>t. canonical_text h v = Inr t \<and> length t \<le> MAX_PAYLOAD_LENGTH) \<and>
             (\<not> idempotent \<longrightarrow> ev_payload e = stored_json v)) \<and>
        e \<in> set (events_of t (in_workspace i)) \<and>
        (if idempotent then head_of t = head_of s \<and> events_of t = events_of s
         else events_of t = (events_of s)(in_workspace i := events_of s (in_workspace i) @ [e]) \<and>
           head_of t = (head_of s)(in_workspace i := Some \<lparr>head_workspace = in_workspace i,
             head_sequence = ev_sequence e, head_hash = ev_hash e\<rparr>)))"
lemma append_new_spec:
  assumes js: "\<And>v. canonical (stored_json v) = canonical v"
    and p: "parse_audit_event_input h i = Some p" and d: "create_audit_payload_digest h (pe_payload p) = Inr d"
    and tx: "canonical_text h (pe_payload p) = Inr ctext" "length ctext \<le> MAX_PAYLOAD_LENGTH"
    and tip: "head_of s (in_workspace i) = Some tip" and c: "chained h s (in_workspace i)"
    and fresh: "\<forall>e \<in> set (events_of s (in_workspace i)). ev_source e \<noteq> in_source i"
  shows "wp (append_new h drv p d tip) (\<lambda>r t. appended h i s r t \<and> chained h t (in_workspace i)) (\<lambda>_ _. True) s"
proof -
  let ?w = "in_workspace i" and ?c = "next_content p d tip"
  let ?es = "events_of s ?w"
  note facts = parsed_facts [OF p]
  from c tip have n: "head_sequence tip = int (length ?es)" and l: "linked h 1 GENESIS_PREVIOUS_HASH ?es (head_hash tip)"
    and ds: "distinct (map ev_source ?es)" by (simp_all add: chained_def)
  have cf: "ev_workspace ?c = ?w" "ev_source ?c = in_source i" "ev_sequence ?c = 1 + int (length ?es)"
    "ev_payload_digest ?c = d" "ev_type ?c = in_type i" "ev_primary ?c = in_primary i"
    "ev_previous_hash ?c = head_hash tip"
    using linked_head [OF l] n facts
    by (auto simp: next_content_def audit_facts.defs)
  have seqs: "\<forall>e \<in> set ?es. ev_sequence e < 1 + int (length ?es)"
    using linked_sequences [OF l] by (auto simp: in_set_conv_nth)
  show ?thesis
  proof (cases "create_audit_event_hash h ?c")
    case (Inl x)
    then show ?thesis by (simp add: append_new_def Let_def wp_rules)
  next
    case (Inr x)
    let ?p = "pending_of ?c (pe_payload p) x"
    have pf: "audit_content.truncate ?p = ?c" "ev_hash ?p = x" "ev_payload ?p = pe_payload p"
      by (simp_all add: pending_of_def audit_content.defs)
    then have pw: "ev_workspace ?p = ?w" "ev_sequence ?p = 1 + int (length ?es)"
      using cf(1,3) by (simp_all add: pending_of_def audit_content.defs)
    have "wp (insert_event drv ?p) (\<lambda>e t. as_pending stored_json ?p e \<and> head_of t = head_of s \<and>
        events_of t = (events_of s)(?w := ?es @ [e])) (\<lambda>_ _. True) s"
      using insert [OF parsed_storable [OF p], of s d tip "pe_payload p" x] seqs unfolding pw by blast
    moreover
    {
      fix e t
      assume e: "as_pending stored_json ?p e" "head_of t = head_of s" "events_of t = (events_of s)(?w := ?es @ [e])"
      from e(1) pf have tr: "audit_content.truncate e = ?c" "ev_hash e = x" "canonical (ev_payload e) = canonical (pe_payload p)" "ev_payload e = stored_json (pe_payload p)"
        using js by (simp_all add: as_pending_def)
      from tr(1) [symmetric] cf have ef: "ev_workspace e = ?w" "ev_source e = in_source i" "ev_sequence e = 1 + int (length ?es)"
        "ev_payload_digest e = d" "ev_type e = in_type i" "ev_primary e = in_primary i" "ev_previous_hash e = head_hash tip"
        by (auto simp: audit_content.defs)
      have "audit_content.truncate e = audit_content.truncate ?c" using tr(1) by (simp add: audit_content.defs)
      from event_hash_cong [OF this] Inr tr(2) have "create_audit_event_hash h e = Inr (ev_hash e)" by simp
      with ef d payload_digest_cong [OF tr(3)] have ok: "event_ok h (1 + int (length ?es)) (head_hash tip) e"
        by (simp add: event_ok_def)
      have "wp (update_chain_head drv \<lparr>head_workspace = ?w, head_sequence = ev_sequence ?c, head_hash = x\<rparr>)
          (\<lambda>_ u. appended h i s (e, False) u \<and> chained h u ?w) (\<lambda>_ _. True) t"
      proof (rule wp_mono [OF update])
        fix u
        assume u: "events_of u = events_of t \<and> head_of u = (head_of t)
          (head_workspace \<lparr>head_workspace = ?w, head_sequence = ev_sequence ?c, head_hash = x\<rparr> :=
             Some \<lparr>head_workspace = ?w, head_sequence = ev_sequence ?c, head_hash = x\<rparr>)"
        have "linked h 1 GENESIS_PREVIOUS_HASH (?es @ [e]) x"
          unfolding linked_append using l ok tr(2) by auto
        with u e(2,3) ds fresh ef have "chained h u ?w" by (auto simp: chained_def cf)
        with u e(2,3) ef facts d tx tr(2,4) show "appended h i s (e, False) u \<and> chained h u ?w"
          by (auto simp: appended_def cf)
      qed simp
    }
    ultimately show ?thesis
      by (simp add: append_new_def Let_def wp_rules Inr facts(1)) (erule wp_mono, simp_all add: wp_rules)
  qed
qed

lemma append_spec:
  assumes js: "\<And>v. canonical (stored_json v) = canonical v"
    and c: "chained h s (in_workspace i)"
  shows "wp (append_audit_event h drv i) (\<lambda>r t. appended h i s r t \<and> chained h t (in_workspace i)) (\<lambda>_ _. True) s"
proof (cases "parse_audit_event_input h i")
  case None
  then show ?thesis by (simp add: append_audit_event_def wp_rules)
next
  case (Some p)
  let ?w = "in_workspace i"
  let ?post = "\<lambda>r t. appended h i s r t \<and> chained h t ?w"
  note facts = parsed_facts [OF Some]
  have *: "wp (bnd (lock_chain_head drv ?w) (\<lambda>tip. bnd (find_event_by_source_id drv ?w (in_source i)) (\<lambda>existing.
      case existing of Some e \<Rightarrow> if source_matches e p d then ret (e, True) else throw AuditSourceConflict
      | None \<Rightarrow> append_new h drv p d tip))) ?post (\<lambda>_ _. True) s"
    if d: "create_audit_payload_digest h (pe_payload p) = Inr d"
      and tx: "canonical_text h (pe_payload p) = Inr ctext" "length ctext \<le> MAX_PAYLOAD_LENGTH" for d ctext
  proof (rule wp_bndI [OF lock], elim conjE)
    fix tip t
    assume t: "head_of s ?w = Some tip" "head_of t = head_of s" "events_of t = events_of s"
    then have ct: "chained h t ?w" using c chained_cong [of t ?w s] by simp
    have same: "appended h i t r u \<longleftrightarrow> appended h i s r u" for r u using t by (simp add: appended_def)
    show "wp (bnd (find_event_by_source_id drv ?w (in_source i)) (\<lambda>existing.
      case existing of Some e \<Rightarrow> if source_matches e p d then ret (e, True) else throw AuditSourceConflict
      | None \<Rightarrow> append_new h drv p d tip)) ?post (\<lambda>_ _. True) t"
    proof (rule wp_bndI [OF find], elim conjE)
      fix r u
      assume u: "head_of u = head_of t" "events_of u = events_of t"
        and r: "case r of None \<Rightarrow> \<forall>e \<in> set (events_of t ?w). ev_source e \<noteq> in_source i
          | Some e \<Rightarrow> e \<in> set (events_of t ?w) \<and> ev_source e = in_source i"
      have cu: "chained h u ?w" using ct u chained_cong [of u ?w t] by simp
      have same': "appended h i u r v \<longleftrightarrow> appended h i s r v" for r v using t u by (simp add: appended_def)
      show "wp (case r of Some e \<Rightarrow> if source_matches e p d then ret (e, True) else throw AuditSourceConflict
          | None \<Rightarrow> append_new h drv p d tip) ?post (\<lambda>_ _. True) u"
      proof (cases r)
        case None
        with append_new_spec [OF js Some d tx, of u tip] t u cu r show ?thesis by (simp add: same')
      next
        case e: (Some e)
        have "appended h i s (e, True) u \<and> chained h u ?w" if "source_matches e p d"
        proof -
          from r e have m: "e \<in> set (events_of t ?w)" "ev_source e = in_source i" by simp_all
          from that have "ev_type e = in_type i" "ev_primary e = in_primary i" "ev_payload_digest e = d"
            using facts by (auto simp: source_matches_def intro: entity_ref.equality)
          with m own [OF m(1)] t u facts(6) d tx cu show ?thesis by (auto simp: appended_def)
        qed
        with e show ?thesis by (simp add: wp_rules)
      qed
    qed simp
  qed simp
  show ?thesis
    using Some * facts(1,2)
    by (auto simp: append_audit_event_def wp_rules split: sum.split)
qed

end

end
