(* ===== verification/Audit_Store.thy ===== *)
theory Audit_Store
  imports Audit_Appender
begin

text \<open>
  The audit trail on the database (packages/database/src/audit-trail:
  audit-appender.repository.ts and audit-trail.repository.ts; the head row of a new workspace
  is created by identity.repository.ts): rows and events, the driver behind the appender, and
  the states that workspace creation and committed appends can reach.
\<close>

section \<open>The database\<close>

text \<open>
  The two tables (migration 20260805120000_workspace_audit_trail) and the driver's own field
  \<open>insertedHeadMetadata\<close>. Times are milliseconds. The identifiers the database generates, its
  clock and the form in which JSONB gives a value back are parameters; identifiers are taken
  in the spelling the database keeps.
\<close>

record event_row =
  row_id :: string
  row_workspace :: string
  row_sequence :: int
  row_schema_version :: int
  row_event_type :: string
  row_actor_type :: string
  row_actor_id :: string
  row_actor_reason :: "string option"
  row_primary_kind :: string
  row_primary_id :: string
  row_related :: "entity_ref list option"
  row_occurred_at :: int
  row_source :: string
  row_correlation :: "string option"
  row_payload :: json
  row_payload_digest :: string
  row_previous_hash :: string
  row_event_hash :: string
  row_created_at :: int

record head_row =
  hr_sequence :: int
  hr_hash :: string
  hr_event_type :: "string option"
  hr_event_at :: "int option"
  hr_updated_at :: int

record audit_db =
  db_heads :: "string \<Rightarrow> head_row option"
  db_rows :: "event_row list"
  db_metadata :: "(string \<times> string \<times> int) option"

record database =
  db_new_id :: "nat \<Rightarrow> string"
  db_now :: "nat \<Rightarrow> int"
  db_jsonb :: "json \<Rightarrow> json"

fun actor_type_of :: "audit_actor \<Rightarrow> string" where
  "actor_type_of (UserActor u) = ''user''"
| "actor_type_of (RunnerActor r) = ''runner''"
| "actor_type_of (SystemActor r) = ''system''"

fun actor_id_of :: "audit_actor \<Rightarrow> string" where
  "actor_id_of (UserActor u) = u"
| "actor_id_of (RunnerActor r) = r"
| "actor_id_of (SystemActor r) = ''system''"

fun actor_reason_of :: "audit_actor \<Rightarrow> string option" where
  "actor_reason_of (SystemActor r) = Some r"
| "actor_reason_of _ = None"

text \<open>A row as an event: unknown kinds and reasons are replaced by a default.\<close>

definition row_actor :: "event_row \<Rightarrow> audit_actor" where
  "row_actor r =
     (let reason = or_else (row_actor_reason r) []
      in if row_actor_type r = ''user'' \<and> reason = [] then UserActor (row_actor_id r)
         else if row_actor_type r = ''runner'' \<and> reason = [] then RunnerActor (row_actor_id r)
         else SystemActor (if reason \<in> set AUDIT_SYSTEM_REASONS then reason else ''automatic_expiry''))"

definition as_entity_ref :: "entity_ref \<Rightarrow> entity_ref" where
  "as_entity_ref e =
     (if entity_kind e \<in> set AUDIT_ENTITY_KINDS then e else e\<lparr>entity_kind := ''workflow''\<rparr>)"

definition to_audit_event_record :: "event_row \<Rightarrow> stored_event" where
  "to_audit_event_record r =
     \<lparr>ev_schema_version = row_schema_version r, ev_workspace = row_workspace r, ev_type = row_event_type r,
      ev_actor = row_actor r,
      ev_primary = as_entity_ref \<lparr>entity_kind = row_primary_kind r, entity_id = row_primary_id r\<rparr>,
      ev_related = (case row_related r of None \<Rightarrow> [] | Some es \<Rightarrow> map as_entity_ref es),
      ev_occurred_at = to_iso_string (row_occurred_at r), ev_source = row_source r,
      ev_correlation = row_correlation r, ev_sequence = row_sequence r,
      ev_payload_digest = row_payload_digest r, ev_previous_hash = row_previous_hash r,
      ev_payload = row_payload r, ev_hash = row_event_hash r, ev_id = row_id r,
      ev_created_at = to_iso_string (row_created_at r)\<rparr>"

text \<open>Reads of a workspace: its head, and its rows in the order of their sequences.\<close>

definition get_chain_head :: "string \<Rightarrow> (audit_db, audit_exn, chain_head) comp" where
  "get_chain_head w s =
     (case db_heads s w of
        None \<Rightarrow> (Inl ChainHeadMissing, s)
      | Some r \<Rightarrow> (Inr \<lparr>head_workspace = w, head_sequence = hr_sequence r, head_hash = hr_hash r\<rparr>, s))"

definition workspace_rows :: "audit_db \<Rightarrow> string \<Rightarrow> event_row list" where
  "workspace_rows s w = sort_key row_sequence (filter (\<lambda>r. row_workspace r = w) (db_rows s))"

definition find_by_source :: "string \<Rightarrow> string \<Rightarrow> (audit_db, audit_exn, stored_event option) comp" where
  "find_by_source w src s =
     (Inr (map_option to_audit_event_record
        (List.find (\<lambda>r. row_workspace r = w \<and> row_source r = src) (db_rows s))), s)"

definition event_to_row :: "database \<Rightarrow> nat \<Rightarrow> pending_event \<Rightarrow> int \<Rightarrow> event_row" where
  "event_to_row db n e occurred =
     \<lparr>row_id = db_new_id db n, row_workspace = ev_workspace e, row_sequence = ev_sequence e,
      row_schema_version = ev_schema_version e, row_event_type = ev_type e,
      row_actor_type = actor_type_of (ev_actor e), row_actor_id = actor_id_of (ev_actor e),
      row_actor_reason = actor_reason_of (ev_actor e), row_primary_kind = entity_kind (ev_primary e),
      row_primary_id = entity_id (ev_primary e), row_related = Some (ev_related e),
      row_occurred_at = occurred, row_source = ev_source e, row_correlation = ev_correlation e,
      row_payload = db_jsonb db (ev_payload e), row_payload_digest = ev_payload_digest e,
      row_previous_hash = ev_previous_hash e, row_event_hash = ev_hash e, row_created_at = db_now db n\<rparr>"

text \<open>The indexes allow one row per workspace and sequence and one per workspace and source.\<close>

definition insert_row :: "database \<Rightarrow> pending_event \<Rightarrow> (audit_db, audit_exn, stored_event) comp" where
  "insert_row db e s =
     (case parse_date_time (ev_occurred_at e) of
        None \<Rightarrow> (Inl AuditTypeError, s)
      | Some occurred \<Rightarrow>
          if list_ex (\<lambda>r. row_workspace r = ev_workspace e \<and>
               (row_sequence r = ev_sequence e \<or> row_source r = ev_source e)) (db_rows s)
          then (Inl UniqueViolation, s)
          else
            let r = event_to_row db (length (db_rows s)) e occurred
            in (Inr \<lparr>ev_schema_version = 1, ev_workspace = row_workspace r, ev_type = row_event_type r,
                  ev_actor = ev_actor e, ev_primary = ev_primary e, ev_related = ev_related e,
                  ev_occurred_at = to_iso_string (row_occurred_at r), ev_source = row_source r,
                  ev_correlation = row_correlation r, ev_sequence = row_sequence r,
                  ev_payload_digest = row_payload_digest r, ev_previous_hash = row_previous_hash r,
                  ev_payload = row_payload r, ev_hash = row_event_hash r, ev_id = row_id r,
                  ev_created_at = to_iso_string (row_created_at r)\<rparr>,
                s\<lparr>db_rows := db_rows s @ [r],
                  db_metadata := Some (ev_workspace e, ev_type e, row_occurred_at r)\<rparr>))"

definition update_head :: "chain_head \<Rightarrow> (audit_db, audit_exn, unit) comp" where
  "update_head tip s =
     (case db_metadata s of
        None \<Rightarrow> (Inl HeadMetadataMissing, s)
      | Some (w, type, occurred) \<Rightarrow>
          if w \<noteq> head_workspace tip then (Inl HeadMetadataMissing, s)
          else if db_heads s w = None then (Inl RecordNotFound, s)
          else (Inr (), s\<lparr>db_heads := (db_heads s)(w := Some
                 \<lparr>hr_sequence = head_sequence tip, hr_hash = head_hash tip, hr_event_type = Some type,
                  hr_event_at = Some occurred, hr_updated_at = occurred\<rparr>),
               db_metadata := None\<rparr>))"

definition prisma_driver :: "database \<Rightarrow> audit_db audit_driver" where
  "prisma_driver db =
     \<lparr>lock_chain_head = get_chain_head, find_event_by_source_id = find_by_source,
      insert_event = insert_row db, update_chain_head = update_head\<rparr>"

text \<open>Each append makes a driver of its own; a throw rolls the caller's transaction back.\<close>

definition append_audit_event_transactional ::
  "audit_host \<Rightarrow> database \<Rightarrow> audit_input \<Rightarrow> (audit_db, audit_exn, stored_event \<times> bool) comp" where
  "append_audit_event_transactional h db i s =
     append_audit_event h (prisma_driver db) i (s\<lparr>db_metadata := None\<rparr>)"

definition transaction :: "('s, 'x, 'a) comp \<Rightarrow> ('s, 'x, 'a) comp" where
  "transaction m s = (case m s of (Inl x, t) \<Rightarrow> (Inl x, s) | (Inr a, t) \<Rightarrow> (Inr a, t))"


text \<open>Creating a workspace creates its head row, with the defaults of the table.\<close>

definition create_chain_head :: "string \<Rightarrow> int \<Rightarrow> audit_db \<Rightarrow> audit_db" where
  "create_chain_head w now s = s\<lparr>db_heads := (db_heads s)(w := Some
     \<lparr>hr_sequence = 0, hr_hash = GENESIS_PREVIOUS_HASH, hr_event_type = None, hr_event_at = None,
      hr_updated_at = now\<rparr>)\<rparr>"

definition empty_db :: audit_db where
  "empty_db = \<lparr>db_heads = (\<lambda>_. None), db_rows = [], db_metadata = None\<rparr>"

section \<open>The driver meets the contract\<close>

definition db_head_of :: "audit_db \<Rightarrow> string \<Rightarrow> chain_head option" where
  "db_head_of s w = map_option
     (\<lambda>r. \<lparr>head_workspace = w, head_sequence = hr_sequence r, head_hash = hr_hash r\<rparr>) (db_heads s w)"

definition db_events_of :: "audit_db \<Rightarrow> string \<Rightarrow> stored_event list" where
  "db_events_of s w = map to_audit_event_record (workspace_rows s w)"

lemma insort_key_before:
  "f y \<le> f x \<Longrightarrow> insort_key f y (zs @ [x]) = insort_key f y zs @ [x]" for f :: "'a \<Rightarrow> 'b :: linorder"
  by (induction zs) auto

lemma sort_key_snoc:
  "\<forall>y \<in> set xs. f y \<le> f x \<Longrightarrow> sort_key f (xs @ [x]) = sort_key f xs @ [x]" for f :: "'a \<Rightarrow> 'b :: linorder"
  by (induction xs) (auto simp: insort_key_before)

lemma workspace_rows_snoc:
  assumes "\<forall>e \<in> set (db_events_of s (row_workspace r)). ev_sequence e < row_sequence r"
  shows "map to_audit_event_record (sort_key row_sequence (filter (\<lambda>r. row_workspace r = w) (db_rows s @ [r]))) =
    (if row_workspace r = w then db_events_of s w @ [to_audit_event_record r] else db_events_of s w)"
proof (cases "row_workspace r = w")
  case True
  with assms have "\<forall>y \<in> set (filter (\<lambda>r. row_workspace r = w) (db_rows s)). row_sequence y \<le> row_sequence r"
    by (auto simp: db_events_of_def workspace_rows_def to_audit_event_record_def)
  from sort_key_snoc [of _ row_sequence, OF this] True show ?thesis
    by (simp add: db_events_of_def workspace_rows_def)
qed (simp add: db_events_of_def workspace_rows_def)

lemma row_actor_round_trip:
  "(\<forall>x. a = SystemActor x \<longrightarrow> x \<in> set AUDIT_SYSTEM_REASONS) \<Longrightarrow>
     row_actor_type r = actor_type_of a \<Longrightarrow> row_actor_id r = actor_id_of a \<Longrightarrow>
     row_actor_reason r = actor_reason_of a \<Longrightarrow> row_actor r = a"
  by (cases a) (auto simp: row_actor_def Let_def)

lemma stored_row_round_trip:
  assumes s: "storable p" and t: "parse_date_time (ev_occurred_at p) = Some ms"
  shows "to_audit_event_record (event_to_row db n p ms) =
    \<lparr>ev_schema_version = 1, ev_workspace = ev_workspace p, ev_type = ev_type p, ev_actor = ev_actor p,
     ev_primary = ev_primary p, ev_related = ev_related p, ev_occurred_at = ev_occurred_at p,
     ev_source = ev_source p, ev_correlation = ev_correlation p, ev_sequence = ev_sequence p,
     ev_payload_digest = ev_payload_digest p, ev_previous_hash = ev_previous_hash p,
     ev_payload = db_jsonb db (ev_payload p), ev_hash = ev_hash p, ev_id = db_new_id db n,
     ev_created_at = to_iso_string (db_now db n)\<rparr>"
proof -
  from s have k: "entity_kind (ev_primary p) \<in> set AUDIT_ENTITY_KINDS"
    and l: "map as_entity_ref (ev_related p) = ev_related p"
    by (auto simp: storable_def list_all_iff as_entity_ref_def intro!: map_idI)
  from s t have o: "to_iso_string ms = ev_occurred_at p" and v: "ev_schema_version p = 1"
    by (auto simp: storable_def normalize_audit_timestamp_def)
  from s have a: "row_actor (event_to_row db n p ms) = ev_actor p"
    by (intro row_actor_round_trip) (auto simp: storable_def event_to_row_def)
  have e: "as_entity_ref \<lparr>entity_kind = entity_kind (ev_primary p), entity_id = entity_id (ev_primary p)\<rparr> = ev_primary p"
    using k by (simp add: as_entity_ref_def)
  show ?thesis
    unfolding to_audit_event_record_def a
    by (simp add: event_to_row_def e l o v)
qed

lemma head_of_rows [simp]: "db_head_of (s\<lparr>db_rows := rs, db_metadata := m\<rparr>) = db_head_of s"
  by (simp add: db_head_of_def fun_eq_iff)

lemma find_source_row:
  "case map_option to_audit_event_record (List.find (\<lambda>r. row_workspace r = w \<and> row_source r = src) (db_rows s)) of
     None \<Rightarrow> \<forall>e \<in> set (db_events_of s w). ev_source e \<noteq> src
   | Some e \<Rightarrow> e \<in> set (db_events_of s w) \<and> ev_source e = src"
proof (cases "List.find (\<lambda>r. row_workspace r = w \<and> row_source r = src) (db_rows s)")
  case None
  then have "\<forall>r \<in> set (workspace_rows s w). row_source r \<noteq> src"
    by (auto simp: find_None_iff workspace_rows_def)
  with None show ?thesis by (simp add: db_events_of_def to_audit_event_record_def)
next
  case (Some r)
  from find_Some_set [OF this] Some show ?thesis
    by (auto simp: db_events_of_def workspace_rows_def) (simp add: to_audit_event_record_def)
qed

lemma insert_row_law:
  assumes s: "storable p" and seq: "\<forall>e \<in> set (db_events_of s (ev_workspace p)). ev_sequence e < ev_sequence p"
  shows "wp (insert_row db p)
    (\<lambda>e t. as_pending (db_jsonb db) p e \<and> db_head_of t = db_head_of s \<and>
       db_events_of t = (db_events_of s)(ev_workspace p := db_events_of s (ev_workspace p) @ [e])) (\<lambda>_ _. True) s"
proof (cases "parse_date_time (ev_occurred_at p)")
  case None
  then show ?thesis by (simp add: wp_def insert_row_def)
next
  case (Some ms)
  let ?r = "event_to_row db (length (db_rows s)) p ms"
  note rt = stored_row_round_trip [OF s Some, of db "length (db_rows s)"]
  have rw: "row_workspace ?r = ev_workspace p" "row_sequence ?r = ev_sequence p" by (simp_all add: event_to_row_def)
  from s Some have o: "to_iso_string ms = ev_occurred_at p"
    by (auto simp: storable_def normalize_audit_timestamp_def)
  have ev: "db_events_of (s\<lparr>db_rows := db_rows s @ [?r], db_metadata := m\<rparr>) =
      (db_events_of s)(ev_workspace p := db_events_of s (ev_workspace p) @ [to_audit_event_record ?r])" for m
    using workspace_rows_snoc [of s ?r] seq rw
    by (auto simp: fun_eq_iff db_events_of_def workspace_rows_def)
  have "as_pending (db_jsonb db) p (to_audit_event_record ?r)"
    using s by (simp add: rt as_pending_def audit_content.defs storable_def)
  then show ?thesis
    using ev unfolding wp_def insert_row_def Some rt
    by (simp add: Let_def event_to_row_def o)
qed

interpretation trail: audit_store "prisma_driver db" db_head_of db_events_of "db_jsonb db" for db
proof
  fix s and w src :: string and p tip and e :: stored_event
  show "e \<in> set (db_events_of s w) \<Longrightarrow> ev_workspace e = w"
    by (auto simp: db_events_of_def workspace_rows_def to_audit_event_record_def)
  show "wp (lock_chain_head (prisma_driver db) w)
      (\<lambda>tip t. db_head_of s w = Some tip \<and> db_head_of t = db_head_of s \<and> db_events_of t = db_events_of s) (\<lambda>_ _. True) s"
    by (simp add: prisma_driver_def get_chain_head_def wp_def db_head_of_def split: option.splits)
  show "wp (find_event_by_source_id (prisma_driver db) w src)
      (\<lambda>r t. db_head_of t = db_head_of s \<and> db_events_of t = db_events_of s \<and>
         (case r of None \<Rightarrow> \<forall>e \<in> set (db_events_of s w). ev_source e \<noteq> src
          | Some e \<Rightarrow> e \<in> set (db_events_of s w) \<and> ev_source e = src)) (\<lambda>_ _. True) s"
    using find_source_row [where s = s and w = w and src = src] by (simp add: prisma_driver_def find_by_source_def wp_def)
  show "storable p \<Longrightarrow> \<forall>e \<in> set (db_events_of s (ev_workspace p)). ev_sequence e < ev_sequence p \<Longrightarrow>
      wp (insert_event (prisma_driver db) p)
        (\<lambda>e t. as_pending (db_jsonb db) p e \<and> db_head_of t = db_head_of s \<and>
           db_events_of t = (db_events_of s)(ev_workspace p := db_events_of s (ev_workspace p) @ [e])) (\<lambda>_ _. True) s"
    by (simp add: prisma_driver_def insert_row_law)
  show "wp (update_chain_head (prisma_driver db) tip)
      (\<lambda>_ t. db_events_of t = db_events_of s \<and> db_head_of t = (db_head_of s)(head_workspace tip := Some tip)) (\<lambda>_ _. True) s"
    by (auto simp: prisma_driver_def update_head_def wp_def db_head_of_def db_events_of_def workspace_rows_def
        split: option.splits)
qed

section \<open>Reachable trails\<close>

text \<open>Workspaces are created and events appended, each append in a transaction of its own.\<close>

inductive audit_reachable :: "audit_host \<Rightarrow> database \<Rightarrow> audit_db \<Rightarrow> bool" for h db where
  reach_empty: "audit_reachable h db empty_db"
| reach_workspace: "audit_reachable h db s \<Longrightarrow> db_heads s w = None \<Longrightarrow>
    audit_reachable h db (create_chain_head w now s)"
| reach_append: "audit_reachable h db s \<Longrightarrow>
    transaction (append_audit_event_transactional h db i) s = (r, t) \<Longrightarrow> audit_reachable h db t"

lemma metadata_invisible [simp]:
  "db_head_of (s\<lparr>db_metadata := m\<rparr>) = db_head_of s" "db_events_of (s\<lparr>db_metadata := m\<rparr>) = db_events_of s"
  by (simp_all add: db_head_of_def db_events_of_def workspace_rows_def fun_eq_iff)

lemma chained_metadata: "trail.chained h (s\<lparr>db_metadata := m\<rparr>) w = trail.chained h s w"
  by (rule trail.chained_cong) simp_all

text \<open>Every workspace without a head has no events, and the others are chained.\<close>

definition audit_inv :: "audit_host \<Rightarrow> audit_db \<Rightarrow> bool" where
  "audit_inv h s \<longleftrightarrow>
     (\<forall>w. trail.chained h s w \<and> (db_head_of s w = None \<longrightarrow> db_events_of s w = []))"

lemma transaction_append:
  assumes js: "\<And>v. canonical (db_jsonb db v) = canonical v" and inv: "audit_inv h s"
    and m: "transaction (append_audit_event_transactional h db i) s = (r, t)"
  shows "audit_inv h t \<and>
    (case r of Inl x \<Rightarrow> t = s | Inr a \<Rightarrow> trail.appended db h i (s\<lparr>db_metadata := None\<rparr>) a t)"
proof -
  let ?s = "s\<lparr>db_metadata := None\<rparr>"
  have c: "trail.chained h ?s w" for w using inv by (simp add: audit_inv_def chained_metadata)
  note spec = trail.append_spec [of db h ?s i, OF js c, unfolded wp_def]
  show ?thesis
  proof (cases "append_audit_event h (prisma_driver db) i ?s")
    case (Pair q u)
    show ?thesis
    proof (cases q)
      case (Inl x)
      with Pair m inv show ?thesis by (auto simp: transaction_def append_audit_event_transactional_def)
    next
      case (Inr a)
      with Pair m have rt: "r = Inr a" "t = u" by (auto simp: transaction_def append_audit_event_transactional_def)
      from spec Pair Inr have ap: "trail.appended db h i ?s a u" and cw: "trail.chained h u (in_workspace i)" by auto
      have "trail.chained h u w \<and> (db_head_of u w = None \<longrightarrow> db_events_of u w = [])" for w
      proof (cases "w = in_workspace i")
        case True
        with ap cw inv show ?thesis
          by (auto simp: trail.appended_def audit_inv_def split: if_splits prod.splits)
      next
        case False
        with ap have "db_head_of u w = db_head_of s w" "db_events_of u w = db_events_of s w"
          by (auto simp: trail.appended_def split: if_splits prod.splits)
        with inv trail.chained_cong [of u w s] show ?thesis by (simp add: audit_inv_def)
      qed
      with rt ap show ?thesis by (simp add: audit_inv_def)
    qed
  qed
qed

lemma reachable_inv:
  assumes "audit_reachable h db s" and js: "\<And>v. canonical (db_jsonb db v) = canonical v"
  shows "audit_inv h s"
  using assms(1)
proof (induction rule: audit_reachable.induct)
  case reach_empty
  show ?case by (simp add: audit_inv_def trail.chained_def db_head_of_def db_events_of_def workspace_rows_def empty_db_def)
next
  case (reach_workspace s w now)
  have "trail.chained h (create_chain_head w now s) v \<and>
      (db_head_of (create_chain_head w now s) v = None \<longrightarrow> db_events_of (create_chain_head w now s) v = [])" for v
  proof (cases "v = w")
    case True
    with reach_workspace show ?thesis
      by (auto simp: audit_inv_def trail.chained_def db_head_of_def db_events_of_def workspace_rows_def create_chain_head_def)
  next
    case False
    then have "db_head_of (create_chain_head w now s) v = db_head_of s v"
      "db_events_of (create_chain_head w now s) v = db_events_of s v"
      by (simp_all add: db_head_of_def db_events_of_def workspace_rows_def create_chain_head_def)
    with reach_workspace trail.chained_cong [of "create_chain_head w now s" v s] show ?thesis
      by (simp add: audit_inv_def)
  qed
  then show ?case by (simp add: audit_inv_def)
next
  case (reach_append s i r t)
  from transaction_append [OF js reach_append.IH reach_append.hyps(2)] show ?case by blast
qed

section \<open>Properties\<close>

lemma reachable_chain:
  assumes "audit_reachable h db s" and "\<forall>v. canonical (db_jsonb db v) = canonical v" and r: "db_heads s w = Some r"
  shows "hr_sequence r = int (length (db_events_of s w))"
    and "linked h 1 GENESIS_PREVIOUS_HASH (db_events_of s w) (hr_hash r)"
    and "distinct (map ev_source (db_events_of s w))"
  using reachable_inv [OF assms(1)] assms(2) r
  by (auto simp: audit_inv_def trail.chained_def db_head_of_def split: option.splits)

lemma verify_linked:
  assumes "linked h 1 GENESIS_PREVIOUS_HASH es q"
  shows "verify_audit_event_chain h es (whole_chain q) =
    Inr \<lparr>vr_valid = True, vr_checked_count = length es, vr_first_sequence = first_sequence es,
      vr_last_sequence = last_sequence es, vr_computed_head = q, vr_stored_head = q, vr_failure = None\<rparr>"
  using assms verify_events_linked [of h q "first_sequence es" 0 1 GENESIS_PREVIOUS_HASH es "length es" q]
  by (simp add: verify_audit_event_chain_def whole_chain_def)

text \<open>
  C15: whatever workspaces are created and whatever events are appended, in any order and with
  any of them failing, the verifier accepts the stored trail of every workspace against its
  stored head, and the head's sequence is the number of events.
\<close>

theorem appended_trails_verify:
  "audit_reachable h db s \<Longrightarrow> \<forall>v. canonical (db_jsonb db v) = canonical v \<Longrightarrow> db_heads s w = Some r \<Longrightarrow>
   verify_audit_event_chain h (db_events_of s w) (whole_chain (hr_hash r)) =
     Inr \<lparr>vr_valid = True, vr_checked_count = nat (hr_sequence r),
       vr_first_sequence = (if hr_sequence r = 0 then None else Some 1),
       vr_last_sequence = (if hr_sequence r = 0 then None else Some (hr_sequence r)),
       vr_computed_head = hr_hash r, vr_stored_head = hr_hash r, vr_failure = None\<rparr>"
proof -
  assume a: "audit_reachable h db s" "\<forall>v. canonical (db_jsonb db v) = canonical v" "db_heads s w = Some r"
  note c = reachable_chain [OF a]
  have "first_sequence (db_events_of s w) = (if hr_sequence r = 0 then None else Some 1)"
    using c(1) linked_sequences [OF c(2), of 0] by (cases "db_events_of s w") (auto simp: first_sequence_def)
  moreover have "last_sequence (db_events_of s w) = (if hr_sequence r = 0 then None else Some (hr_sequence r))"
    using c(1) linked_last [OF c(2)] by (auto simp: last_sequence_def)
  ultimately show ?thesis using c(1) by (simp add: verify_linked [OF c(2)])
qed

text \<open>A database with one workspace and two appended events.\<close>

definition shop_database :: database where
  "shop_database = \<lparr>db_new_id = (\<lambda>n. ''id''), db_now = (\<lambda>n. 0), db_jsonb = (\<lambda>v. v)\<rparr>"

definition shop_input :: "string \<Rightarrow> string \<Rightarrow> audit_input" where
  "shop_input source workflow =
     \<lparr>in_schema_version = None, in_workspace = ''w'', in_type = ''workflow.created'',
      in_actor = UserActor ''u'', in_primary = \<lparr>entity_kind = ''workflow'', entity_id = workflow\<rparr>,
      in_related = None, in_occurred_at = AtDate (Some 1785931200000), in_source = source,
      in_correlation = None, in_payload = JObject [(''workflowId'', JString workflow)]\<rparr>"

abbreviation shop_append :: "audit_input \<Rightarrow> (audit_db, audit_exn, stored_event \<times> bool) comp" where
  "shop_append i \<equiv> transaction (append_audit_event_transactional shop_audit_host shop_database i)"

definition shop_db_created :: audit_db where "shop_db_created = create_chain_head ''w'' 0 empty_db"
definition shop_db_once :: audit_db where "shop_db_once = snd (shop_append (shop_input ''s1'' ''f1'') shop_db_created)"
definition shop_db :: audit_db where "shop_db = snd (shop_append (shop_input ''s2'' ''f2'') shop_db_once)"

lemma shop_reachable: "audit_reachable shop_audit_host shop_database shop_db_once"
    "audit_reachable shop_audit_host shop_database shop_db"
proof -
  have c: "audit_reachable shop_audit_host shop_database shop_db_created"
    unfolding shop_db_created_def by (intro reach_workspace reach_empty) (simp add: empty_db_def)
  show o: "audit_reachable shop_audit_host shop_database shop_db_once"
    unfolding shop_db_once_def by (rule reach_append [OF c prod.collapse [symmetric]])
  show "audit_reachable shop_audit_host shop_database shop_db"
    unfolding shop_db_def by (rule reach_append [OF o prod.collapse [symmetric]])
qed

lemma shop_json: "\<forall>v. canonical (db_jsonb shop_database v) = canonical v"
  by (simp add: shop_database_def)

definition shop_outcome :: "audit_db \<Rightarrow> int option \<times> string list \<times> bool" where
  "shop_outcome s = (map_option hr_sequence (db_heads s ''w''), map ev_source (db_events_of s ''w''),
     list_all (\<lambda>e. ev_hash e \<noteq> GENESIS_PREVIOUS_HASH) (db_events_of s ''w''))"

lemma shop_db_outcome: "shop_outcome shop_db = (Some 2, [''s1'', ''s2''], True)"
  by code_simp

lemma shop_db_head: "\<exists>r. db_heads shop_db ''w'' = Some r \<and> hr_sequence r = 2"
  using shop_db_outcome by (auto simp: shop_outcome_def)

theorem appended_trails_verify_witness:
  "\<exists>q. map_sum id vr_checked_count (verify_audit_event_chain shop_audit_host (db_events_of shop_db ''w'') (whole_chain q)) = Inr 2"
proof -
  from shop_db_head obtain r where "db_heads shop_db ''w'' = Some r" "hr_sequence r = 2" by blast
  with appended_trails_verify [OF shop_reachable(2) shop_json this(1)] show ?thesis
    by (intro exI [of _ "hr_hash r"]) simp
qed

text \<open>
  Appending is idempotent per source: once an event of a source has been appended, another
  append with that source stores nothing; it returns the stored event when type, primary entity
  and payload agree, and is rejected as a conflict otherwise.
\<close>

lemma source_is_appended_once:
  "audit_reachable h db s \<Longrightarrow> \<forall>v. canonical (db_jsonb db v) = canonical v \<Longrightarrow>
   transaction (append_audit_event_transactional h db i) s = (Inr (e, known), t) \<Longrightarrow>
   parse_audit_event_input h j = Some p \<Longrightarrow> in_workspace j = in_workspace i \<Longrightarrow> in_source j = in_source i \<Longrightarrow>
   canonical_text h (pe_payload p) = Inr text_j \<Longrightarrow> length text_j \<le> MAX_PAYLOAD_LENGTH \<Longrightarrow>
   create_audit_payload_digest h (pe_payload p) = Inr d \<Longrightarrow>
     transaction (append_audit_event_transactional h db j) t =
       (if source_matches e p d then (Inr (e, True), t\<lparr>db_metadata := None\<rparr>)
        else (Inl AuditSourceConflict, t))"
proof -
  assume reach: "audit_reachable h db s" and js: "\<forall>v. canonical (db_jsonb db v) = canonical v"
    and m: "transaction (append_audit_event_transactional h db i) s = (Inr (e, known), t)"
    and p: "parse_audit_event_input h j = Some p" and w: "in_workspace j = in_workspace i" and src: "in_source j = in_source i"
    and tx: "canonical_text h (pe_payload p) = Inr text_j" "length text_j \<le> MAX_PAYLOAD_LENGTH"
    and d: "create_audit_payload_digest h (pe_payload p) = Inr d"
  let ?w = "in_workspace i" and ?t = "t\<lparr>db_metadata := None\<rparr>"
  have js': "\<And>v. canonical (db_jsonb db v) = canonical v" using js by blast
  from transaction_append [OF js' reachable_inv [OF reach js'] m]
  have inv: "audit_inv h t" and ap: "trail.appended db h i (s\<lparr>db_metadata := None\<rparr>) (e, known) t" by simp_all
  from ap have e: "e \<in> set (db_events_of t ?w)" "ev_source e = in_source i" by (auto simp: trail.appended_def)
  with inv obtain tip where tip: "db_head_of t ?w = Some tip"
    by (cases "db_head_of t ?w") (auto simp: audit_inv_def)
  with inv have ds: "distinct (map ev_source (db_events_of t ?w))"
    by (auto simp: audit_inv_def trail.chained_def split: option.splits)
  from tip have lock: "get_chain_head ?w ?t = (Inr tip, ?t)"
    by (auto simp: get_chain_head_def db_head_of_def)
  have "map_option to_audit_event_record (List.find (\<lambda>r. row_workspace r = ?w \<and> row_source r = in_source i) (db_rows t)) = Some e"
    using find_source_row [where s = t and w = ?w and src = "in_source i"] e ds
    by (auto simp: inj_on_def distinct_map split: option.splits)
  then have find: "find_by_source ?w (in_source i) ?t = (Inr (Some e), ?t)"
    by (simp add: find_by_source_def)
  show ?thesis
    using p tx d parsed_facts(1,2) [OF p] w src lock find
    by (simp add: transaction_def append_audit_event_transactional_def append_audit_event_def prisma_driver_def
        bnd_def of_sum_def ret_def throw_def)
qed

lemma shop_append_once:
  "\<exists>e k. shop_append (shop_input ''s1'' ''f1'') shop_db_created = (Inr (e, k), shop_db_once)"
proof -
  have js: "\<And>v. canonical (db_jsonb shop_database v) = canonical v" using shop_json by blast
  obtain x where x: "shop_append (shop_input ''s1'' ''f1'') shop_db_created = (x, shop_db_once)"
    by (metis shop_db_once_def prod.collapse)
  obtain y where y: "shop_append (shop_input ''s2'' ''f2'') shop_db_once = (y, shop_db)"
    by (metis shop_db_def prod.collapse)
  have two: "length (db_events_of shop_db ''w'') = 2"
    using arg_cong [OF shop_db_outcome, of "\<lambda>x. length (fst (snd x))"] by (simp add: shop_outcome_def)
  show ?thesis
  proof (cases x)
    case (Inl z)
    with x have "shop_db_once = shop_db_created" by (auto simp: transaction_def split: prod.splits sum.splits)
    moreover have "db_events_of shop_db_created ''w'' = []"
      by (simp add: db_events_of_def workspace_rows_def shop_db_created_def create_chain_head_def empty_db_def)
    ultimately have "db_events_of shop_db_once ''w'' = []" by simp
    with transaction_append [OF js reachable_inv [OF shop_reachable(1) js] y]
    have "length (db_events_of shop_db ''w'') \<le> 1"
      by (cases y) (auto simp: trail.appended_def split: if_splits)
    with two show ?thesis by simp
  qed (use x in auto)
qed

lemma shop_parsed:
  "case parse_audit_event_input shop_audit_host (shop_input ''s1'' ''f2'') of
     None \<Rightarrow> False
   | Some p \<Rightarrow> (case canonical_text shop_audit_host (pe_payload p) of Inl _ \<Rightarrow> False | Inr u \<Rightarrow> length u = 19) \<and>
       \<not> isl (create_audit_payload_digest shop_audit_host (pe_payload p)) \<and> entity_id (ev_primary p) = ''f2''"
  by code_simp

lemma source_is_appended_once_witness:
  "fst (shop_append (shop_input ''s1'' ''f2'') shop_db_once) = Inl AuditSourceConflict"
proof -
  from shop_append_once obtain e k where a: "shop_append (shop_input ''s1'' ''f1'') shop_db_created = (Inr (e, k), shop_db_once)"
    by blast
  have c: "audit_reachable shop_audit_host shop_database shop_db_created"
    unfolding shop_db_created_def by (intro reach_workspace reach_empty) (simp add: empty_db_def)
  have sum: "\<not> isl z \<Longrightarrow> \<exists>y. z = Inr y" for z :: "audit_exn + string" by (cases z) auto
  from shop_parsed sum obtain p u d where p: "parse_audit_event_input shop_audit_host (shop_input ''s1'' ''f2'') = Some p"
    "canonical_text shop_audit_host (pe_payload p) = Inr u" "length u = 19"
    "create_audit_payload_digest shop_audit_host (pe_payload p) = Inr d" "entity_id (ev_primary p) = ''f2''"
    by (fastforce split: option.splits sum.splits)
  have "entity_id (ev_primary e) = ''f1''"
    using transaction_append [OF _ reachable_inv [OF c] a] shop_json
    by (auto simp: trail.appended_def shop_input_def)
  with p have "\<not> source_matches e p d" by (simp add: source_matches_def)
  with source_is_appended_once [OF c shop_json a p(1) _ _ p(2) _ p(4)] p(3) show ?thesis
    by (simp add: shop_input_def MAX_PAYLOAD_LENGTH_def)
qed

text \<open>Every stored payload came from the parser.\<close>

definition payloads_typed :: "audit_host \<Rightarrow> database \<Rightarrow> audit_db \<Rightarrow> bool" where
  "payloads_typed h db s \<longleftrightarrow>
     (\<forall>w. \<forall>e \<in> set (db_events_of s w). \<exists>v t. typed_payload h (ev_type e) v \<and> ev_payload e = db_jsonb db v \<and>
        canonical_text h v = Inr t \<and> length t \<le> MAX_PAYLOAD_LENGTH)"

lemma reachable_typed:
  assumes "audit_reachable h db s" and js: "\<And>v. canonical (db_jsonb db v) = canonical v"
  shows "payloads_typed h db s"
  using assms(1)
proof (induction rule: audit_reachable.induct)
  case reach_empty
  show ?case by (simp add: payloads_typed_def db_events_of_def workspace_rows_def empty_db_def)
next
  case (reach_workspace s w now)
  then show ?case by (simp add: payloads_typed_def db_events_of_def workspace_rows_def create_chain_head_def)
next
  case (reach_append s i r t)
  from transaction_append [OF js reachable_inv [OF reach_append.hyps(1) js] reach_append.hyps(2)]
  consider "t = s" | e b where "trail.appended db h i (s\<lparr>db_metadata := None\<rparr>) (e, b) t"
    by (cases r) auto
  then show ?case
  proof cases
    case (2 e b)
    then obtain v ctext where "db_events_of t = db_events_of s \<or>
        db_events_of t = (db_events_of s)(in_workspace i := db_events_of s (in_workspace i) @ [e]) \<and>
        typed_payload h (ev_type e) v \<and> ev_payload e = db_jsonb db v \<and>
        canonical_text h v = Inr ctext \<and> length ctext \<le> MAX_PAYLOAD_LENGTH"
      by (auto simp: trail.appended_def split: if_splits dest: parse_audit_payload_typed)
    with reach_append.IH show ?thesis by (fastforce simp: payloads_typed_def)
  qed (use reach_append.IH in simp)
qed

text \<open>
  C16: the type invariant of the trail: whatever was appended, the payload of every stored event
  is, up to the order of its keys, an object with exactly the fields of the schema of its event
  type, every one of them of its kind, and its canonical text has at most 4,096 characters.
\<close>

theorem stored_payloads_are_typed:
  "audit_reachable h db s \<Longrightarrow> \<forall>v. canonical (db_jsonb db v) = canonical v \<Longrightarrow> e \<in> set (db_events_of s w) \<Longrightarrow>
   \<exists>v t. typed_payload h (ev_type e) v \<and> ev_payload e = db_jsonb db v \<and>
     canonical_text h v = Inr t \<and> length t \<le> MAX_PAYLOAD_LENGTH"
  using reachable_typed [of h db s] by (simp add: payloads_typed_def)

theorem stored_payloads_are_typed_witness:
  "list_all (\<lambda>e. \<exists>v. typed_payload shop_audit_host (ev_type e) v \<and> ev_payload e = v) (db_events_of shop_db ''w'') \<and>
   db_events_of shop_db ''w'' \<noteq> []"
proof -
  have "db_events_of shop_db ''w'' \<noteq> []" using shop_db_outcome by (auto simp: shop_outcome_def)
  moreover have "\<exists>v. typed_payload shop_audit_host (ev_type e) v \<and> ev_payload e = v" if "e \<in> set (db_events_of shop_db ''w'')" for e
    using stored_payloads_are_typed [OF shop_reachable(2) shop_json that] by (auto simp: shop_database_def)
  ultimately show ?thesis by (simp add: list_all_iff)
qed

end
