(* ===== verification/Audit_Verification.thy ===== *)
theory Audit_Verification
  imports Audit_Store
begin

text \<open>
  The two verifiers of stored trails: the API endpoint \<open>verifyChain\<close>
  (apps/api/src/audit-trail/audit-trail.service.ts and its response mapper, reading a range
  through \<open>readRangeForVerification\<close>), and the check of a restored database in batches of a
  thousand events (packages/database/src/disaster-recovery/restored-database-verifier.ts).
\<close>

section \<open>Reading a range\<close>

definition clamp_sample_limit :: "int option \<Rightarrow> int" where
  "clamp_sample_limit v =
     (case v of
        None \<Rightarrow> 100000
      | Some n \<Rightarrow> if n < 1 then 1 else if 100000 < n then 100000 else n)"

definition read_range :: "audit_db \<Rightarrow> string \<Rightarrow> int option \<Rightarrow> int option \<Rightarrow> int option \<Rightarrow> stored_event list" where
  "read_range s w from_seq to_seq limit =
     map to_audit_event_record (take (nat (clamp_sample_limit limit))
       (filter (\<lambda>r. or_else from_seq 1 \<le> row_sequence r \<and>
           (case to_seq of None \<Rightarrow> True | Some m \<Rightarrow> row_sequence r \<le> m)) (workspace_rows s w)))"

section \<open>The endpoint\<close>

datatype member_role = RoleOwner | RoleAdmin | RoleMember | RoleViewer

record verify_request =
  rq_from :: "int option"
  rq_to :: "int option"
  rq_sample_limit :: int

text \<open>\<open>AuditVerifyRequestSchema\<close>; the limit defaults to 100.\<close>

definition request_ok :: "verify_request \<Rightarrow> bool" where
  "request_ok rq \<longleftrightarrow>
     (case rq_from rq of None \<Rightarrow> True | Some n \<Rightarrow> 1 \<le> n \<and> n \<le> MAX_SAFE_INTEGER) \<and>
     (case rq_to rq of None \<Rightarrow> True | Some n \<Rightarrow> 1 \<le> n \<and> n \<le> MAX_SAFE_INTEGER) \<and>
     1 \<le> rq_sample_limit rq \<and> rq_sample_limit rq \<le> 200"

text \<open>
  What the endpoint leaves behind: the verification state of the workspace together with an
  \<open>audit_integrity_failed\<close> alert, the verification state alone, or nothing.
\<close>

datatype verify_effect =
    RaiseIntegrityAlert failure_code int string
  | RecordVerified
  | NoVerifyEffect

datatype verify_exn = AccessForbidden | VerifyThrew audit_exn

definition is_verifier :: "member_role \<Rightarrow> bool" where
  "is_verifier role \<longleftrightarrow> role \<in> {RoleOwner, RoleAdmin}"

definition complete_verification :: "verify_request \<Rightarrow> head_row \<Rightarrow> verification \<Rightarrow> bool" where
  "complete_verification rq head v \<longleftrightarrow>
     rq_from rq = None \<and> rq_to rq = None \<and> vr_valid v \<and>
     int (vr_checked_count v) = hr_sequence head \<and>
     (hr_sequence head = 0 \<or>
      (vr_first_sequence v = Some 1 \<and> vr_last_sequence v = Some (hr_sequence head)))"

definition authoritative_failure :: "head_row \<Rightarrow> verification \<Rightarrow> (failure_code \<times> int) option" where
  "authoritative_failure head v =
     (case vr_failure v of
        None \<Rightarrow> None
      | Some (code, n) \<Rightarrow>
          if \<not> vr_valid v \<and> (code \<noteq> HeadHashMismatch \<or> vr_last_sequence v = Some (hr_sequence head))
          then Some (code, n) else None)"

definition failure_time :: "head_row \<Rightarrow> stored_event list \<Rightarrow> int \<Rightarrow> string" where
  "failure_time head es n =
     (case List.find (\<lambda>e. ev_sequence e = n) es of
        Some e \<Rightarrow> ev_occurred_at e
      | None \<Rightarrow> (case hr_event_at head of Some t \<Rightarrow> to_iso_string t | None \<Rightarrow> to_iso_string 0))"

definition verify_effect_of :: "verify_request \<Rightarrow> head_row \<Rightarrow> stored_event list \<Rightarrow> verification \<Rightarrow> verify_effect" where
  "verify_effect_of rq head es v =
     (case authoritative_failure head v of
        Some (code, n) \<Rightarrow> RaiseIntegrityAlert code n (failure_time head es n)
      | None \<Rightarrow> if complete_verification rq head v then RecordVerified else NoVerifyEffect)"

definition verify_chain ::
  "audit_host \<Rightarrow> audit_db \<Rightarrow> string \<Rightarrow> member_role \<Rightarrow> verify_request \<Rightarrow>
     verify_exn + verification \<times> verify_effect" where
  "verify_chain h s w role rq =
     (if \<not> is_verifier role then Inl AccessForbidden
      else case db_heads s w of
        None \<Rightarrow> Inl (VerifyThrew ChainHeadMissing)
      | Some head \<Rightarrow>
          let es = read_range s w (rq_from rq) (rq_to rq) (Some (rq_sample_limit rq))
          in case verify_audit_event_chain h es
               \<lparr>vo_first_sequence = rq_from rq, vo_previous_hash = None, vo_stored_head = hr_hash head,
                vo_require_head = None\<rparr> of
               Inl x \<Rightarrow> Inl (VerifyThrew x)
             | Inr v \<Rightarrow> Inr (v, verify_effect_of rq head es v))"

datatype verify_status = StatusOk | StatusTampered | StatusSequenceGap

definition verify_status :: "verification \<Rightarrow> verify_status" where
  "verify_status v =
     (if vr_valid v then StatusOk
      else if map_option fst (vr_failure v) = Some SequenceGap then StatusSequenceGap
      else StatusTampered)"

section \<open>The check of a restored database\<close>

datatype restore_exn =
    WorkspaceHeadMissing
  | RestoredEventInvalid
  | RestoredChainInvalid "failure_code option"
  | RestoredHeadMismatch
  | RestoreThrew audit_exn

definition AUDIT_BATCH_SIZE :: nat where "AUDIT_BATCH_SIZE = 1000"

text \<open>A row read back strictly: everything the writer validated is validated again.\<close>

definition restored_actor :: "audit_host \<Rightarrow> event_row \<Rightarrow> audit_actor option" where
  "restored_actor h r =
     (let a = (if row_actor_type r = ''user'' then Some (UserActor (row_actor_id r))
               else if row_actor_type r = ''runner'' then Some (RunnerActor (row_actor_id r))
               else map_option SystemActor (row_actor_reason r))
      in case a of None \<Rightarrow> None | Some b \<Rightarrow> if actor_ok h b then Some b else None)"

definition restored_event :: "audit_host \<Rightarrow> event_row \<Rightarrow> stored_event option" where
  "restored_event h r =
     (if row_schema_version r \<noteq> 1 then None
      else do {
        a \<leftarrow> restored_actor h r;
        es \<leftarrow> row_related r;
        let p = \<lparr>entity_kind = row_primary_kind r, entity_id = row_primary_id r\<rparr>;
        if row_event_type r \<in> set AUDIT_EVENT_TYPES \<and> entity_ok p \<and> related_ok es
        then Some \<lparr>ev_schema_version = row_schema_version r, ev_workspace = row_workspace r,
          ev_type = row_event_type r, ev_actor = a, ev_primary = p, ev_related = es,
          ev_occurred_at = to_iso_string (row_occurred_at r), ev_source = row_source r,
          ev_correlation = row_correlation r, ev_sequence = row_sequence r,
          ev_payload_digest = row_payload_digest r, ev_previous_hash = row_previous_hash r,
          ev_payload = row_payload r, ev_hash = row_event_hash r, ev_id = row_id r,
          ev_created_at = to_iso_string (row_created_at r)\<rparr>
        else None })"

definition batch_rows :: "audit_db \<Rightarrow> string \<Rightarrow> int \<Rightarrow> event_row list" where
  "batch_rows s w expected =
     take AUDIT_BATCH_SIZE (filter (\<lambda>r. expected \<le> row_sequence r) (workspace_rows s w))"

definition batch_options :: "int \<Rightarrow> string \<Rightarrow> string \<Rightarrow> verification_options" where
  "batch_options expected previous stored =
     \<lparr>vo_first_sequence = Some expected, vo_previous_hash = Some previous, vo_stored_head = stored,
      vo_require_head = Some False\<rparr>"

text \<open>One batch: the events it verified, none when no row is left.\<close>

definition verify_batch ::
  "audit_host \<Rightarrow> string \<Rightarrow> int \<Rightarrow> string \<Rightarrow> event_row list \<Rightarrow> restore_exn + stored_event list" where
  "verify_batch h stored expected previous rows =
     (case parse_list (restored_event h) rows of
        None \<Rightarrow> Inl RestoredEventInvalid
      | Some es \<Rightarrow>
          (case verify_audit_event_chain h es (batch_options expected previous stored) of
             Inl x \<Rightarrow> Inl (RestoreThrew x)
           | Inr v \<Rightarrow>
               if vr_valid v then Inr es else Inl (RestoredChainInvalid (map_option fst (vr_failure v)))))"

definition last_hash :: "stored_event list \<Rightarrow> string \<Rightarrow> string" where
  "last_hash es d = (if es = [] then d else ev_hash (last es))"

lemma verify_batch_length: "verify_batch h stored n p rows = Inr es \<Longrightarrow> length es = length rows"
  by (auto simp: verify_batch_def parse_list_length split: option.splits sum.splits if_splits)

definition max_sequence :: "audit_db \<Rightarrow> int" where
  "max_sequence s = fold (\<lambda>r m. max m (row_sequence r)) (db_rows s) 0"

lemma fold_max_ge: "m \<le> fold (\<lambda>r m. max m (f r)) rs m" for m :: int
proof (induction rs arbitrary: m)
  case (Cons r rs)
  from Cons.IH [of "max m (f r)"] show ?case by simp
qed simp

lemma fold_max_member: "r \<in> set rs \<Longrightarrow> f r \<le> fold (\<lambda>r m. max m (f r)) rs m" for m :: int
proof (induction rs arbitrary: m)
  case (Cons q rs)
  with fold_max_ge [where m = "max m (f q)" and rs = rs and f = f] show ?case by fastforce
qed simp

lemma batch_rows_le: "r \<in> set (batch_rows s w n) \<Longrightarrow> n \<le> row_sequence r \<and> row_sequence r \<le> max_sequence s"
  by (auto simp: batch_rows_def workspace_rows_def max_sequence_def dest!: in_set_takeD intro!: fold_max_member)

function verify_batches ::
  "audit_host \<Rightarrow> audit_db \<Rightarrow> string \<Rightarrow> string \<Rightarrow> int \<Rightarrow> string \<Rightarrow> nat \<Rightarrow> restore_exn + int \<times> string \<times> nat" where
  "verify_batches h s w stored expected previous count =
     (let rows = batch_rows s w expected
      in if rows = [] then Inr (expected, previous, count)
         else case verify_batch h stored expected previous rows of
                Inl x \<Rightarrow> Inl x
              | Inr es \<Rightarrow>
                  let n = expected + int (length es); p = last_hash es previous; c = count + length es
                  in if length rows < AUDIT_BATCH_SIZE then Inr (n, p, c)
                     else verify_batches h s w stored n p c)"
  by pat_completeness auto
termination
proof (relation "measure (\<lambda>(h, s, w, stored, n, p, c). nat (max_sequence s + 1 - n))")
  fix h s w stored n p c rows es m q d
  assume "rows = batch_rows s w n" "rows \<noteq> []" "verify_batch h stored n p rows = Inr es" "m = n + int (length es)"
  moreover from this batch_rows_le [of "hd rows" s w n] have "n \<le> max_sequence s" by (cases rows) auto
  ultimately show "((h, s, w, stored, m, q, d), h, s, w, stored, n, p, c) \<in>
      measure (\<lambda>(h, s, w, stored, n, p, c). nat (max_sequence s + 1 - n))"
    by (auto dest!: verify_batch_length)
qed simp

declare verify_batches.simps [simp del]

definition verify_restored_head :: "audit_host \<Rightarrow> audit_db \<Rightarrow> string \<Rightarrow> head_row \<Rightarrow> restore_exn + nat" where
  "verify_restored_head h s w head =
     (case verify_batches h s w (hr_hash head) 1 GENESIS_PREVIOUS_HASH 0 of
        Inl x \<Rightarrow> Inl x
      | Inr (n, p, c) \<Rightarrow>
          if hr_sequence head \<noteq> n - 1 \<or> hr_hash head \<noteq> p then Inl RestoredHeadMismatch else Inr c)"

text \<open>All workspaces of the database, in the order of their identifiers.\<close>

fun verify_heads :: "audit_host \<Rightarrow> audit_db \<Rightarrow> string list \<Rightarrow> nat \<Rightarrow> restore_exn + nat" where
  "verify_heads h s [] events = Inr events"
| "verify_heads h s (w # ws) events =
     (case db_heads s w of
        None \<Rightarrow> verify_heads h s ws events
      | Some head \<Rightarrow>
          ebind (verify_restored_head h s w head) (\<lambda>c. verify_heads h s ws (events + c)))"

definition verify_workspace_audit_chains :: "audit_host \<Rightarrow> audit_db \<Rightarrow> string list \<Rightarrow> restore_exn + nat \<times> nat" where
  "verify_workspace_audit_chains h s workspaces =
     (if list_ex (\<lambda>w. db_heads s w = None) workspaces then Inl WorkspaceHeadMissing
      else ebind (verify_heads h s workspaces 0) (\<lambda>events. Inr (length workspaces, events)))"

section \<open>Batches verify what the whole range would\<close>

text \<open>What the unique index of the event table provides.\<close>

definition sequences_unique :: "audit_db \<Rightarrow> string \<Rightarrow> bool" where
  "sequences_unique s w \<longleftrightarrow> distinct (map row_sequence (workspace_rows s w))"

definition rows_from :: "audit_db \<Rightarrow> string \<Rightarrow> int \<Rightarrow> event_row list" where
  "rows_from s w n = filter (\<lambda>r. n \<le> row_sequence r) (workspace_rows s w)"

lemma parse_list_append_eq:
  "parse_list p (xs @ ys) = do { us \<leftarrow> parse_list p xs; vs \<leftarrow> parse_list p ys; Some (us @ vs) }"
  by (induction xs) (auto simp: bind_assoc split: bind_splits)

lemma parse_list_append:
  "parse_list p (xs @ ys) = Some zs \<longleftrightarrow>
     (\<exists>us vs. parse_list p xs = Some us \<and> parse_list p ys = Some vs \<and> zs = us @ vs)"
  by (auto simp: parse_list_append_eq split: bind_splits)

lemma restored_sequence: "restored_event h r = Some e \<Longrightarrow> ev_sequence e = row_sequence r"
  by (auto simp: restored_event_def Let_def split: if_splits bind_splits)

lemma restored_sequences:
  "parse_list (restored_event h) rows = Some es \<Longrightarrow> map ev_sequence es = map row_sequence rows"
  by (induction rows arbitrary: es) (auto split: bind_splits dest: restored_sequence)

lemma verify_batch_Inr:
  "verify_batch h stored n p rows = Inr es \<longleftrightarrow>
     parse_list (restored_event h) rows = Some es \<and> linked h n p es (last_hash es p)"
proof (cases "parse_list (restored_event h) rows")
  case (Some fs)
  have "(\<exists>v. verify_audit_event_chain h fs (batch_options n p stored) = Inr v \<and> vr_valid v) \<longleftrightarrow>
      linked h n p fs (last_hash fs p)"
    using linked_head [of h n p fs]
    unfolding verify_accepts by (auto simp: batch_options_def chain_of_def last_hash_def)
  with Some show ?thesis
    by (auto simp: verify_batch_def split: sum.splits if_splits)
qed (simp add: verify_batch_def)

lemma rows_from_strict:
  "sequences_unique s w \<Longrightarrow> sorted_wrt (\<lambda>a b. row_sequence a < row_sequence b) (rows_from s w n)"
proof -
  assume "sequences_unique s w"
  then have "sorted_wrt (<) (map row_sequence (workspace_rows s w))"
    unfolding strict_sorted_iff by (simp add: sequences_unique_def workspace_rows_def)
  then show ?thesis
    by (simp add: rows_from_def sorted_wrt_map sorted_wrt_filter)
qed

text \<open>After a verified batch the next query starts with the row that follows it.\<close>

lemma rows_after_batch:
  assumes u: "sequences_unique s w" and L: "rows_from s w n = rows @ rest" and ne: "rows \<noteq> []"
    and es: "parse_list (restored_event h) rows = Some es" and l: "linked h n p es q"
  shows "rows_from s w (n + int (length es)) = rest"
proof -
  from restored_sequences [OF es] linked_map_sequence [OF l]
  have seq: "map row_sequence rows = map (\<lambda>i. n + int i) [0..<length es]" by simp
  have len: "length rows = length es" using es by (simp add: parse_list_length)
  from rows_from_strict [OF u, of n] L
  have after: "\<forall>a \<in> set rows. \<forall>b \<in> set rest. row_sequence a < row_sequence b" by (simp add: sorted_wrt_append)
  have lst: "row_sequence (last rows) = n + int (length es) - 1"
    using arg_cong [OF seq, of last] ne len by (cases es rule: rev_cases) (auto simp: last_map)
  have rest: "\<forall>b \<in> set rest. n + int (length es) \<le> row_sequence b"
    using after last_in_set [OF ne] lst by fastforce
  have before: "\<forall>a \<in> set rows. row_sequence a < n + int (length es)"
  proof
    fix a assume "a \<in> set rows"
    then have "row_sequence a \<in> set (map row_sequence rows)" by simp
    then show "row_sequence a < n + int (length es)" unfolding seq by auto
  qed
  have "rows_from s w (n + int (length es)) = filter (\<lambda>r. n + int (length es) \<le> row_sequence r) (rows_from s w n)"
    by (auto simp: rows_from_def intro: filter_cong)
  also have "\<dots> = rest"
    using rest before unfolding L by (fastforce simp: filter_empty_conv filter_id_conv not_le)
  finally show ?thesis .
qed

lemma verify_batches_spec:
  assumes u: "sequences_unique s w"
  shows "verify_batches h s w stored n p c = Inr (m, q, k) \<longleftrightarrow>
    (\<exists>es. parse_list (restored_event h) (rows_from s w n) = Some es \<and> linked h n p es q \<and>
       m = n + int (length es) \<and> k = c + length es)"
  using u
proof (induction h s w stored n p c rule: verify_batches.induct)
  case (1 h s w stored n p c)
  define rows rest where "rows = batch_rows s w n" and "rest = drop AUDIT_BATCH_SIZE (rows_from s w n)"
  have L: "rows_from s w n = rows @ rest"
    by (simp add: rows_def rest_def batch_rows_def rows_from_def)
  show ?case
  proof (cases "rows = []")
    case True
    then have "rows_from s w n = []"
      by (simp add: rows_def batch_rows_def rows_from_def AUDIT_BATCH_SIZE_def)
    with True show ?thesis by (auto simp: verify_batches.simps rows_def [symmetric])
  next
    case ne: False
    show ?thesis
    proof (cases "verify_batch h stored n p rows")
      case (Inl x)
      then have no: "\<not> (parse_list (restored_event h) rows = Some es \<and> linked h n p es r)" for es r
        using verify_batch_Inr [of h stored n p rows es] linked_head [of h n p es r] by (auto simp: last_hash_def)
      then have "\<not> (\<exists>es. parse_list (restored_event h) (rows_from s w n) = Some es \<and> linked h n p es q)"
        unfolding L by (auto simp: parse_list_append linked_append)
      with Inl ne show ?thesis
        by (subst verify_batches.simps) (auto simp: rows_def [symmetric] Let_def)
    next
      case (Inr es)
      from Inr have es: "parse_list (restored_event h) rows = Some es" and l: "linked h n p es (last_hash es p)"
        by (simp_all add: verify_batch_Inr)
      have split: "(\<exists>fs. parse_list (restored_event h) (rows_from s w n) = Some fs \<and> linked h n p fs q \<and>
            m = n + int (length fs) \<and> k = c + length fs) \<longleftrightarrow>
          (\<exists>fs. parse_list (restored_event h) rest = Some fs \<and> linked h (n + int (length es)) (last_hash es p) fs q \<and>
            m = n + int (length es) + int (length fs) \<and> k = c + length es + length fs)"
      proof -
        have "linked h n p es r \<longleftrightarrow> r = last_hash es p" for r
          using l linked_head [of h n p es r] by (auto simp: last_hash_def)
        then show ?thesis unfolding L by (auto simp: parse_list_append es linked_append algebra_simps)
      qed
      show ?thesis
      proof (cases "length rows < AUDIT_BATCH_SIZE")
        case True
        then have "rest = []" by (simp add: rows_def rest_def batch_rows_def rows_from_def)
        with split True Inr ne show ?thesis
          by (subst verify_batches.simps) (auto simp: rows_def [symmetric] Let_def)
      next
        case False
        from rows_after_batch [OF "1.prems" L ne es l]
          "1.IH" [OF rows_def ne Inr refl refl refl False "1.prems"]
        have "verify_batches h s w stored (n + int (length es)) (last_hash es p) (c + length es) = Inr (m, q, k) \<longleftrightarrow>
          (\<exists>fs. parse_list (restored_event h) rest = Some fs \<and> linked h (n + int (length es)) (last_hash es p) fs q \<and>
            m = n + int (length es) + int (length fs) \<and> k = c + length es + length fs)" by simp
        with split False Inr ne show ?thesis
          by (subst verify_batches.simps) (simp add: rows_def [symmetric] Let_def)
      qed
    qed
  qed
qed

section \<open>Properties\<close>

text \<open>
  C17: verifying a restored trail in batches of a thousand events is verifying it as a whole: with
  the sequences of a workspace unique, as the index keeps them, the check of its head accepts
  exactly when all its rows from sequence 1 on can be read back, the chain verifier accepts
  them against the stored head hash, and their number is the stored sequence.
\<close>

theorem batches_verify_the_whole_trail:
  "sequences_unique s w \<Longrightarrow>
   verify_restored_head h s w head = Inr k \<longleftrightarrow>
     (\<exists>es v. parse_list (restored_event h) (rows_from s w 1) = Some es \<and>
        verify_audit_event_chain h es (whole_chain (hr_hash head)) = Inr v \<and> vr_valid v \<and>
        hr_sequence head = int (length es) \<and> k = length es)"
proof -
  assume u: "sequences_unique s w"
  have "verify_restored_head h s w head = Inr k \<longleftrightarrow>
      verify_batches h s w (hr_hash head) 1 GENESIS_PREVIOUS_HASH 0 = Inr (hr_sequence head + 1, hr_hash head, k)"
    by (auto simp: verify_restored_head_def split: sum.splits)
  also have "\<dots> \<longleftrightarrow> (\<exists>es. parse_list (restored_event h) (rows_from s w 1) = Some es \<and>
      linked h 1 GENESIS_PREVIOUS_HASH es (hr_hash head) \<and> hr_sequence head = int (length es) \<and> k = length es)"
    unfolding verify_batches_spec [OF u] by auto
  also have "\<dots> \<longleftrightarrow> (\<exists>es v. parse_list (restored_event h) (rows_from s w 1) = Some es \<and>
        verify_audit_event_chain h es (whole_chain (hr_hash head)) = Inr v \<and> vr_valid v \<and>
        hr_sequence head = int (length es) \<and> k = length es)"
    using verify_linked verified_linked by (metis verification.select_convs(1))
  finally show ?thesis .
qed

lemma reachable_rows:
  assumes "audit_reachable h db s" and "\<forall>v. canonical (db_jsonb db v) = canonical v" and "db_heads s w = Some head"
  shows "map row_sequence (workspace_rows s w) = map (\<lambda>i. 1 + int i) [0..<length (workspace_rows s w)]"
    and "hr_sequence head = int (length (workspace_rows s w))"
proof -
  note c = reachable_chain [OF assms]
  have "map ev_sequence (db_events_of s w) = map row_sequence (workspace_rows s w)"
    by (simp add: db_events_of_def to_audit_event_record_def)
  with linked_map_sequence [OF c(2)] show "map row_sequence (workspace_rows s w) = map (\<lambda>i. 1 + int i) [0..<length (workspace_rows s w)]"
    by (simp add: db_events_of_def)
  from c(1) show "hr_sequence head = int (length (workspace_rows s w))" by (simp add: db_events_of_def)
qed

theorem batches_verify_the_whole_trail_witness:
  "\<exists>head. db_heads shop_db ''w'' = Some head \<and>
     (verify_restored_head shop_audit_host shop_db ''w'' head = Inr 2 \<longleftrightarrow>
       (\<exists>es v. parse_list (restored_event shop_audit_host) (rows_from shop_db ''w'' 1) = Some es \<and>
          verify_audit_event_chain shop_audit_host es (whole_chain (hr_hash head)) = Inr v \<and> vr_valid v \<and>
          hr_sequence head = int (length es) \<and> 2 = length es))"
proof -
  from shop_db_head obtain head where h: "db_heads shop_db ''w'' = Some head" by blast
  have "sequences_unique shop_db ''w''"
    unfolding sequences_unique_def reachable_rows(1) [OF shop_reachable(2) shop_json h] by (simp add: distinct_map inj_on_def)
  from batches_verify_the_whole_trail [OF this] h show ?thesis by blast
qed

text \<open>A range of a sound trail starts with the event of the requested sequence.\<close>

lemma read_range_start:
  assumes "audit_reachable h db s" and "\<forall>v. canonical (db_jsonb db v) = canonical v" and "db_heads s w = Some head"
    and k: "1 \<le> k" "k \<le> hr_sequence head" and to_ok: "case to_seq of None \<Rightarrow> True | Some m \<Rightarrow> k \<le> m"
  shows "\<exists>es. read_range s w (Some k) to_seq limit = db_events_of s w ! nat (k - 1) # es"
proof -
  let ?rows = "workspace_rows s w" and ?i = "nat (k - 1)"
  let ?P = "\<lambda>r. k \<le> row_sequence r \<and> (case to_seq of None \<Rightarrow> True | Some m \<Rightarrow> row_sequence r \<le> m)"
  note seq = reachable_rows [OF assms(1-3)]
  from seq(2) k have i: "?i < length ?rows" by linarith
  have nth: "row_sequence (?rows ! j) = 1 + int j" if "j < length ?rows" for j
    using arg_cong [OF seq(1), of "\<lambda>l. l ! j"] that by simp
  have "\<forall>r \<in> set (take ?i ?rows). \<not> ?P r"
    using i nth by (auto simp: in_set_conv_nth)
  then have "filter ?P (take ?i ?rows) = []" by (auto simp: filter_empty_conv)
  moreover have "?P (?rows ! ?i)" using nth [OF i] k to_ok by (auto split: option.splits)
  ultimately have "filter ?P ?rows = ?rows ! ?i # filter ?P (drop (Suc ?i) ?rows)"
    using i by (metis (no_types, lifting) append_Nil filter.simps(2) filter_append id_take_nth_drop)
  moreover have "1 \<le> clamp_sample_limit limit" by (auto simp: clamp_sample_limit_def split: option.splits)
  then obtain n where "nat (clamp_sample_limit limit) = Suc n" by (cases "nat (clamp_sample_limit limit)") auto
  ultimately show ?thesis
    using i by (simp add: read_range_def db_events_of_def)
qed

text \<open>
  C18: the endpoint cannot verify a part of a sound trail. For any trail the appender built, a
  request for a range that starts after the first event is answered with a
  previous-hash mismatch at its first event, reported as tampering, and raises the alert of a
  failed integrity check: the range is compared with the genesis hash, not with the hash of the event
  before it. (No event hash is the genesis hash, since SHA-256 has no known preimage of it.)
\<close>

theorem range_of_sound_trail_raises_alert:
  "audit_reachable h db s \<Longrightarrow> \<forall>v. canonical (db_jsonb db v) = canonical v \<Longrightarrow> db_heads s w = Some head \<Longrightarrow>
   is_verifier role \<Longrightarrow> rq_from rq = Some k \<Longrightarrow> 1 < k \<Longrightarrow> k \<le> hr_sequence head \<Longrightarrow>
   (case rq_to rq of None \<Rightarrow> True | Some m \<Rightarrow> k \<le> m) \<Longrightarrow>
   ev_hash (db_events_of s w ! nat (k - 2)) \<noteq> GENESIS_PREVIOUS_HASH \<Longrightarrow>
     \<exists>v t. verify_chain h s w role rq = Inr (v, RaiseIntegrityAlert PreviousHashMismatch k t) \<and>
       verify_status v = StatusTampered"
proof -
  assume a: "audit_reachable h db s" "\<forall>v. canonical (db_jsonb db v) = canonical v" "db_heads s w = Some head"
    and role: "is_verifier role" and rq: "rq_from rq = Some k" and k: "1 < k" "k \<le> hr_sequence head"
    and to_ok: "case rq_to rq of None \<Rightarrow> True | Some m \<Rightarrow> k \<le> m"
    and g: "ev_hash (db_events_of s w ! nat (k - 2)) \<noteq> GENESIS_PREVIOUS_HASH"
  note c = reachable_chain [OF a]
  let ?es = "db_events_of s w" and ?i = "nat (k - 2)"
  have len: "Suc ?i < length ?es" and i: "nat (k - 1) = Suc ?i" using c(1) k by linarith+
  have seq: "ev_sequence (?es ! Suc ?i) = k"
    using linked_sequences [OF c(2) len] k by linarith
  have "?es = take (Suc ?i) ?es @ ?es ! Suc ?i # drop (Suc (Suc ?i)) ?es" using len by (simp add: id_take_nth_drop)
  then have "linked h 1 GENESIS_PREVIOUS_HASH (take (Suc ?i) ?es @ ?es ! Suc ?i # drop (Suc (Suc ?i)) ?es) (hr_hash head)"
    using c(2) by metis
  then obtain m where m: "linked h 1 GENESIS_PREVIOUS_HASH (take (Suc ?i) ?es) m" "ev_previous_hash (?es ! Suc ?i) = m"
    by (auto simp: linked_append event_ok_def)
  from linked_head [OF m(1)] len have "m = ev_hash (?es ! ?i)" by (auto simp: take_Suc_conv_app_nth)
  with g m(2) have prev: "ev_previous_hash (?es ! Suc ?i) \<noteq> GENESIS_PREVIOUS_HASH" by simp
  have "1 \<le> k" using k by simp
  from read_range_start [OF a this k(2) to_ok, of "Some (rq_sample_limit rq)"] i obtain rest where
    r: "read_range s w (rq_from rq) (rq_to rq) (Some (rq_sample_limit rq)) = ?es ! Suc ?i # rest"
    by (auto simp: rq)
  show ?thesis
    unfolding verify_chain_def a(3) option.case r verify_audit_event_chain_def Let_def
    using role prev seq
    by (simp add: rq failure_def verify_effect_of_def authoritative_failure_def verify_status_def)
qed

definition shop_range :: verify_request where
  "shop_range = \<lparr>rq_from = Some 2, rq_to = None, rq_sample_limit = 100\<rparr>"

theorem range_of_sound_trail_raises_alert_witness:
  "request_ok shop_range \<and>
   (\<exists>v t. verify_chain shop_audit_host shop_db ''w'' RoleOwner shop_range = Inr (v, RaiseIntegrityAlert PreviousHashMismatch 2 t))"
proof -
  from shop_db_head obtain head where h: "db_heads shop_db ''w'' = Some head" "hr_sequence head = 2" by blast
  have "db_events_of shop_db ''w'' \<noteq> []" using shop_db_outcome by (auto simp: shop_outcome_def)
  then have "ev_hash (db_events_of shop_db ''w'' ! 0) \<noteq> GENESIS_PREVIOUS_HASH"
    using shop_db_outcome by (cases "db_events_of shop_db ''w''") (auto simp: shop_outcome_def)
  with range_of_sound_trail_raises_alert [OF shop_reachable(2) shop_json h(1), of RoleOwner shop_range 2] h(2)
  show ?thesis by (auto simp: shop_range_def is_verifier_def request_ok_def MAX_SAFE_INTEGER_def)
qed

text \<open>
  The endpoint accepts a sound trail that fits its sample and is verified without a range, and
  records it as verified.
\<close>

lemma sound_trail_is_verified:
  "audit_reachable h db s \<Longrightarrow> \<forall>v. canonical (db_jsonb db v) = canonical v \<Longrightarrow> db_heads s w = Some head \<Longrightarrow>
   is_verifier role \<Longrightarrow> rq_from rq = None \<Longrightarrow> rq_to rq = None \<Longrightarrow>
   1 \<le> rq_sample_limit rq \<Longrightarrow> rq_sample_limit rq \<le> 200 \<Longrightarrow> hr_sequence head \<le> rq_sample_limit rq \<Longrightarrow>
     \<exists>v. verify_chain h s w role rq = Inr (v, RecordVerified) \<and> verify_status v = StatusOk"
proof -
  assume a: "audit_reachable h db s" "\<forall>v. canonical (db_jsonb db v) = canonical v" "db_heads s w = Some head"
    and role: "is_verifier role" and rq: "rq_from rq = None" "rq_to rq = None"
    and lim: "1 \<le> rq_sample_limit rq" "rq_sample_limit rq \<le> 200" "hr_sequence head \<le> rq_sample_limit rq"
  note c = reachable_chain [OF a] and rows = reachable_rows [OF a]
  have "\<forall>r \<in> set (workspace_rows s w). 1 \<le> row_sequence r"
  proof
    fix r assume "r \<in> set (workspace_rows s w)"
    then have "row_sequence r \<in> set (map row_sequence (workspace_rows s w))" by simp
    then show "1 \<le> row_sequence r" unfolding rows(1) by auto
  qed
  then have "filter (\<lambda>r. 1 \<le> row_sequence r) (workspace_rows s w) = workspace_rows s w" by simp
  moreover have "clamp_sample_limit (Some (rq_sample_limit rq)) = rq_sample_limit rq"
    using lim by (simp add: clamp_sample_limit_def)
  moreover have "length (workspace_rows s w) \<le> nat (rq_sample_limit rq)" using lim(3) rows(2) by linarith
  ultimately have r: "read_range s w (rq_from rq) (rq_to rq) (Some (rq_sample_limit rq)) = db_events_of s w"
    by (simp add: read_range_def rq db_events_of_def)
  have opts: "\<lparr>vo_first_sequence = rq_from rq, vo_previous_hash = None, vo_stored_head = hr_hash head, vo_require_head = None\<rparr>
      = whole_chain (hr_hash head)" by (simp add: whole_chain_def rq)
  have "first_sequence (db_events_of s w) = Some 1" "last_sequence (db_events_of s w) = Some (hr_sequence head)"
    if "hr_sequence head \<noteq> 0"
    using that c(1) linked_sequences [OF c(2), of 0] linked_last [OF c(2)]
    by (cases "db_events_of s w"; auto simp: first_sequence_def last_sequence_def)+
  then show ?thesis
    unfolding verify_chain_def a(3) option.case r opts Let_def verify_linked [OF c(2)]
    using role c(1)
    by (auto simp: verify_effect_of_def authoritative_failure_def complete_verification_def verify_status_def rq)
qed

lemma sound_trail_is_verified_witness:
  "\<exists>v. verify_chain shop_audit_host shop_db ''w'' RoleAdmin \<lparr>rq_from = None, rq_to = None, rq_sample_limit = 100\<rparr> =
     Inr (v, RecordVerified) \<and> verify_status v = StatusOk"
proof -
  from shop_db_head obtain head where h: "db_heads shop_db ''w'' = Some head" "hr_sequence head = 2" by blast
  from sound_trail_is_verified [OF shop_reachable(2) shop_json h(1), of RoleAdmin "\<lparr>rq_from = None, rq_to = None, rq_sample_limit = 100\<rparr>"] h(2)
  show ?thesis by (simp add: is_verifier_def)
qed

end
