(* ===== verification/Lifecycle_Store.thy ===== *)
theory Lifecycle_Store
  imports Workflow_Editor Workflow_Json Locator_Patch Audit_Verification
begin

text \<open>
  The versions of workflows in the database (packages/database/src: workflow-lifecycle/
  workflow-lifecycle.repository.ts, workflow-draft/workflow-draft.repository.ts, the insertion
  of a converted recording in recording-conversion/recording-workflow-conversion.repository.ts, the
  application of a locator repair in workflow-locator-repair/workflow-locator-repair.repository.ts
  and the direct insertion of workflow-version.repository.ts).
  Every operation is one serializable transaction over the tables, the audit trail included.
  Memberships, policies and workspaces are written by other repositories and only read here.
\<close>

section \<open>Tables\<close>

text \<open>
  The rows of \<open>workflow_versions\<close> (less \<open>updatedAt\<close>, which the database client sets by itself)
  and \<open>workflows\<close>. Times are milliseconds; identifiers are in the spelling the database keeps.
\<close>

record version_row =
  lv_id :: string
  lv_workflow :: string
  lv_version :: int
  lv_revision :: int
  lv_status :: lifecycle_status
  lv_schema_version :: int
  lv_definition :: workflow
  lv_created_from :: "string option"
  lv_client_id :: "string option"
  lv_published_at :: "int option"
  lv_published_by :: "string option"
  lv_archived_at :: "int option"
  lv_archived_by :: "string option"
  lv_created_at :: int

record workflow_row =
  lw_id :: string
  lw_workspace :: string
  lw_name :: string
  lw_description :: "string option"

text \<open>
  The role of a user in the organization of a workspace, and the definition of the active
  policy of a workspace.
\<close>

record life_db =
  ld_audit :: audit_db
  ld_versions :: "version_row list"
  ld_workflows :: "workflow_row list"
  ld_member :: "string \<Rightarrow> string \<Rightarrow> member_role option"
  ld_policy :: "string \<Rightarrow> execution_policy option"

text \<open>What lies outside the repository: the platform and the identifiers of new rows.\<close>

record life_env =
  le_host :: audit_host
  le_db :: database
  le_url :: url_parser
  le_query_keys :: "url \<Rightarrow> string list"
  le_collate :: "string \<Rightarrow> string \<Rightarrow> int"
  le_zod :: "workflow \<Rightarrow> zod_issue list"
  le_new_id :: "nat \<Rightarrow> string"

datatype lifecycle_code =
    INVALID_LIFECYCLE_INPUT | WORKFLOW_NOT_FOUND | WORKFLOW_VERSION_NOT_FOUND | WORKFLOW_LIFECYCLE_FORBIDDEN
  | INVALID_LIFECYCLE_TRANSITION | WORKFLOW_PUBLISH_READINESS_BLOCKED | WORKFLOW_VERSION_REVISION_CONFLICT
  | WORKFLOW_VERSION_CREATION_CONFLICT | SOURCE_VERSION_NOT_CLONEABLE | PERSISTED_WORKFLOW_INVALID
  | SERIALIZATION_FAILURE

datatype draft_code =
    DraftVersionNotFound | WORKFLOW_DRAFT_FORBIDDEN | WORKFLOW_VERSION_NOT_DRAFT | WORKFLOW_DEFINITION_INVALID
  | WORKFLOW_POLICY_BLOCKED | WORKFLOW_POLICY_MISSING | WORKFLOW_ID_IMMUTABLE | WORKFLOW_VERSION_IMMUTABLE
  | WORKFLOW_SCHEMA_VERSION_IMMUTABLE | WORKFLOW_STATUS_INVALID | WORKFLOW_DRAFT_REVISION_CONFLICT
  | DraftPersistedInvalid | DraftSerializationFailure

datatype repair_code =
    RepairNotFound | RepairForbidden | RepairConflict | RepairExpired | RepairCandidateNotTested
  | RepairLineageMismatch | RepairDraftRequired | RepairRevisionConflict | RepairLocatorChanged | RepairInvalid

text \<open>
  What a transaction can throw: the repositories' own errors, a failed append, a schema that
  throws, and the database's answers (serialization conflict, unique index, missing record).
\<close>

datatype life_exn =
    LifecycleError lifecycle_code
  | DraftError draft_code
  | RepairError repair_code
  | ConversionError
  | WorkflowElsewhere
  | AuditFailure audit_exn
  | SchemaFailure
  | SerializationConflict
  | IndexViolation
  | RecordMissing

type_synonym 'a life_comp = "(life_db, life_exn, 'a) comp"

section \<open>Queries and updates\<close>

definition require :: "bool \<Rightarrow> life_exn \<Rightarrow> unit life_comp" where
  "require b x = (if b then ret () else throw x)"

definition unwrap :: "life_exn \<Rightarrow> 'a option \<Rightarrow> 'a life_comp" where
  "unwrap x v = (case v of None \<Rightarrow> throw x | Some a \<Rightarrow> ret a)"

text \<open>The primary key and the unique indexes of \<open>workflow_versions\<close>.\<close>

definition published_workflows :: "version_row list \<Rightarrow> string list" where
  "published_workflows vs = map lv_workflow (filter (\<lambda>r. lv_status r = Published) vs)"

definition client_keys :: "version_row list \<Rightarrow> (string \<times> string option) list" where
  "client_keys vs = map (\<lambda>r. (lv_workflow r, lv_client_id r)) (filter (\<lambda>r. lv_client_id r \<noteq> None) vs)"

definition indexes_ok :: "version_row list \<Rightarrow> bool" where
  "indexes_ok vs \<longleftrightarrow>
     distinct (map lv_id vs) \<and> distinct (map (\<lambda>r. (lv_workflow r, lv_version r)) vs) \<and>
     distinct (client_keys vs) \<and> distinct (published_workflows vs)"

definition put_versions :: "version_row list \<Rightarrow> unit life_comp" where
  "put_versions vs s = (if indexes_ok vs then (Inr (), s\<lparr>ld_versions := vs\<rparr>) else (Inl IndexViolation, s))"

text \<open>\<open>updateMany\<close>: the number of the rows it changed.\<close>

definition update_many :: "(version_row \<Rightarrow> bool) \<Rightarrow> (version_row \<Rightarrow> version_row) \<Rightarrow> nat life_comp" where
  "update_many P f =
     bnd (gets ld_versions) (\<lambda>vs.
     seqc (put_versions (map (\<lambda>r. if P r then f r else r) vs)) (ret (length (filter P vs))))"

definition find_workflow :: "life_db \<Rightarrow> string \<Rightarrow> workflow_row option" where
  "find_workflow s w = List.find (\<lambda>r. lw_id r = w) (ld_workflows s)"

definition update_workflow_name :: "string \<Rightarrow> workflow \<Rightarrow> unit life_comp" where
  "update_workflow_name w d s =
     (if find_workflow s w = None then (Inl RecordMissing, s)
      else (Inr (), s\<lparr>ld_workflows := map (\<lambda>r. if lw_id r = w
              then r\<lparr>lw_name := wf_name d, lw_description := wf_description d\<rparr> else r) (ld_workflows s)\<rparr>))"

definition lock_workflow :: "string \<Rightarrow> unit life_comp" where
  "lock_workflow w =
     bnd (gets (\<lambda>s. find_workflow s w)) (\<lambda>r. require (r \<noteq> None) (LifecycleError WORKFLOW_NOT_FOUND))"

text \<open>\<open>UUID_PATTERN\<close>: a fixed shape, so a comparison place by place.\<close>

fun uuid_place :: "char \<Rightarrow> char \<Rightarrow> bool" where
  "uuid_place t c =
     (if t = CHR ''-'' then c = CHR ''-''
      else if t = CHR ''v'' then c \<in> set ''12345''
      else if t = CHR ''y'' then c \<in> set ''89abAB''
      else c \<in> set ''0123456789abcdefABCDEF'')"

definition uuid_pattern :: "string \<Rightarrow> bool" where
  "uuid_pattern s \<longleftrightarrow> list_all2 uuid_place ''xxxxxxxx-xxxx-vxxx-yxxx-xxxxxxxxxxxx'' s"

text \<open>
  A version with the workspace of its workflow and the role of the user who reads it
  (\<open>WorkflowVersionDetailRecord\<close>, less the conversion report).
\<close>

record version_detail =
  vd_row :: version_row
  vd_workspace :: string
  vd_role :: member_role

definition find_detail :: "string \<Rightarrow> string \<Rightarrow> life_db \<Rightarrow> version_detail option" where
  "find_detail actor v s = do {
     r \<leftarrow> List.find (\<lambda>r. lv_id r = v) (ld_versions s);
     w \<leftarrow> find_workflow s (lv_workflow r);
     role \<leftarrow> ld_member s (lw_workspace w) actor;
     Some \<lparr>vd_row = r, vd_workspace = lw_workspace w, vd_role = role\<rparr> }"

definition get_accessible_version :: "string \<Rightarrow> string \<Rightarrow> version_detail life_comp" where
  "get_accessible_version actor v =
     seqc (require (uuid_pattern actor \<and> uuid_pattern v) (LifecycleError INVALID_LIFECYCLE_INPUT))
       (bnd (gets (find_detail actor v)) (unwrap (LifecycleError WORKFLOW_VERSION_NOT_FOUND)))"

definition is_editor :: "member_role \<Rightarrow> bool" where
  "is_editor role \<longleftrightarrow> role \<in> {RoleOwner, RoleAdmin, RoleMember}"

definition is_publisher :: "member_role \<Rightarrow> bool" where
  "is_publisher role \<longleftrightarrow> role \<in> {RoleOwner, RoleAdmin}"

definition require_role :: "member_role \<Rightarrow> (member_role \<Rightarrow> bool) \<Rightarrow> unit life_comp" where
  "require_role role allowed = require (allowed role) (LifecycleError WORKFLOW_LIFECYCLE_FORBIDDEN)"

definition require_transition :: "lifecycle_status \<Rightarrow> lifecycle_status \<Rightarrow> unit life_comp" where
  "require_transition a b =
     (case validate_workflow_lifecycle_transition a b of
        Inl _ \<Rightarrow> throw (LifecycleError INVALID_LIFECYCLE_TRANSITION)
      | Inr _ \<Rightarrow> ret ())"

definition require_revision :: "int \<Rightarrow> int \<Rightarrow> unit life_comp" where
  "require_revision current expected =
     seqc (require (1 \<le> expected) (LifecycleError INVALID_LIFECYCLE_INPUT))
       (require (current = expected) (LifecycleError WORKFLOW_VERSION_REVISION_CONFLICT))"

definition analyze_readiness :: "life_env \<Rightarrow> string \<Rightarrow> workflow \<Rightarrow> publish_report life_comp" where
  "analyze_readiness E workspace d =
     bnd (gets (\<lambda>s. ld_policy s workspace)) (\<lambda>stored.
     bnd (unwrap (LifecycleError PERSISTED_WORKFLOW_INVALID) (Option.bind stored (parse_policy (le_url E)))) (\<lambda>policy.
     unwrap SchemaFailure
       (analyze_publish_readiness (le_url E) (le_collate E) (le_zod E) d (Some policy))))"

definition require_readiness :: "life_env \<Rightarrow> string \<Rightarrow> workflow \<Rightarrow> publish_report life_comp" where
  "require_readiness E workspace d =
     bnd (analyze_readiness E workspace d) (\<lambda>report.
     seqc (require (pb_ready report) (LifecycleError WORKFLOW_PUBLISH_READINESS_BLOCKED)) (ret report))"

definition require_timestamp :: "int option \<Rightarrow> int life_comp" where
  "require_timestamp t = unwrap (LifecycleError INVALID_LIFECYCLE_INPUT) t"

section \<open>Audit events\<close>

text \<open>An append on the audit tables of the same transaction.\<close>

definition on_audit :: "(audit_db, audit_exn, 'a) comp \<Rightarrow> 'a life_comp" where
  "on_audit m s =
     (case m (ld_audit s) of
        (Inl x, t) \<Rightarrow> (Inl (AuditFailure x), s\<lparr>ld_audit := t\<rparr>)
      | (Inr a, t) \<Rightarrow> (Inr a, s\<lparr>ld_audit := t\<rparr>))"

definition source_id :: "life_env \<Rightarrow> string \<Rightarrow> source_part list \<Rightarrow> string life_comp" where
  "source_id E namespace parts = of_sum (map_sum AuditFailure id (create_audit_source_id (le_host E) namespace parts))"

abbreviation part_int :: "int \<Rightarrow> source_part" where "part_int n \<equiv> PartNumber (of_int n)"

text \<open>The members that the payloads of all these events have.\<close>

definition version_members :: "version_row \<Rightarrow> (string \<times> json) list" where
  "version_members r =
     [(''workflowId'', JString (lv_workflow r)), (''workflowVersionId'', JString (lv_id r)),
      (''version'', int_json (lv_version r)), (''revision'', int_json (lv_revision r))]"

text \<open>An event about a version, its workflow and possibly another version.\<close>

definition version_event ::
  "string \<Rightarrow> string \<Rightarrow> string \<Rightarrow> version_row \<Rightarrow> string list \<Rightarrow> int \<Rightarrow> string \<Rightarrow> (string \<times> json) list \<Rightarrow> audit_input" where
  "version_event type workspace actor r others occurred src members =
     \<lparr>in_schema_version = None, in_workspace = workspace, in_type = type, in_actor = UserActor actor,
      in_primary = \<lparr>entity_kind = ''workflow_version'', entity_id = lv_id r\<rparr>,
      in_related = Some (\<lparr>entity_kind = ''workflow'', entity_id = lv_workflow r\<rparr> #
        map (\<lambda>v. \<lparr>entity_kind = ''workflow_version'', entity_id = v\<rparr>) others),
      in_occurred_at = AtDate (Some occurred), in_source = src, in_correlation = None,
      in_payload = JObject (version_members r @ members)\<rparr>"

definition append_version_event :: "life_env \<Rightarrow> audit_input \<Rightarrow> unit life_comp" where
  "append_version_event E i =
     seqc (on_audit (append_audit_event_transactional (le_host E) (le_db E) i)) (ret ())"

definition audit_transition :: "life_env \<Rightarrow> string \<Rightarrow> string \<Rightarrow> version_detail \<Rightarrow> int \<Rightarrow> unit life_comp" where
  "audit_transition E type actor d now =
     bnd (source_id E ''workflow_version_transition''
            [PartText type, PartText (lv_id (vd_row d)), part_int (lv_revision (vd_row d))]) (\<lambda>src.
     append_version_event E (version_event type (vd_workspace d) actor (vd_row d) [] now src []))"

definition audit_created :: "life_env \<Rightarrow> string \<Rightarrow> string \<Rightarrow> version_row \<Rightarrow> string \<Rightarrow> string \<Rightarrow> int \<Rightarrow> unit life_comp" where
  "audit_created E workspace actor r source_version client now =
     bnd (source_id E ''workflow_version_created''
            [PartText (lv_id r), part_int (lv_version r), PartText client]) (\<lambda>src.
     append_version_event E (version_event ''workflow_version.created'' workspace actor r [] now src
       [(''sourceVersionId'', JString source_version), (''schemaVersion'', int_json (lv_schema_version r))]))"

definition audit_archived :: "life_env \<Rightarrow> string \<Rightarrow> string \<Rightarrow> version_row \<Rightarrow> string \<Rightarrow> int \<Rightarrow> unit life_comp" where
  "audit_archived E workspace actor r reason now =
     bnd (source_id E ''workflow_version_archived''
            [PartText (lv_id r), part_int (lv_revision r), PartText reason]) (\<lambda>src.
     append_version_event E (version_event ''workflow_version.archived'' workspace actor r [] now src
       [(''reason'', JString reason)]))"

definition audit_published ::
  "life_env \<Rightarrow> string \<Rightarrow> string \<Rightarrow> version_row \<Rightarrow> string \<Rightarrow> string option \<Rightarrow> int \<Rightarrow> unit life_comp" where
  "audit_published E workspace actor r workflow_digest replaced now =
     bnd (source_id E ''workflow_version_published'' [PartText (lv_id r), part_int (lv_revision r)]) (\<lambda>src.
     append_version_event E (version_event ''workflow_version.published'' workspace actor r
       (case replaced of None \<Rightarrow> [] | Some v \<Rightarrow> [v]) now src
       ([(''workflowDigest'', JString workflow_digest)] @ optional_member ''replacedVersionId'' JString replaced)))"

definition audit_draft_updated :: "life_env \<Rightarrow> string \<Rightarrow> version_detail \<Rightarrow> int \<Rightarrow> unit life_comp" where
  "audit_draft_updated E actor d now =
     (let r = vd_row d;
          step_count = (case parse_workflow (lv_definition r) of None \<Rightarrow> 0 | Some w \<Rightarrow> length (steps w))
      in bnd (source_id E ''workflow_draft_updated'' [PartText (lv_id r), part_int (lv_revision r)]) (\<lambda>src.
         append_version_event E (version_event ''workflow_draft.updated'' (vd_workspace d) actor r [] now src
           [(''stepCount'', int_json (int step_count))])))"

section \<open>Transitions\<close>

record action_result =
  ar_version :: version_detail
  ar_readiness :: "publish_report option"
  ar_idempotent :: bool

text \<open>\<open>transitionWithReadiness\<close> from draft to testing; \<open>now\<close> is the clock at the append.\<close>

definition submit_for_testing :: "life_env \<Rightarrow> string \<Rightarrow> string \<Rightarrow> int \<Rightarrow> int \<Rightarrow> action_result life_comp" where
  "submit_for_testing E actor v expected now =
     bnd (get_accessible_version actor v) (\<lambda>current.
     seqc (require_role (vd_role current) is_editor) (
     seqc (require_revision (lv_revision (vd_row current)) expected) (
     seqc (require_transition (lv_status (vd_row current)) Testing) (
     bnd (require_readiness E (vd_workspace current) (lv_definition (vd_row current))) (\<lambda>readiness.
     bnd (update_many (\<lambda>r. lv_id r = v \<and> lv_status r = Draft \<and> lv_revision r = expected)
            (\<lambda>r. r\<lparr>lv_status := Testing\<rparr>)) (\<lambda>count.
     seqc (require (count = 1) (LifecycleError WORKFLOW_VERSION_REVISION_CONFLICT)) (
     bnd (get_accessible_version actor v) (\<lambda>final.
     seqc (audit_transition E ''workflow_version.submitted_for_testing'' actor final now) (
     ret \<lparr>ar_version = final, ar_readiness = Some readiness, ar_idempotent = False\<rparr>)))))))))"

definition return_to_draft :: "life_env \<Rightarrow> string \<Rightarrow> string \<Rightarrow> int \<Rightarrow> int \<Rightarrow> action_result life_comp" where
  "return_to_draft E actor v expected now =
     bnd (get_accessible_version actor v) (\<lambda>current.
     seqc (require_role (vd_role current) is_editor) (
     seqc (require_revision (lv_revision (vd_row current)) expected) (
     seqc (require_transition (lv_status (vd_row current)) Draft) (
     bnd (update_many (\<lambda>r. lv_id r = v \<and> lv_status r = Testing \<and> lv_revision r = expected)
            (\<lambda>r. r\<lparr>lv_status := Draft\<rparr>)) (\<lambda>count.
     seqc (require (count = 1) (LifecycleError INVALID_LIFECYCLE_TRANSITION)) (
     bnd (get_accessible_version actor v) (\<lambda>final.
     seqc (audit_transition E ''workflow_version.returned_to_draft'' actor final now) (
     ret \<lparr>ar_version = final, ar_readiness = None, ar_idempotent = False\<rparr>))))))))"

section \<open>Publication\<close>

definition publish_row :: "string \<Rightarrow> int \<Rightarrow> workflow \<Rightarrow> version_row \<Rightarrow> version_row" where
  "publish_row actor occurred d r =
     r\<lparr>lv_status := Published, lv_definition := d, lv_published_at := Some occurred, lv_published_by := Some actor\<rparr>"

definition archive_row :: "string \<Rightarrow> int \<Rightarrow> version_row \<Rightarrow> version_row" where
  "archive_row actor occurred r =
     r\<lparr>lv_status := Archived, lv_archived_at := Some occurred, lv_archived_by := Some actor\<rparr>"

definition publish_version :: "life_env \<Rightarrow> string \<Rightarrow> string \<Rightarrow> int \<Rightarrow> int \<Rightarrow> action_result life_comp" where
  "publish_version E actor v expected occurred =
     bnd (get_accessible_version actor v) (\<lambda>initial.
     seqc (require_role (vd_role initial) is_publisher) (
     seqc (lock_workflow (lv_workflow (vd_row initial))) (
     bnd (get_accessible_version actor v) (\<lambda>current.
     let row = vd_row current; workspace = vd_workspace current in
     seqc (require_role (vd_role current) is_publisher) (
     seqc (require_revision (lv_revision row) expected) (
     if lv_status row = Published
     then bnd (analyze_readiness E workspace (lv_definition row)) (\<lambda>readiness.
          ret \<lparr>ar_version = current, ar_readiness = Some readiness, ar_idempotent = True\<rparr>)
     else
       seqc (require_transition (lv_status row) Published) (
       bnd (require_readiness E workspace (lv_definition row)) (\<lambda>readiness.
       bnd (unwrap SchemaFailure (parse_workflow (lv_definition row))) (\<lambda>parsed.
       bnd (unwrap SchemaFailure (parse_workflow (parsed\<lparr>wf_status := Published\<rparr>))) (\<lambda>definition.
       bnd (gets (\<lambda>s. filter (\<lambda>r. lv_workflow r = lv_workflow row \<and> lv_status r = Published \<and> lv_id r \<noteq> v)
              (ld_versions s))) (\<lambda>previous.
       seqc (update_many (\<lambda>r. lv_workflow r = lv_workflow row \<and> lv_status r = Published \<and> lv_id r \<noteq> v)
              (archive_row actor occurred)) (
       bnd (update_many (\<lambda>r. lv_id r = v \<and> lv_status r = Testing \<and> lv_revision r = expected)
              (publish_row actor occurred definition)) (\<lambda>count.
       seqc (require (count = 1) (LifecycleError WORKFLOW_VERSION_REVISION_CONFLICT)) (
       bnd (get_accessible_version actor v) (\<lambda>final.
       bnd (unwrap SchemaFailure (create_canonical_json_digest (le_host E) (definition_json definition))) (\<lambda>workflow_digest.
       seqc (for_each previous (\<lambda>r. audit_archived E workspace actor r ''replaced_by_publish'' occurred)) (
       seqc (audit_published E (vd_workspace final) actor (vd_row final) workflow_digest
              (case previous of [r] \<Rightarrow> Some (lv_id r) | _ \<Rightarrow> None) occurred) (
       ret \<lparr>ar_version = final, ar_readiness = Some readiness, ar_idempotent = False\<rparr>))))))))))))))))))"

text \<open>A version is published or archived at a \<open>Date\<close>; None is Invalid Date.\<close>

definition publish :: "life_env \<Rightarrow> string \<Rightarrow> string \<Rightarrow> int \<Rightarrow> int option \<Rightarrow> action_result life_comp" where
  "publish E actor v expected occurred = bnd (require_timestamp occurred) (publish_version E actor v expected)"

definition archive_version :: "life_env \<Rightarrow> string \<Rightarrow> string \<Rightarrow> int \<Rightarrow> action_result life_comp" where
  "archive_version E actor v occurred =
     bnd (get_accessible_version actor v) (\<lambda>current.
     seqc (require_role (vd_role current) is_publisher) (
     seqc (lock_workflow (lv_workflow (vd_row current))) (
     bnd (get_accessible_version actor v) (\<lambda>locked.
     seqc (require_transition (lv_status (vd_row locked)) Archived) (
     bnd (update_many (\<lambda>r. lv_id r = v \<and> lv_status r = Published) (archive_row actor occurred)) (\<lambda>count.
     seqc (require (count = 1) (LifecycleError INVALID_LIFECYCLE_TRANSITION)) (
     bnd (get_accessible_version actor v) (\<lambda>final.
     seqc (audit_archived E (vd_workspace final) actor (vd_row final) ''manual'' occurred) (
     ret \<lparr>ar_version = final, ar_readiness = None, ar_idempotent = False\<rparr>)))))))))"

definition archive :: "life_env \<Rightarrow> string \<Rightarrow> string \<Rightarrow> int option \<Rightarrow> action_result life_comp" where
  "archive E actor v occurred = bnd (require_timestamp occurred) (archive_version E actor v)"

section \<open>New versions\<close>

definition new_version_row ::
  "life_env \<Rightarrow> version_row list \<Rightarrow> workflow \<Rightarrow> string option \<Rightarrow> string option \<Rightarrow> int \<Rightarrow> version_row" where
  "new_version_row E vs d source_version client created =
     \<lparr>lv_id = le_new_id E (length vs), lv_workflow = workflow_id d, lv_version = wf_version d, lv_revision = 1,
      lv_status = Draft, lv_schema_version = WORKFLOW_SCHEMA_VERSION, lv_definition = d,
      lv_created_from = source_version, lv_client_id = client, lv_published_at = None, lv_published_by = None,
      lv_archived_at = None, lv_archived_by = None, lv_created_at = created\<rparr>"

text \<open>
  The insertion of a converted recording's workflow in the workspace of the recording. The caller
  has parsed the definition and checked that it is version 1 and a draft; the checks of the
  recording itself are not modelled.
\<close>

definition insert_converted_draft :: "life_env \<Rightarrow> string \<Rightarrow> workflow \<Rightarrow> int \<Rightarrow> unit life_comp" where
  "insert_converted_draft E workspace input now =
     bnd (unwrap ConversionError (parse_workflow input)) (\<lambda>d.
     seqc (require (wf_version d = 1 \<and> wf_status d = Draft) ConversionError) (
     bnd (gets (\<lambda>s. find_workflow s (workflow_id d))) (\<lambda>existing.
     seqc (require (existing = None) IndexViolation) (
     seqc (modify (\<lambda>s. s\<lparr>ld_workflows := ld_workflows s @
             [\<lparr>lw_id = workflow_id d, lw_workspace = workspace, lw_name = wf_name d,
               lw_description = wf_description d\<rparr>]\<rparr>)) (
     bnd (gets ld_versions) (\<lambda>vs. put_versions (vs @ [new_version_row E vs d None None now])))))))"

record creation_result =
  cr_version :: version_detail
  cr_idempotent :: bool

definition next_version :: "version_row list \<Rightarrow> string \<Rightarrow> int" where
  "next_version vs w = fold max (map lv_version (filter (\<lambda>r. lv_workflow r = w) vs)) 0 + 1"

text \<open>The branch of \<open>createDraftVersion\<close> that clones a source.\<close>

definition clone_source ::
  "life_env \<Rightarrow> string \<Rightarrow> string \<Rightarrow> string \<Rightarrow> string \<Rightarrow> int \<Rightarrow> creation_result life_comp" where
  "clone_source E actor w v client created =
     bnd (gets ld_versions) (\<lambda>vs.
     bnd (unwrap (LifecycleError WORKFLOW_VERSION_NOT_FOUND)
            (List.find (\<lambda>r. lv_id r = v \<and> lv_workflow r = w) vs)) (\<lambda>source.
     seqc (require (lv_status source = Published \<or> lv_status source = Archived)
             (LifecycleError SOURCE_VERSION_NOT_CLONEABLE)) (
     bnd (unwrap (LifecycleError PERSISTED_WORKFLOW_INVALID) (parse_workflow (lv_definition source))) (\<lambda>parsed.
     bnd (unwrap SchemaFailure
            (create_draft_version_clone (datetime_ok (le_host E))
               \<lparr>cl_definition = parsed, cl_status = lv_status source, cl_next_version = next_version vs w,
                cl_created_at = to_iso_string created\<rparr>)) (\<lambda>clone.
     case clone of
       Inl e \<Rightarrow> throw (LifecycleError (if e = SourceVersionNotCloneable then SOURCE_VERSION_NOT_CLONEABLE
                                      else INVALID_LIFECYCLE_INPUT))
     | Inr (d, m) \<Rightarrow>
         let row = (new_version_row E vs d (Some v) (Some client) created)
                     \<lparr>lv_workflow := w, lv_version := dm_version m, lv_revision := int (dm_revision m)\<rparr>
         in seqc (put_versions (vs @ [row])) (
            seqc (update_workflow_name w d) (
            bnd (gets (\<lambda>s. find_workflow s w)) (\<lambda>workflow.
            bnd (unwrap (LifecycleError WORKFLOW_NOT_FOUND) (map_option lw_workspace workflow)) (\<lambda>workspace.
            seqc (audit_created E workspace actor row v client created) (
            bnd (get_accessible_version actor (lv_id row)) (\<lambda>final.
            ret \<lparr>cr_version = final, cr_idempotent = False\<rparr>)))))))))))"

definition create_draft_version ::
  "life_env \<Rightarrow> string \<Rightarrow> string \<Rightarrow> string \<Rightarrow> string \<Rightarrow> int option \<Rightarrow> creation_result life_comp" where
  "create_draft_version E actor w v client created_at =
     seqc (require (uuid_pattern actor \<and> uuid_pattern v \<and> uuid_pattern client)
             (LifecycleError INVALID_LIFECYCLE_INPUT)) (
     bnd (require_timestamp created_at) (\<lambda>created.
     bnd (gets (\<lambda>s. Option.bind (find_workflow s w) (\<lambda>r. ld_member s (lw_workspace r) actor))) (\<lambda>member.
     bnd (unwrap (LifecycleError WORKFLOW_NOT_FOUND) member) (\<lambda>role.
     seqc (require_role role is_editor) (
     seqc (lock_workflow w) (
     bnd (gets (\<lambda>s. List.find (\<lambda>r. lv_workflow r = w \<and> lv_client_id r = Some client) (ld_versions s))) (\<lambda>existing.
     case existing of
       Some r \<Rightarrow>
         seqc (require (lv_created_from r = Some v) (LifecycleError WORKFLOW_VERSION_CREATION_CONFLICT)) (
         bnd (get_accessible_version actor (lv_id r)) (\<lambda>final.
         ret \<lparr>cr_version = final, cr_idempotent = True\<rparr>))
     | None \<Rightarrow> clone_source E actor w v client created)))))))"

section \<open>Saving a draft (workflow-draft.repository.ts)\<close>

text \<open>
  \<open>toDetailRecord\<close> of this repository parses the stored definition, so what it reads is the
  parsed one.
\<close>

definition read_draft :: "string \<Rightarrow> string \<Rightarrow> version_detail life_comp" where
  "read_draft actor v =
     bnd (gets (find_detail actor v)) (\<lambda>found.
     bnd (unwrap (DraftError DraftVersionNotFound) found) (\<lambda>d.
     bnd (unwrap (DraftError DraftPersistedInvalid) (parse_workflow (lv_definition (vd_row d)))) (\<lambda>w.
     ret (d\<lparr>vd_row := (vd_row d)\<lparr>lv_definition := w\<rparr>\<rparr>))))"

definition assert_immutable_fields :: "version_row \<Rightarrow> workflow \<Rightarrow> unit life_comp" where
  "assert_immutable_fields current d =
     seqc (require (workflow_id d = lv_workflow current) (DraftError WORKFLOW_ID_IMMUTABLE)) (
     seqc (require (wf_version d = lv_version current) (DraftError WORKFLOW_VERSION_IMMUTABLE)) (
     seqc (require (WORKFLOW_SCHEMA_VERSION = lv_schema_version current) (DraftError WORKFLOW_SCHEMA_VERSION_IMMUTABLE))
       (require (wf_status d = Draft) (DraftError WORKFLOW_STATUS_INVALID))))"

text \<open>The transaction of \<open>updateDraft\<close>, for a definition that has been parsed and validated.\<close>

definition save_draft :: "life_env \<Rightarrow> string \<Rightarrow> string \<Rightarrow> int \<Rightarrow> workflow \<Rightarrow> int \<Rightarrow> version_detail life_comp" where
  "save_draft E actor v expected d now =
     bnd (gets (find_detail actor v)) (\<lambda>found.
     bnd (unwrap (DraftError DraftVersionNotFound) found) (\<lambda>current.
     seqc (require (is_editor (vd_role current)) (DraftError WORKFLOW_DRAFT_FORBIDDEN)) (
     seqc (require (lv_status (vd_row current) = Draft) (DraftError WORKFLOW_VERSION_NOT_DRAFT)) (
     bnd (gets (\<lambda>s. ld_policy s (vd_workspace current))) (\<lambda>stored.
     bnd (unwrap (DraftError WORKFLOW_POLICY_MISSING) (Option.bind stored (parse_policy (le_url E)))) (\<lambda>policy.
     bnd (unwrap SchemaFailure
            (analyze_publish_readiness (le_url E) (le_collate E) (le_zod E) d (Some policy))) (\<lambda>readiness.
     seqc (require (pb_ready readiness) (DraftError WORKFLOW_POLICY_BLOCKED)) (
     seqc (assert_immutable_fields (vd_row current) d) (
     seqc (require (lv_revision (vd_row current) = expected) (DraftError WORKFLOW_DRAFT_REVISION_CONFLICT)) (
     bnd (update_many (\<lambda>r. lv_id r = v \<and> lv_status r = Draft \<and> lv_revision r = expected)
            (\<lambda>r. r\<lparr>lv_definition := d, lv_revision := lv_revision r + 1\<rparr>)) (\<lambda>count.
     seqc (require (count = 1) (DraftError WORKFLOW_DRAFT_REVISION_CONFLICT)) (
     seqc (update_workflow_name (lv_workflow (vd_row current)) d) (
     bnd (read_draft actor v) (\<lambda>detail.
     seqc (audit_draft_updated E actor detail now) (ret detail)))))))))))))))"

definition update_draft :: "life_env \<Rightarrow> string \<Rightarrow> string \<Rightarrow> int \<Rightarrow> workflow \<Rightarrow> int \<Rightarrow> version_detail life_comp" where
  "update_draft E actor v expected input now =
     bnd (unwrap (DraftError WORKFLOW_DEFINITION_INVALID) (parse_workflow input)) (\<lambda>d.
     bnd (unwrap SchemaFailure
            (validate_editor_workflow (le_url E) (le_query_keys E) (le_collate E) (le_zod E) input)) (\<lambda>issues.
     seqc (require (issues = []) (DraftError WORKFLOW_DEFINITION_INVALID)) (save_draft E actor v expected d now)))"

section \<open>Applying a locator repair (workflow-locator-repair.repository.ts)\<close>

text \<open>
  A proposal as \<open>applyToDraft\<close> reads it: with its run and its candidates. The update of the
  proposal itself is not modelled, so a proposal is an argument. The request has been parsed.
\<close>

record repair_candidate =
  rc_id :: string
  rc_locator :: element_locator
  rc_passed :: bool

record repair_proposal =
  rp_id :: string
  rp_workspace :: string
  rp_run_workspace :: string
  rp_workflow :: string
  rp_run :: string
  rp_source_version :: string
  rp_step_id :: string
  rp_step_index :: int
  rp_locator_digest :: string
  rp_ready :: bool
  rp_expires :: int
  rp_candidates :: "repair_candidate list"
  rp_client_apply :: "string option"
  rp_apply_digest :: "string option"
  rp_applied_version :: "string option"
  rp_applied_revision :: "int option"

record repair_request =
  rr_client :: string
  rr_candidate :: string
  rr_target :: string
  rr_revision :: int

definition request_json :: "repair_request \<Rightarrow> json" where
  "request_json rq = JObject
     [(''schemaVersion'', JNumber 1), (''clientApplyId'', JString (rr_client rq)),
      (''candidateId'', JString (rr_candidate rq)), (''targetDraftVersionId'', JString (rr_target rq)),
      (''expectedRevision'', int_json (rr_revision rq))]"

record repair_result =
  rz_idempotent :: bool
  rz_target :: string
  rz_revision :: int

text \<open>\<open>hasCompatibleLineage\<close>: the source is an ancestor of the draft, within 32 generations.\<close>

fun compatible_lineage :: "version_row list \<Rightarrow> string \<Rightarrow> string \<Rightarrow> nat \<Rightarrow> string option \<Rightarrow> bool" where
  "compatible_lineage vs source w 0 current = False"
| "compatible_lineage vs source w (Suc n) None = False"
| "compatible_lineage vs source w (Suc n) (Some v) =
     (v = source \<or>
      (case List.find (\<lambda>r. lv_id r = v \<and> lv_workflow r = w) vs of
         None \<Rightarrow> False
       | Some r \<Rightarrow> compatible_lineage vs source w n (lv_created_from r)))"

definition audit_repair_applied ::
  "life_env \<Rightarrow> string \<Rightarrow> repair_proposal \<Rightarrow> repair_candidate \<Rightarrow> repair_request \<Rightarrow> int \<Rightarrow> unit life_comp" where
  "audit_repair_applied E actor p c rq now =
     bnd (source_id E ''locator_repair_applied'' [PartText (rp_id p), PartText (to_iso_string now)]) (\<lambda>src.
     append_version_event E
       \<lparr>in_schema_version = None, in_workspace = rp_workspace p, in_type = ''locator_repair.applied_to_draft'',
        in_actor = UserActor actor, in_primary = \<lparr>entity_kind = ''locator_repair_proposal'', entity_id = rp_id p\<rparr>,
        in_related = Some [\<lparr>entity_kind = ''workflow_run'', entity_id = rp_run p\<rparr>],
        in_occurred_at = AtDate (Some now), in_source = src, in_correlation = None,
        in_payload = JObject
          [(''proposalId'', JString (rp_id p)), (''candidateId'', JString (rc_id c)),
           (''workflowRunId'', JString (rp_run p)), (''stepId'', JString (rp_step_id p)),
           (''stepIndex'', int_json (rp_step_index p)), (''targetDraftVersionId'', JString (rr_target rq)),
           (''previousRevision'', int_json (rr_revision rq)), (''newRevision'', int_json (rr_revision rq + 1)),
           (''appliedAt'', JString (to_iso_string now))]\<rparr>)"

text \<open>The definition with the new locator, when the draft still has the locator that was repaired.\<close>

definition repaired_definition :: "life_env \<Rightarrow> repair_proposal \<Rightarrow> repair_candidate \<Rightarrow> workflow \<Rightarrow> workflow life_comp" where
  "repaired_definition E p c stored =
     bnd (unwrap SchemaFailure (parse_workflow stored)) (\<lambda>w.
     bnd (unwrap (RepairError RepairLocatorChanged)
            (Option.bind (List.find (\<lambda>st. step_id st = rp_step_id p) (steps w)) locator_for_workflow_step)) (\<lambda>l.
     bnd (unwrap SchemaFailure (create_canonical_json_digest (le_host E) (locator_json l))) (\<lambda>digest.
     seqc (require (digest = rp_locator_digest p) (RepairError RepairLocatorChanged)) (
     bnd (unwrap SchemaFailure (replace_workflow_step_locator w (rp_step_id p) (rc_locator c))) (\<lambda>patched.
     bnd (case patched of Inl _ \<Rightarrow> throw (RepairError RepairInvalid) | Inr d \<Rightarrow> ret d) (\<lambda>d.
     bnd (unwrap SchemaFailure
            (validate_editor_workflow (le_url E) (le_query_keys E) (le_collate E) (le_zod E) d)) (\<lambda>issues.
     seqc (require (issues = []) (RepairError RepairInvalid)) (ret d))))))))"

definition apply_to_target ::
  "life_env \<Rightarrow> string \<Rightarrow> repair_proposal \<Rightarrow> repair_candidate \<Rightarrow> repair_request \<Rightarrow> int \<Rightarrow> repair_result life_comp" where
  "apply_to_target E actor p c rq now =
     bnd (gets ld_versions) (\<lambda>vs.
     bnd (unwrap (RepairError RepairLineageMismatch) (List.find (\<lambda>r. lv_id r = rr_target rq) vs)) (\<lambda>target.
     seqc (require (lv_workflow target = rp_workflow p) (RepairError RepairLineageMismatch)) (
     seqc (require (lv_status target = Draft) (RepairError RepairDraftRequired)) (
     seqc (require (lv_revision target = rr_revision rq) (RepairError RepairRevisionConflict)) (
     seqc (require (compatible_lineage vs (rp_source_version p) (lv_workflow target) 32 (lv_created_from target))
             (RepairError RepairLineageMismatch)) (
     bnd (repaired_definition E p c (lv_definition target)) (\<lambda>d.
     bnd (gets (\<lambda>s. ld_policy s (rp_workspace p))) (\<lambda>stored.
     bnd (unwrap (RepairError RepairInvalid) (Option.bind stored (parse_policy (le_url E)))) (\<lambda>policy.
     bnd (unwrap SchemaFailure
            (analyze_publish_readiness (le_url E) (le_collate E) (le_zod E) d (Some policy))) (\<lambda>readiness.
     seqc (require (pb_ready readiness) (RepairError RepairInvalid)) (
     bnd (update_many (\<lambda>r. lv_id r = lv_id target \<and> lv_status r = Draft \<and> lv_revision r = rr_revision rq)
            (\<lambda>r. r\<lparr>lv_definition := d, lv_revision := lv_revision r + 1\<rparr>)) (\<lambda>count.
     seqc (require (count = 1) (RepairError RepairRevisionConflict)) (
     seqc (audit_repair_applied E actor p c rq now) (
     ret \<lparr>rz_idempotent = False, rz_target = lv_id target, rz_revision = rr_revision rq + 1\<rparr>))))))))))))))"

definition apply_locator_repair ::
  "life_env \<Rightarrow> string \<Rightarrow> repair_proposal \<Rightarrow> repair_request \<Rightarrow> int \<Rightarrow> repair_result life_comp" where
  "apply_locator_repair E actor p rq now =
     bnd (unwrap SchemaFailure (create_canonical_json_digest (le_host E) (request_json rq))) (\<lambda>digest.
     bnd (gets (\<lambda>s. ld_member s (rp_run_workspace p) actor)) (\<lambda>member.
     bnd (unwrap (RepairError RepairNotFound) member) (\<lambda>role.
     seqc (require (is_editor role) (RepairError RepairForbidden)) (
     if rp_client_apply p = Some (rr_client rq)
     then seqc (require (rp_apply_digest p = Some digest \<and> rp_applied_version p = Some (rr_target rq))
                  (RepairError RepairConflict)) (
          bnd (unwrap (RepairError RepairConflict) (rp_applied_revision p)) (\<lambda>revision.
          ret \<lparr>rz_idempotent = True, rz_target = rr_target rq, rz_revision = revision\<rparr>))
     else
       seqc (require (now < rp_expires p) (RepairError RepairExpired)) (
       seqc (require (rp_ready p) (RepairError RepairConflict)) (
       bnd (unwrap (RepairError RepairCandidateNotTested)
              (List.find (\<lambda>c. rc_id c = rr_candidate rq) (rp_candidates p))) (\<lambda>c.
       seqc (require (rc_passed c) (RepairError RepairCandidateNotTested)) (
       apply_to_target E actor p c rq now))))))))"

section \<open>Inserting a version directly (workflow-version.repository.ts)\<close>

text \<open>
  \<open>WorkflowVersionRepository.create\<close> stores a definition with the status it has, whatever that is,
  and appends nothing to the trail. The package exports it and no application calls it.
\<close>

definition upsert_workflow :: "string \<Rightarrow> workflow \<Rightarrow> unit life_comp" where
  "upsert_workflow workspace d =
     bnd (gets (\<lambda>s. find_workflow s (workflow_id d))) (\<lambda>existing.
     if existing = None
     then modify (\<lambda>s. s\<lparr>ld_workflows := ld_workflows s @
            [\<lparr>lw_id = workflow_id d, lw_workspace = workspace, lw_name = wf_name d, lw_description = wf_description d\<rparr>]\<rparr>)
     else update_workflow_name (workflow_id d) d)"

definition create_persisted_version :: "life_env \<Rightarrow> string \<Rightarrow> workflow \<Rightarrow> int \<Rightarrow> unit life_comp" where
  "create_persisted_version E workspace input now =
     bnd (unwrap SchemaFailure (parse_workflow input)) (\<lambda>d.
     bnd (gets (\<lambda>s. find_workflow s (workflow_id d))) (\<lambda>existing.
     seqc (require (existing = None \<or> map_option lw_workspace existing = Some workspace) WorkflowElsewhere) (
     seqc (upsert_workflow workspace d) (
     bnd (gets ld_versions) (\<lambda>vs.
     put_versions (vs @ [(new_version_row E vs d None None now)\<lparr>lv_status := wf_status d\<rparr>]))))))"

section \<open>Serializable transactions\<close>

definition MAX_SERIALIZABLE_ATTEMPTS :: nat where "MAX_SERIALIZABLE_ATTEMPTS = 3"

text \<open>
  What the repositories retry: the lifecycle repository also an index violation. \<open>conflict n\<close> is
  None, or the state that others leave when the database aborts the n-th attempt.
\<close>

definition is_serialization_conflict :: "life_exn \<Rightarrow> bool" where
  "is_serialization_conflict x \<longleftrightarrow> x \<in> {SerializationConflict, IndexViolation, AuditFailure UniqueViolation}"

definition is_draft_conflict :: "life_exn \<Rightarrow> bool" where
  "is_draft_conflict x \<longleftrightarrow> x = SerializationConflict"

fun serializable_attempts ::
  "(life_exn \<Rightarrow> bool) \<Rightarrow> life_exn \<Rightarrow> (nat \<Rightarrow> life_db option) \<Rightarrow> 'a life_comp \<Rightarrow> nat \<Rightarrow> 'a life_comp" where
  "serializable_attempts retry give_up conflict m 0 s = (Inl give_up, s)"
| "serializable_attempts retry give_up conflict m (Suc k) s =
     (case (case conflict (MAX_SERIALIZABLE_ATTEMPTS - k) of
              Some t \<Rightarrow> (Inl SerializationConflict, t) | None \<Rightarrow> transaction m s) of
        (Inl x, t) \<Rightarrow> if retry x then serializable_attempts retry give_up conflict m k t else (Inl x, t)
      | (Inr a, t) \<Rightarrow> (Inr a, t))"

definition run_serializable :: "(nat \<Rightarrow> life_db option) \<Rightarrow> 'a life_comp \<Rightarrow> 'a life_comp" where
  "run_serializable conflict m =
     serializable_attempts is_serialization_conflict (LifecycleError SERIALIZATION_FAILURE) conflict m
       MAX_SERIALIZABLE_ATTEMPTS"

definition run_serializable_draft :: "(nat \<Rightarrow> life_db option) \<Rightarrow> 'a life_comp \<Rightarrow> 'a life_comp" where
  "run_serializable_draft conflict m =
     serializable_attempts is_draft_conflict (DraftError DraftSerializationFailure) conflict m
       MAX_SERIALIZABLE_ATTEMPTS"

section \<open>Histories\<close>

text \<open>The calls of the repositories that the applications use, with their arguments.\<close>

datatype life_call =
    ConvertCall string workflow int
  | SubmitCall string string int int
  | ReturnCall string string int int
  | PublishCall string string int "int option"
  | ArchiveCall string string "int option"
  | CreateCall string string string string "int option"
  | SaveCall string string int workflow int
  | RepairCall string repair_proposal repair_request int

definition ignore :: "'a life_comp \<Rightarrow> unit life_comp" where
  "ignore m = bnd m (\<lambda>_. ret ())"

fun run_call :: "life_env \<Rightarrow> life_call \<Rightarrow> unit life_comp" where
  "run_call E (ConvertCall workspace d now) = insert_converted_draft E workspace d now"
| "run_call E (SubmitCall actor v expected now) = ignore (submit_for_testing E actor v expected now)"
| "run_call E (ReturnCall actor v expected now) = ignore (return_to_draft E actor v expected now)"
| "run_call E (PublishCall actor v expected occurred) = ignore (publish E actor v expected occurred)"
| "run_call E (ArchiveCall actor v occurred) = ignore (archive E actor v occurred)"
| "run_call E (CreateCall actor w v client created) = ignore (create_draft_version E actor w v client created)"
| "run_call E (SaveCall actor v expected d now) = ignore (update_draft E actor v expected d now)"
| "run_call E (RepairCall actor p rq now) = ignore (apply_locator_repair E actor p rq now)"

definition empty_life :: life_db where
  "empty_life = \<lparr>ld_audit = empty_db, ld_versions = [], ld_workflows = [], ld_member = (\<lambda>_ _. None),
     ld_policy = (\<lambda>_. None)\<rparr>"

text \<open>
  What every database holds in which definitions were stored as the schema returns them and the
  indexes were kept: the empty one, those the migrations leave, with versions published before they
  had times and before there was a trail, and those \<open>WorkflowVersionRepository\<close> has written.
\<close>

definition version_stored :: "life_db \<Rightarrow> version_row \<Rightarrow> bool" where
  "version_stored s r \<longleftrightarrow>
     parse_workflow (lv_definition r) = Some (lv_definition r) \<and> workflow_id (lv_definition r) = lv_workflow r \<and>
     wf_version (lv_definition r) = lv_version r \<and> find_workflow s (lv_workflow r) \<noteq> None"

definition stored_db :: "life_env \<Rightarrow> life_db \<Rightarrow> bool" where
  "stored_db E s \<longleftrightarrow>
     audit_reachable (le_host E) (le_db E) (ld_audit s) \<and> indexes_ok (ld_versions s) \<and>
     (\<forall>r\<in>set (ld_versions s). version_stored s r)"

text \<open>
  The databases that committed transactions can leave behind, from any stored database on: those of
  the calls, and those of the other repositories, which create workspaces, change memberships and
  policies and append events of their own.
\<close>

inductive life_step :: "life_env \<Rightarrow> life_db \<Rightarrow> life_db \<Rightarrow> bool" for E where
  step_call: "transaction (run_call E c) s = (r, t) \<Longrightarrow> life_step E s t"
| step_workspace: "db_heads (ld_audit s) w = None \<Longrightarrow>
    life_step E s (s\<lparr>ld_audit := create_chain_head w now (ld_audit s)\<rparr>)"
| step_event: "transaction (append_version_event E i) s = (r, t) \<Longrightarrow> life_step E s t"
| step_members: "life_step E s (s\<lparr>ld_member := members\<rparr>)"
| step_policies: "life_step E s (s\<lparr>ld_policy := policies\<rparr>)"

inductive life_reachable :: "life_env \<Rightarrow> life_db \<Rightarrow> bool" for E where
  life_start: "stored_db E s \<Longrightarrow> life_reachable E s"
| life_next: "life_reachable E s \<Longrightarrow> life_step E s t \<Longrightarrow> life_reachable E t"

end
