(* ===== verification/Lifecycle_Spec.thy ===== *)
theory Lifecycle_Spec
  imports Lifecycle_Store
begin

text \<open>
  What a committed transaction may do to the versions of workflows, row by row, and that every
  call of the repositories does only that. The invariants of the table follow from this
  specification alone.
\<close>

section \<open>The specification\<close>

text \<open>An event of a type about a version is in the trail of a workspace.\<close>

definition event_recorded :: "life_db \<Rightarrow> string \<Rightarrow> string \<Rightarrow> string \<Rightarrow> bool" where
  "event_recorded s workspace type v \<longleftrightarrow>
     (\<exists>e\<in>set (db_events_of (ld_audit s) workspace). ev_type e = type \<and>
        ev_primary e = \<lparr>entity_kind = ''workflow_version'', entity_id = v\<rparr>)"

definition workspace_of :: "life_db \<Rightarrow> string \<Rightarrow> string option" where
  "workspace_of s w = map_option lw_workspace (find_workflow s w)"

text \<open>The readiness report under the active policy of a workspace, and whether it lets through.\<close>

definition readiness_at :: "life_env \<Rightarrow> life_db \<Rightarrow> string \<Rightarrow> workflow \<Rightarrow> publish_report option" where
  "readiness_at E s workspace d = do {
     stored \<leftarrow> ld_policy s workspace;
     policy \<leftarrow> parse_policy (le_url E) stored;
     analyze_publish_readiness (le_url E) (le_collate E) (le_zod E) d (Some policy) }"

definition ready_in :: "life_env \<Rightarrow> life_db \<Rightarrow> string \<Rightarrow> workflow \<Rightarrow> bool" where
  "ready_in E s workspace d \<longleftrightarrow> (\<exists>report. readiness_at E s workspace d = Some report \<and> pb_ready report)"

inductive row_step :: "life_env \<Rightarrow> life_db \<Rightarrow> life_db \<Rightarrow> version_row \<Rightarrow> version_row \<Rightarrow> bool" for E s t r where
  row_same: "row_step E s t r r"
| row_submit: "lv_status r = Draft \<Longrightarrow> workspace_of s (lv_workflow r) = Some workspace \<Longrightarrow>
    ready_in E s workspace (lv_definition r) \<Longrightarrow> row_step E s t r (r\<lparr>lv_status := Testing\<rparr>)"
| row_return: "lv_status r = Testing \<Longrightarrow> row_step E s t r (r\<lparr>lv_status := Draft\<rparr>)"
| row_save: "lv_status r = Draft \<Longrightarrow> parse_workflow d = Some d \<Longrightarrow> workflow_id d = lv_workflow r \<Longrightarrow>
    wf_version d = lv_version r \<Longrightarrow> wf_status d = Draft \<Longrightarrow>
    workspace_of s (lv_workflow r) = Some workspace \<Longrightarrow> ready_in E s workspace d \<Longrightarrow>
    row_step E s t r (r\<lparr>lv_definition := d, lv_revision := lv_revision r + 1\<rparr>)"
| row_repair: "lv_status r = Draft \<Longrightarrow> parse_workflow (lv_definition r) = Some w \<Longrightarrow> parse_workflow d = Some d \<Longrightarrow>
    workflow_id d = workflow_id w \<Longrightarrow> wf_version d = wf_version w \<Longrightarrow> wf_status d = wf_status w \<Longrightarrow>
    ready_in E s workspace d \<Longrightarrow> row_step E s t r (r\<lparr>lv_definition := d, lv_revision := lv_revision r + 1\<rparr>)"
| row_publish: "lv_status r = Testing \<Longrightarrow> workspace_of s (lv_workflow r) = Some workspace \<Longrightarrow>
    ld_member s workspace actor = Some role \<Longrightarrow> is_publisher role \<Longrightarrow>
    ready_in E s workspace (lv_definition r) \<Longrightarrow> parse_workflow (lv_definition r) = Some w \<Longrightarrow>
    parse_workflow (w\<lparr>wf_status := Published\<rparr>) = Some d \<Longrightarrow>
    event_recorded t workspace ''workflow_version.published'' (lv_id r) \<Longrightarrow>
    row_step E s t r (publish_row actor occurred d r)"
| row_archive: "lv_status r = Published \<Longrightarrow> workspace_of s (lv_workflow r) = Some workspace \<Longrightarrow>
    ld_member s workspace actor = Some role \<Longrightarrow> is_publisher role \<Longrightarrow>
    event_recorded t workspace ''workflow_version.archived'' (lv_id r) \<Longrightarrow>
    row_step E s t r (archive_row actor occurred r)"

text \<open>A new row: a draft of its own, or a copy of an older published or archived version.\<close>

definition fresh_row :: "life_db \<Rightarrow> life_db \<Rightarrow> version_row \<Rightarrow> bool" where
  "fresh_row s t r \<longleftrightarrow>
     lv_status r = Draft \<and> lv_revision r = 1 \<and> lv_schema_version r = WORKFLOW_SCHEMA_VERSION \<and>
     lv_published_at r = None \<and> lv_archived_at r = None \<and>
     parse_workflow (lv_definition r) = Some (lv_definition r) \<and>
     workflow_id (lv_definition r) = lv_workflow r \<and> wf_version (lv_definition r) = lv_version r \<and>
     wf_status (lv_definition r) = Draft \<and> workspace_of t (lv_workflow r) \<noteq> None \<and>
     (\<forall>v. lv_created_from r = Some v \<longrightarrow>
        (\<exists>q\<in>set (ld_versions s). lv_id q = v \<and> lv_workflow q = lv_workflow r \<and> lv_version q < lv_version r \<and>
           lv_status q \<in> {Published, Archived}))"

definition versions_step :: "life_env \<Rightarrow> life_db \<Rightarrow> life_db \<Rightarrow> bool" where
  "versions_step E s t \<longleftrightarrow>
     (\<exists>rs new. list_all2 (row_step E s t) (ld_versions s) rs \<and> ld_versions t = rs @ new \<and>
        (\<forall>r\<in>set new. fresh_row s t r))"

text \<open>The trail stays one that appends can reach and only grows.\<close>

definition trail_grows :: "life_env \<Rightarrow> audit_db \<Rightarrow> audit_db \<Rightarrow> bool" where
  "trail_grows E a b \<longleftrightarrow>
     audit_reachable (le_host E) (le_db E) b \<and> (\<forall>w. set (db_events_of a w) \<subseteq> set (db_events_of b w))"

definition effect :: "life_env \<Rightarrow> life_db \<Rightarrow> life_db \<Rightarrow> bool" where
  "effect E s t \<longleftrightarrow>
     trail_grows E (ld_audit s) (ld_audit t) \<and> versions_step E s t \<and>
     (indexes_ok (ld_versions s) \<longrightarrow> indexes_ok (ld_versions t)) \<and>
     (\<forall>w p. workspace_of s w = Some p \<longrightarrow> workspace_of t w = Some p)"

section \<open>Returns of the primitive operations\<close>

named_theorems returns "when a computation returns, and in which state"

lemma bnd_returns [returns]: "bnd m f s = (Inr b, t) \<longleftrightarrow> (\<exists>a u. m s = (Inr a, u) \<and> f a u = (Inr b, t))"
  by (auto simp: bnd_def split: prod.splits sum.splits)

lemma seqc_returns [returns]: "seqc m k s = (Inr b, t) \<longleftrightarrow> (\<exists>a u. m s = (Inr a, u) \<and> k u = (Inr b, t))"
  by (simp add: seqc_def bnd_returns)

lemma simple_returns [returns]:
  "ret a s = (Inr b, t) \<longleftrightarrow> b = a \<and> t = s"
  "throw x s = (Inr b, t) \<longleftrightarrow> False"
  "gets f s = (Inr b, t) \<longleftrightarrow> b = f s \<and> t = s"
  "modify g s = (Inr u, t) \<longleftrightarrow> t = g s"
  by (auto simp: ret_def throw_def gets_def modify_def)

lemma require_returns [returns]: "require b x s = (Inr u, t) \<longleftrightarrow> b \<and> t = s"
  by (auto simp: require_def returns)

lemma unwrap_returns [returns]: "unwrap x v s = (Inr a, t) \<longleftrightarrow> v = Some a \<and> t = s"
  by (auto simp: unwrap_def returns split: option.splits)

lemma put_returns [returns]: "put_versions vs s = (Inr u, t) \<longleftrightarrow> indexes_ok vs \<and> t = s\<lparr>ld_versions := vs\<rparr>"
  by (auto simp: put_versions_def)

lemma update_returns [returns]:
  "update_many P f s = (Inr n, t) \<longleftrightarrow>
     n = length (filter P (ld_versions s)) \<and> indexes_ok (map (\<lambda>r. if P r then f r else r) (ld_versions s)) \<and>
     t = s\<lparr>ld_versions := map (\<lambda>r. if P r then f r else r) (ld_versions s)\<rparr>"
  by (auto simp: update_many_def returns)

lemma rename_returns [returns]:
  "update_workflow_name w d s = (Inr u, t) \<longleftrightarrow> find_workflow s w \<noteq> None \<and>
     t = s\<lparr>ld_workflows := map (\<lambda>r. if lw_id r = w
              then r\<lparr>lw_name := wf_name d, lw_description := wf_description d\<rparr> else r) (ld_workflows s)\<rparr>"
  by (auto simp: update_workflow_name_def)

lemma lock_returns [returns]: "lock_workflow w s = (Inr u, t) \<longleftrightarrow> find_workflow s w \<noteq> None \<and> t = s"
  by (auto simp: lock_workflow_def returns)

lemma accessible_returns [returns]:
  "get_accessible_version actor v s = (Inr d, t) \<longleftrightarrow>
     uuid_pattern actor \<and> uuid_pattern v \<and> find_detail actor v s = Some d \<and> t = s"
  by (auto simp: get_accessible_version_def returns)

lemma transition_returns [returns]:
  "require_transition a b s = (Inr u, t) \<longleftrightarrow> can_transition_workflow_lifecycle a b \<and> t = s"
  by (auto simp: require_transition_def validate_workflow_lifecycle_transition_def returns)

lemma transitions_into [simp]:
  "can_transition_workflow_lifecycle a Testing \<longleftrightarrow> a = Draft"
  "can_transition_workflow_lifecycle a Draft \<longleftrightarrow> a = Testing"
  "can_transition_workflow_lifecycle a Published \<longleftrightarrow> a = Testing"
  "can_transition_workflow_lifecycle a Archived \<longleftrightarrow> a = Published"
  by (cases a; simp add: can_transition_table can_move_def)+

lemma guards_return [returns]:
  "require_role role allowed s = (Inr u, t) \<longleftrightarrow> allowed role \<and> t = s"
  "require_revision n k s = (Inr u, t) \<longleftrightarrow> 1 \<le> k \<and> n = k \<and> t = s"
  "require_timestamp time s = (Inr ms, t) \<longleftrightarrow> time = Some ms \<and> t = s"
  by (auto simp: require_role_def require_revision_def require_timestamp_def returns)

lemma readiness_returns [returns]:
  "analyze_readiness E workspace d s = (Inr report, t) \<longleftrightarrow> readiness_at E s workspace d = Some report \<and> t = s"
  "require_readiness E workspace d s = (Inr report, t) \<longleftrightarrow>
     readiness_at E s workspace d = Some report \<and> pb_ready report \<and> t = s"
  by (auto simp: require_readiness_def analyze_readiness_def readiness_at_def returns bind_eq_Some_conv)

section \<open>The trail\<close>

lemma trail_refl: "audit_reachable (le_host E) (le_db E) a \<Longrightarrow> trail_grows E a a"
  by (simp add: trail_grows_def)

lemma trail_trans: "trail_grows E a b \<Longrightarrow> trail_grows E b c \<Longrightarrow> trail_grows E a c"
  by (auto simp: trail_grows_def)

text \<open>A successful append: the trail grows and has an event of its type about its entity.\<close>

definition logged :: "life_env \<Rightarrow> life_db \<Rightarrow> life_db \<Rightarrow> bool" where
  "logged E s t \<longleftrightarrow> t = s\<lparr>ld_audit := ld_audit t\<rparr> \<and> trail_grows E (ld_audit s) (ld_audit t)"

abbreviation db_keeps :: "life_env \<Rightarrow> bool" where
  "db_keeps E \<equiv> \<forall>v. canonical (db_jsonb (le_db E) v) = canonical v"

lemma append_returns:
  assumes js: "db_keeps E" and a: "audit_reachable (le_host E) (le_db E) (ld_audit s)"
    and r: "append_version_event E i s = (Inr u, t)"
  shows "logged E s t \<and>
    (\<exists>e\<in>set (db_events_of (ld_audit t) (in_workspace i)). ev_type e = in_type i \<and> ev_primary e = in_primary i)"
proof -
  let ?m = "append_audit_event_transactional (le_host E) (le_db E) i"
  from r obtain x b where m: "?m (ld_audit s) = (Inr x, b)" and t: "t = s\<lparr>ld_audit := b\<rparr>"
    by (auto simp: append_version_event_def on_audit_def returns split: prod.splits sum.splits)
  then have tr: "transaction ?m (ld_audit s) = (Inr x, b)" by (simp add: transaction_def)
  from js have js': "\<And>v. canonical (db_jsonb (le_db E) v) = canonical v" by blast
  from transaction_append [OF js' reachable_inv [OF a js'] tr]
  have ap: "trail.appended (le_db E) (le_host E) i ((ld_audit s)\<lparr>db_metadata := None\<rparr>) x b" by simp
  from ap have g: "set (db_events_of (ld_audit s) w) \<subseteq> set (db_events_of b w)" for w
    by (auto simp: trail.appended_def split: prod.splits if_splits)
  from ap have "\<exists>e\<in>set (db_events_of b (in_workspace i)). ev_type e = in_type i \<and> ev_primary e = in_primary i"
    by (auto simp: trail.appended_def split: prod.splits)
  moreover have "audit_reachable (le_host E) (le_db E) b" by (rule reach_append [OF a tr])
  ultimately show ?thesis using t g by (simp add: logged_def trail_grows_def)
qed

lemma audit_transition_returns:
  assumes "db_keeps E" "audit_reachable (le_host E) (le_db E) (ld_audit s)"
    and "audit_transition E type actor d now s = (Inr u, t)"
  shows "logged E s t"
  using assms append_returns [OF assms(1,2)]
  by (auto simp: audit_transition_def source_id_def of_sum_def returns)

lemma audit_archived_returns:
  assumes "db_keeps E" "audit_reachable (le_host E) (le_db E) (ld_audit s)"
    and "audit_archived E workspace actor r reason now s = (Inr u, t)"
  shows "logged E s t \<and> event_recorded t workspace ''workflow_version.archived'' (lv_id r)"
  using assms(3) append_returns [OF assms(1,2)]
  by (fastforce simp: audit_archived_def source_id_def of_sum_def version_event_def event_recorded_def returns)

lemma audit_published_returns:
  assumes "db_keeps E" "audit_reachable (le_host E) (le_db E) (ld_audit s)"
    and "audit_published E workspace actor r dg replaced now s = (Inr u, t)"
  shows "logged E s t \<and> event_recorded t workspace ''workflow_version.published'' (lv_id r)"
  using assms(3) append_returns [OF assms(1,2)]
  by (fastforce simp: audit_published_def source_id_def of_sum_def version_event_def event_recorded_def returns)

lemma audit_created_returns:
  assumes "db_keeps E" "audit_reachable (le_host E) (le_db E) (ld_audit s)"
    and "audit_created E workspace actor r source client now s = (Inr u, t)"
  shows "logged E s t"
  using assms(3) append_returns [OF assms(1,2)]
  by (auto simp: audit_created_def source_id_def of_sum_def returns)

lemma audit_draft_updated_returns:
  assumes "db_keeps E" "audit_reachable (le_host E) (le_db E) (ld_audit s)"
    and "audit_draft_updated E actor d now s = (Inr u, t)"
  shows "logged E s t"
  using assms(3) append_returns [OF assms(1,2)]
  by (auto simp: audit_draft_updated_def source_id_def of_sum_def Let_def returns)

lemma event_recorded_mono: "event_recorded s w type v \<Longrightarrow> trail_grows E (ld_audit s) (ld_audit t) \<Longrightarrow> event_recorded t w type v"
  by (auto simp: event_recorded_def trail_grows_def)

lemma logged_trans: "logged E s t \<Longrightarrow> logged E t u \<Longrightarrow> logged E s u"
  unfolding logged_def by (metis life_db.ext_inject life_db.surjective life_db.update_convs(1) trail_trans)

lemma archived_all_returns:
  assumes "db_keeps E" "audit_reachable (le_host E) (le_db E) (ld_audit s)"
    and "for_each rs (\<lambda>r. audit_archived E workspace actor r reason now) s = (Inr u, t)"
  shows "logged E s t \<and> (\<forall>r\<in>set rs. event_recorded t workspace ''workflow_version.archived'' (lv_id r))"
  using assms(2,3)
proof (induction rs arbitrary: s)
  case Nil
  then show ?case by (simp add: returns logged_def trail_refl)
next
  case (Cons r rs)
  then obtain x where x: "audit_archived E workspace actor r reason now s = (Inr (), x)"
      "for_each rs (\<lambda>r. audit_archived E workspace actor r reason now) x = (Inr u, t)"
    by (auto simp: returns)
  from audit_archived_returns [OF assms(1) Cons.prems(1) x(1)]
  have l: "logged E s x" and rec: "event_recorded x workspace ''workflow_version.archived'' (lv_id r)" by simp_all
  then have "audit_reachable (le_host E) (le_db E) (ld_audit x)" by (simp add: logged_def trail_grows_def)
  from Cons.IH [OF this x(2)] have l': "logged E x t"
    and "\<forall>r\<in>set rs. event_recorded t workspace ''workflow_version.archived'' (lv_id r)" by simp_all
  moreover from l' have "event_recorded t workspace ''workflow_version.archived'' (lv_id r)"
    unfolding logged_def using event_recorded_mono [OF rec] by blast
  ultimately show ?case using logged_trans [OF l l'] by simp
qed


section \<open>The calls meet the specification\<close>

lemma detail_row:
  "find_detail actor v s = Some d \<Longrightarrow>
     vd_row d \<in> set (ld_versions s) \<and> lv_id (vd_row d) = v \<and>
     workspace_of s (lv_workflow (vd_row d)) = Some (vd_workspace d) \<and>
     ld_member s (vd_workspace d) actor = Some (vd_role d)"
  by (auto simp: find_detail_def workspace_of_def dest!: find_Some_set split: bind_splits)

lemma same_row:
  "indexes_ok vs \<Longrightarrow> r \<in> set vs \<Longrightarrow> q \<in> set vs \<Longrightarrow> lv_id r = lv_id q \<Longrightarrow> r = q"
  by (auto simp: indexes_ok_def distinct_map inj_on_def)

lemma effect_map:
  assumes "trail_grows E (ld_audit s) (ld_audit t)" "ld_versions t = map g (ld_versions s)"
    "\<And>r. r \<in> set (ld_versions s) \<Longrightarrow> row_step E s t r (g r)" "indexes_ok (ld_versions t)"
    "\<And>w p. workspace_of s w = Some p \<Longrightarrow> workspace_of t w = Some p"
  shows "effect E s t"
proof -
  from assms(3) have "list_all2 (row_step E s t) (ld_versions s) (map g (ld_versions s))"
    by (simp add: list.rel_map list_all2_same)
  then have "versions_step E s t"
    unfolding versions_step_def assms(2) by (intro exI [of _ "map g (ld_versions s)"] exI [of _ "[]"]) simp
  with assms show ?thesis by (simp add: effect_def)
qed

lemma effect_same:
  assumes "audit_reachable (le_host E) (le_db E) (ld_audit s)" "indexes_ok (ld_versions s)" shows "effect E s s"
  by (rule effect_map [where g = id]) (use assms in \<open>simp_all add: trail_refl row_same effect_def\<close>)

lemma logged_state:
  assumes "logged E s t"
  shows "ld_versions t = ld_versions s" "ld_workflows t = ld_workflows s" "ld_member t = ld_member s"
    "ld_policy t = ld_policy s" "trail_grows E (ld_audit s) (ld_audit t)"
    "audit_reachable (le_host E) (le_db E) (ld_audit t)"
proof -
  from assms have t: "t = s\<lparr>ld_audit := ld_audit t\<rparr>" by (simp add: logged_def)
  show "ld_versions t = ld_versions s" "ld_workflows t = ld_workflows s" "ld_member t = ld_member s"
    "ld_policy t = ld_policy s" by (subst t, simp)+
  show "trail_grows E (ld_audit s) (ld_audit t)" "audit_reachable (le_host E) (le_db E) (ld_audit t)"
    using assms by (simp_all add: logged_def trail_grows_def)
qed

lemma workspace_of_cong: "ld_workflows t = ld_workflows s \<Longrightarrow> workspace_of t = workspace_of s"
  by (simp add: workspace_of_def find_workflow_def fun_eq_iff)

text \<open>What a call may rely on.\<close>

definition store_ok :: "life_env \<Rightarrow> life_db \<Rightarrow> bool" where
  "store_ok E s \<longleftrightarrow>
     db_keeps E \<and> audit_reachable (le_host E) (le_db E) (ld_audit s) \<and> indexes_ok (ld_versions s)"

text \<open>A call that changes one row and appends to the trail.\<close>

lemma effect_row:
  assumes ok: "store_ok E s" and d: "d \<in> set (ld_versions s)" "lv_id d = v"
    and u: "ld_versions u = map (\<lambda>r. if lv_id r = v \<and> P r then f r else r) (ld_versions s)"
      "ld_audit u = ld_audit s" "workspace_of u = workspace_of s"
    and ix: "indexes_ok (ld_versions u)" and l: "logged E u t"
    and step: "P d \<Longrightarrow> row_step E s t d (f d)"
  shows "effect E s t"
proof (rule effect_map)
  note st = logged_state [OF l]
  show "trail_grows E (ld_audit s) (ld_audit t)" using st(5) u by simp
  show "ld_versions t = map (\<lambda>r. if lv_id r = v \<and> P r then f r else r) (ld_versions s)" using st(1) u by simp
  show "indexes_ok (ld_versions t)" using st(1) ix by simp
  show "workspace_of s w = Some p \<Longrightarrow> workspace_of t w = Some p" for w p
    using workspace_of_cong [OF st(2)] u by simp
  fix r assume r: "r \<in> set (ld_versions s)"
  show "row_step E s t r (if lv_id r = v \<and> P r then f r else r)"
  proof (cases "lv_id r = v \<and> P r")
    case True
    have "r = d" using same_row [of "ld_versions s" r d] ok r d True by (simp add: store_ok_def)
    with True step show ?thesis by simp
  next
    case False
    show ?thesis unfolding if_not_P [OF False] by (rule row_same)
  qed
qed

lemma effect_update:
  assumes ok: "store_ok E s" and d: "find_detail actor v s = Some d"
    and u: "ld_versions u = map (\<lambda>r. if lv_id r = v \<and> P r then f r else r) (ld_versions s)"
      "ld_audit u = ld_audit s" "workspace_of u = workspace_of s"
    and ix: "indexes_ok (ld_versions u)" and l: "logged E u t"
    and step: "P (vd_row d) \<Longrightarrow> row_step E s t (vd_row d) (f (vd_row d))"
  shows "effect E s t"
  using effect_row [OF ok _ _ u ix l step] detail_row [OF d] by blast

lemma submit_effect:
  assumes ok: "store_ok E s" and "submit_for_testing E actor v expected now s = (Inr a, t)"
  shows "effect E s t"
proof -
  let ?P = "\<lambda>r. lv_status r = Draft \<and> lv_revision r = expected"
  let ?f = "\<lambda>r. r\<lparr>lv_status := Testing\<rparr>"
  let ?u = "s\<lparr>ld_versions := map (\<lambda>r. if lv_id r = v \<and> ?P r then ?f r else r) (ld_versions s)\<rparr>"
  from assms(2) obtain d final rep where d: "find_detail actor v s = Some d"
    and ready: "readiness_at E s (vd_workspace d) (lv_definition (vd_row d)) = Some rep" "pb_ready rep"
    and ix: "indexes_ok (ld_versions ?u)"
    and log: "audit_transition E ''workflow_version.submitted_for_testing'' actor final now ?u = (Inr (), t)"
    by (auto simp: submit_for_testing_def returns)
  have l: "logged E ?u t" using audit_transition_returns [OF _ _ log] ok by (simp add: store_ok_def)
  show ?thesis
    by (rule effect_update [where P = ?P and f = ?f, OF ok d _ _ _ ix l])
      (use detail_row [OF d] ready in \<open>auto simp: ready_in_def intro: row_submit workspace_of_cong\<close>)
qed

lemma return_effect:
  assumes ok: "store_ok E s" and "return_to_draft E actor v expected now s = (Inr a, t)"
  shows "effect E s t"
proof -
  let ?P = "\<lambda>r. lv_status r = Testing \<and> lv_revision r = expected"
  let ?f = "\<lambda>r. r\<lparr>lv_status := Draft\<rparr>"
  let ?u = "s\<lparr>ld_versions := map (\<lambda>r. if lv_id r = v \<and> ?P r then ?f r else r) (ld_versions s)\<rparr>"
  from assms(2) obtain d final where d: "find_detail actor v s = Some d" and ix: "indexes_ok (ld_versions ?u)"
    and log: "audit_transition E ''workflow_version.returned_to_draft'' actor final now ?u = (Inr (), t)"
    by (auto simp: return_to_draft_def returns)
  have l: "logged E ?u t" using audit_transition_returns [OF _ _ log] ok by (simp add: store_ok_def)
  show ?thesis by (rule effect_update [where P = ?P and f = ?f, OF ok d _ _ _ ix l]) (auto intro: row_return workspace_of_cong)
qed

lemma find_map_keys: "(\<And>x. k (g x) = k x) \<Longrightarrow> List.find (\<lambda>x. k x = v) (map g xs) = map_option g (List.find (\<lambda>x. k x = v) xs)"
  by (induction xs) auto

lemma find_detail_map:
  assumes "\<And>r. lv_id (g r) = lv_id r" "\<And>r. lv_workflow (g r) = lv_workflow r"
  shows "find_detail actor v (s\<lparr>ld_versions := map g (ld_versions s)\<rparr>) =
    map_option (\<lambda>d. d\<lparr>vd_row := g (vd_row d)\<rparr>) (find_detail actor v s)"
  by (cases "List.find (\<lambda>r. lv_id r = v) (ld_versions s)")
    (auto simp: find_detail_def find_map_keys [where k = lv_id, OF assms(1)] assms find_workflow_def
      bind_eq_Some_conv split: bind_splits)

lemma archive_effect:
  assumes ok: "store_ok E s" and "archive E actor v occurred s = (Inr a, t)"
  shows "effect E s t"
proof -
  from assms(2) obtain now where "archive_version E actor v now s = (Inr a, t)" by (auto simp: archive_def returns)
  let ?g = "\<lambda>now r. if lv_id r = v \<and> lv_status r = Published then archive_row actor now r else r"
  let ?u = "s\<lparr>ld_versions := map (?g now) (ld_versions s)\<rparr>"
  from \<open>archive_version E actor v now s = (Inr a, t)\<close>
  obtain d final where d: "find_detail actor v s = Some d" and role: "is_publisher (vd_role d)"
    and ix: "indexes_ok (ld_versions ?u)" and final: "find_detail actor v ?u = Some final"
    and log: "audit_archived E (vd_workspace final) actor (vd_row final) ''manual'' now ?u = (Inr (), t)"
    by (auto simp: archive_version_def returns)
  have f: "vd_workspace final = vd_workspace d" "lv_id (vd_row final) = lv_id (vd_row d)"
    using final d by (auto simp: find_detail_map archive_row_def)
  have l: "logged E ?u t" and rec: "event_recorded t (vd_workspace d) ''workflow_version.archived'' (lv_id (vd_row d))"
    using audit_archived_returns [OF _ _ log] ok by (simp_all add: store_ok_def f)
  show ?thesis
    by (rule effect_update [where P = "\<lambda>r. lv_status r = Published" and f = "archive_row actor now", OF ok d _ _ _ ix l]) (use detail_row [OF d] role rec in \<open>auto intro: row_archive workspace_of_cong\<close>)
qed

lemma publish_effect:
  assumes ok: "store_ok E s" and "publish E actor v expected occurred s = (Inr a, t)"
  shows "effect E s t"
proof -
  from assms(2) obtain now where p: "publish_version E actor v expected now s = (Inr a, t)"
    by (auto simp: publish_def returns)
  from p obtain d where d: "find_detail actor v s = Some d" and role: "is_publisher (vd_role d)"
    by (auto simp: publish_version_def returns)
  let ?row = "vd_row d" and ?w = "vd_workspace d"
  note dr = detail_row [OF d]
  show ?thesis
  proof (cases "lv_status ?row = Published")
    case True
    with p d have "t = s" by (auto simp: publish_version_def returns Let_def )
    with effect_same ok show ?thesis by (simp add: store_ok_def)
  next
    case False
    let ?A = "\<lambda>r. lv_workflow r = lv_workflow ?row \<and> lv_status r = Published \<and> lv_id r \<noteq> v"
    let ?a = "\<lambda>r. if ?A r then archive_row actor now r else r"
    let ?b = "\<lambda>df r. if lv_id r = v \<and> lv_status r = Testing \<and> lv_revision r = expected
      then publish_row actor now df r else r"
    let ?u = "\<lambda>df. s\<lparr>ld_versions := map (?b df) (map ?a (ld_versions s))\<rparr>"
    from p d False obtain rep w df final x dg where
      ready: "readiness_at E s ?w (lv_definition ?row) = Some rep" "pb_ready rep"
      and w: "parse_workflow (lv_definition ?row) = Some w" "parse_workflow (w\<lparr>wf_status := Published\<rparr>) = Some df"
      and ix: "indexes_ok (map (?b df) (map ?a (ld_versions s)))" and final: "find_detail actor v (?u df) = Some final"
      and arch: "for_each (filter ?A (ld_versions s)) (\<lambda>r. audit_archived E ?w actor r ''replaced_by_publish'' now)
        (?u df) = (Inr (), x)"
      and pub: "audit_published E (vd_workspace final) actor (vd_row final) dg
        (case filter ?A (ld_versions s) of [r] \<Rightarrow> Some (lv_id r) | _ \<Rightarrow> None) now x = (Inr (), t)"
      by (auto simp: publish_version_def returns Let_def)
    let ?g = "\<lambda>r. ?b df (?a r)"
    have u: "?u df = s\<lparr>ld_versions := map ?g (ld_versions s)\<rparr>" by (simp add: comp_def)
    have f: "vd_workspace final = ?w" "lv_id (vd_row final) = lv_id ?row"
      using final d unfolding u by (auto simp: find_detail_map archive_row_def publish_row_def)
    have la: "logged E (?u df) x"
      and ra: "\<forall>r\<in>set (filter ?A (ld_versions s)). event_recorded x ?w ''workflow_version.archived'' (lv_id r)"
      using archived_all_returns [OF _ _ arch] ok by (simp_all add: store_ok_def)
    have lp: "logged E x t" and rp: "event_recorded t ?w ''workflow_version.published'' (lv_id ?row)"
      using audit_published_returns [OF _ _ pub] logged_state(6) [OF la] ok by (simp_all add: store_ok_def f)
    note st = logged_state [OF logged_trans [OF la lp]]
    have step: "row_step E s t r (?g r)" if r: "r \<in> set (ld_versions s)" for r
    proof (cases "?A r")
      case True
      with ra r have "event_recorded x ?w ''workflow_version.archived'' (lv_id r)" by simp
      with logged_state(5) [OF lp] have "event_recorded t ?w ''workflow_version.archived'' (lv_id r)"
        by (blast intro: event_recorded_mono)
      moreover from True have "?g r = archive_row actor now r" by (simp add: archive_row_def)
      ultimately show ?thesis using True dr role by (simp only:) (auto intro: row_archive)
    next
      case na: False
      show ?thesis
      proof (cases "lv_id r = v \<and> lv_status r = Testing \<and> lv_revision r = expected")
        case True
        with same_row [of "ld_versions s" r ?row] ok r dr have "r = ?row" by (simp add: store_ok_def)
        with True na dr role w rp ready show ?thesis by (auto simp: ready_in_def intro: row_publish)
      next
        case False
        from na False have "?g r = r" by auto
        then show ?thesis by (simp only: row_same)
      qed
    qed
    show ?thesis
    proof (rule effect_map [where g = ?g])
      show "ld_versions t = map ?g (ld_versions s)" "indexes_ok (ld_versions t)" using st(1) ix by (simp_all add: comp_def)
      show "trail_grows E (ld_audit s) (ld_audit t)" using st(5) by simp
      show "workspace_of s w = Some q \<Longrightarrow> workspace_of t w = Some q" for w q
        using workspace_of_cong [of t s] st(2) by simp
    qed (rule step)
  qed
qed

lemma rename_workspaces:
  "workspace_of (s\<lparr>ld_workflows := map (\<lambda>r. if lw_id r = w then r\<lparr>lw_name := n, lw_description := d\<rparr> else r)
     (ld_workflows s)\<rparr>) = workspace_of s"
proof
  fix v
  show "workspace_of (s\<lparr>ld_workflows := map (\<lambda>r. if lw_id r = w then r\<lparr>lw_name := n, lw_description := d\<rparr> else r)
     (ld_workflows s)\<rparr>) v = workspace_of s v"
    by (cases "List.find (\<lambda>r. lw_id r = v) (ld_workflows s)")
      (auto simp: workspace_of_def find_workflow_def find_map_keys [where k = lw_id])
qed

lemma save_effect:
  assumes ok: "store_ok E s" and "update_draft E actor v expected input now s = (Inr a, t)"
  shows "effect E s t"
proof -
  from assms(2) obtain d0 where p: "save_draft E actor v expected d0 now s = (Inr a, t)"
    and d0: "parse_workflow d0 = Some d0"
    by (auto simp: update_draft_def returns definition_schema.reparse)
  let ?f = "\<lambda>r. r\<lparr>lv_definition := d0, lv_revision := lv_revision r + 1\<rparr>"
  let ?P = "\<lambda>r. lv_status r = Draft \<and> lv_revision r = expected"
  let ?u = "s\<lparr>ld_versions := map (\<lambda>r. if lv_id r = v \<and> ?P r then ?f r else r) (ld_versions s)\<rparr>"
  from p obtain d stored policy report detail x where d: "find_detail actor v s = Some d"
    and st: "ld_policy s (vd_workspace d) = Some stored" "parse_policy (le_url E) stored = Some policy"
      "analyze_publish_readiness (le_url E) (le_collate E) (le_zod E) d0 (Some policy) = Some report" "pb_ready report"
    and im: "workflow_id d0 = lv_workflow (vd_row d)" "wf_version d0 = lv_version (vd_row d)" "wf_status d0 = Draft"
    and ix: "indexes_ok (ld_versions ?u)"
    and x: "x = ?u\<lparr>ld_workflows := map (\<lambda>r. if lw_id r = lv_workflow (vd_row d)
        then r\<lparr>lw_name := wf_name d0, lw_description := wf_description d0\<rparr> else r) (ld_workflows s)\<rparr>"
    and log: "audit_draft_updated E actor detail now x = (Inr (), t)"
    by (auto simp: save_draft_def assert_immutable_fields_def read_draft_def returns bind_eq_Some_conv)
  have l: "logged E x t" using audit_draft_updated_returns [OF _ _ log] ok x by (simp add: store_ok_def)
  have "ready_in E s (vd_workspace d) d0" using st by (simp add: ready_in_def readiness_at_def)
  moreover have "workspace_of x = workspace_of s"
    using rename_workspaces [where s = ?u] workspace_of_cong [of ?u s] x by simp
  ultimately show ?thesis
    by (intro effect_update [where P = ?P and f = ?f, OF ok d _ _ _ _ l]) (use x ix d0 im detail_row [OF d] in \<open>auto intro: row_save\<close>)
qed

lemma audit_repair_returns:
  assumes "db_keeps E" "audit_reachable (le_host E) (le_db E) (ld_audit s)"
    and "audit_repair_applied E actor p c rq now s = (Inr u, t)"
  shows "logged E s t"
  using assms append_returns [OF assms(1,2)]
  by (auto simp: audit_repair_applied_def source_id_def of_sum_def returns)

lemma chosen_returns [returns]:
  "(case x of Inl _ \<Rightarrow> throw e | Inr d \<Rightarrow> ret d) s = (Inr a, t) \<longleftrightarrow> x = Inr a \<and> t = s"
  by (cases x) (auto simp: returns)

lemma repaired_returns:
  assumes "repaired_definition E p c stored s = (Inr d, t)"
  shows "t = s \<and> parse_workflow d = Some d \<and> (\<exists>w. parse_workflow stored = Some w \<and>
    workflow_id d = workflow_id w \<and> wf_version d = wf_version w \<and> wf_status d = wf_status w)"
proof -
  from assms obtain w patched where w: "parse_workflow stored = Some w"
    and p: "replace_workflow_step_locator w (rp_step_id p) (rc_locator c) = Some (Inr d)" and t: "t = s"
    by (auto simp: repaired_definition_def returns)
  from patch_keeps [OF p] definition_schema.reparse [OF w] w t show ?thesis by auto
qed

lemma repair_effect:
  assumes ok: "store_ok E s" and "apply_locator_repair E actor p rq now s = (Inr a, t)"
  shows "effect E s t"
proof (cases "rp_client_apply p = Some (rr_client rq)")
  case True
  with assms(2) have "t = s" by (auto simp: apply_locator_repair_def returns)
  with effect_same ok show ?thesis by (simp add: store_ok_def)
next
  case False
  with assms(2) obtain c where "apply_to_target E actor p c rq now s = (Inr a, t)"
    by (auto simp: apply_locator_repair_def returns)
  then obtain target d s' stored policy report where target: "List.find (\<lambda>r. lv_id r = rr_target rq) (ld_versions s) = Some target"
    and d: "repaired_definition E p c (lv_definition target) s = (Inr d, s')"
    and st: "ld_policy s' (rp_workspace p) = Some stored" "parse_policy (le_url E) stored = Some policy"
      "analyze_publish_readiness (le_url E) (le_collate E) (le_zod E) d (Some policy) = Some report" "pb_ready report"
    and ix: "indexes_ok (map (\<lambda>r. if lv_id r = lv_id target \<and> lv_status r = Draft \<and> lv_revision r = rr_revision rq
        then r\<lparr>lv_definition := d, lv_revision := lv_revision r + 1\<rparr> else r) (ld_versions s'))"
    and log: "audit_repair_applied E actor p c rq now
        (s'\<lparr>ld_versions := map (\<lambda>r. if lv_id r = lv_id target \<and> lv_status r = Draft \<and> lv_revision r = rr_revision rq
          then r\<lparr>lv_definition := d, lv_revision := lv_revision r + 1\<rparr> else r) (ld_versions s')\<rparr>) = (Inr (), t)"
    by (auto simp: apply_to_target_def returns bind_eq_Some_conv)
  from repaired_returns [OF d] obtain w where s: "s' = s" and n: "parse_workflow d = Some d"
    "parse_workflow (lv_definition target) = Some w" "workflow_id d = workflow_id w" "wf_version d = wf_version w"
    "wf_status d = wf_status w" by blast
  let ?P = "\<lambda>r. lv_status r = Draft \<and> lv_revision r = rr_revision rq"
  let ?f = "\<lambda>r. r\<lparr>lv_definition := d, lv_revision := lv_revision r + 1\<rparr>"
  let ?u = "s\<lparr>ld_versions := map (\<lambda>r. if lv_id r = lv_id target \<and> ?P r then ?f r else r) (ld_versions s)\<rparr>"
  have l: "logged E ?u t" using audit_repair_returns [OF _ _ log] ok by (simp add: store_ok_def s)
  have row: "target \<in> set (ld_versions s)" using find_Some_set [OF target] by blast
  have "ready_in E s (rp_workspace p) d" using st by (simp add: ready_in_def readiness_at_def s)
  then have "?P target \<Longrightarrow> row_step E s t target (?f target)" using row_repair [OF _ n(2,1,3-5)] by simp
  then show ?thesis
    by (intro effect_row [where P = ?P and f = ?f and u = ?u, OF ok row refl _ _ _ _ l])
      (use ix s in \<open>auto intro: workspace_of_cong\<close>)
qed

section \<open>Sound tables\<close>

text \<open>
  A row agrees with its definition in identifier and version; the definition says published where
  the row is published or archived, and draft where it is a draft or in testing; the row has the
  times its status calls for and descends from an older published or archived version of its workflow.
\<close>

definition row_sound :: "life_db \<Rightarrow> version_row \<Rightarrow> bool" where
  "row_sound s r \<longleftrightarrow>
     parse_workflow (lv_definition r) = Some (lv_definition r) \<and> workflow_id (lv_definition r) = lv_workflow r \<and>
     wf_version (lv_definition r) = lv_version r \<and>
     wf_status (lv_definition r) = (if lv_status r \<in> {Published, Archived} then Published else Draft) \<and>
     (lv_published_at r \<noteq> None \<longleftrightarrow> lv_status r \<in> {Published, Archived}) \<and>
     (lv_archived_at r \<noteq> None \<longleftrightarrow> lv_status r = Archived) \<and> 1 \<le> lv_revision r \<and>
     lv_schema_version r = WORKFLOW_SCHEMA_VERSION \<and> workspace_of s (lv_workflow r) \<noteq> None \<and>
     (\<forall>v. lv_created_from r = Some v \<longrightarrow>
        (\<exists>q\<in>set (ld_versions s). lv_id q = v \<and> lv_workflow q = lv_workflow r \<and> lv_version q < lv_version r \<and>
           lv_status q \<in> {Published, Archived}))"

definition life_sound :: "life_db \<Rightarrow> bool" where
  "life_sound s \<longleftrightarrow> indexes_ok (ld_versions s) \<and> (\<forall>r\<in>set (ld_versions s). version_stored s r)"

text \<open>What a step never changes of a row.\<close>

lemma row_step_keeps:
  "row_step E s t r q \<Longrightarrow>
     lv_id q = lv_id r \<and> lv_workflow q = lv_workflow r \<and> lv_version q = lv_version r \<and>
     lv_created_from q = lv_created_from r \<and> lv_revision r \<le> lv_revision q \<and>
     (lv_status r \<in> {Published, Archived} \<longrightarrow> lv_status q \<in> {Published, Archived})"
  by (erule row_step.cases) (auto simp: publish_row_def archive_row_def)

lemma step_image:
  assumes "list_all2 (row_step E s t) (ld_versions s) rs" "r \<in> set (ld_versions s)"
  shows "\<exists>q\<in>set rs. row_step E s t r q"
  using assms by (induction rule: list_all2_induct) auto

lemma step_origin:
  assumes "list_all2 (row_step E s t) (ld_versions s) rs" "q \<in> set rs"
  shows "\<exists>r\<in>set (ld_versions s). row_step E s t r q"
  using assms by (induction rule: list_all2_induct) auto

lemma parent_kept:
  assumes e: "versions_step E s t"
    and q: "\<exists>q\<in>set (ld_versions s). lv_id q = v \<and> lv_workflow q = w \<and> lv_version q < n \<and> lv_status q \<in> {Published, Archived}"
  shows "\<exists>q\<in>set (ld_versions t). lv_id q = v \<and> lv_workflow q = w \<and> lv_version q < n \<and> lv_status q \<in> {Published, Archived}"
proof -
  from e obtain rs new where rs: "list_all2 (row_step E s t) (ld_versions s) rs" "ld_versions t = rs @ new"
    by (auto simp: versions_step_def)
  from q obtain q where q: "q \<in> set (ld_versions s)" "lv_id q = v" "lv_workflow q = w" "lv_version q < n"
    "lv_status q \<in> {Published, Archived}" by blast
  from step_image [OF rs(1) q(1)] obtain q' where "q' \<in> set rs" "row_step E s t q q'" by blast
  with q rs(2) row_step_keeps [of E s t q q'] show ?thesis by (intro bexI [of _ q']) auto
qed

lemma republish:
  "parse_workflow w = Some w \<Longrightarrow> parse_workflow (w\<lparr>wf_status := Published\<rparr>) = Some (w\<lparr>wf_status := Published\<rparr>)"
  by (cases w) (auto simp: parse_workflow_def Let_def duplicate_step_ids_def duplicate_variable_names_def
      split: bind_splits if_splits)

lemma found_workspace: "find_workflow s w \<noteq> None \<longleftrightarrow> workspace_of s w \<noteq> None"
  by (simp add: workspace_of_def)

lemma row_step_stored:
  assumes e: "effect E s t" and st: "row_step E s t r q" and r: "version_stored s r"
  shows "version_stored t q"
proof -
  have base: "version_stored t r"
    using r e unfolding version_stored_def found_workspace effect_def by fastforce
  from st show ?thesis
  proof cases
    case (row_publish workspace actor role w d occurred)
    with base have "w = lv_definition r" "d = w\<lparr>wf_status := Published\<rparr>"
      using republish [of "lv_definition r"] by (auto simp: version_stored_def)
    with row_publish base show ?thesis by (auto simp: version_stored_def publish_row_def)
  qed (use base in \<open>auto simp: version_stored_def archive_row_def\<close>)
qed

lemma fresh_stored: "fresh_row s t r \<Longrightarrow> version_stored t r"
  unfolding fresh_row_def version_stored_def found_workspace by blast

lemma effect_sound:
  assumes e: "effect E s t" and s: "life_sound s"
  shows "life_sound t"
proof -
  from e obtain rs new where rs: "list_all2 (row_step E s t) (ld_versions s) rs" "ld_versions t = rs @ new"
    and new: "\<forall>r\<in>set new. fresh_row s t r"
    by (auto simp: effect_def versions_step_def)
  have "version_stored t q" if "q \<in> set rs" for q
    using step_origin [OF rs(1) that] row_step_stored [OF e] s by (auto simp: life_sound_def)
  with new fresh_stored rs(2) e s show ?thesis by (auto simp: life_sound_def effect_def)
qed

lemma row_step_sound:
  assumes e: "effect E s t" and st: "row_step E s t r q" and r: "row_sound s r"
  shows "row_sound t q"
proof -
  from e have v: "versions_step E s t" and ws: "\<And>w. workspace_of s w \<noteq> None \<Longrightarrow> workspace_of t w \<noteq> None"
    by (force simp: effect_def)+
  have base: "row_sound t r"
    using r ws parent_kept [OF v] unfolding row_sound_def by blast
  from st show ?thesis
  proof cases
    case (row_publish workspace actor role w d occurred)
    with base have "w = lv_definition r" "d = w\<lparr>wf_status := Published\<rparr>"
      using republish [of "lv_definition r"] by (auto simp: row_sound_def)
    with row_publish base show ?thesis by (auto simp: row_sound_def publish_row_def)
  qed (use base in \<open>auto simp: row_sound_def archive_row_def\<close>)
qed

lemma fresh_sound:
  assumes "effect E s t" "fresh_row s t r" shows "row_sound t r"
proof -
  have v: "versions_step E s t" using assms(1) by (simp add: effect_def)
  have "\<forall>p. lv_created_from r = Some p \<longrightarrow> (\<exists>q\<in>set (ld_versions t). lv_id q = p \<and>
      lv_workflow q = lv_workflow r \<and> lv_version q < lv_version r \<and> lv_status q \<in> {Published, Archived})"
    using assms(2) parent_kept [OF v] unfolding fresh_row_def by blast
  with assms(2) show ?thesis by (auto simp: fresh_row_def row_sound_def)
qed

section \<open>New versions\<close>

lemma effect_insert:
  assumes "trail_grows E (ld_audit s) (ld_audit t)" "ld_versions t = ld_versions s @ [r]" "fresh_row s t r"
    "indexes_ok (ld_versions t)" "\<And>w p. workspace_of s w = Some p \<Longrightarrow> workspace_of t w = Some p"
  shows "effect E s t"
proof -
  have "list_all2 (row_step E s t) (ld_versions s) (ld_versions s)" by (simp add: list_all2_same row_same)
  then have "versions_step E s t"
    unfolding versions_step_def by (intro exI [of _ "ld_versions s"] exI [of _ "[r]"]) (simp add: assms(2,3))
  with assms show ?thesis by (simp add: effect_def)
qed

lemma find_append: "List.find P (xs @ ys) = (case List.find P xs of None \<Rightarrow> List.find P ys | Some x \<Rightarrow> Some x)"
  by (induction xs) auto

lemma convert_effect:
  assumes ok: "store_ok E s" and "insert_converted_draft E workspace input now s = (Inr a, t)"
  shows "effect E s t"
proof -
  from assms(2) obtain d where d: "parse_workflow input = Some d" "wf_version d = 1" "wf_status d = Draft"
    and fresh: "find_workflow s (workflow_id d) = None"
    and ix: "indexes_ok (ld_versions s @ [new_version_row E (ld_versions s) d None None now])"
    and t: "t = s\<lparr>ld_workflows := ld_workflows s @ [\<lparr>lw_id = workflow_id d, lw_workspace = workspace,
        lw_name = wf_name d, lw_description = wf_description d\<rparr>],
      ld_versions := ld_versions s @ [new_version_row E (ld_versions s) d None None now]\<rparr>"
    by (auto simp: insert_converted_draft_def returns)
  have "workspace_of t w = (case workspace_of s w of Some p \<Rightarrow> Some p
      | None \<Rightarrow> if w = workflow_id d then Some workspace else None)" for w
    by (auto simp: t workspace_of_def find_workflow_def find_append split: option.splits)
  then show ?thesis
    using ok ix fresh d definition_schema.reparse [OF d(1)]
    by (intro effect_insert [where r = "new_version_row E (ld_versions s) d None None now"])
      (auto simp: t trail_refl store_ok_def fresh_row_def new_version_row_def workspace_of_def)
qed

lemma next_version_greater:
  assumes "r \<in> set vs" "lv_workflow r = w" shows "lv_version r < next_version vs w"
proof -
  have m: "n \<le> fold max xs (n :: int) \<and> (\<forall>x\<in>set xs. x \<le> fold max xs n)" for xs n
  proof (induction xs arbitrary: n)
    case (Cons x xs)
    from Cons.IH [of "max x n"] show ?case by auto
  qed simp
  have "lv_version r \<in> set (map lv_version (filter (\<lambda>r. lv_workflow r = w) vs))" using assms by auto
  with m [of 0 "map lv_version (filter (\<lambda>r. lv_workflow r = w) vs)"] show ?thesis by (auto simp: next_version_def)
qed

lemma create_effect:
  assumes ok: "store_ok E s" and sound: "life_sound s"
    and "create_draft_version E actor w v client created s = (Inr a, t)"
  shows "effect E s t"
proof (cases "List.find (\<lambda>r. lv_workflow r = w \<and> lv_client_id r = Some client) (ld_versions s)")
  case (Some r)
  with assms(3) have "t = s" by (auto simp: create_draft_version_def returns)
  with effect_same ok show ?thesis by (simp add: store_ok_def)
next
  case None
  with assms(3) obtain now where c: "clone_source E actor w v client now s = (Inr a, t)"
    by (auto simp: create_draft_version_def returns)
  then obtain source src cl where
    source: "List.find (\<lambda>r. lv_id r = v \<and> lv_workflow r = w) (ld_versions s) = Some source"
      "lv_status source \<in> {Published, Archived}" "parse_workflow (lv_definition source) = Some src"
    and cl: "create_draft_version_clone (datetime_ok (le_host E))
      \<lparr>cl_definition = src, cl_status = lv_status source, cl_next_version = next_version (ld_versions s) w,
       cl_created_at = to_iso_string now\<rparr> = Some cl"
    by (auto simp: clone_source_def returns)
  from c source cl obtain d m where "cl = Inr (d, m)" by (cases cl) (auto simp: clone_source_def returns)
  let ?n = "next_version (ld_versions s) w"
  have again: "parse_workflow src = Some src" using definition_schema.reparse source(3) by blast
  have src: "source \<in> set (ld_versions s)" "lv_id source = v" "lv_workflow source = w"
    using find_Some_set [OF source(1)] by auto
  have "lv_definition source = src" using sound src(1) source(3) by (auto simp: life_sound_def version_stored_def)
  with sound src have id: "workflow_id src = w" by (auto simp: life_sound_def version_stored_def)
  from cl \<open>cl = Inr (d, m)\<close> again have "0 < ?n" and d: "d = src\<lparr>wf_version := ?n, wf_status := Draft\<rparr>"
    and m: "dm_version m = ?n" "dm_revision m = 1"
    using reclone [OF again, of ?n] by (auto simp: create_draft_version_clone_def split: if_splits)
  let ?r = "(new_version_row E (ld_versions s) d (Some v) (Some client) now)
    \<lparr>lv_workflow := w, lv_version := dm_version m, lv_revision := int (dm_revision m)\<rparr>"
  let ?u = "s\<lparr>ld_versions := ld_versions s @ [?r]\<rparr>"
  from c source cl \<open>cl = Inr (d, m)\<close> obtain workspace x where ix: "indexes_ok (ld_versions s @ [?r])"
    and found: "find_workflow s w \<noteq> None"
    and x: "x = ?u\<lparr>ld_workflows := map (\<lambda>r. if lw_id r = w
        then r\<lparr>lw_name := wf_name d, lw_description := wf_description d\<rparr> else r) (ld_workflows s)\<rparr>"
    and log: "audit_created E workspace actor ?r v client now x = (Inr (), t)"
    by (auto simp: clone_source_def returns Let_def find_workflow_def)
  have "logged E x t" using audit_created_returns [OF _ _ log] ok x by (simp add: store_ok_def)
  note st = logged_state [OF this]
  have ws: "workspace_of t = workspace_of s"
    using workspace_of_cong [OF st(2)] rename_workspaces [where s = ?u] workspace_of_cong [of ?u s] x by simp
  have "fresh_row s t ?r"
    using reclone [OF again \<open>0 < ?n\<close>] found src source(2) next_version_greater [OF src(1,3)] id
    by (auto simp: fresh_row_def new_version_row_def d m ws workspace_of_def intro!: bexI [of _ source])
  then show ?thesis
    by (intro effect_insert [where r = ?r]) (use st x ix ws in auto)
qed

section \<open>Direct insertions\<close>

text \<open>\<open>WorkflowVersionRepository\<close> keeps a stored database stored, so histories may start after it.\<close>

lemma upsert_returns [returns]:
  "upsert_workflow workspace d s = (Inr u, t) \<longleftrightarrow>
     (if find_workflow s (workflow_id d) = None
      then t = s\<lparr>ld_workflows := ld_workflows s @ [\<lparr>lw_id = workflow_id d, lw_workspace = workspace,
        lw_name = wf_name d, lw_description = wf_description d\<rparr>]\<rparr>
      else update_workflow_name (workflow_id d) d s = (Inr u, t))"
  by (auto simp: upsert_workflow_def returns)

lemma direct_insertion_stored:
  assumes s: "stored_db E s" and "create_persisted_version E workspace input now s = (Inr u, t)"
  shows "stored_db E t"
proof -
  from assms(2) obtain d x where d: "parse_workflow input = Some d"
    and x: "upsert_workflow workspace d s = (Inr (), x)"
    and t: "t = x\<lparr>ld_versions := ld_versions x @ [(new_version_row E (ld_versions x) d None None now)\<lparr>lv_status := wf_status d\<rparr>]\<rparr>"
    and ix: "indexes_ok (ld_versions t)"
    by (auto simp: create_persisted_version_def returns simp del: upsert_returns)
  have same: "ld_versions x = ld_versions s" "ld_audit x = ld_audit s" using x by (auto simp: returns split: if_splits)
  have found: "find_workflow x w \<noteq> None" if "find_workflow s w \<noteq> None \<or> w = workflow_id d" for w
  proof (cases "find_workflow s (workflow_id d) = None")
    case True
    with x that show ?thesis by (auto simp: returns find_workflow_def find_append split: option.splits)
  next
    case False
    with x that show ?thesis
      by (auto simp: returns find_workflow_def find_map_keys [where k = lw_id])
  qed
  have "find_workflow t = find_workflow x" by (simp add: t find_workflow_def fun_eq_iff)
  then have "version_stored t r" if "r \<in> set (ld_versions t)" for r
    using that s found definition_schema.reparse [OF d]
    by (auto simp: t same version_stored_def stored_db_def new_version_row_def)
  with s ix same show ?thesis by (simp add: stored_db_def t)
qed

text \<open>A definition that says published becomes a published version without times and without an event.\<close>

lemma direct_insertion_publishes:
  assumes "create_persisted_version E workspace input now s = (Inr u, t)" and "parse_workflow input = Some d"
  shows "\<exists>r\<in>set (ld_versions t). lv_workflow r = workflow_id d \<and> lv_version r = wf_version d \<and> lv_status r = wf_status d \<and>
    lv_published_at r = None \<and> ld_audit t = ld_audit s"
  using assms by (auto simp: create_persisted_version_def returns new_version_row_def split: if_splits)

end
