(* ===== verification/Lifecycle_History.thy ===== *)
theory Lifecycle_History
  imports Lifecycle_Spec
begin

text \<open>
  Histories of the version table: what every reachable database satisfies, what later
  transactions keep of a version, and what the trail records of it.
\<close>

section \<open>Steps\<close>

lemma ignore_returns [returns]: "ignore m s = (Inr u, t) \<longleftrightarrow> (\<exists>a. m s = (Inr a, t))"
  by (auto simp: ignore_def returns)

lemma call_effect:
  "store_ok E s \<Longrightarrow> life_sound s \<Longrightarrow> run_call E c s = (Inr u, t) \<Longrightarrow> effect E s t"
  by (cases c) (auto simp: returns dest: convert_effect submit_effect return_effect publish_effect archive_effect
      create_effect save_effect repair_effect)

lemma transaction_cases: "transaction m s = (r, t) \<Longrightarrow> t = s \<or> (\<exists>a. m s = (Inr a, t))"
  by (auto simp: transaction_def split: prod.splits sum.splits)

lemma effect_versions_same:
  assumes "trail_grows E (ld_audit s) (ld_audit t)" "ld_versions t = ld_versions s" "ld_workflows t = ld_workflows s"
    "indexes_ok (ld_versions s)"
  shows "effect E s t"
  by (rule effect_map [where g = id])
    (use assms workspace_of_cong [OF assms(3)] in \<open>simp_all add: row_same\<close>)

lemma events_of_new_head [simp]: "db_events_of (create_chain_head w now a) = db_events_of a"
  by (simp add: db_events_of_def workspace_rows_def create_chain_head_def fun_eq_iff)

lemma step_effect:
  assumes "life_step E s t" "store_ok E s" "life_sound s" shows "effect E s t"
  using assms(1)
proof cases
  case (step_call c r)
  from transaction_cases [OF this] call_effect [OF assms(2,3)] effect_same assms(2) show ?thesis
    by (auto simp: store_ok_def)
next
  case (step_workspace w now)
  then show ?thesis
    using assms(2) by (intro effect_versions_same) (auto simp: trail_grows_def store_ok_def intro: reach_workspace)
next
  case (step_event i r)
  from transaction_cases [OF this] show ?thesis
  proof
    assume "t = s"
    with effect_same assms(2) show ?thesis by (simp add: store_ok_def)
  next
    assume "\<exists>a. append_version_event E i s = (Inr a, t)"
    with append_returns assms(2) have "logged E s t" unfolding store_ok_def by blast
    from logged_state [OF this] assms(2) show ?thesis by (intro effect_versions_same) (simp_all add: store_ok_def)
  qed
next
  case (step_members members)
  with assms(2) show ?thesis by (intro effect_versions_same) (simp_all add: store_ok_def trail_refl)
next
  case (step_policies policies)
  with assms(2) show ?thesis by (intro effect_versions_same) (simp_all add: store_ok_def trail_refl)
qed

section \<open>The invariant\<close>

definition life_inv :: "life_env \<Rightarrow> life_db \<Rightarrow> bool" where
  "life_inv E s \<longleftrightarrow> store_ok E s \<and> life_sound s"

lemma inv_step:
  assumes "life_inv E s" "life_step E s t" shows "life_inv E t \<and> effect E s t"
proof -
  have e: "effect E s t" using step_effect assms by (simp add: life_inv_def)
  with assms(1) effect_sound [OF e] show ?thesis
    by (auto simp: life_inv_def store_ok_def effect_def trail_grows_def life_sound_def)
qed

lemma reachable_life_inv:
  assumes "life_reachable E s" "db_keeps E" shows "life_inv E s"
  using assms(1)
proof induction
  case (life_start s)
  then show ?case using assms(2) by (simp add: stored_db_def life_inv_def store_ok_def life_sound_def)
next
  case (life_next s t)
  with inv_step show ?case by blast
qed

lemma inv_stored: "life_inv E s \<Longrightarrow> stored_db E s"
  by (simp add: stored_db_def life_inv_def store_ok_def life_sound_def)

lemma empty_stored: "stored_db E empty_life"
  by (simp add: stored_db_def empty_life_def indexes_ok_def client_keys_def published_workflows_def reach_empty)

lemma inv_steps: "(life_step E)\<^sup>*\<^sup>* s t \<Longrightarrow> life_inv E s \<Longrightarrow> life_inv E t"
  by (induction rule: rtranclp_induct) (use inv_step in blast)+

text \<open>What the steps keep of a row.\<close>

definition row_later :: "version_row \<Rightarrow> version_row \<Rightarrow> bool" where
  "row_later r q \<longleftrightarrow>
     lv_id q = lv_id r \<and> lv_workflow q = lv_workflow r \<and> lv_version q = lv_version r \<and>
     lv_created_from q = lv_created_from r \<and> lv_revision r \<le> lv_revision q \<and>
     (lv_status r \<in> {Published, Archived} \<longrightarrow>
        lv_status q \<in> {lv_status r, Archived} \<and> lv_definition q = lv_definition r \<and> lv_revision q = lv_revision r \<and>
        lv_published_at q = lv_published_at r \<and> lv_published_by q = lv_published_by r)"

lemma row_step_later: "row_step E s t r q \<Longrightarrow> row_later r q"
  by (erule row_step.cases) (auto simp: row_later_def publish_row_def archive_row_def)

lemma row_later_trans: "row_later r q \<Longrightarrow> row_later q p \<Longrightarrow> row_later r p"
  by (auto simp: row_later_def)

lemma effect_later:
  assumes "effect E s t" "r \<in> set (ld_versions s)" shows "\<exists>q\<in>set (ld_versions t). row_later r q"
proof -
  from assms(1) obtain rs new where rs: "list_all2 (row_step E s t) (ld_versions s) rs" "ld_versions t = rs @ new"
    by (auto simp: effect_def versions_step_def)
  from step_image [OF rs(1) assms(2)] rs(2) row_step_later show ?thesis by fastforce
qed

lemma steps_later:
  "(life_step E)\<^sup>*\<^sup>* s t \<Longrightarrow> life_inv E s \<Longrightarrow> r \<in> set (ld_versions s) \<Longrightarrow> \<exists>q\<in>set (ld_versions t). row_later r q"
proof (induction rule: rtranclp_induct)
  case base
  then show ?case by (auto simp: row_later_def)
next
  case (step t u)
  then obtain q where q: "q \<in> set (ld_versions t)" "row_later r q" by blast
  have "effect E t u" using inv_step inv_steps [OF step.hyps(1)] step.hyps(2) step.prems(1) by blast
  from effect_later [OF this q(1)] row_later_trans [OF q(2)] show ?case by blast
qed

section \<open>What a history makes of its versions\<close>

text \<open>A version stays sound, and a version the history has added is sound.\<close>

lemma steps_sound:
  "(life_step E)\<^sup>*\<^sup>* s t \<Longrightarrow> life_inv E s \<Longrightarrow> r \<in> set (ld_versions t) \<Longrightarrow>
     \<forall>q\<in>set (ld_versions s). lv_id q = lv_id r \<longrightarrow> row_sound s q \<Longrightarrow> row_sound t r"
proof (induction arbitrary: r rule: rtranclp_induct)
  case (step t u)
  have e: "effect E t u" using inv_step inv_steps [OF step.hyps(1)] step.hyps(2) step.prems(1) by blast
  then obtain rs new where rs: "list_all2 (row_step E t u) (ld_versions t) rs" "ld_versions u = rs @ new"
    and new: "\<forall>r\<in>set new. fresh_row t u r" by (auto simp: effect_def versions_step_def)
  show ?case
  proof (cases "r \<in> set rs")
    case True
    from step_origin [OF rs(1) True] obtain q where q: "q \<in> set (ld_versions t)" "row_step E t u q r" by blast
    have "row_sound t q" using step.IH [OF step.prems(1) q(1)] step.prems(3) row_step_keeps [OF q(2)] by simp
    with row_step_sound [OF e q(2)] show ?thesis .
  qed (use step.prems(2) rs(2) new fresh_sound [OF e] in auto)
qed simp

text \<open>What becomes published, or archived, in a history is in the trail of its workspace.\<close>

definition published_since :: "life_db \<Rightarrow> version_row \<Rightarrow> bool" where
  "published_since s r \<longleftrightarrow> lv_status r \<in> {Published, Archived} \<and>
     (\<forall>q\<in>set (ld_versions s). lv_id q = lv_id r \<longrightarrow> lv_status q \<notin> {Published, Archived})"

definition archived_since :: "life_db \<Rightarrow> version_row \<Rightarrow> bool" where
  "archived_since s r \<longleftrightarrow> lv_status r = Archived \<and>
     (\<forall>q\<in>set (ld_versions s). lv_id q = lv_id r \<longrightarrow> lv_status q \<noteq> Archived)"

lemma steps_audited:
  "(life_step E)\<^sup>*\<^sup>* s t \<Longrightarrow> life_inv E s \<Longrightarrow> r \<in> set (ld_versions t) \<Longrightarrow>
     workspace_of t (lv_workflow r) = Some p \<Longrightarrow>
     (published_since s r \<longrightarrow> event_recorded t p ''workflow_version.published'' (lv_id r)) \<and>
     (archived_since s r \<longrightarrow> event_recorded t p ''workflow_version.archived'' (lv_id r))"
proof (induction arbitrary: r rule: rtranclp_induct)
  case base
  then show ?case by (auto simp: published_since_def archived_since_def)
next
  case (step t u)
  note it = inv_steps [OF step.hyps(1) step.prems(1)]
  have e: "effect E t u" using inv_step it step.hyps(2) by blast
  then obtain rs new where rs: "list_all2 (row_step E t u) (ld_versions t) rs" "ld_versions u = rs @ new"
    and new: "\<forall>r\<in>set new. fresh_row t u r" and g: "trail_grows E (ld_audit t) (ld_audit u)"
    and ws: "\<And>w p. workspace_of t w = Some p \<Longrightarrow> workspace_of u w = Some p"
    by (auto simp: effect_def versions_step_def)
  show ?case
  proof (cases "r \<in> set rs")
    case True
    from step_origin [OF rs(1) True] obtain q where q: "q \<in> set (ld_versions t)" "row_step E t u q r" by blast
    note keeps = row_step_keeps [OF q(2)]
    from it q(1) obtain p' where p': "workspace_of t (lv_workflow q) = Some p'"
      using found_workspace by (auto simp: life_inv_def life_sound_def version_stored_def)
    with ws [OF this] step.prems(3) keeps have "p' = p" by simp
    note IH = step.IH [OF step.prems(1) q(1) p' [unfolded this]]
    from IH have old: "published_since s q \<Longrightarrow> event_recorded u p ''workflow_version.published'' (lv_id r)"
      "archived_since s q \<Longrightarrow> event_recorded u p ''workflow_version.archived'' (lv_id r)"
      using event_recorded_mono [OF _ g] keeps by auto
    have ids: "lv_id q = lv_id r" using keeps by simp
    from q(2) show ?thesis
    proof cases
      case (row_publish workspace actor role w d occurred)
      with p' \<open>p' = p\<close> show ?thesis by (auto simp: archived_since_def publish_row_def)
    next
      case (row_archive workspace actor role occurred)
      with p' \<open>p' = p\<close> old(1) show ?thesis by (auto simp: published_since_def archive_row_def)
    qed (use old in \<open>auto simp: published_since_def archived_since_def\<close>)
  qed (use step.prems(2) rs(2) new in \<open>auto simp: fresh_row_def published_since_def archived_since_def\<close>)
qed

section \<open>Retries\<close>

text \<open>
  A retried transaction commits at most once, on the database it finds at some attempt, and a
  conflict that others retry is never its answer.
\<close>

lemma serializable_outcome:
  "serializable_attempts retry give_up conflict m k s = (r, t) \<Longrightarrow>
     \<exists>u. (u = s \<or> (\<exists>n. conflict n = Some u)) \<and>
       (case r of Inr a \<Rightarrow> transaction m u = (Inr a, t) | Inl x \<Rightarrow> t = u \<and> (x = give_up \<or> \<not> retry x))"
proof (induction k arbitrary: s)
  case 0
  then show ?case by auto
next
  case (Suc k)
  define o1 where "o1 = (case conflict (MAX_SERIALIZABLE_ATTEMPTS - k) of
    Some u \<Rightarrow> (Inl SerializationConflict, u) | None \<Rightarrow> transaction m s)"
  obtain q u where q: "o1 = (q, u)" by (cases o1)
  have "q = Inl x \<Longrightarrow> u = s \<or> (\<exists>n. conflict n = Some u)" for x
    using q unfolding o1_def by (auto simp: transaction_def split: option.splits prod.splits sum.splits)
  moreover have "q = Inr a \<Longrightarrow> transaction m s = (Inr a, u)" for a
    using q unfolding o1_def by (simp split: option.splits)
  moreover have "serializable_attempts retry give_up conflict m (Suc k) s = (case q of
      Inl x \<Rightarrow> if retry x then serializable_attempts retry give_up conflict m k u else (Inl x, u) | Inr a \<Rightarrow> (Inr a, u))"
    using q unfolding o1_def by simp
  ultimately show ?case using Suc.prems Suc.IH [of u] by (cases q) (auto split: if_splits)
qed

text \<open>So what retried calls leave behind is what histories of committed transactions leave.\<close>

lemma retried_calls_are_steps:
  assumes "run_serializable conflict (run_call E c) s = (r, t) \<or> run_serializable_draft conflict (run_call E c) s = (r, t)"
    and "life_reachable E s" and "\<forall>n u. conflict n = Some u \<longrightarrow> life_reachable E u"
  shows "life_reachable E t"
proof -
  have "\<exists>u. (u = s \<or> (\<exists>n. conflict n = Some u)) \<and>
      (case r of Inr a \<Rightarrow> transaction (run_call E c) u = (Inr a, t) | Inl x \<Rightarrow> t = u)"
    using assms(1) unfolding run_serializable_def run_serializable_draft_def
    by (elim disjE) (drule serializable_outcome, erule exE, rule exI, simp split: sum.splits)+
  then obtain u where u: "u = s \<or> (\<exists>n. conflict n = Some u)"
    "case r of Inr a \<Rightarrow> transaction (run_call E c) u = (Inr a, t) | Inl x \<Rightarrow> t = u" by blast
  with assms(2,3) have "life_reachable E u" by blast
  with u(2) show ?thesis by (auto split: sum.splits intro: life_next step_call)
qed

end
