(* ===== verification/Lifecycle_Properties.thy ===== *)
theory Lifecycle_Properties
  imports Lifecycle_History
begin

text \<open>
  What the version lifecycle guarantees, over every history of committed transactions, and the
  action it leaves out of the trail. The examples follow one workflow through its life.
\<close>

section \<open>Properties\<close>

lemma call_step: "run_call E c s = (Inr (), t) \<Longrightarrow> life_step E s t"
  by (rule step_call [of E c s "Inr ()"]) (simp add: transaction_def)

lemma two_rows:
  "indexes_ok vs \<Longrightarrow> r \<in> set vs \<Longrightarrow> q \<in> set vs \<Longrightarrow> lv_workflow r = lv_workflow q \<Longrightarrow>
     lv_status r = Published \<Longrightarrow> lv_status q = Published \<Longrightarrow> r = q"
  by (auto simp: indexes_ok_def published_workflows_def distinct_map inj_on_def)

text \<open>
  C21: histories keep versions sound. Whatever a database stored before, the versions a history
  adds, and those that were sound when it began, agree with their definitions in identifier and
  number, with the status in the definition published where the version is published or archived
  and draft otherwise; they are published or archived exactly when they have the times of that
  status and descend from an older published or archived version of their workflow if from any;
  and no workflow has two published versions. Versions of which that did not hold when the history
  began (published before versions had times, or inserted by WorkflowVersionRepository) still have
  the definition of their identifier and number.
\<close>

theorem reachable_versions_are_sound:
  assumes "life_reachable E s" and "\<forall>v. canonical (db_jsonb (le_db E) v) = canonical v"
    and "(life_step E)\<^sup>*\<^sup>* s t" and "r \<in> set (ld_versions t)"
  shows "((\<forall>q\<in>set (ld_versions s). lv_id q = lv_id r \<longrightarrow> row_sound s q) \<longrightarrow> row_sound t r) \<and>
    version_stored t r \<and>
    (\<forall>q\<in>set (ld_versions t). lv_workflow q = lv_workflow r \<longrightarrow> lv_status q = Published \<longrightarrow>
       lv_status r = Published \<longrightarrow> q = r)"
  using steps_sound [OF assms(3) reachable_life_inv [OF assms(1,2)] assms(4)]
    inv_steps [OF assms(3) reachable_life_inv [OF assms(1,2)]] assms(4) two_rows
  by (auto simp: life_inv_def life_sound_def)

text \<open>
  C20: a published or archived version stays as it was published, whatever transactions follow:
  it is never deleted, its definition, number, revision and publication stay, and it is
  published or archived for good.
\<close>

theorem published_versions_are_frozen:
  assumes "life_reachable E s" and "\<forall>v. canonical (db_jsonb (le_db E) v) = canonical v"
    and "(life_step E)\<^sup>*\<^sup>* s t" and "r \<in> set (ld_versions s)" and "lv_status r \<in> {Published, Archived}"
  shows "\<exists>q\<in>set (ld_versions t). lv_id q = lv_id r \<and> lv_workflow q = lv_workflow r \<and>
    lv_version q = lv_version r \<and> lv_revision q = lv_revision r \<and> lv_definition q = lv_definition r \<and>
    lv_published_at q = lv_published_at r \<and> lv_published_by q = lv_published_by r \<and>
    lv_status q \<in> {lv_status r, Archived}"
  using steps_later [OF assms(3) reachable_life_inv [OF assms(1,2)] assms(4)] assms(5)
  by (auto simp: row_later_def)

text \<open>
  C19: a version becomes published only from testing, by an owner or administrator of the
  organization, with the definition it was tested with, and only when the readiness report under
  the active policy of the workspace lets that definition through.
\<close>

theorem only_ready_versions_are_published:
  assumes "life_reachable E s" and "\<forall>v. canonical (db_jsonb (le_db E) v) = canonical v"
    and "life_step E s t" and "q \<in> set (ld_versions t)" and "lv_status q = Published"
    and "\<forall>r\<in>set (ld_versions s). lv_id r = lv_id q \<longrightarrow> lv_status r \<noteq> Published"
  shows "\<exists>r\<in>set (ld_versions s). \<exists>workspace actor role.
    lv_id r = lv_id q \<and> lv_status r = Testing \<and> lv_definition q = (lv_definition r)\<lparr>wf_status := Published\<rparr> \<and>
    workspace_of s (lv_workflow r) = Some workspace \<and> ld_member s workspace actor = Some role \<and>
    role \<in> {RoleOwner, RoleAdmin} \<and> lv_published_by q = Some actor \<and>
    ready_in E s workspace (lv_definition r)"
proof -
  note inv = reachable_life_inv [OF assms(1,2)]
  from inv_step [OF inv assms(3)] have "effect E s t" by simp
  then obtain rs new where rs: "list_all2 (row_step E s t) (ld_versions s) rs" "ld_versions t = rs @ new"
    and new: "\<forall>r\<in>set new. fresh_row s t r" by (auto simp: effect_def versions_step_def)
  from assms(4,5) rs(2) new have "q \<in> set rs" by (auto simp: fresh_row_def)
  from step_origin [OF rs(1) this] obtain r where r: "r \<in> set (ld_versions s)" "row_step E s t r q" by blast
  with assms(6) row_step_keeps [OF r(2)] have n: "lv_status r \<noteq> Published" by simp
  from inv r(1) have d: "parse_workflow (lv_definition r) = Some (lv_definition r)"
    by (auto simp: life_inv_def life_sound_def version_stored_def)
  from r(2) show ?thesis
  proof cases
    case (row_publish workspace actor role w d' occurred)
    with d republish [OF d] have "d' = (lv_definition r)\<lparr>wf_status := Published\<rparr>" by simp
    with row_publish r(1) show ?thesis
      by (intro bexI [of _ r] exI [of _ workspace] exI [of _ actor] exI [of _ role])
        (simp_all add: publish_row_def is_publisher_def)
  qed (use assms(5) n in \<open>auto simp: archive_row_def\<close>)
qed

text \<open>
  C22: what a history publishes or archives is in the trail: a version that is published or
  archived and was neither when the history began has its publication in the trail of its
  workspace, and one that is archived and was not then has its archival. Versions that were
  published or archived before, when there was no trail or by WorkflowVersionRepository, are not
  claimed to have an event.
\<close>

theorem publications_are_audited:
  assumes "life_reachable E s" and "\<forall>v. canonical (db_jsonb (le_db E) v) = canonical v"
    and "(life_step E)\<^sup>*\<^sup>* s t" and "r \<in> set (ld_versions t)" and "workspace_of t (lv_workflow r) = Some workspace"
  shows "(lv_status r \<in> {Published, Archived} \<longrightarrow>
      (\<forall>q\<in>set (ld_versions s). lv_id q = lv_id r \<longrightarrow> lv_status q \<notin> {Published, Archived}) \<longrightarrow>
      event_recorded t workspace ''workflow_version.published'' (lv_id r)) \<and>
    (lv_status r = Archived \<longrightarrow> (\<forall>q\<in>set (ld_versions s). lv_id q = lv_id r \<longrightarrow> lv_status q \<noteq> Archived) \<longrightarrow>
      event_recorded t workspace ''workflow_version.archived'' (lv_id r))"
  using steps_audited [OF assms(3) reachable_life_inv [OF assms(1,2)] assms(4,5)]
  by (simp add: published_since_def archived_since_def)

text \<open>Saving counts the revision up.\<close>

lemma save_returns:
  assumes ok: "store_ok E s" and "update_draft E actor v expected input now s = (Inr a, t)"
  shows "(\<exists>r\<in>set (ld_versions s). lv_id r = v \<and> lv_revision r = expected \<and> lv_status r = Draft) \<and>
    (\<exists>q\<in>set (ld_versions t). lv_id q = v \<and> lv_revision q = expected + 1)"
proof -
  from assms(2) obtain d0 where p: "save_draft E actor v expected d0 now s = (Inr a, t)"
    by (auto simp: update_draft_def returns)
  let ?g = "\<lambda>r. if lv_id r = v \<and> lv_status r = Draft \<and> lv_revision r = expected
    then r\<lparr>lv_definition := d0, lv_revision := lv_revision r + 1\<rparr> else r"
  from p obtain d detail x where d: "find_detail actor v s = Some d" "lv_status (vd_row d) = Draft"
      "lv_revision (vd_row d) = expected"
    and x: "x = s\<lparr>ld_versions := map ?g (ld_versions s), ld_workflows := map (\<lambda>r. if lw_id r = lv_workflow (vd_row d)
        then r\<lparr>lw_name := wf_name d0, lw_description := wf_description d0\<rparr> else r) (ld_workflows s)\<rparr>"
    and log: "audit_draft_updated E actor detail now x = (Inr (), t)"
    by (auto simp: save_draft_def assert_immutable_fields_def read_draft_def returns)
  have "logged E x t" using audit_draft_updated_returns [OF _ _ log] ok x by (simp add: store_ok_def)
  from logged_state(1) [OF this] x have t: "ld_versions t = map ?g (ld_versions s)" by simp
  from detail_row [OF d(1)] d(2,3) have r: "vd_row d \<in> set (ld_versions s)" "lv_id (vd_row d) = v" by auto
  with d(2,3) have "lv_id (?g (vd_row d)) = v \<and> lv_revision (?g (vd_row d)) = expected + 1" by simp
  moreover have "?g (vd_row d) \<in> set (ld_versions t)" unfolding t set_map using r(1) by (rule imageI)
  ultimately show ?thesis using r d(2,3) by blast
qed

text \<open>
  C23: no save overwrites another: after a save of a draft at some revision, no save at the same
  revision succeeds, whoever makes it and whatever was committed in between.
\<close>

theorem saves_do_not_overwrite:
  assumes "life_reachable E s" and "\<forall>v. canonical (db_jsonb (le_db E) v) = canonical v"
    and "update_draft E actor v expected d now s = (Inr a, t)" and "(life_step E)\<^sup>*\<^sup>* t u"
  shows "isl (fst (update_draft E actor' v expected d' now' u))"
proof (rule ccontr)
  assume "\<not> isl (fst (update_draft E actor' v expected d' now' u))"
  then obtain b x where again: "update_draft E actor' v expected d' now' u = (Inr b, x)"
    by (metis prod.collapse sum.collapse(2))
  have st: "life_step E s t" by (rule call_step [of E "SaveCall actor v expected d now"]) (use assms(3) in \<open>auto simp: returns\<close>)
  note inv = reachable_life_inv [OF assms(1,2)]
  from inv inv_step [OF inv st] have it: "life_inv E t" by simp
  from inv save_returns [OF _ assms(3)] obtain q where q: "q \<in> set (ld_versions t)" "lv_id q = v" "lv_revision q = expected + 1"
    by (auto simp: life_inv_def)
  from steps_later [OF assms(4) it q(1)] obtain p where p: "p \<in> set (ld_versions u)" "row_later q p" by blast
  from inv_steps [OF assms(4) it] save_returns [OF _ again] obtain r where
    r: "r \<in> set (ld_versions u)" "lv_id r = v" "lv_revision r = expected" by (auto simp: life_inv_def)
  have "r = p"
    using same_row [of "ld_versions u" r p] r p q inv_steps [OF assms(4) it]
    by (simp add: life_inv_def store_ok_def row_later_def)
  with p(2) q r show False by (simp add: row_later_def)
qed

section \<open>Submissions of one revision\<close>

lemma append_again:
  assumes js: "db_keeps E" and a: "audit_reachable (le_host E) (le_db E) (ld_audit s)"
    and r: "append_version_event E i s = (Inr u, t)"
    and e: "e \<in> set (db_events_of (ld_audit s) (in_workspace i))" "ev_source e = in_source i"
  shows "db_events_of (ld_audit t) = db_events_of (ld_audit s)"
proof -
  let ?m = "append_audit_event_transactional (le_host E) (le_db E) i"
  from r obtain x b where m: "?m (ld_audit s) = (Inr x, b)" and t: "t = s\<lparr>ld_audit := b\<rparr>"
    by (auto simp: append_version_event_def on_audit_def returns split: prod.splits sum.splits)
  then have tr: "transaction ?m (ld_audit s) = (Inr x, b)" by (simp add: transaction_def)
  from js have js': "\<And>v. canonical (db_jsonb (le_db E) v) = canonical v" by blast
  from transaction_append [OF js' reachable_inv [OF a js'] tr]
  have ap: "trail.appended (le_db E) (le_host E) i ((ld_audit s)\<lparr>db_metadata := None\<rparr>) x b"
    and inv: "audit_inv (le_host E) b" by simp_all
  show ?thesis
  proof (cases "snd x")
    case True
    with ap t show ?thesis by (auto simp: trail.appended_def split: prod.splits)
  next
    case False
    with ap obtain e' where ev: "db_events_of b (in_workspace i) = db_events_of (ld_audit s) (in_workspace i) @ [e']"
      "ev_source e' = in_source i" "db_head_of b (in_workspace i) \<noteq> None"
      by (auto simp: trail.appended_def split: prod.splits)
    then obtain tip where tip: "db_head_of b (in_workspace i) = Some tip" by blast
    have "trail.chained (le_host E) b (in_workspace i)" using inv by (simp add: audit_inv_def)
    then have "distinct (map ev_source (db_events_of b (in_workspace i)))" by (simp add: trail.chained_def tip)
    moreover have "in_source i \<in> ev_source ` set (db_events_of (ld_audit s) (in_workspace i))"
      using e by (metis imageI)
    ultimately show ?thesis by (simp add: ev)
  qed
qed

lemma append_source:
  assumes js: "db_keeps E" and a: "audit_reachable (le_host E) (le_db E) (ld_audit s)"
    and r: "append_version_event E i s = (Inr u, t)"
  shows "\<exists>e\<in>set (db_events_of (ld_audit t) (in_workspace i)). ev_source e = in_source i"
proof -
  let ?m = "append_audit_event_transactional (le_host E) (le_db E) i"
  from r obtain x b where m: "?m (ld_audit s) = (Inr x, b)" and t: "t = s\<lparr>ld_audit := b\<rparr>"
    by (auto simp: append_version_event_def on_audit_def returns split: prod.splits sum.splits)
  then have tr: "transaction ?m (ld_audit s) = (Inr x, b)" by (simp add: transaction_def)
  from js have js': "\<And>v. canonical (db_jsonb (le_db E) v) = canonical v" by blast
  from transaction_append [OF js' reachable_inv [OF a js'] tr] t show ?thesis
    by (auto simp: trail.appended_def split: prod.splits)
qed

lemma steps_keep:
  "(life_step E)\<^sup>*\<^sup>* s t \<Longrightarrow> life_inv E s \<Longrightarrow> trail_grows E (ld_audit s) (ld_audit t) \<and>
     (\<forall>w p. workspace_of s w = Some p \<longrightarrow> workspace_of t w = Some p)"
proof (induction rule: rtranclp_induct)
  case base
  then show ?case by (simp add: life_inv_def store_ok_def trail_refl)
next
  case (step t u)
  have "effect E t u" using inv_step inv_steps [OF step.hyps(1)] step.hyps(2) step.prems by blast
  with step.IH [OF step.prems] show ?case by (auto simp: effect_def intro: trail_trans)
qed

text \<open>What a submission that returns does: the identifier of its event has no time in it.\<close>

lemma submit_returns:
  assumes ok: "store_ok E s" and "submit_for_testing E actor v k now s = (Inr a, t)"
  shows "\<exists>r x src. r \<in> set (ld_versions s) \<and> lv_id r = v \<and> lv_status r = Draft \<and> lv_revision r = k \<and>
    workspace_of s (lv_workflow r) = Some (vd_workspace (ar_version a)) \<and>
    r\<lparr>lv_status := Testing\<rparr> \<in> set (ld_versions t) \<and> ld_audit x = ld_audit s \<and>
    create_audit_source_id (le_host E) ''workflow_version_transition''
      [PartText ''workflow_version.submitted_for_testing'', PartText v, part_int k] = Inr src \<and>
    append_version_event E (version_event ''workflow_version.submitted_for_testing'' (vd_workspace (ar_version a)) actor
      (r\<lparr>lv_status := Testing\<rparr>) [] now src []) x = (Inr (), t)"
proof -
  let ?g = "\<lambda>r. if lv_id r = v \<and> lv_status r = Draft \<and> lv_revision r = k then r\<lparr>lv_status := Testing\<rparr> else r"
  let ?u = "s\<lparr>ld_versions := map ?g (ld_versions s)\<rparr>"
  from assms(2) obtain d final where d: "find_detail actor v s = Some d" "lv_status (vd_row d) = Draft"
      "lv_revision (vd_row d) = k"
    and final: "find_detail actor v ?u = Some final" "ar_version a = final"
    and log: "audit_transition E ''workflow_version.submitted_for_testing'' actor final now ?u = (Inr (), t)"
    by (auto simp: submit_for_testing_def returns)
  have f: "final = d\<lparr>vd_row := ?g (vd_row d)\<rparr>" using final d by (simp add: find_detail_map)
  note dr = detail_row [OF d(1)]
  have g: "?g (vd_row d) = (vd_row d)\<lparr>lv_status := Testing\<rparr>" using dr d by simp
  from log obtain src where src: "create_audit_source_id (le_host E) ''workflow_version_transition''
      [PartText ''workflow_version.submitted_for_testing'', PartText v, part_int k] = Inr src"
    and app: "append_version_event E (version_event ''workflow_version.submitted_for_testing'' (vd_workspace d) actor
      ((vd_row d)\<lparr>lv_status := Testing\<rparr>) [] now src []) ?u = (Inr (), t)"
    using dr d unfolding f g
    by (cases "create_audit_source_id (le_host E) ''workflow_version_transition''
      [PartText ''workflow_version.submitted_for_testing'', PartText v, part_int k]")
      (auto simp: audit_transition_def source_id_def of_sum_def returns)
  have "logged E ?u t" using append_returns [OF _ _ app] ok by (simp add: store_ok_def)
  from logged_state(1) [OF this] have t: "ld_versions t = map ?g (ld_versions s)" by simp
  have "?g (vd_row d) \<in> set (ld_versions t)" unfolding t set_map using dr by blast
  with g dr d src app f final show ?thesis
    by (intro exI [of _ "vd_row d"] exI [of _ ?u] exI [of _ src]) simp
qed

text \<open>
  C25: the trail records only the first submission of a revision for testing. When the version
  has been returned to draft and is submitted again at the same revision, by whomever and
  whenever, the transaction commits and the version is in testing, but the trail is unchanged.
\<close>

theorem resubmission_is_not_audited:
  assumes "life_reachable E s" and "\<forall>v. canonical (db_jsonb (le_db E) v) = canonical v"
    and "submit_for_testing E actor v k now s = (Inr a, t)" and "(life_step E)\<^sup>*\<^sup>* t u"
    and "submit_for_testing E actor' v k now' u = (Inr b, x)"
  shows "(\<exists>r\<in>set (ld_versions u). lv_id r = v \<and> lv_status r = Draft) \<and>
    (\<exists>q\<in>set (ld_versions x). lv_id q = v \<and> lv_status q = Testing) \<and>
    db_events_of (ld_audit x) = db_events_of (ld_audit u)"
proof -
  note inv = reachable_life_inv [OF assms(1,2)]
  have st: "life_step E s t" by (rule call_step [of E "SubmitCall actor v k now"]) (use assms(3) in \<open>auto simp: returns\<close>)
  from inv_step [OF inv st] have it: "life_inv E t" and e: "effect E s t" by simp_all
  note iu = inv_steps [OF assms(4) it]
  let ?w = "vd_workspace (ar_version a)" and ?w' = "vd_workspace (ar_version b)"
  from submit_returns [OF _ assms(3)] inv obtain r s' src where r: "r \<in> set (ld_versions s)" "lv_id r = v"
      "workspace_of s (lv_workflow r) = Some ?w" "ld_audit s' = ld_audit s"
    and src: "create_audit_source_id (le_host E) ''workflow_version_transition''
      [PartText ''workflow_version.submitted_for_testing'', PartText v, part_int k] = Inr src"
    and app: "append_version_event E (version_event ''workflow_version.submitted_for_testing'' ?w actor
      (r\<lparr>lv_status := Testing\<rparr>) [] now src []) s' = (Inr (), t)"
    unfolding life_inv_def by blast
  from submit_returns [OF _ assms(5)] iu obtain r' u' src' where r': "r' \<in> set (ld_versions u)" "lv_id r' = v"
      "lv_status r' = Draft" "workspace_of u (lv_workflow r') = Some ?w'" "r'\<lparr>lv_status := Testing\<rparr> \<in> set (ld_versions x)"
      "ld_audit u' = ld_audit u"
    and src': "create_audit_source_id (le_host E) ''workflow_version_transition''
      [PartText ''workflow_version.submitted_for_testing'', PartText v, part_int k] = Inr src'"
    and app': "append_version_event E (version_event ''workflow_version.submitted_for_testing'' ?w' actor'
      (r'\<lparr>lv_status := Testing\<rparr>) [] now' src' []) u' = (Inr (), x)"
    unfolding life_inv_def by blast
  from effect_later [OF e r(1)] obtain q where q: "q \<in> set (ld_versions t)" "row_later r q" by blast
  from steps_later [OF assms(4) it q(1)] obtain p where p: "p \<in> set (ld_versions u)" "row_later q p" by blast
  have "p = r'"
    using same_row [of "ld_versions u" p r'] p q r r' iu by (simp add: life_inv_def store_ok_def row_later_def)
  with p q have "lv_workflow r' = lv_workflow r" by (simp add: row_later_def)
  with r(3) r'(4) e steps_keep [OF assms(4) it] have "?w' = ?w" "trail_grows E (ld_audit t) (ld_audit u)"
    by (auto simp: effect_def)
  from append_source [OF _ _ app] r(4) inv obtain ev where "ev \<in> set (db_events_of (ld_audit t) ?w)" "ev_source ev = src"
    by (auto simp: life_inv_def store_ok_def version_event_def)
  with \<open>trail_grows E (ld_audit t) (ld_audit u)\<close> have "ev \<in> set (db_events_of (ld_audit u') ?w')" "ev_source ev = src'"
    using src src' r'(6) \<open>?w' = ?w\<close> by (auto simp: trail_grows_def)
  with append_again [OF _ _ app'] r'(6) iu have "db_events_of (ld_audit x) = db_events_of (ld_audit u)"
    by (simp add: life_inv_def store_ok_def version_event_def)
  then show ?thesis using r' by (intro conjI bexI [of _ r'] bexI [of _ "r'\<lparr>lv_status := Testing\<rparr>"]) simp_all
qed

section \<open>One life\<close>

definition shop_life :: life_env where
  "shop_life = \<lparr>le_host = shop_audit_host, le_db = shop_database, le_url = shop_url_parser,
     le_query_keys = (\<lambda>u. []), le_collate = (\<lambda>a b. 0), le_zod = (\<lambda>w. []),
     le_new_id = (\<lambda>n. if n = 0 then ''00000000-0000-4000-8000-000000000001''
                       else ''00000000-0000-4000-8000-000000000002'')\<rparr>"

definition shop_user :: string where "shop_user = ''00000000-0000-4000-8000-00000000000a''"
definition shop_version :: string where "shop_version = ''00000000-0000-4000-8000-000000000001''"

definition shop_draft :: workflow where
  "shop_draft = \<lparr>workflow_id = ''w'', wf_version = 1, wf_name = ''Shop'', wf_description = None, wf_status = Draft,
     variables = [], steps = [\<lparr>step_id = ''rest'', step_name = ''Rest'', body = Wait 5\<rparr>]\<rparr>"

definition open_policy :: execution_policy where
  "open_policy = \<lparr>net_mode = WorkflowDeclaredOrigins, net_allowed = [], net_blocked = [], net_loopback_http = False,
     unknown_action_risk = RiskMedium, ap_threshold = HighOrAbove, ap_critical = CriticalRequireApproval,
     policy_rules = []\<rparr>"

abbreviation shop_run :: "life_call \<Rightarrow> life_db \<Rightarrow> life_db" where
  "shop_run c s \<equiv> snd (transaction (run_call shop_life c) s)"

definition life0 :: life_db where
  "life0 = empty_life\<lparr>ld_audit := create_chain_head ''w'' 0 (ld_audit empty_life),
     ld_member := (\<lambda>w u. if u = shop_user then Some RoleOwner else None), ld_policy := (\<lambda>w. Some open_policy)\<rparr>"

definition life_view :: "life_db \<Rightarrow> (string \<times> int \<times> lifecycle_status) list \<times> string list" where
  "life_view s = (map (\<lambda>r. (lv_id r, lv_revision r, lv_status r)) (ld_versions s),
     map ev_type (db_events_of (ld_audit s) ''w''))"

fun shop_views :: "life_call list \<Rightarrow> life_db \<Rightarrow> ((string \<times> int \<times> lifecycle_status) list \<times> string list) list" where
  "shop_views [] s = []"
| "shop_views (c # cs) s = (let t = shop_run c s in life_view t # shop_views cs t)"

definition life1 :: life_db where "life1 = shop_run (ConvertCall ''w'' shop_draft 0) life0"
definition life2 :: life_db where "life2 = shop_run (SubmitCall shop_user shop_version 1 1000) life1"
definition life3 :: life_db where "life3 = shop_run (ReturnCall shop_user shop_version 1 2000) life2"
definition life4 :: life_db where "life4 = shop_run (SubmitCall shop_user shop_version 1 3000) life3"
definition life_published :: life_db where "life_published = shop_run (PublishCall shop_user shop_version 1 (Some 4000)) life2"
definition life_archived :: life_db where "life_archived = shop_run (ArchiveCall shop_user shop_version (Some 5000)) life_published"
definition life_saved :: life_db where "life_saved = shop_run (SaveCall shop_user shop_version 1 shop_draft 1000) life1"

lemmas life_defs = life1_def life2_def life3_def life4_def life_published_def life_archived_def life_saved_def

lemma resubmitted:
  "shop_views [ConvertCall ''w'' shop_draft 0, SubmitCall shop_user shop_version 1 1000,
     ReturnCall shop_user shop_version 1 2000, SubmitCall shop_user shop_version 1 3000] life0 =
   [([(shop_version, 1, Draft)], []),
    ([(shop_version, 1, Testing)], [''workflow_version.submitted_for_testing'']),
    ([(shop_version, 1, Draft)], [''workflow_version.submitted_for_testing'', ''workflow_version.returned_to_draft'']),
    ([(shop_version, 1, Testing)], [''workflow_version.submitted_for_testing'', ''workflow_version.returned_to_draft''])]"
  by code_simp

lemma published:
  "shop_views [ConvertCall ''w'' shop_draft 0, SubmitCall shop_user shop_version 1 1000,
     PublishCall shop_user shop_version 1 (Some 4000), ArchiveCall shop_user shop_version (Some 5000)] life0 =
   [([(shop_version, 1, Draft)], []),
    ([(shop_version, 1, Testing)], [''workflow_version.submitted_for_testing'']),
    ([(shop_version, 1, Published)], [''workflow_version.submitted_for_testing'', ''workflow_version.published'']),
    ([(shop_version, 1, Archived)], [''workflow_version.submitted_for_testing'', ''workflow_version.published'',
       ''workflow_version.archived''])]"
  by code_simp

lemma saved:
  "shop_views [ConvertCall ''w'' shop_draft 0, SaveCall shop_user shop_version 1 shop_draft 1000] life0 =
   [([(shop_version, 1, Draft)], []), ([(shop_version, 2, Draft)], [''workflow_draft.updated''])]"
  by code_simp

lemma views:
  "life_view life1 = ([(shop_version, 1, Draft)], [])"
  "life_view life2 = ([(shop_version, 1, Testing)], [''workflow_version.submitted_for_testing''])"
  "life_view life3 = ([(shop_version, 1, Draft)],
     [''workflow_version.submitted_for_testing'', ''workflow_version.returned_to_draft''])"
  "life_view life4 = ([(shop_version, 1, Testing)],
     [''workflow_version.submitted_for_testing'', ''workflow_version.returned_to_draft''])"
  "life_view life_published = ([(shop_version, 1, Published)],
     [''workflow_version.submitted_for_testing'', ''workflow_version.published''])"
  "life_view life_archived = ([(shop_version, 1, Archived)],
     [''workflow_version.submitted_for_testing'', ''workflow_version.published'', ''workflow_version.archived''])"
  "life_view life_saved = ([(shop_version, 2, Draft)], [''workflow_draft.updated''])"
  using resubmitted published saved unfolding life_defs by (simp_all only: shop_views.simps Let_def list.inject)

text \<open>Every state is reachable, and a call that changes the view has returned.\<close>

lemma then_step: "(life_step E)\<^sup>*\<^sup>* s t \<Longrightarrow> life_step E t u \<Longrightarrow> (life_step E)\<^sup>*\<^sup>* s u"
  by (rule rtranclp.rtrancl_into_rtrancl)

lemma run_steps: "(life_step E)\<^sup>*\<^sup>* s t \<Longrightarrow> (life_step E)\<^sup>*\<^sup>* s (snd (transaction (run_call E c) t))"
  by (erule then_step) (rule step_call [OF prod.collapse [symmetric]])

lemma life0_steps: "(life_step shop_life)\<^sup>*\<^sup>* empty_life life0"
  unfolding life0_def
  by (rule then_step, rule then_step, rule then_step, rule rtranclp.rtrancl_refl, rule step_workspace [of _ "''w''" _ 0])
    (simp add: empty_life_def empty_db_def, rule step_members, rule step_policies)

lemma life_steps:
  "(life_step shop_life)\<^sup>*\<^sup>* empty_life life1" "(life_step shop_life)\<^sup>*\<^sup>* empty_life life2"
  "(life_step shop_life)\<^sup>*\<^sup>* empty_life life3" "(life_step shop_life)\<^sup>*\<^sup>* empty_life life4"
  "(life_step shop_life)\<^sup>*\<^sup>* empty_life life_published" "(life_step shop_life)\<^sup>*\<^sup>* empty_life life_archived"
  "(life_step shop_life)\<^sup>*\<^sup>* empty_life life_saved"
  unfolding life_defs by (intro run_steps life0_steps)+

lemma steps_reach: "(life_step E)\<^sup>*\<^sup>* s t \<Longrightarrow> life_reachable E s \<Longrightarrow> life_reachable E t"
  by (induction rule: rtranclp_induct) (auto intro: life_next)

lemma life_reached:
  "life_reachable shop_life life1" "life_reachable shop_life life2" "life_reachable shop_life life3"
  "life_reachable shop_life life4" "life_reachable shop_life life_published" "life_reachable shop_life life_archived"
  "life_reachable shop_life life_saved"
  using life_steps steps_reach [OF _ life_start [OF empty_stored]] by blast+

lemma shop_life_json: "\<forall>v. canonical (db_jsonb (le_db shop_life) v) = canonical v"
  using shop_json by (simp add: shop_life_def)

lemma moved:
  assumes "t = shop_run c s" "life_view t \<noteq> life_view s" shows "run_call shop_life c s = (Inr (), t)"
proof -
  have "t = s \<or> (\<exists>a. run_call shop_life c s = (Inr a, t))"
    unfolding assms(1) by (rule transaction_cases [OF prod.collapse [symmetric]])
  with assms(2) show ?thesis by auto
qed

lemma one_row: "fst (life_view s) = [(v, k, st)] \<Longrightarrow> \<exists>r. ld_versions s = [r] \<and> lv_id r = v \<and> lv_status r = st"
  by (auto simp: life_view_def)

theorem reachable_versions_are_sound_witness:
  "\<exists>r. ld_versions life_published = [r] \<and> lv_status r = Published \<and> row_sound life_published r"
proof -
  obtain r where r: "ld_versions life_published = [r]" "lv_status r = Published"
    using one_row [of life_published] views(5) by auto
  have "ld_versions empty_life = []" by (simp add: empty_life_def)
  with reachable_versions_are_sound [OF life_start [OF empty_stored] shop_life_json life_steps(5), of r] r
  show ?thesis by simp
qed

theorem published_versions_are_frozen_witness:
  "\<exists>r q. ld_versions life_published = [r] \<and> ld_versions life_archived = [q] \<and> lv_status q = Archived \<and>
     lv_definition q = lv_definition r"
proof -
  have "(life_step shop_life)\<^sup>*\<^sup>* life_published life_archived"
    unfolding life_archived_def by (rule run_steps) simp
  from published_versions_are_frozen [OF life_reached(5) shop_life_json this]
    one_row [of life_published] one_row [of life_archived] views(5,6)
  show ?thesis by fastforce
qed

theorem only_ready_versions_are_published_witness:
  "\<exists>r q. ld_versions life2 = [r] \<and> ld_versions life_published = [q] \<and>
     lv_definition q = (lv_definition r)\<lparr>wf_status := Published\<rparr> \<and>
     (\<exists>p. ready_in shop_life life2 p (lv_definition r))"
proof -
  have st: "life_step shop_life life2 life_published"
    unfolding life_published_def by (rule step_call [OF prod.collapse [symmetric]])
  obtain r where r: "ld_versions life2 = [r]" "lv_status r = Testing" using one_row [of life2] views(2) by auto
  obtain q where q: "ld_versions life_published = [q]" "lv_status q = Published"
    using one_row [of life_published] views(5) by auto
  from only_ready_versions_are_published [OF life_reached(2) shop_life_json st, of q] r q show ?thesis by auto
qed

theorem publications_are_audited_witness:
  "\<exists>p. event_recorded life_archived p ''workflow_version.published'' shop_version \<and>
     event_recorded life_archived p ''workflow_version.archived'' shop_version"
proof -
  obtain r where r: "ld_versions life_archived = [r]" "lv_status r = Archived" "lv_id r = shop_version"
    using one_row [of life_archived] views(6) by auto
  have "life_inv shop_life life_archived" by (rule reachable_life_inv [OF life_reached(6) shop_life_json])
  with r obtain p where "workspace_of life_archived (lv_workflow r) = Some p"
    using found_workspace by (auto simp: life_inv_def life_sound_def version_stored_def)
  moreover have "ld_versions empty_life = []" by (simp add: empty_life_def)
  ultimately show ?thesis
    using publications_are_audited [OF life_start [OF empty_stored] shop_life_json life_steps(6), of r p] r by auto
qed

theorem saves_do_not_overwrite_witness:
  "isl (fst (update_draft shop_life shop_user shop_version 1 checked_workflow 2000 life_saved))"
proof -
  have "run_call shop_life (SaveCall shop_user shop_version 1 shop_draft 1000) life1 = (Inr (), life_saved)"
    by (rule moved [OF life_saved_def]) (simp add: views)
  then obtain a where "update_draft shop_life shop_user shop_version 1 shop_draft 1000 life1 = (Inr a, life_saved)"
    by (auto simp: returns)
  from saves_do_not_overwrite [OF life_reached(1) shop_life_json this rtranclp.rtrancl_refl] show ?thesis .
qed

theorem resubmission_is_not_audited_witness:
  "db_events_of (ld_audit life4) = db_events_of (ld_audit life3) \<and> life_view life4 \<noteq> life_view life3"
proof -
  have "run_call shop_life (SubmitCall shop_user shop_version 1 1000) life1 = (Inr (), life2)"
    "run_call shop_life (SubmitCall shop_user shop_version 1 3000) life3 = (Inr (), life4)"
    by (rule moved [OF life2_def], simp add: views) (rule moved [OF life4_def], simp add: views)
  then obtain a b where s: "submit_for_testing shop_life shop_user shop_version 1 1000 life1 = (Inr a, life2)"
    "submit_for_testing shop_life shop_user shop_version 1 3000 life3 = (Inr b, life4)" by (auto simp: returns)
  have "(life_step shop_life)\<^sup>*\<^sup>* life2 life3"
    unfolding life3_def by (intro r_into_rtranclp step_call [OF prod.collapse [symmetric]])
  from resubmission_is_not_audited [OF life_reached(1) shop_life_json s(1) this s(2)] views(3,4) show ?thesis by simp
qed

end
