(* ===== verification/Spec2Isabelle.thy ===== *)
theory Spec2Isabelle
  imports Engine_Examples Run_Protocol Schedule_Weekly Schedule_Readiness Lifecycle_Properties
begin

text \<open>
  TaskTwin records what a user does in a browser, turns it into a workflow of typed steps, and
  runs that workflow again: on a local runner that drives a browser, under the policy of a
  workspace, with approvals by people, on a schedule, and with an audit trail of everything that
  happened. The repository is a TypeScript monorepo: pure packages under \<open>src/packages\<close>
  decide, the applications under \<open>src/apps\<close> perform the effects. This development models the
  packages that decide what a workflow means, whether it may run, what a run does and what is
  recorded of it, together with the stored versions of workflows and the two services of the audit
  trail that read it back.

  How the parts interact. A workflow definition is parsed by its schema; four analyses (inputs,
  verifications, outputs, approvals) report its issues, and the workspace policy judges its steps.
  A version is published when they find nothing blocking; a schedule pins a published version and
  computes its occurrences; the API checks the readiness of a run with the same analyses. The
  engine on the runner parses the request again (preflight), then takes the steps one by one
  through an adapter, asks the approval and recovery coordinators, keeps outputs, attempts and
  statuses, decides between racing causes of termination and builds the result that the API
  persists. Domain events are appended to the hash chain of the workspace, which the API and the
  restore of a backup verify.

  Theories and what they model (paths under src/packages unless they say otherwise).

  \<^item> \<open>Prelude\<close>: the lemma collections, \<open>String.prototype.trim\<close>, stable sorts by a comparator,
    \<open>[...new Set(xs)]\<close>, state-and-exception computations (\<open>comp\<close>, \<open>wp\<close>), and the locale
    \<open>transition_table\<close> that every status machine interprets. \<open>Regex_Match\<close>: regular expressions,
    matched by derivatives, for the patterns of the source. \<open>Calendar\<close>, \<open>Iso_Time\<close>: the
    Gregorian calendar behind \<open>Date.UTC\<close>, \<open>toISOString\<close> and its inverse.
  \<^item> \<open>Workflow_Schema\<close>: workflow-schema/src. A schema is a parse function of the raw value; the
    locale \<open>schema_parser\<close> says that parsing twice is parsing once and is interpreted for every
    schema. Records are the objects, datatypes the tagged unions.
  \<^item> \<open>Workflow_Inputs\<close>, \<open>Workflow_Verification\<close>, \<open>Workflow_Extraction\<close>, \<open>Workflow_Approval\<close>,
    \<open>Workflow_Recovery\<close>: the packages of these names; each analysis is a fold over the located
    value sources or the steps, and is proved equal to a declarative condition on the workflow.
  \<^item> \<open>Workflow_Policy\<close>: workflow-policy/src, canonical policies, matching of rules and origins,
    the evaluation of a workflow and the check of a URL at run time.
  \<^item> \<open>Engine_Contracts\<close>, \<open>Engine_Values\<close>, \<open>Engine_Preflight\<close>, \<open>Engine_Result\<close>: the status
    machines and the termination arbiter (locale \<open>final_decision\<close>), the output store (locale
    \<open>write_once\<close>), value sources and origins, preflight.ts, result-builder.ts of workflow-engine.
    \<open>Workflow_Engine\<close>, \<open>Engine_Execution\<close>: workflow-engine.ts, every handler of \<open>execute\<close> and
    \<open>executePrepared\<close> as a computation on the record \<open>engine\<close> (records of the steps, statuses,
    store, arbiter, log of calls and events). \<open>Engine_Frame\<close>, \<open>Engine_Attempts\<close>,
    \<open>Engine_Invariant\<close>, \<open>Engine_Repair\<close>, \<open>Engine_Steps\<close>, \<open>Engine_Loop\<close>, \<open>Engine_Run\<close>,
    \<open>Engine_Main\<close>: the invariants of a run, proved handler by handler with weakest
    preconditions. \<open>Engine_Examples\<close>: evaluated runs and the two ways in which \<open>execute\<close> throws.
  \<^item> \<open>Run_Protocol\<close>: run-protocol/src/run-readiness.ts and run-state.ts; a run that is reported
    ready passes the engine's preflight.
  \<^item> \<open>Canonical_Json\<close>, \<open>Audit_Payloads\<close>, \<open>Audit_Chain\<close>, \<open>Audit_Appender\<close>: audit-trail/src, the
    canonical text of JSON, the 57 payload schemas, the hash chain and its verifier, the append
    over an abstract driver (locale \<open>audit_store\<close>). \<open>Audit_Store\<close>: the driver on the two tables
    (database/src/audit-trail), which interprets the locale, and the database states that
    appends can reach. \<open>Audit_Verification\<close>: \<open>verifyChain\<close> of apps/api and the batched check of
    restored databases.
  \<^item> \<open>Schedule_Zone\<close>, \<open>Schedule_Definitions\<close>, \<open>Schedule_Occurrences\<close>: workflow-scheduling/src,
    local times and daylight saving, the schemas of schedules, the searches for occurrences.
    \<open>Schedule_Correctness\<close>, \<open>Schedule_Weekly\<close>: what the searches find, over the locale
    \<open>civil_zone\<close>, and where the daily search never returns. \<open>Schedule_Readiness\<close>:
    unattended-readiness.ts.
  \<^item> \<open>Workflow_Lifecycle\<close>: workflow-lifecycle/src, the transitions of a version (an interpretation
    of \<open>transition_table\<close>), the readiness report over the analyses and the policy, the clone of a
    version. \<open>Workflow_Editor\<close>: the validation that workflow-editor-core makes of a draft.
    \<open>Workflow_Json\<close>: a definition as the JSON its column holds, and its digest.
    \<open>Locator_Patch\<close>: the edit of a definition that a locator repair makes.
  \<^item> \<open>Lifecycle_Store\<close>: the repositories of workflow versions (database/src/workflow-lifecycle,
    workflow-draft, the rows a recording-conversion inserts, the application of a locator repair
    and \<open>WorkflowVersionRepository.create\<close>, which no application calls). The record \<open>life_db\<close> is the tables
    of versions, workflows and the audit trail with the memberships and policies they read; the
    calls are one transaction each (\<open>submit_for_testing\<close> is \<open>transitionWithReadiness\<close>, the others
    have the names of the methods) and append their audit events in it. \<open>Lifecycle_Spec\<close>: what a
    committed transaction may do to a row (\<open>row_step\<close>), which every call refines. \<open>Lifecycle_History\<close>:
    the invariants of all histories of transactions, retries included. \<open>Lifecycle_Properties\<close>: what
    follows for publication, saving and the trail, with one workflow's life evaluated.
  What the groups of lemmas show. Schemas: what is accepted is in normal form. Analyses: a
  report blocks exactly when the workflow breaks a stated rule. Policy: a verdict is the strongest
  demand of rules, risk and origins, and a clean one clears every step. Engine: results, records,
  reported statuses and calls of the adapter agree in every run, whatever the adapter, the
  coordinators, the clock, the signal and the callbacks do; attempts are bounded; approvals gate
  and are used once. Audit: the head hash commits to the whole trail, every reachable trail
  verifies, batches verify what the whole verifies. Versions: only ready versions are published,
  published ones are frozen, what a history publishes is in the trail and sound, saves never
  overwrite each other, in every history of committed transactions, from whatever database it
  starts: an empty one, or one that the migrations left with versions published before they had
  times and before there was a trail. Schedules: occurrences are the first instants
  that the definition promises, with the exceptions stated as properties of their own.

  Parameters and hypotheses. Code outside the repository is an argument: SHA-256, the formats of
  zod (UUID, date-time), the URL parser, \<open>localeCompare\<close>, the decimal text of numbers, JSONB,
  Luxon's zones, the issues zod lists for an invalid value, the identifiers of new rows, the
  adapter, the coordinators and the clock. The URL parser, \<open>localeCompare\<close>,
  the adapter, the coordinators and the clock are arbitrary functions (of the number of the call,
  where they may answer differently each time), so no hypothesis is made of them. The trail's
  theorems on tampering end in an explicit collision of SHA-256 instead of assuming there is none;
  JSONB is assumed to keep what canonical JSON keeps of a value. The theorems on schedules take a
  zone that satisfies \<open>civil_zone\<close> from the start of the schedule on: no day is left out or
  entered twice, its first instant is its earliest, and it lasts longer than an hour. A day need
  not have a midnight or any other given time. The locale is interpreted for fixed offsets, for New
  York around the change of March 2024 and for Cairo, whose 26 April 2024 begins at 01:00. A zone that
  once skipped a day or set its clock back over midnight satisfies it from the day after on. What
  a theorem needs beyond it, a midnight of the start day or gaps that are not a day or an interval
  apart, is a hypothesis of that theorem, and \<open>start_without_midnight_never_returns\<close> shows what happens without the midnight. A
  wall clock that occurs twice is resolved to one instant, which Luxon leaves open. Characters are
  code units below 256; numbers of JSON are rationals.

  Bounds and fuel. The attempt loop of the engine takes \<open>ATTEMPT_FUEL\<close> = 4 turns; the retry policy
  allows three attempts, and \<open>execution_never_breaks\<close> proves that the fuel never runs out.
  The daily search of a schedule gets fuel 4, and \<open>daily_occurrence_is_next\<close> proves that an
  answer comes within it where the start day has a midnight; where it has none the search returns on
  no fuel, as the calls of the source do not. The other loops are structural recursions; the weekly
  search is the bounded loop of the source, 156 intervals. A transaction is retried as the repositories do, at
  most three times. Times and numbers in columns are unbounded integers and texts in columns
  have no length bound, so an insert that fails on such a bound, which rolls its transaction back, is
  not modelled; nor is the lower-casing of uuid columns. \<open>Date.parse\<close> is modelled on ISO date-times
  with a time and an offset.

  Not modelled: the user interfaces (apps/web, the extension's panels and DOM capture), HTTP
  controllers, Playwright and Windows services of the local runner, and the Prisma repositories
  other than those of the audit trail and of workflow versions, because they are effects on
  systems outside the repository around
  the decisions modelled here; the recorder's schemas and converter, the locator and privacy
  engines and the ranking of locator repairs, which work on snapshots of a page whose heuristics and
  character classes (Unicode, DOM roles) lie outside the model's strings; encryption of inputs and
  secrets, a platform library the sources only call; release manifests and signatures; telemetry
  and alert counters; display summaries that only rename fields. PROJECT.json lists every
  component with its reason.
\<close>

section \<open>Whole runs\<close>

text \<open>The state in which an execution leaves the engine, whether it returns or throws.\<close>

definition final_state :: "world \<Rightarrow> raw_request \<Rightarrow> bool \<Rightarrow> engine" where
  "final_state E rq aborted = snd (execute E rq (initial_engine aborted))"

lemma execute_cases:
  "case execute E rq (initial_engine a) of
     (Inl x, t) \<Rightarrow> thrown E rq x t
   | (Inr res, t) \<Rightarrow> ended_with E (find_typed_workflow rq) res t"
  using wp_execute [of E rq a] by (simp add: wp_def)

lemma final_state_cases:
  "ended_state E (find_typed_workflow rq) (final_state E rq a) \<or> opened E RunValidating (final_state E rq a)"
  using execute_cases [of E rq a]
  by (auto simp: final_state_def thrown_def ended_with_def ended_state_def split: prod.splits sum.splits)

lemma over_released:
  "over E w q t \<Longrightarrow> \<exists>cs. base_inv E w t \<and> final_records w q (recs t) \<and>
     calls t = cs @ [CalledStop (stop_cause q)] \<and> calls_done w (attempt_counts (recs t)) cs"
  by (auto simp: over_def released_def frame_def)

text \<open>The three shapes of the final state.\<close>

lemma final_state_shapes [consumes 0, case_names unstarted run]:
  assumes "log_inv E t \<Longrightarrow> calls t = [] \<Longrightarrow> \<forall>r \<in> set (recs t). \<exists>k. skipped k r \<Longrightarrow> P"
    and "\<And>w q cs. find_typed_workflow rq = Some w \<Longrightarrow> base_inv E w t \<Longrightarrow> final_records w q (recs t) \<Longrightarrow>
      calls t = cs @ [CalledStop (stop_cause q)] \<Longrightarrow> calls_done w (attempt_counts (recs t)) cs \<Longrightarrow> P"
    and t: "t = final_state E rq a"
  shows P
  using final_state_cases [of E rq a] unfolding t [symmetric]
proof (elim disjE)
  assume e: "ended_state E (find_typed_workflow rq) t"
  then consider (no) k rs where "prevented E (find_typed_workflow rq) k rs t"
    | (yes) w q where "find_typed_workflow rq = Some w" "over E w q t"
    unfolding ended_state_def by blast
  then show P
  proof cases
    case no
    then show P using assms(1) by (auto simp: prevented_def unstarted_def list_all_iff)
  next
    case yes
    from over_released [OF yes(2)] assms(2) [OF yes(1)] show P by blast
  qed
next
  assume "opened E RunValidating t"
  with assms(1) show P by (simp add: opened_def)
qed

text \<open>The records of a final state, all of them well formed.\<close>

lemma skipped_None: "skipped k r \<Longrightarrow> xr_attempts r = None"
proof -
  assume "skipped k r"
  then obtain st t where "r = (new_record st)\<lparr>xr_skipped := Some k, xr_finished := Some t, xr_status := StSkipped\<rparr>"
    unfolding skipped_def by blast
  then show ?thesis by (simp add: new_record_def)
qed

lemma skipped_attempts: "skipped k r \<Longrightarrow> attempts_wf w r"
  by (simp add: skipped_None attempts_wf_def)

lemma final_attempts:
  assumes f: "final_records w q rs" and n: "length rs = length (steps w)" and r: "r \<in> set rs"
  shows "attempts_wf w r"
proof (cases q)
  case None
  with f r show ?thesis by (auto simp: final_records_def list_all_iff succeeded_def running_record_def)
next
  case (Some pt)
  with f n obtain i where v: "visited w (ended w pt) (skip_reason_for (pt_cause pt)) i (length rs) rs"
    by (auto simp: final_records_def)
  from r obtain j where j: "j < length rs" "rs ! j = r" by (auto simp: in_set_conv_nth)
  show ?thesis
  proof (cases "j < i")
    case True
    with v j show ?thesis by (auto simp: visited_def succeeded_def running_record_def)
  next
    case False
    with v j have "visit_ok (ended w pt) (skip_reason_for (pt_cause pt)) i (length rs) j r"
      by (auto simp: visited_def)
    with j(1) skipped_attempts show ?thesis by (auto simp: visit_ok_def ended_def)
  qed
qed

lemma final_state_attempts:
  assumes "r \<in> set (recs (final_state E rq a))"
  shows "attempts_inv (attempts_of r) \<and>
    (find_typed_workflow rq = Some w \<longrightarrow> is_approval_gated_step w (step_id (xr_step r)) \<longrightarrow>
       length (attempts_of r) \<le> 1)"
proof (rule final_state_shapes [OF _ _ refl, of E rq a])
  assume "\<forall>r \<in> set (recs (final_state E rq a)). \<exists>k. skipped k r"
  with assms obtain k where "skipped k r" by blast
  then have "attempts_wf v r" for v by (rule skipped_attempts)
  then show ?thesis by (auto simp: attempts_wf_def)
next
  fix v q
  assume v: "find_typed_workflow rq = Some v" "base_inv E v (final_state E rq a)"
    "final_records v q (recs (final_state E rq a))"
  from final_attempts [OF v(3) base_length [OF v(2)] assms] v(1) show ?thesis
    by (auto simp: attempts_wf_def)
qed

lemma attempts_inv_numbers: "attempts_inv as \<Longrightarrow> map att_number as = [1..<length as + 1]"
  by (rule nth_equalityI) (auto simp: attempts_inv_def simp del: upt_Suc)

lemma attempts_inv_rerun: "attempts_inv as \<Longrightarrow> list_all rerunnable (butlast as)"
  by (auto simp: attempts_inv_def list_all_length nth_butlast)

section \<open>Properties\<close>

text \<open>
  C5: an execution never runs into an invalid transition, a missing record or an endless loop:
  it returns a result with a terminal status, or it rejects with the schema error of the
  result, or with the error that the preflight itself threw.
\<close>

theorem execution_never_breaks:
  "case fst (execute E rq (initial_engine a)) of
     Inl x \<Rightarrow> x = SchemaRejected \<or>
       x = OtherException \<and> preflight_workflow_execution (the_host E) rq = PreflightThrows
   | Inr res \<Rightarrow> is_terminal_run (res_status res) \<and> res_status res = run_state (final_state E rq a)"
proof -
  have "is_terminal_run (run_state t)" if e: "ended_with E ow res t" for ow res t
  proof -
    from e consider (no) k rs where "prevented E ow k rs t" | (yes) w q where "over E w q t"
      unfolding ended_with_def by blast
    then show ?thesis
    proof cases
      case no
      then show ?thesis by (auto simp: prevented_def unstarted_def is_terminal_run_def)
    next
      case yes
      then have "run_state t = fst (outcome_of q (cleanup_error t))"
        by (auto simp: over_def released_def frame_def)
      with outcome_terminal show ?thesis by simp
    qed
  qed
  with execute_cases [of E rq a] show ?thesis
    by (auto simp: final_state_def thrown_def ended_with_def split: prod.splits sum.splits)
qed

text \<open>
  C1: the result agrees with the records. Before the adapter is started every step is skipped
  for the reason the run ended. After it, the first steps succeeded, at most one step carries
  the status and the error of the deciding cause, all later ones are skipped for that cause,
  and the status, cause, error and failed step of the run are those of the cause.
\<close>

definition agrees :: "workflow \<Rightarrow> execution_result \<Rightarrow> exec_record list \<Rightarrow> bool" where
  "agrees w res rs \<longleftrightarrow>
     (\<exists>q cleanup. (res_status res, res_cause res, res_error res) = outcome_of q cleanup \<and>
        final_records w q rs \<and> res_failed_step res = Option.bind q pt_step)"

theorem result_agrees_with_records:
  "case execute E rq (initial_engine a) of
     (Inl x, t) \<Rightarrow> True
   | (Inr res, t) \<Rightarrow>
       reports res (recs t) \<and>
       ((\<exists>k. list_all (skipped k) (recs t) \<and>
           (k, res_status res, res_cause res) \<in>
             {(SkRunCancelled, RunCancelled, Racing RunWasCancelled), (SkPreflightFailed, RunFailed, PreflightFailed)}) \<or>
        (\<exists>w. find_typed_workflow rq = Some w \<and> map xr_step (recs t) = steps w \<and> agrees w res (recs t)))"
proof (cases "execute E rq (initial_engine a)")
  case (Pair r t)
  show ?thesis
  proof (cases r)
    case (Inr res)
    with Pair execute_cases [of E rq a] have e: "ended_with E (find_typed_workflow rq) res t" by simp
    then have rep: "reports res (recs t)" "res_status res = run_state t" by (auto simp: ended_with_def)
    from e consider (no) k rs where "prevented E (find_typed_workflow rq) k rs t"
        "k = SkRunCancelled \<and> res_cause res = Racing RunWasCancelled \<or> k = SkPreflightFailed \<and> res_cause res = PreflightFailed"
      | (yes) w q where "find_typed_workflow rq = Some w" "over E w q t"
        "(res_status res, res_cause res, res_error res) = outcome_of q (cleanup_error t)"
        "res_failed_step res = Option.bind q pt_step"
      unfolding ended_with_def by blast
    then show ?thesis
    proof cases
      case no
      then have "list_all (skipped k) (recs t) \<and> (k, res_status res, res_cause res) \<in>
          {(SkRunCancelled, RunCancelled, Racing RunWasCancelled), (SkPreflightFailed, RunFailed, PreflightFailed)}"
        using rep by (auto simp: prevented_def unstarted_def)
      with rep Pair Inr show ?thesis by auto
    next
      case yes
      from over_released [OF yes(2)] yes have "agrees w res (recs t)" "map xr_step (recs t) = steps w"
        unfolding agrees_def base_inv_def by blast+
      with rep yes(1) Pair Inr show ?thesis by auto
    qed
  qed (simp add: Pair)
qed

text \<open>
  C3: whatever the adapter and the coordinators do, a step has at most three attempts, numbered
  from one; every attempt but the last failed with an effect known to be read-only or not
  started, so nothing is executed again after a possible side effect; and the attempts satisfy
  the schema of the result.
\<close>

theorem attempts_are_bounded_and_harmless:
  "list_all (\<lambda>r. length (attempts_of r) \<le> 3 \<and> map att_number (attempts_of r) = [1..<length (attempts_of r) + 1] \<and>
       list_all rerunnable (butlast (attempts_of r)) \<and>
       (attempts_of r = [] \<or> attempt_list_schema_ok (attempts_of r)))
     (recs (final_state E rq a))"
  unfolding list_all_iff
proof
  fix r assume "r \<in> set (recs (final_state E rq a))"
  from final_state_attempts [OF this] have i: "attempts_inv (attempts_of r)" by blast
  then have "length (attempts_of r) \<le> 3" unfolding attempts_inv_def by blast
  moreover note attempts_inv_numbers [OF i] attempts_inv_rerun [OF i, unfolded list_all_iff] attempts_inv_schema [OF i]
  ultimately show "length (attempts_of r) \<le> 3 \<and> map att_number (attempts_of r) = [1..<length (attempts_of r) + 1] \<and>
       (\<forall>a \<in> set (butlast (attempts_of r)). rerunnable a) \<and>
       (attempts_of r = [] \<or> attempt_list_schema_ok (attempts_of r))"
    by blast
qed

text \<open>
  C4: the step that an approval gates is attempted at most once: an approval is never used
  for a second execution.
\<close>

theorem approval_is_used_once:
  "case find_typed_workflow rq of
     None \<Rightarrow> recs (final_state E rq a) = []
   | Some w \<Rightarrow>
       list_all (\<lambda>r. length (attempts_of r) \<le> 1)
         (filter (\<lambda>r. is_approval_gated_step w (step_id (xr_step r))) (recs (final_state E rq a)))"
proof (cases "find_typed_workflow rq")
  case None
  then have "map xr_step (recs (final_state E rq a)) = []"
    using final_state_cases [of E rq a]
    by (auto simp: ended_state_def prevented_def unstarted_def opened_def flow_steps_def)
  with None show ?thesis by simp
next
  case (Some w)
  then show ?thesis using final_state_attempts [where w = w] by (auto simp: list_all_iff)
qed

text \<open>
  C2: the adapter is asked to execute a step only when every approval step before it was
  answered with an approval, and then every output the step refers to can be resolved at its
  type; approval steps themselves are never executed.
\<close>

theorem executions_are_approved_and_supplied:
  "case find_typed_workflow rq of
     None \<Rightarrow> calls (final_state E rq a) = []
   | Some w \<Rightarrow> execs_ok w (calls (final_state E rq a))"
proof (rule final_state_shapes [OF _ _ refl, of E rq a])
  assume "calls (final_state E rq a) = []"
  then show ?thesis by (simp add: execs_ok_def split: option.splits)
next
  fix w q cs
  assume "find_typed_workflow rq = Some w" "calls (final_state E rq a) = cs @ [CalledStop (stop_cause q)]"
    "calls_done w (attempt_counts (recs (final_state E rq a))) cs"
  then show ?thesis by (simp add: calls_done_def execs_ok_snoc)
qed

text \<open>
  The adapter executes a step exactly as often as the result reports attempts of it, and
  an approval step never.
\<close>

lemma executions_are_reported:
  "case find_typed_workflow rq of
     None \<Rightarrow> calls (final_state E rq a) = []
   | Some w \<Rightarrow>
       list_all (\<lambda>r. exec_count (calls (final_state E rq a)) (step_id (xr_step r)) =
           (if is_approval (xr_step r) then 0 else length (attempts_of r)))
         (recs (final_state E rq a))"
proof (rule final_state_shapes [OF _ _ refl, of E rq a])
  assume c: "calls (final_state E rq a) = []" and s: "\<forall>r \<in> set (recs (final_state E rq a)). \<exists>k. skipped k r"
  from s have "\<forall>r \<in> set (recs (final_state E rq a)). xr_attempts r = None"
    using skipped_None by blast
  with c show ?thesis by (auto simp: exec_count_def list_all_iff split: option.splits)
next
  fix w q cs
  let ?t = "final_state E rq a"
  assume w: "find_typed_workflow rq = Some w" and b: "base_inv E w ?t"
    and c: "calls ?t = cs @ [CalledStop (stop_cause q)]" "calls_done w (attempt_counts (recs ?t)) cs"
  have "exec_count (calls ?t) (step_id (xr_step (recs ?t ! j))) =
      (if is_approval (xr_step (recs ?t ! j)) then 0 else length (attempts_of (recs ?t ! j)))"
    if j: "j < length (recs ?t)" for j
    using c j base_nth [OF b j] base_length [OF b]
    by (simp add: calls_done_def exec_count_snoc attempt_counts_def)
  with w show ?thesis by (simp add: list_all_length)
qed

text \<open>
  C6: the adapter is either not called at all, or it is started once, before everything else,
  and stopped once, after everything else, whatever happens in between.
\<close>

theorem adapter_is_started_and_stopped_once:
  "calls (final_state E rq a) = [] \<or>
   (\<exists>cx mid c. calls (final_state E rq a) = CalledStart cx # mid @ [CalledStop c] \<and>
      filter is_start_or_stop mid = [])"
proof (rule final_state_shapes [OF _ _ refl, of E rq a])
  fix w q cs
  assume "calls (final_state E rq a) = cs @ [CalledStop (stop_cause q)]"
    "calls_done w (attempt_counts (recs (final_state E rq a))) cs"
  then show ?thesis
    by (auto simp: calls_done_def started_once_def list_all_iff filter_empty_conv)
qed simp

text \<open>
  C7: the statuses of the run that are reported to the progress sink follow the transition
  table, and while the sink works the last one reported is the status of the run.
\<close>

theorem reported_statuses_are_a_history:
  "history run_transitions (run_log (final_state E rq a)) \<and>
   (if sink_given E \<and> sink_enabled (final_state E rq a)
    then last (run_log (final_state E rq a)) = run_state (final_state E rq a) else True)"
proof (rule final_state_shapes [OF _ _ refl, of E rq a])
  assume "log_inv E (final_state E rq a)"
  then show ?thesis by (simp add: log_inv_def)
next
  fix w assume "base_inv E w (final_state E rq a)"
  then show ?thesis by (simp add: base_inv_def log_inv_def)
qed

end
